(* ===== verification/Prelude.thy ===== *)
theory Prelude
  imports Complex_Main
begin

text \<open>
  Shared vocabulary of the development.

  \<^item> Python values: JSON trees, truthiness, \<^verbatim>\<open>str.strip\<close>, \<^verbatim>\<open>str.casefold\<close> and slicing, on ASCII
    text (text outside ASCII occurs in the repository only in messages, which the models
    replace by the constructors of error types).
  \<^item> SQL tables as lists of rows in \<^verbatim>\<open>rowid\<close> order: \<open>update_where\<close> is
    \<^verbatim>\<open>UPDATE t SET f WHERE p\<close>, \<open>row_count\<close> is \<^verbatim>\<open>SELECT COUNT(*) ... WHERE p\<close> and also the
    \<^verbatim>\<open>cursor.rowcount\<close> of an update, \<open>first_row\<close> is \<^verbatim>\<open>SELECT ... WHERE p LIMIT 1\<close>.
  \<^item> A locale for transition systems with an invariant, which the stateful components
    interpret.
  Instants are integers (microseconds since the epoch). The code stores them as UTC
  \<^verbatim>\<open>isoformat\<close> text, whose lexicographic order is the order of the instants.
\<close>

named_theorems table_simps
named_theorems text_simps

section \<open>Types shared by the components\<close>

type_synonym instant = int

datatype json =
    JNull
  | JBool bool
  | JInt int
  | JFloat rat
  | JStr string
  | JArr "json list"
  | JObj "(string \<times> json) list"

text \<open>A JSON column holds text; text that \<^verbatim>\<open>json.loads\<close> rejects is \<open>Malformed\<close>.\<close>

datatype json_text = Malformed | Encoded json

section \<open>Python values\<close>

fun py_truthy :: "json \<Rightarrow> bool" where
  "py_truthy JNull = False"
| "py_truthy (JBool b) = b"
| "py_truthy (JInt n) = (n \<noteq> 0)"
| "py_truthy (JFloat q) = (q \<noteq> 0)"
| "py_truthy (JStr s) = (s \<noteq> [])"
| "py_truthy (JArr xs) = (xs \<noteq> [])"
| "py_truthy (JObj kvs) = (kvs \<noteq> [])"

text \<open>\<^verbatim>\<open>dict.get(key)\<close>; a value that is not a dict has no \<^verbatim>\<open>get\<close> (\<open>None\<close>: AttributeError).\<close>

fun dict_get :: "json \<Rightarrow> string \<Rightarrow> json option" where
  "dict_get (JObj kvs) k = Some (case map_of kvs k of None \<Rightarrow> JNull | Some v \<Rightarrow> v)"
| "dict_get _ k = None"

fun is_dict :: "json \<Rightarrow> bool" where
  "is_dict (JObj kvs) = True"
| "is_dict _ = False"

definition is_space :: "char \<Rightarrow> bool" where
  "is_space c = (let n = (of_char c :: nat) in n = 32 \<or> (9 \<le> n \<and> n \<le> 13) \<or> (28 \<le> n \<and> n \<le> 31))"

definition py_strip :: "string \<Rightarrow> string" where
  "py_strip s = rev (dropWhile is_space (rev (dropWhile is_space s)))"

definition lower_char :: "char \<Rightarrow> char" where
  "lower_char c = (let n = (of_char c :: nat) in if 65 \<le> n \<and> n \<le> 90 then char_of (n + 32) else c)"

definition py_casefold :: "string \<Rightarrow> string" where
  "py_casefold s = map lower_char s"

text \<open>\<^verbatim>\<open>int\<close> of a JSON value; \<open>None\<close> is its \<^verbatim>\<open>TypeError\<close> or \<^verbatim>\<open>ValueError\<close>. Digits may be grouped by single underscores.\<close>

fun digits_value :: "bool \<Rightarrow> int \<Rightarrow> string \<Rightarrow> int option" where
  "digits_value after_digit acc [] = (if after_digit then Some acc else None)"
| "digits_value after_digit acc (c # s) =
     (let n = (of_char c :: int) in
      if c = CHR ''_'' then (if after_digit then digits_value False acc s else None)
      else if 48 \<le> n \<and> n \<le> 57 then digits_value True (acc * 10 + (n - 48)) s
      else None)"

definition int_text :: "string \<Rightarrow> int option" where
  "int_text s =
     (case py_strip s of
        [] \<Rightarrow> None
      | c # r \<Rightarrow>
          if c = CHR ''-'' then map_option uminus (digits_value False 0 r)
          else if c = CHR ''+'' then digits_value False 0 r
          else digits_value False 0 (c # r))"

fun py_int :: "json \<Rightarrow> int option" where
  "py_int (JBool b) = Some (if b then 1 else 0)"
| "py_int (JInt n) = Some n"
| "py_int (JFloat q) = Some (if q < 0 then \<lceil>q\<rceil> else \<lfloor>q\<rfloor>)"
| "py_int (JStr s) = int_text s"
| "py_int _ = None"

text \<open>\<^verbatim>\<open>str(value or default)\<close> on an optional text.\<close>

definition str_or :: "string option \<Rightarrow> string \<Rightarrow> string" where
  "str_or v d = (case v of None \<Rightarrow> d | Some s \<Rightarrow> if s = [] then d else s)"

text \<open>Python's \<^verbatim>\<open>max(lo, min(x, hi))\<close>.\<close>

definition clamp :: "'a::linorder \<Rightarrow> 'a \<Rightarrow> 'a \<Rightarrow> 'a" where
  "clamp lo hi x = max lo (min x hi)"

text \<open>Sequencing of calls that may raise: the first error is the result.\<close>

definition bind_result :: "'e + 'a \<Rightarrow> ('a \<Rightarrow> 'e + 'b) \<Rightarrow> 'e + 'b" where
  "bind_result r f = (case r of Inl e \<Rightarrow> Inl e | Inr x \<Rightarrow> f x)"

lemma bind_result_simps [simp]: "bind_result (Inl e) f = Inl e" "bind_result (Inr x) f = f x"
  by (simp_all add: bind_result_def)

lemma bind_result_Inr: "bind_result r f = Inr y \<longleftrightarrow> (\<exists>x. r = Inr x \<and> f x = Inr y)"
  by (cases r) auto

section \<open>Tables\<close>

definition update_where :: "('r \<Rightarrow> bool) \<Rightarrow> ('r \<Rightarrow> 'r) \<Rightarrow> 'r list \<Rightarrow> 'r list" where
  "update_where p f rows = map (\<lambda>r. if p r then f r else r) rows"

definition row_count :: "('r \<Rightarrow> bool) \<Rightarrow> 'r list \<Rightarrow> nat" where
  "row_count p rows = length (filter p rows)"

definition first_row :: "('r \<Rightarrow> bool) \<Rightarrow> 'r list \<Rightarrow> 'r option" where
  "first_row p rows = find p rows"

text \<open>A UNIQUE key over the rows for which it is not NULL.\<close>

definition unique_key :: "('r \<Rightarrow> 'k option) \<Rightarrow> 'r list \<Rightarrow> bool" where
  "unique_key k rows = distinct (List.map_filter k rows)"

section \<open>Lemmas on text\<close>

lemma dropWhile_spec:
  "dropWhile p xs = [] \<or> \<not> p (hd (dropWhile p xs))"
  by (induction xs) auto

lemma py_strip_Nil [simp]: "py_strip [] = []"
  by (simp add: py_strip_def)

lemma set_dropWhile_subset: "set (dropWhile p xs) \<subseteq> set xs"
  by (induction xs) auto

lemma set_py_strip: "set (py_strip s) \<subseteq> set s"
  unfolding py_strip_def using set_dropWhile_subset
  by (metis (no_types, lifting) set_rev subset_trans)

lemma py_strip_no_space [text_simps]: "\<forall>c \<in> set s. \<not> is_space c \<Longrightarrow> py_strip s = s"
proof -
  assume a: "\<forall>c \<in> set s. \<not> is_space c"
  have d: "\<forall>c \<in> set xs. \<not> is_space c \<Longrightarrow> dropWhile is_space xs = xs" for xs
    by (cases xs) auto
  show ?thesis using a by (simp add: py_strip_def d)
qed

lemma length_py_strip: "length (py_strip s) \<le> length s"
  unfolding py_strip_def by (metis length_dropWhile_le length_rev le_trans)

lemma clamp_bounds [simp]: "lo \<le> hi \<Longrightarrow> lo \<le> clamp lo hi x \<and> clamp lo hi x \<le> hi"
  by (auto simp: clamp_def)

section \<open>Lemmas on tables\<close>

lemma length_update_where [simp, table_simps]: "length (update_where p f rows) = length rows"
  by (simp add: update_where_def)

lemma set_update_where:
  "set (update_where p f rows) = (\<lambda>r. if p r then f r else r) ` set rows"
  by (simp add: update_where_def)

lemma map_update_where [table_simps]:
  "(\<And>r. p r \<Longrightarrow> k (f r) = k r) \<Longrightarrow> map k (update_where p f rows) = map k rows"
  by (simp add: update_where_def)

lemma update_where_miss: "row_count p rows = 0 \<Longrightarrow> update_where p f rows = rows"
  unfolding update_where_def row_count_def by (rule map_idI) (auto simp: filter_empty_conv)

lemma row_count_append [table_simps]: "row_count p (xs @ ys) = row_count p xs + row_count p ys"
  by (simp add: row_count_def)

lemma row_count_Nil [simp]: "row_count p [] = 0"
  by (simp add: row_count_def)

lemma row_count_Cons [simp]: "row_count p (x # xs) = (if p x then 1 else 0) + row_count p xs"
  by (simp add: row_count_def)

lemma row_count_zero_iff: "row_count p rows = 0 \<longleftrightarrow> (\<forall>r \<in> set rows. \<not> p r)"
  by (simp add: row_count_def filter_empty_conv)

lemma row_count_pos_iff: "0 < row_count p rows \<longleftrightarrow> (\<exists>r \<in> set rows. p r)"
  using row_count_zero_iff [of p rows] by auto

lemma row_count_cong:
  "(\<And>r. r \<in> set rows \<Longrightarrow> p r = q r) \<Longrightarrow> row_count p rows = row_count q rows"
  unfolding row_count_def by (metis filter_cong)

lemma row_count_mono:
  "(\<And>r. r \<in> set rows \<Longrightarrow> p r \<Longrightarrow> q r) \<Longrightarrow> row_count p rows \<le> row_count q rows"
  by (induction rows) force+

lemma row_count_update_where:
  "row_count q (update_where p f rows) = row_count (\<lambda>r. q (if p r then f r else r)) rows"
  by (induction rows) (auto simp: update_where_def)

text \<open>The three ways an update acts on a count: it leaves it, adds to it, or removes from it.\<close>

lemma row_count_same:
  "(\<And>r. r \<in> set rows \<Longrightarrow> p r \<Longrightarrow> q (f r) = q r) \<Longrightarrow> row_count q (update_where p f rows) = row_count q rows"
  unfolding row_count_update_where by (rule row_count_cong) simp

lemma row_count_gain:
  "(\<And>r. r \<in> set rows \<Longrightarrow> p r \<Longrightarrow> \<not> q r) \<Longrightarrow>
   row_count q (update_where p f rows) = row_count q rows + row_count (\<lambda>r. p r \<and> q (f r)) rows"
  by (induction rows) (auto simp: update_where_def)

lemma row_count_loss:
  "(\<And>r. r \<in> set rows \<Longrightarrow> p r \<Longrightarrow> \<not> q (f r)) \<Longrightarrow>
   row_count q (update_where p f rows) + row_count (\<lambda>r. p r \<and> q r) rows = row_count q rows"
  by (induction rows) (auto simp: update_where_def)

lemma row_count_key_le_one:
  "distinct (map k rows) \<Longrightarrow> row_count (\<lambda>r. k r = x \<and> p r) rows \<le> 1"
proof (induction rows)
  case (Cons a rows)
  show ?case
  proof (cases "k a = x \<and> p a")
    case True
    with Cons.prems have "row_count (\<lambda>r. k r = x \<and> p r) rows = 0"
      by (auto simp: row_count_zero_iff image_iff)
    then show ?thesis by simp
  next
    case False
    with Cons show ?thesis by auto
  qed
qed simp

lemma first_row_Some: "first_row p rows = Some r \<Longrightarrow> r \<in> set rows \<and> p r"
  by (induction rows) (auto simp: first_row_def split: if_splits)

lemma first_row_None: "first_row p rows = None \<longleftrightarrow> (\<forall>r \<in> set rows. \<not> p r)"
  by (auto simp: first_row_def find_None_iff)

lemma first_row_append: "first_row p (xs @ ys) = (case first_row p xs of None \<Rightarrow> first_row p ys | Some r \<Rightarrow> Some r)"
  by (induction xs) (auto simp: first_row_def)

lemma first_row_update:
  "(\<And>r. q (f r) = q r) \<Longrightarrow> first_row q (update_where p f rows) = map_option (\<lambda>r. if p r then f r else r) (first_row q rows)"
  by (induction rows) (auto simp: first_row_def update_where_def)

lemma first_row_key:
  "distinct (map k rows) \<Longrightarrow> r \<in> set rows \<Longrightarrow> k r = x \<Longrightarrow> first_row (\<lambda>r. k r = x) rows = Some r"
proof (induction rows)
  case (Cons a rows)
  then show ?case by (auto simp: first_row_def)
qed simp

lemma key_inj:
  "distinct (map k rows) \<Longrightarrow> r \<in> set rows \<Longrightarrow> s \<in> set rows \<Longrightarrow> k r = k s \<Longrightarrow> r = s"
  by (auto simp: distinct_map inj_on_def)

lemma in_update_where: "r \<in> set rows \<Longrightarrow> (if p r then f r else r) \<in> set (update_where p f rows)"
  by (simp add: update_where_def)

text \<open>A property of rows that an update preserves keeps the set of keys having it.\<close>

lemma key_image_update:
  assumes "\<And>r. r \<in> set rows \<Longrightarrow> p r \<Longrightarrow> k (f r) = k r \<and> (q r \<longrightarrow> q (f r))"
  shows "k ` {r \<in> set rows. q r} \<subseteq> k ` {r \<in> set (update_where p f rows). q r}"
proof
  fix x assume "x \<in> k ` {r \<in> set rows. q r}"
  then obtain r where r: "r \<in> set rows" "q r" "x = k r" by auto
  let ?s = "if p r then f r else r"
  have "q ?s" "k ?s = x" using assms [of r] r by auto
  then show "x \<in> k ` {r \<in> set (update_where p f rows). q r}"
    using in_update_where [OF r(1), of p f] by blast
qed

section \<open>Transition systems with an invariant\<close>

text \<open>
  A stateful component is a set of initial states and a step relation; an invariant holds
  initially and is kept by every step. Components interpret this locale with their own
  step relation, and their properties of reachable states rest on \<open>reachable_inv\<close>.
\<close>

locale invariant_system =
  fixes init :: "'s \<Rightarrow> bool"
    and step :: "'s \<Rightarrow> 's \<Rightarrow> bool"
    and inv :: "'s \<Rightarrow> bool"
  assumes inv_init: "init s \<Longrightarrow> inv s"
    and inv_step: "inv s \<Longrightarrow> step s t \<Longrightarrow> inv t"
begin

lemma inv_steps: "step\<^sup>*\<^sup>* s t \<Longrightarrow> inv s \<Longrightarrow> inv t"
  by (induction rule: rtranclp_induct) (auto intro: inv_step)

lemma reachable_inv: "init s \<Longrightarrow> step\<^sup>*\<^sup>* s t \<Longrightarrow> inv t"
  by (blast intro: inv_steps inv_init)

lemma stable_steps:
  assumes "\<And>u v. inv u \<Longrightarrow> step u v \<Longrightarrow> P u \<Longrightarrow> P v"
  shows "step\<^sup>*\<^sup>* s t \<Longrightarrow> inv s \<Longrightarrow> P s \<Longrightarrow> P t"
  by (induction rule: rtranclp_induct) (auto intro: assms inv_steps)

end

end
