(* ===== verification/Failure_Policy.thy ===== *)
theory Failure_Policy
  imports Prelude
begin

text \<open>
  The queue's failure classes (\<^verbatim>\<open>inktime/app/domain/jobs/failure_policy.py\<close>) and the validation
  of worker settings (\<^verbatim>\<open>inktime/app/domain/jobs/settings.py\<close>). A raised value is either an
  exception object, described by the attributes the policy reads from it (\<^verbatim>\<open>code\<close>,
  \<^verbatim>\<open>failure_class\<close>, and whether it is a \<^verbatim>\<open>FileNotFoundError\<close>), or a plain code string.
\<close>

section \<open>Failure classes\<close>

datatype failure_class = TERMINAL_NO_RETRY | RETRYABLE | STALE_RECOVERY

definition TERMINAL_NO_RETRY_CODES :: "string list" where
  "TERMINAL_NO_RETRY_CODES =
    [''NO_PHOTOS'', ''NO_CONTENT'', ''NO_ELIGIBLE_CANDIDATES'', ''CONFIG_INVALID'', ''AUTH_REQUIRED'',
     ''API_CREDIT_EXHAUSTED'', ''ANALYSIS_DISABLED'', ''UNSUPPORTED_CONFIGURATION'', ''ANALYSIS-DISABLED'',
     ''VLM-008'', ''VLM-004'', ''VLM-006'', ''VLM-AMBIGUOUS'', ''VLM-UNRECONCILED'', ''VLM-INCOMPLETE'',
     ''JOB-SHUTDOWN-AMBIGUOUS'', ''JOB-LOCAL-TIMEOUT'', ''JOB-LOCAL-FAILED'', ''JOB-SOURCE-MISSING'',
     ''IMG-MISSING'', ''IMG-UNSUPPORTED'', ''IMG-CORRUPT'', ''IMG-HEIF-UNAVAILABLE'', ''IMG-FILE-LIMIT'',
     ''THUMB-004'', ''THUMB-005'']"

definition RETRYABLE_CODES :: "string list" where
  "RETRYABLE_CODES =
    [''TRANSIENT'', ''TEMPORARY_IO_ERROR'', ''PROVIDER_TIMEOUT'', ''AI-PROVIDER-TIMEOUT'',
     ''AI-PROVIDER-UNAVAILABLE'', ''JOB-SHUTDOWN-CANCELLED'', ''JOB-003'', ''JOB-004'', ''DISPLAY-005'']"

definition STALE_RECOVERY_CODES :: "string list" where
  "STALE_RECOVERY_CODES = [''STALE_RECOVERY'', ''LEASE_EXPIRED'', ''WORKER_CRASH'']"

datatype raised =
    Raised "string option" "failure_class option" bool
    \<comment> \<open>\<^verbatim>\<open>getattr(value, "code", None)\<close> as text, \<^verbatim>\<open>failure_class\<close>, \<^verbatim>\<open>isinstance(value, FileNotFoundError)\<close>\<close>
  | CodeText string

text \<open>\<^verbatim>\<open>JobFailure(message, code=...)\<close> and the exception classes of the module.\<close>

definition JobFailure :: "string option \<Rightarrow> raised" where
  "JobFailure code = Raised (Some (str_or code ''JOB-003'')) (Some RETRYABLE) False"

definition JobShutdownAmbiguousError :: "string option \<Rightarrow> raised" where
  "JobShutdownAmbiguousError code =
     Raised (Some (str_or code ''JOB-SHUTDOWN-AMBIGUOUS'')) (Some TERMINAL_NO_RETRY) False"

definition JobConfigurationError :: raised where
  "JobConfigurationError = Raised (Some ''CONFIG_INVALID'') (Some TERMINAL_NO_RETRY) False"

definition NoContentError :: raised where
  "NoContentError = Raised (Some ''NO_CONTENT'') (Some TERMINAL_NO_RETRY) False"

definition NoEligibleCandidatesError :: raised where
  "NoEligibleCandidatesError = Raised (Some ''NO_ELIGIBLE_CANDIDATES'') (Some TERMINAL_NO_RETRY) False"

fun raised_code :: "raised \<Rightarrow> string option" where
  "raised_code (Raised (Some c) _ _) = Some c"
| "raised_code (Raised None _ True) = Some ''JOB-SOURCE-MISSING''"
| "raised_code (Raised None _ False) = None"
| "raised_code (CodeText s) = Some s"

definition failure_code :: "raised \<Rightarrow> string" where
  "failure_code v =
     (let normalized = py_strip (str_or (raised_code v) ''JOB-003'');
          bounded = take 128 normalized
      in if bounded = [] then ''JOB-003'' else bounded)"

fun explicit_class :: "raised \<Rightarrow> failure_class option" where
  "explicit_class (Raised _ c _) = c"
| "explicit_class (CodeText _) = None"

definition classify_failure :: "raised \<Rightarrow> failure_class" where
  "classify_failure v =
     (case explicit_class v of
        Some c \<Rightarrow> c
      | None \<Rightarrow>
         (let code = failure_code v in
          if code \<in> set TERMINAL_NO_RETRY_CODES then TERMINAL_NO_RETRY
          else if code \<in> set STALE_RECOVERY_CODES then STALE_RECOVERY
          else if code \<in> set RETRYABLE_CODES then RETRYABLE
          else RETRYABLE))"

definition classify_codes :: "raised list \<Rightarrow> failure_class" where
  "classify_codes codes =
     (let normalized = map failure_code (filter (\<lambda>c. failure_code c \<noteq> []) codes) in
      if normalized = [] then RETRYABLE
      else let classes = map (\<lambda>c. classify_failure (CodeText c)) normalized in
           if RETRYABLE \<in> set classes then RETRYABLE
           else if STALE_RECOVERY \<in> set classes then STALE_RECOVERY
           else TERMINAL_NO_RETRY)"

section \<open>Worker settings\<close>

datatype settings_error = SettingsNotObject | SettingOutOfBounds string

definition worker_bounds :: "(string \<times> int \<times> int) list" where
  "worker_bounds =
     [(''concurrency'', 1, 8), (''max_attempts'', 1, 11), (''max_retries'', 0, 10),
      (''retry_interval_seconds'', 1, 86400), (''timeout_seconds'', 0, 86400)]"

fun setting_ok :: "string \<Rightarrow> int \<Rightarrow> int \<Rightarrow> json option \<Rightarrow> bool" where
  "setting_ok key lo hi None = True"
| "setting_ok key lo hi (Some JNull) = (key = ''retry_interval_seconds'')"
| "setting_ok key lo hi (Some (JInt n)) = (lo \<le> n \<and> n \<le> hi)"
| "setting_ok key lo hi (Some _) = False"

fun check_bounds :: "(string \<times> int \<times> int) list \<Rightarrow> (string \<times> json) list \<Rightarrow> settings_error option" where
  "check_bounds [] kvs = None"
| "check_bounds ((key, lo, hi) # rest) kvs =
     (if setting_ok key lo hi (map_of kvs key) then check_bounds rest kvs
      else Some (SettingOutOfBounds key))"

fun validate_worker_settings :: "json \<Rightarrow> settings_error + json" where
  "validate_worker_settings (JObj kvs) =
     (case check_bounds worker_bounds kvs of Some e \<Rightarrow> Inl e | None \<Rightarrow> Inr (JObj kvs))"
| "validate_worker_settings _ = Inl SettingsNotObject"

section \<open>Lemmas\<close>

lemma failure_code_nonempty [simp]: "failure_code v \<noteq> []"
  by (simp add: failure_code_def Let_def)

lemma failure_code_bound: "length (failure_code v) \<le> 128"
  by (simp add: failure_code_def Let_def)

lemma failure_code_stable:
  assumes "c \<noteq> []" "length c \<le> 128" "\<forall>x \<in> set c. \<not> is_space x"
  shows "failure_code (CodeText c) = c"
  using assms by (simp add: failure_code_def str_or_def Let_def text_simps)

lemmas code_sets =
  TERMINAL_NO_RETRY_CODES_def STALE_RECOVERY_CODES_def RETRYABLE_CODES_def

lemma code_sets_disjoint:
  "set TERMINAL_NO_RETRY_CODES \<inter> set STALE_RECOVERY_CODES = {}"
  "set TERMINAL_NO_RETRY_CODES \<inter> set RETRYABLE_CODES = {}"
  "set STALE_RECOVERY_CODES \<inter> set RETRYABLE_CODES = {}"
  by (simp_all add: code_sets)

lemma classify_codes_alt:
  "classify_codes cs =
     (let K = (\<lambda>c. classify_failure (CodeText (failure_code c))) ` set cs in
      if cs = [] \<or> RETRYABLE \<in> K then RETRYABLE
      else if STALE_RECOVERY \<in> K then STALE_RECOVERY else TERMINAL_NO_RETRY)"
  by (auto simp: classify_codes_def Let_def image_iff)

lemma severity_terminal:
  "(if RETRYABLE \<in> K then RETRYABLE else if STALE_RECOVERY \<in> K then STALE_RECOVERY else TERMINAL_NO_RETRY)
     = TERMINAL_NO_RETRY \<longleftrightarrow> K \<subseteq> {TERMINAL_NO_RETRY}"
  using failure_class.exhaust by auto

lemma setting_ok_iff:
  "setting_ok key lo hi v \<longleftrightarrow>
     (case v of None \<Rightarrow> True
      | Some x \<Rightarrow> (\<exists>n. x = JInt n \<and> lo \<le> n \<and> n \<le> hi) \<or> (x = JNull \<and> key = ''retry_interval_seconds''))"
proof (cases v)
  case (Some x)
  then show ?thesis by (cases x) auto
qed simp

lemma check_bounds_None:
  "check_bounds bs kvs = None \<longleftrightarrow>
     list_all (\<lambda>(key, lo, hi). case map_of kvs key of None \<Rightarrow> True
      | Some x \<Rightarrow> (\<exists>n. x = JInt n \<and> lo \<le> n \<and> n \<le> hi) \<or> (x = JNull \<and> key = ''retry_interval_seconds'')) bs"
  by (induction bs kvs rule: check_bounds.induct) (simp_all add: setting_ok_iff)

section \<open>Properties\<close>

text \<open>A job that finished with errors is classified terminal exactly when it recorded at least
  one code and every code, after the normalisation that \<^verbatim>\<open>classify_codes\<close> and then
  \<^verbatim>\<open>classify_failure\<close> apply, is in the explicit terminal set. A single transient, stale or unknown
  code therefore keeps the job eligible for another attempt.\<close>

theorem classify_codes_terminal_iff:
  "classify_codes cs = TERMINAL_NO_RETRY \<longleftrightarrow>
     cs \<noteq> [] \<and>
     (\<lambda>c. failure_code (CodeText (failure_code c))) ` set cs \<subseteq> set TERMINAL_NO_RETRY_CODES"
proof -
  have terminal: "classify_failure (CodeText c) = TERMINAL_NO_RETRY \<longleftrightarrow>
        failure_code (CodeText c) \<in> set TERMINAL_NO_RETRY_CODES" for c
    by (simp add: classify_failure_def Let_def)
  show ?thesis
    using severity_terminal [of "(\<lambda>c. classify_failure (CodeText (failure_code c))) ` set cs"]
    by (cases "cs = []") (auto simp: classify_codes_alt Let_def image_subset_iff terminal)
qed

text \<open>Settings accepted for a worker are returned unchanged, and they are accepted exactly when
  they are a JSON object in which every bounded key that occurs is an integer (not a Boolean or
  a float) within its bounds, or is a null \<^verbatim>\<open>retry_interval_seconds\<close>.\<close>

theorem validate_worker_settings_iff:
  "validate_worker_settings v = Inr r \<longleftrightarrow>
     r = v \<and> is_dict v \<and>
     list_all (\<lambda>(key, lo, hi). case v of
        JObj kvs \<Rightarrow> (case map_of kvs key of
            None \<Rightarrow> True
          | Some x \<Rightarrow> (\<exists>n. x = JInt n \<and> lo \<le> n \<and> n \<le> hi) \<or> (x = JNull \<and> key = ''retry_interval_seconds''))
      | _ \<Rightarrow> False) worker_bounds"
  by (cases v) (auto simp flip: check_bounds_None split: option.split)

end
