(* ===== verification/Job_Store.thy ===== *)
theory Job_Store
  imports Prelude "HOL-Library.Product_Lexorder" "HOL-Library.List_Lexorder"
    "HOL-Library.Char_ord" "HOL-Library.Option_ord"
begin

text \<open>
  The tables the job queue reads and writes, with the columns the repositories use
  (\<^verbatim>\<open>inktime/app/db/migrations.py\<close>), the constraints SQLite enforces on them, and the ownership
  predicate of \<^verbatim>\<open>inktime/app/repositories/analysis_reservations.py\<close>. Event and error messages
  are left out, since no decision reads them; the webhook outbox that two triggers fill is
  not part of this state.
\<close>

section \<open>Rows\<close>

datatype job_status =
  Pending | Preparing | Running | Pausing | Paused | Retrying | Completed |
  CompletedWithErrors | Failed | Cancelled | BudgetExceeded

datatype item_status = IPending | IRunning | IRetrying | ICompleted | IFailed | ICancelled

record job =
  j_id :: string
  kind :: string
  j_name :: string
  j_status :: job_status
  strategy :: string
  settings_json :: json_text
  budget_limit :: "rat option"
  spent :: rat
  total_items :: nat
  completed_items :: nat
  failed_items :: nat
  created_by :: "string option"
  j_created_at :: instant
  j_completed_at :: "instant option"
  heartbeat_at :: "instant option"
  pause_requested_at :: "instant option"
  cancel_requested_at :: "instant option"
  priority :: int
  dedupe_key :: "string option"
  selection_mode :: string
  analysis_fingerprint :: "string option"
  analysis_spec_json :: "json_text option"
  force_recompute :: bool
  request_fingerprint :: "string option"

record job_item =
  i_id :: string
  i_job_id :: string
  photo_id :: "string option"
  i_status :: item_status
  stage :: string
  attempts :: nat
  available_at :: instant
  worker_id :: "string option"
  started_at :: "instant option"
  completed_at :: "instant option"
  error_code :: "string option"
  result_json :: "json_text option"
  lease_until :: "instant option"
  estimated_cost :: rat
  dead_lettered_at :: "instant option"
  idempotency_key :: "string option"
  completion_state :: string

record job_event =
  e_job_id :: string
  event :: string
  e_created_at :: instant

record job_error =
  er_id :: nat
  er_job_id :: string
  er_item_id :: "string option"
  er_photo_id :: "string option"
  component :: string
  er_code :: string
  fingerprint :: string
  occurrences :: nat
  first_seen_at :: instant
  last_seen_at :: instant
  resolved_at :: "instant option"

record photo =
  p_id :: string
  sha256 :: "string option"
  lifecycle_status :: string
  p_status :: string
  eligible :: bool
  local_features_status :: string
  screenshot_likelihood :: "rat option"
  local_candidate_score :: "rat option"
  captured_at :: "string option"
  p_created_at :: string
  never_upload :: bool
  exclusion_status :: string

record analysis_batch =
  b_id :: string
  b_status :: string
  abandon_confirmed_at :: "instant option"
  last_error_code :: "string option"
  reconciliation_error_code :: "string option"
  remote_status :: "string option"
  remote_batch_id :: "string option"

record analysis_batch_item =
  bi_batch_id :: string
  bi_photo_id :: "string option"
  content_sha256 :: "string option"

record db =
  photos :: "photo list"
  photo_analysis :: "(string \<times> string option) list"  \<comment> \<open>photo id, analysis fingerprint\<close>
  jobs :: "job list"
  job_items :: "job_item list"
  job_events :: "job_event list"
  job_errors :: "job_error list"
  analysis_batches :: "analysis_batch list"
  analysis_batch_items :: "analysis_batch_item list"
  settings :: "(string \<times> string) list"  \<comment> \<open>key, value_json\<close>
  openai_pause_kind :: "string option"
  backfill_enabled :: bool
  backfill_pause_reason :: "string option"
  backfill_tasks :: "(int \<times> string \<times> string option) list"  \<comment> \<open>id, job id, photo id\<close>
  api_usage_jobs :: "string list"
  usage_archive_jobs :: "string list"

datatype repo_error =
    IntegrityError
  | IdempotencyConflict
  | AnalysisReservationConflict
  | UnsupportedMaintenanceKind
  | PreviewOnly
  | PreviewCapacityError string
  | MalformedSettings
  | InvalidTerminalStatus
  | HookError string

section \<open>Status sets\<close>

definition active_status :: "job_status \<Rightarrow> bool" where
  "active_status s = (s \<in> {Pending, Preparing, Running, Pausing, Retrying})"

definition terminal_status :: "job_status \<Rightarrow> bool" where
  "terminal_status s = (s \<in> {Completed, CompletedWithErrors, Failed, Cancelled})"

definition runnable_status :: "job_status \<Rightarrow> bool" where
  "runnable_status s = (s \<in> {Running, Retrying})"

definition open_item :: "item_status \<Rightarrow> bool" where
  "open_item s = (s \<in> {IPending, IRunning, IRetrying})"

definition closed_item :: "item_status \<Rightarrow> bool" where
  "closed_item s = (s \<in> {ICompleted, IFailed, ICancelled})"

lemmas status_defs = active_status_def terminal_status_def runnable_status_def open_item_def closed_item_def

section \<open>Constraints\<close>

text \<open>The partial unique index \<^verbatim>\<open>idx_jobs_active_dedupe\<close>.\<close>

definition active_dedupe :: "job \<Rightarrow> string option" where
  "active_dedupe j = (if active_status (j_status j) then dedupe_key j else None)"

definition jobs_unique :: "job list \<Rightarrow> bool" where
  "jobs_unique js = (distinct (map j_id js) \<and> unique_key active_dedupe js)"

text \<open>A write to \<^verbatim>\<open>jobs\<close> that would break a unique index raises and changes nothing.\<close>

definition store_jobs :: "job list \<Rightarrow> db \<Rightarrow> repo_error + db" where
  "store_jobs js d = (if jobs_unique js then Inr (d\<lparr>jobs := js\<rparr>) else Inl IntegrityError)"

text \<open>Updates of job rows that keep every column a unique index reads, and of item rows.\<close>

definition upd_jobs :: "(job \<Rightarrow> bool) \<Rightarrow> (job \<Rightarrow> job) \<Rightarrow> db \<Rightarrow> db" where
  "upd_jobs p f d = d\<lparr>jobs := update_where p f (jobs d)\<rparr>"

definition upd_items :: "(job_item \<Rightarrow> bool) \<Rightarrow> (job_item \<Rightarrow> job_item) \<Rightarrow> db \<Rightarrow> db" where
  "upd_items p f d = d\<lparr>job_items := update_where p f (job_items d)\<rparr>"

definition add_event :: "string \<Rightarrow> string \<Rightarrow> instant \<Rightarrow> db \<Rightarrow> db" where
  "add_event job_id ev now d =
     d\<lparr>job_events := job_events d @ [\<lparr>e_job_id = job_id, event = ev, e_created_at = now\<rparr>]\<rparr>"

definition find_job :: "string \<Rightarrow> db \<Rightarrow> job option" where
  "find_job job_id d = first_row (\<lambda>j. j_id j = job_id) (jobs d)"

definition items_of :: "string \<Rightarrow> (item_status \<Rightarrow> bool) \<Rightarrow> db \<Rightarrow> nat" where
  "items_of job_id q d = row_count (\<lambda>i. i_job_id i = job_id \<and> q (i_status i)) (job_items d)"

text \<open>Rows ordered by a key, as an SQL \<^verbatim>\<open>ORDER BY\<close> with a total key does.\<close>

definition sql_limit :: "int \<Rightarrow> 'a list \<Rightarrow> 'a list" where
  "sql_limit n xs = (if n < 0 then xs else take (nat n) xs)"

definition newest_job :: "(job \<Rightarrow> bool) \<Rightarrow> job list \<Rightarrow> job option" where
  "newest_job p js =
     (case rev (sort_key (\<lambda>j. (j_created_at j, j_id j)) (filter p js)) of [] \<Rightarrow> None | j # _ \<Rightarrow> Some j)"

section \<open>Analysis reservations\<close>

definition ACTIVE_BATCH_STATUSES :: "string list" where
  "ACTIVE_BATCH_STATUSES =
     [''preparing'', ''uploading'', ''upload_unknown'', ''uploaded'', ''submitting'', ''submission_unknown'',
      ''validating'', ''in_progress'', ''finalizing'', ''import_pending'', ''importing'', ''cancelling'',
      ''cleanup_pending'']"

definition UNKNOWN_SUBMISSION_CODES :: "string list" where
  "UNKNOWN_SUBMISSION_CODES =
     [''BATCH-SUBMISSION-UNKNOWN'', ''BATCH-UPLOAD-UNKNOWN'', ''submission_unknown'', ''upload_unknown'',
      ''submission_persist_unknown'']"

definition coalesce_text :: "string option \<Rightarrow> string" where
  "coalesce_text v = (case v of None \<Rightarrow> [] | Some s \<Rightarrow> s)"

definition held_batch :: "analysis_batch \<Rightarrow> bool" where
  "held_batch b =
     (b_status b \<in> set ACTIVE_BATCH_STATUSES \<or>
      (abandon_confirmed_at b = None \<and>
        (coalesce_text (last_error_code b) \<in> set UNKNOWN_SUBMISSION_CODES \<or>
         coalesce_text (reconciliation_error_code b) \<in> set UNKNOWN_SUBMISSION_CODES \<or>
         coalesce_text (remote_status b) \<in> {''submission_unknown'', ''upload_unknown''} \<or>
         (remote_batch_id b \<noteq> None \<and>
          coalesce_text (remote_status b) \<notin> {''completed'', ''failed'', ''expired'', ''cancelled''}))))"

definition same_content :: "photo \<Rightarrow> string option \<Rightarrow> bool" where
  "same_content p sha = (coalesce_text (sha256 p) \<noteq> [] \<and> sha = sha256 p)"

definition reserving_job_status :: "job_status \<Rightarrow> bool" where
  "reserving_job_status s = (s \<in> {Pending, Preparing, Running, Pausing, Retrying, Paused, BudgetExceeded})"

definition analysis_kind :: "string \<Rightarrow> bool" where
  "analysis_kind k = (k \<in> {''analysis'', ''analysis_batch''})"

text \<open>An item holds its photo's analysis: it is open, its job is an analysis job, and the item is
  running or the job may still run.\<close>

definition reserving_item :: "db \<Rightarrow> job_item \<Rightarrow> bool" where
  "reserving_item d i =
     (open_item (i_status i) \<and>
      (\<exists>j \<in> set (jobs d). j_id j = i_job_id i \<and> analysis_kind (kind j) \<and>
          (i_status i = IRunning \<or> reserving_job_status (j_status j))))"

definition reserved_analysis :: "db \<Rightarrow> photo \<Rightarrow> bool" where
  "reserved_analysis d p =
     ((\<exists>i \<in> set (job_items d). reserving_item d i \<and>
         (\<exists>q \<in> set (photos d). photo_id i = Some (p_id q) \<and> (p_id q = p_id p \<or> same_content p (sha256 q)))) \<or>
      (\<exists>bi \<in> set (analysis_batch_items d). \<exists>b \<in> set (analysis_batches d).
         b_id b = bi_batch_id bi \<and>
         (bi_photo_id bi = Some (p_id p) \<or> same_content p (content_sha256 bi)) \<and> held_batch b))"

end
