(* ===== verification/Job_Repository.thy ===== *)
theory Job_Repository
  imports Job_Store
begin

text \<open>
  \<^verbatim>\<open>JobRepository\<close> (\<^verbatim>\<open>inktime/app/repositories/jobs.py\<close>): every method that changes the queue, as a
  function on the database state. The clock (\<^verbatim>\<open>utc_now()\<close>, read once per call), the identifiers
  of \<^verbatim>\<open>uuid4()\<close> and the SHA-256 digest are arguments. A method that can raise returns a sum; on
  \<open>Inl\<close> the transaction was rolled back, so the state is the caller's. A method that cannot
  raise returns its result with the new state.
\<close>

definition seconds :: "int \<Rightarrow> int" where
  "seconds s = s * 1000000"

definition MAX_STALE_RECOVERY_ATTEMPTS :: nat where
  "MAX_STALE_RECOVERY_ATTEMPTS = 5"

section \<open>Creating jobs\<close>

record create_request =
  cr_kind :: string
  cr_name :: string
  cr_strategy :: string
  cr_settings :: json
  cr_photo_ids :: "string list"
  cr_created_by :: "string option"
  cr_budget_limit :: "rat option"
  cr_priority :: int
  cr_dedupe_key :: "string option"
  cr_selection_mode :: string
  cr_analysis_fingerprint :: "string option"
  cr_force_recompute :: bool
  cr_analysis_spec :: "json option"
  cr_request_fingerprint :: "string option"

definition truthy_text :: "string option \<Rightarrow> bool" where
  "truthy_text v = (coalesce_text v \<noteq> [])"

text \<open>The idempotency block shared by \<^verbatim>\<open>create\<close>, \<^verbatim>\<open>_create_maintenance\<close> and
  \<^verbatim>\<open>get_by_dedupe_key\<close>: a different fingerprint conflicts, a missing one is filled in.\<close>

definition adopt_existing :: "job \<Rightarrow> string option \<Rightarrow> db \<Rightarrow> repo_error + db" where
  "adopt_existing existing fp d =
     (let stored = coalesce_text (request_fingerprint existing) in
      if stored \<noteq> [] \<and> truthy_text fp \<and> stored \<noteq> coalesce_text fp then Inl IdempotencyConflict
      else if truthy_text fp \<and> stored = []
        then Inr (upd_jobs (\<lambda>j. j_id j = j_id existing \<and> request_fingerprint j = None)
                           (\<lambda>j. j\<lparr>request_fingerprint := fp\<rparr>) d)
      else Inr d)"

definition new_item :: "string \<Rightarrow> string \<Rightarrow> string option \<Rightarrow> instant \<Rightarrow> job_item" where
  "new_item item_id job_id photo now =
     \<lparr>i_id = item_id, i_job_id = job_id, photo_id = photo, i_status = IPending, stage = ''queued'',
      attempts = 0, available_at = now, worker_id = None, started_at = None, completed_at = None,
      error_code = None, result_json = None, lease_until = None, estimated_cost = 0,
      dead_lettered_at = None, idempotency_key = None, completion_state = ''on_time''\<rparr>"

text \<open>\<^verbatim>\<open>INSERT OR IGNORE INTO job_items\<close>: a row that collides with the primary key or with
  \<^verbatim>\<open>UNIQUE(job_id, photo_id)\<close> is skipped; a photo that does not exist violates the foreign key.\<close>

definition item_collides :: "job_item \<Rightarrow> job_item list \<Rightarrow> bool" where
  "item_collides i rows =
     (\<exists>r \<in> set rows. i_id r = i_id i \<or> (i_job_id r = i_job_id i \<and> photo_id i \<noteq> None \<and> photo_id r = photo_id i))"

fun insert_items :: "photo list \<Rightarrow> job_item list \<Rightarrow> job_item list \<Rightarrow> repo_error + job_item list" where
  "insert_items ps [] rows = Inr rows"
| "insert_items ps (i # is) rows =
     (if item_collides i rows then insert_items ps is rows
      else if photo_id i \<notin> Some ` p_id ` set ps then Inl IntegrityError
      else insert_items ps is (rows @ [i]))"

definition new_job :: "string \<Rightarrow> create_request \<Rightarrow> instant \<Rightarrow> job" where
  "new_job job_id r now =
     \<lparr>j_id = job_id, kind = cr_kind r, j_name = cr_name r, j_status = Pending, strategy = cr_strategy r,
      settings_json = Encoded (cr_settings r), budget_limit = cr_budget_limit r, spent = 0, total_items = 0,
      completed_items = 0, failed_items = 0, created_by = cr_created_by r, j_created_at = now,
      j_completed_at = None, heartbeat_at = None, pause_requested_at = None, cancel_requested_at = None,
      priority = max 1 (min (cr_priority r) 6), dedupe_key = cr_dedupe_key r,
      selection_mode = cr_selection_mode r, analysis_fingerprint = cr_analysis_fingerprint r,
      analysis_spec_json = Some (Encoded (case cr_analysis_spec r of
          None \<Rightarrow> JObj [] | Some s \<Rightarrow> if py_truthy s then s else JObj [])),
      force_recompute = cr_force_recompute r, request_fingerprint = cr_request_fingerprint r\<rparr>"

text \<open>The body of \<^verbatim>\<open>create\<close> after the idempotency block. The 500-row batches only bound the size of
  one SQL statement: the reservation check is a disjunction over the batches, and the batches
  are inserted in order.\<close>

definition create_new :: "(db \<Rightarrow> string \<Rightarrow> repo_error + db) option \<Rightarrow> string \<Rightarrow> (nat \<Rightarrow> string) \<Rightarrow>
    create_request \<Rightarrow> instant \<Rightarrow> db \<Rightarrow> repo_error + (string \<times> db)" where
  "create_new commit_hook job_id uuids r now d =
     (if analysis_kind (cr_kind r) \<and>
         (\<exists>p \<in> set (photos d). p_id p \<in> set (cr_photo_ids r) \<and> reserved_analysis d p)
      then Inl AnalysisReservationConflict
      else case store_jobs (jobs d @ [new_job job_id r now]) d of
        Inl e \<Rightarrow> Inl e
      | Inr d1 \<Rightarrow>
        (case insert_items (photos d1)
                (map (\<lambda>(n, p). new_item (uuids n) job_id (Some p) now) (enumerate 0 (cr_photo_ids r)))
                (job_items d1) of
           Inl e \<Rightarrow> Inl e
         | Inr rows \<Rightarrow>
           (let d2 = d1\<lparr>job_items := rows\<rparr>;
                total = row_count (\<lambda>i. i_job_id i = job_id) (job_items d2);
                d3 = upd_jobs (\<lambda>j. j_id j = job_id) (\<lambda>j. j\<lparr>total_items := total\<rparr>) d2
            in case (case commit_hook of None \<Rightarrow> Inr d3 | Some hook \<Rightarrow> hook d3 job_id) of
                 Inl e \<Rightarrow> Inl e
               | Inr d4 \<Rightarrow> Inr (job_id, add_event job_id ''created'' now d4))))"

definition create :: "(db \<Rightarrow> string \<Rightarrow> repo_error + db) option \<Rightarrow> string \<Rightarrow> (nat \<Rightarrow> string) \<Rightarrow>
    create_request \<Rightarrow> instant \<Rightarrow> db \<Rightarrow> repo_error + (string \<times> db)" where
  "create commit_hook job_id uuids r now d =
     (case (if truthy_text (cr_dedupe_key r)
            then newest_job (\<lambda>j. dedupe_key j = cr_dedupe_key r) (jobs d) else None) of
        Some existing \<Rightarrow>
          (case adopt_existing existing (cr_request_fingerprint r) d of
             Inl e \<Rightarrow> Inl e
           | Inr d' \<Rightarrow> Inr (j_id existing, d'))
      | None \<Rightarrow> create_new commit_hook job_id uuids r now d)"

definition get_by_dedupe_key :: "string \<Rightarrow> string option \<Rightarrow> db \<Rightarrow> repo_error + (job option \<times> db)" where
  "get_by_dedupe_key key fp d =
     (let row = newest_job (\<lambda>j. dedupe_key j = Some key) (jobs d) in
      if \<not> truthy_text fp then Inr (row, d)
      else case row of
        None \<Rightarrow> Inr (None, d)
      | Some existing \<Rightarrow>
          (case adopt_existing existing fp d of
             Inl e \<Rightarrow> Inl e
           | Inr d' \<Rightarrow> Inr (find_job (j_id existing) d', d')))"

definition active_dedupe_job :: "string \<Rightarrow> db \<Rightarrow> job option" where
  "active_dedupe_job key d = newest_job (\<lambda>j. dedupe_key j = Some key \<and> active_status (j_status j)) (jobs d)"

definition has_active_dedupe :: "string \<Rightarrow> db \<Rightarrow> bool" where
  "has_active_dedupe key d = (active_dedupe_job key d \<noteq> None)"

section \<open>Maintenance jobs\<close>

definition maintenance_kinds :: "string list" where
  "maintenance_kinds =
     [''scan'', ''backup'', ''render'', ''render_preview'', ''cleanup'', ''virtual_display'', ''webhook'',
      ''analysis_batch_import'', ''analysis_batch_poll'', ''analysis_coverage_audit'']"

definition priority_for :: "string \<Rightarrow> int" where
  "priority_for k =
     (case map_of [(''render'', 2), (''virtual_display'', 2), (''scan'', 4), (''webhook'', 5),
                   (''render_preview'', 6), (''cleanup'', 6), (''backup'', 6)] k of
        None \<Rightarrow> 4 | Some n \<Rightarrow> n)"

definition starts_with :: "string \<Rightarrow> string \<Rightarrow> bool" where
  "starts_with prefix s = (take (length prefix) s = prefix)"

definition maintenance_dedupe_scope :: "string \<Rightarrow> string \<Rightarrow> job_status \<Rightarrow> bool" where
  "maintenance_dedupe_scope k key s =
     (if starts_with ''idempotency:'' key then True
      else if k = ''backup'' then s \<noteq> Failed \<and> s \<noteq> Cancelled
      else active_status s)"

record maintenance_request =
  mr_kind :: string
  mr_name :: string
  mr_settings :: json
  mr_created_by :: "string option"
  mr_priority :: "int option"
  mr_dedupe_key :: "string option"
  mr_request_fingerprint :: "string option"

definition maintenance_job :: "string \<Rightarrow> maintenance_request \<Rightarrow> instant \<Rightarrow> job" where
  "maintenance_job job_id r now =
     \<lparr>j_id = job_id, kind = mr_kind r, j_name = mr_name r, j_status = Pending, strategy = ''local'',
      settings_json = Encoded (mr_settings r), budget_limit = None, spent = 0, total_items = 1,
      completed_items = 0, failed_items = 0, created_by = mr_created_by r, j_created_at = now,
      j_completed_at = None, heartbeat_at = None, pause_requested_at = None, cancel_requested_at = None,
      priority = max 1 (min (case mr_priority r of None \<Rightarrow> priority_for (mr_kind r) | Some n \<Rightarrow> n) 6),
      dedupe_key = mr_dedupe_key r, selection_mode = ''pending'', analysis_fingerprint = None,
      analysis_spec_json = None, force_recompute = False, request_fingerprint = mr_request_fingerprint r\<rparr>"

text \<open>The three inserts (job, its single item without a photo, event) shared by
  \<^verbatim>\<open>_create_maintenance\<close> and \<^verbatim>\<open>create_maintenance_with_capacity\<close>.\<close>

definition insert_maintenance :: "string \<Rightarrow> string \<Rightarrow> maintenance_request \<Rightarrow> instant \<Rightarrow> db \<Rightarrow> repo_error + db" where
  "insert_maintenance job_id item_id r now d =
     (case store_jobs (jobs d @ [maintenance_job job_id r now]) d of
        Inl e \<Rightarrow> Inl e
      | Inr d1 \<Rightarrow>
          if item_id \<in> i_id ` set (job_items d1) then Inl IntegrityError
          else Inr (add_event job_id ''created'' now
                     (d1\<lparr>job_items := job_items d1 @ [new_item item_id job_id None now]\<rparr>)))"

definition create_maintenance_guarded :: "(db \<Rightarrow> bool \<times> db) option \<Rightarrow> string \<Rightarrow> string \<Rightarrow>
    maintenance_request \<Rightarrow> instant \<Rightarrow> db \<Rightarrow> repo_error + (string option \<times> db)" where
  "create_maintenance_guarded guard job_id item_id r now d =
     (if mr_kind r \<notin> set maintenance_kinds then Inl UnsupportedMaintenanceKind
      else case (if truthy_text (mr_dedupe_key r)
                 then first_row (\<lambda>j. dedupe_key j = mr_dedupe_key r \<and>
                        maintenance_dedupe_scope (mr_kind r) (coalesce_text (mr_dedupe_key r)) (j_status j)) (jobs d)
                 else None) of
        Some existing \<Rightarrow>
          (case adopt_existing existing (mr_request_fingerprint r) d of
             Inl e \<Rightarrow> Inl e
           | Inr d' \<Rightarrow> Inr (Some (j_id existing), d'))
      | None \<Rightarrow>
          (case (case guard of None \<Rightarrow> (True, d) | Some g \<Rightarrow> g d) of
             (False, d') \<Rightarrow> Inr (None, d')
           | (True, d') \<Rightarrow>
               (case insert_maintenance job_id item_id r now d' of
                  Inl e \<Rightarrow> Inl e
                | Inr d'' \<Rightarrow> Inr (Some job_id, d''))))"

definition create_maintenance :: "string \<Rightarrow> string \<Rightarrow> maintenance_request \<Rightarrow> instant \<Rightarrow> db \<Rightarrow>
    repo_error + (string option \<times> db)" where
  "create_maintenance = create_maintenance_guarded None"

definition create_maintenance_atomic :: "(db \<Rightarrow> bool \<times> db) \<Rightarrow> string \<Rightarrow> string \<Rightarrow> maintenance_request \<Rightarrow>
    instant \<Rightarrow> db \<Rightarrow> repo_error + (string option \<times> db)" where
  "create_maintenance_atomic guard = create_maintenance_guarded (Some guard)"

definition active_count :: "string \<Rightarrow> string option \<Rightarrow> db \<Rightarrow> nat" where
  "active_count k by_user d =
     row_count (\<lambda>j. kind j = k \<and> active_status (j_status j) \<and>
                    (case by_user of None \<Rightarrow> True | Some u \<Rightarrow> created_by j = Some u)) (jobs d)"

definition create_maintenance_with_capacity :: "string \<Rightarrow> string \<Rightarrow> string \<Rightarrow> string \<Rightarrow> json \<Rightarrow> string \<Rightarrow>
    int \<Rightarrow> int \<Rightarrow> int \<Rightarrow> instant \<Rightarrow> db \<Rightarrow> repo_error + (string \<times> db)" where
  "create_maintenance_with_capacity job_id item_id k name sets by_user prio per_user_limit system_limit now d =
     (if k \<noteq> ''render_preview'' then Inl PreviewOnly
      else if int (active_count k (Some by_user) d) \<ge> max 1 per_user_limit then Inl (PreviewCapacityError ''user'')
      else if int (active_count k None d) \<ge> max 1 system_limit then Inl (PreviewCapacityError ''system'')
      else case insert_maintenance job_id item_id
                  \<lparr>mr_kind = k, mr_name = name, mr_settings = sets, mr_created_by = Some by_user,
                   mr_priority = Some prio, mr_dedupe_key = None, mr_request_fingerprint = None\<rparr> now d of
             Inl e \<Rightarrow> Inl e
           | Inr d' \<Rightarrow> Inr (job_id, d'))"

section \<open>Status changes of a job\<close>

definition fail_invalid_settings :: "string \<Rightarrow> instant \<Rightarrow> db \<Rightarrow> bool \<times> db" where
  "fail_invalid_settings job_id now d =
     (let p = (\<lambda>j. j_id j = job_id \<and> runnable_status (j_status j) \<and> items_of (j_id j) (\<lambda>s. s = IRunning) d = 0)
      in if row_count p (jobs d) = 0 then (False, d)
         else
           let d1 = upd_jobs p (\<lambda>j. j\<lparr>j_status := Failed, j_completed_at := Some now, heartbeat_at := Some now\<rparr>) d;
               d2 = upd_items (\<lambda>i. i_job_id i = job_id \<and> (i_status i = IPending \<or> i_status i = IRetrying))
                      (\<lambda>i. i\<lparr>i_status := IFailed, completed_at := Some now, error_code := Some ''JOB-001'',
                             worker_id := None, lease_until := None, dead_lettered_at := Some now\<rparr>) d1;
               d3 = upd_jobs (\<lambda>j. j_id j = job_id)
                      (\<lambda>j. j\<lparr>failed_items := items_of job_id (\<lambda>s. s = IFailed) d2\<rparr>) d2
           in (True, add_event job_id ''invalid_settings'' now d3))"

definition transition :: "string \<Rightarrow> job_status list \<Rightarrow> job_status \<Rightarrow> string \<Rightarrow> instant \<Rightarrow> db \<Rightarrow> repo_error + (bool \<times> db)" where
  "transition job_id from_statuses to_status ev now d =
     (let p = (\<lambda>j. j_id j = job_id \<and> j_status j \<in> set from_statuses) in
      case store_jobs (update_where p (\<lambda>j. j\<lparr>j_status := to_status, heartbeat_at := Some now\<rparr>) (jobs d)) d of
        Inl e \<Rightarrow> Inl e
      | Inr d1 \<Rightarrow> if row_count p (jobs d) = 0 then Inr (False, d1) else Inr (True, add_event job_id ev now d1))"

definition request_pause :: "string \<Rightarrow> instant \<Rightarrow> db \<Rightarrow> bool \<times> db" where
  "request_pause job_id now d =
     (case find_job job_id d of
        None \<Rightarrow> (False, d)
      | Some j \<Rightarrow>
          if \<not> runnable_status (j_status j) then (False, d)
          else
            let active = items_of job_id (\<lambda>s. s = IRunning) d;
                target = (if active = 0 then Paused else Pausing);
                d1 = upd_jobs (\<lambda>j. j_id j = job_id)
                       (\<lambda>j. j\<lparr>j_status := target, pause_requested_at := Some now, heartbeat_at := Some now\<rparr>) d
            in (True, add_event job_id (if active = 0 then ''paused'' else ''pause_requested'') now d1))"

definition acknowledge_pause :: "string \<Rightarrow> instant \<Rightarrow> db \<Rightarrow> bool \<times> db" where
  "acknowledge_pause job_id now d =
     (let p = (\<lambda>j. j_id j = job_id \<and> j_status j = Pausing \<and> items_of (j_id j) (\<lambda>s. s = IRunning) d = 0);
          d1 = upd_jobs p (\<lambda>j. j\<lparr>j_status := Paused, heartbeat_at := Some now\<rparr>) d
      in if row_count p (jobs d) = 0 then (False, d1) else (True, add_event job_id ''paused'' now d1))"

definition cancel :: "string \<Rightarrow> instant \<Rightarrow> db \<Rightarrow> bool \<times> db" where
  "cancel job_id now d =
     (let p = (\<lambda>j. j_id j = job_id \<and> \<not> terminal_status (j_status j)) in
      if row_count p (jobs d) = 0 then (False, d)
      else
        let d1 = upd_jobs p (\<lambda>j. j\<lparr>j_status := Cancelled, cancel_requested_at := Some now, j_completed_at := Some now\<rparr>) d;
            d2 = upd_items (\<lambda>i. i_job_id i = job_id \<and> (i_status i = IPending \<or> i_status i = IRetrying))
                   (\<lambda>i. i\<lparr>i_status := ICancelled, completed_at := Some now\<rparr>) d1
        in (True, add_event job_id ''cancelled'' now d2))"

section \<open>Claiming items\<close>

definition setting_is_true :: "string \<Rightarrow> db \<Rightarrow> bool" where
  "setting_is_true key d = (map_of (settings d) key = Some ''true'')"

text \<open>The backfill gates of \<^verbatim>\<open>claim\<close>: whether the lane is switched on, and whether a more urgent
  job has an item due.\<close>

definition openai_backfill_allowed :: "db \<Rightarrow> bool" where
  "openai_backfill_allowed d =
     (setting_is_true ''analysis.openai_backfill_enabled'' d \<and>
      setting_is_true ''analysis.complementary_enabled'' d \<and> \<not> truthy_text (openai_pause_kind d))"

definition backfill_allowed :: "db \<Rightarrow> bool" where
  "backfill_allowed d =
     (backfill_enabled d \<and> \<not> truthy_text (backfill_pause_reason d) \<and>
      \<not> setting_is_true ''analysis.complementary_enabled'' d)"

definition urgent_work :: "job \<Rightarrow> instant \<Rightarrow> db \<Rightarrow> bool" where
  "urgent_work job now d =
     (\<exists>j \<in> set (jobs d). \<exists>i \<in> set (job_items d).
        i_job_id i = j_id j \<and> j_id j \<noteq> j_id job \<and> priority j < priority job \<and> kind j \<noteq> ''render'' \<and>
        runnable_status (j_status j) \<and> i_status i = IPending \<and> available_at i \<le> now)"

definition due_item :: "string \<Rightarrow> instant \<Rightarrow> job_item \<Rightarrow> bool" where
  "due_item job_id now i = (i_job_id i = job_id \<and> i_status i = IPending \<and> available_at i \<le> now)"

text \<open>The \<^verbatim>\<open>ORDER BY\<close> of the claim: due time, then the photo's date on the OpenAI lane, then the task
  number on the backfill lane, then the item id. An SQL NULL sorts first.\<close>

definition claim_key :: "bool \<Rightarrow> bool \<Rightarrow> db \<Rightarrow> job_item \<Rightarrow> int \<times> string option \<times> int option \<times> string" where
  "claim_key openai backfill d i =
     (available_at i,
      (if openai then map_option (\<lambda>p. case captured_at p of Some t \<Rightarrow> t | None \<Rightarrow> p_created_at p)
                        (first_row (\<lambda>p. photo_id i = Some (p_id p)) (photos d))
       else Some []),
      (if backfill then map_option fst
                          (first_row (\<lambda>(t, j, p). j = i_job_id i \<and> p \<noteq> None \<and> p = photo_id i) (backfill_tasks d))
       else Some 0),
      i_id i)"

definition claim_update :: "string \<Rightarrow> instant \<Rightarrow> instant \<Rightarrow> job_item \<Rightarrow> job_item" where
  "claim_update worker now lease i =
     i\<lparr>i_status := IRunning, worker_id := Some worker, started_at := Some now, lease_until := Some lease,
       attempts := attempts i + 1,
       idempotency_key := (case idempotency_key i of
          None \<Rightarrow> Some (i_job_id i @ '':'' @ i_id i) | Some k \<Rightarrow> Some k)\<rparr>"

definition claim_ids :: "bool \<Rightarrow> bool \<Rightarrow> string \<Rightarrow> int \<Rightarrow> instant \<Rightarrow> db \<Rightarrow> string list" where
  "claim_ids openai backfill job_id limit now d =
     map i_id (sql_limit limit
       (sort_key (claim_key openai backfill d) (filter (due_item job_id now) (job_items d))))"

text \<open>Items returned by the claim: the updated rows, in the order the ids were selected.\<close>

definition rows_by_id :: "string list \<Rightarrow> job_item list \<Rightarrow> job_item list" where
  "rows_by_id ids rows = List.map_filter (\<lambda>x. first_row (\<lambda>i. i_id i = x) rows) ids"

definition claim_rows :: "bool \<Rightarrow> bool \<Rightarrow> string \<Rightarrow> string \<Rightarrow> int \<Rightarrow> int \<Rightarrow> instant \<Rightarrow> db \<Rightarrow> job_item list \<times> db" where
  "claim_rows openai backfill job_id worker limit lease_seconds now d =
     (let ids = claim_ids openai backfill job_id limit now d;
          d1 = upd_items (\<lambda>i. i_id i \<in> set ids) (claim_update worker now (now + seconds lease_seconds)) d;
          d2 = upd_jobs (\<lambda>j. j_id j = job_id) (\<lambda>j. j\<lparr>heartbeat_at := Some now\<rparr>) d1
      in (rows_by_id ids (job_items d2), d2))"

definition claim :: "string \<Rightarrow> string \<Rightarrow> int \<Rightarrow> int \<Rightarrow> instant \<Rightarrow> db \<Rightarrow> repo_error + (job_item list \<times> db)" where
  "claim job_id worker limit lease_seconds now d =
     (case find_job job_id d of
        None \<Rightarrow> Inr ([], d)
      | Some job \<Rightarrow>
          if \<not> runnable_status (j_status job) then Inr ([], d)
          else case settings_json job of
            Malformed \<Rightarrow> Inl MalformedSettings
          | Encoded js \<Rightarrow>
             (case (dict_get js ''missing_analysis_backfill'', dict_get js ''complementary_lane'') of
                (Some flag, Some lane) \<Rightarrow>
                  (let backfill = py_truthy flag; openai = (lane = JStr ''openai_backfill'') in
                   if (backfill \<or> openai) \<and>
                      (\<not> (if openai then openai_backfill_allowed d else backfill_allowed d) \<or> urgent_work job now d)
                   then Inr ([], d)
                   else Inr (claim_rows openai backfill job_id worker limit lease_seconds now d))
              | _ \<Rightarrow> Inl MalformedSettings))"

definition renew_leases :: "string \<Rightarrow> string \<Rightarrow> int \<Rightarrow> instant \<Rightarrow> db \<Rightarrow> nat \<times> db" where
  "renew_leases job_id worker lease_seconds now d =
     (let p = (\<lambda>i. i_job_id i = job_id \<and> worker_id i = Some worker \<and> i_status i = IRunning);
          d1 = upd_items p (\<lambda>i. i\<lparr>lease_until := Some (now + seconds lease_seconds)\<rparr>) d
      in (row_count p (job_items d), upd_jobs (\<lambda>j. j_id j = job_id) (\<lambda>j. j\<lparr>heartbeat_at := Some now\<rparr>) d1))"

section \<open>Finishing items\<close>

text \<open>The result dict of a processor: the whole JSON value and the text fields the repository reads
  (\<open>None\<close> when absent or null).\<close>

record item_result =
  r_json :: json
  r_stage :: "string option"
  r_outcome_code :: "string option"
  r_outcome :: "string option"
  r_error_code :: "string option"

definition result_error :: "item_result \<Rightarrow> string option" where
  "result_error r =
     (if truthy_text (r_outcome_code r) \<or> r_outcome r = Some ''no_content'' then None
      else if truthy_text (r_error_code r) then r_error_code r else None)"

definition owned_by :: "string option \<Rightarrow> job_item \<Rightarrow> bool" where
  "owned_by worker i = (case worker of None \<Rightarrow> True | Some w \<Rightarrow> worker_id i = Some w)"

definition running_item :: "string \<Rightarrow> string \<Rightarrow> string option \<Rightarrow> job_item \<Rightarrow> bool" where
  "running_item job_id item_id worker i =
     (i_id i = item_id \<and> i_job_id i = job_id \<and> i_status i = IRunning \<and> owned_by worker i)"

text \<open>\<^verbatim>\<open>spent\<close> is left alone once the usage tables account for the job.\<close>

definition metered :: "string \<Rightarrow> db \<Rightarrow> bool" where
  "metered job_id d = (job_id \<in> set (api_usage_jobs d) \<or> job_id \<in> set (usage_archive_jobs d))"

definition add_spent :: "db \<Rightarrow> rat \<Rightarrow> job \<Rightarrow> rat" where
  "add_spent d cost j = (if metered (j_id j) d then spent j else spent j + cost)"

definition complete_item :: "string \<Rightarrow> string \<Rightarrow> item_result \<Rightarrow> rat \<Rightarrow> string option \<Rightarrow> instant \<Rightarrow> db \<Rightarrow> bool \<times> db" where
  "complete_item job_id item_id r cost worker now d =
     (let p = running_item job_id item_id worker;
          hit = (row_count p (job_items d) \<noteq> 0)
      in if (case find_job job_id d of None \<Rightarrow> True | Some j \<Rightarrow> j_status j = Cancelled)
         then (hit, upd_items p
                 (\<lambda>i. i\<lparr>i_status := ICancelled, completed_at := Some now, lease_until := None, worker_id := None\<rparr>) d)
         else
           let d1 = upd_items p
                 (\<lambda>i. i\<lparr>i_status := ICompleted, completed_at := Some now, result_json := Some (Encoded (r_json r)),
                        lease_until := None, worker_id := None, estimated_cost := cost,
                        stage := take 64 (str_or (r_stage r) ''completed''), error_code := result_error r\<rparr>) d
           in if hit
              then (True, upd_jobs (\<lambda>j. j_id j = job_id)
                      (\<lambda>j. j\<lparr>completed_items := completed_items j + 1, spent := add_spent d1 cost j,
                             heartbeat_at := Some now\<rparr>) d1)
              else (False, d1))"

definition record_late_completion :: "string \<Rightarrow> string \<Rightarrow> item_result \<Rightarrow> rat \<Rightarrow> string option \<Rightarrow> instant \<Rightarrow> db \<Rightarrow> bool \<times> db" where
  "record_late_completion job_id item_id r cost worker now d =
     (let p = running_item job_id item_id worker;
          d1 = upd_items p
             (\<lambda>i. i\<lparr>i_status := IFailed, completed_at := Some now, result_json := Some (Encoded (r_json r)),
                    error_code := Some ''JOB-004'', lease_until := None, worker_id := None,
                    completion_state := ''timed_out_completed'', dead_lettered_at := Some now\<rparr>) d
      in if row_count p (job_items d) = 0 then (False, d1)
         else (True, add_event job_id ''timed_out_completed'' now
                 (upd_jobs (\<lambda>j. j_id j = job_id)
                   (\<lambda>j. j\<lparr>failed_items := failed_items j + 1, spent := add_spent d1 cost j,
                          heartbeat_at := Some now\<rparr>) d1)))"

definition coalesce :: "'a option \<Rightarrow> 'a option \<Rightarrow> 'a option" where
  "coalesce a b = (case a of None \<Rightarrow> b | Some x \<Rightarrow> Some x)"

text \<open>\<open>retry_after\<close> is \<^verbatim>\<open>timedelta(seconds=retry_after_seconds)\<close> in microseconds.\<close>

definition defer_item :: "string \<Rightarrow> string option \<Rightarrow> int \<Rightarrow> bool \<Rightarrow> string option \<Rightarrow> instant \<Rightarrow> db \<Rightarrow> bool \<times> db" where
  "defer_item item_id worker retry_after defer_pending code now d =
     (let available = now + retry_after;
          p = (\<lambda>i. i_id i = item_id \<and> i_status i = IRunning \<and> owned_by worker i);
          hit = (row_count p (job_items d) \<noteq> 0);
          d1 = upd_items p
             (\<lambda>i. i\<lparr>i_status := IPending, worker_id := None, lease_until := None, available_at := available,
                    attempts := attempts i - 1, error_code := coalesce code (error_code i)\<rparr>) d;
          d2 = (if hit \<and> defer_pending then
                  (case first_row (\<lambda>i. i_id i = item_id) (job_items d1) of
                     None \<Rightarrow> d1
                   | Some own \<Rightarrow>
                      upd_items (\<lambda>i. i_job_id i = i_job_id own \<and> i_status i = IPending)
                        (\<lambda>i. i\<lparr>available_at := max (available_at i) available,
                               error_code := coalesce code (error_code i)\<rparr>) d1)
                else d1)
      in (hit, d2))"

definition next_error_id :: "job_error list \<Rightarrow> nat" where
  "next_error_id rows = Suc (foldr max (map er_id rows) 0)"

definition add_error :: "string \<Rightarrow> string option \<Rightarrow> string option \<Rightarrow> string \<Rightarrow> string \<Rightarrow> string \<Rightarrow> instant \<Rightarrow> db \<Rightarrow> db" where
  "add_error job_id item photo part code fp now d =
     d\<lparr>job_errors := job_errors d @
        [\<lparr>er_id = next_error_id (job_errors d), er_job_id = job_id, er_item_id = item, er_photo_id = photo,
          component = part, er_code = code, fingerprint = fp, occurrences = 1, first_seen_at = now,
          last_seen_at = now, resolved_at = None\<rparr>]\<rparr>"

definition error_text :: "string \<Rightarrow> string \<Rightarrow> string \<Rightarrow> string" where
  "error_text job_id item_id code = job_id @ '':'' @ item_id @ '':'' @ code"

text \<open>Repeated occurrences of an unresolved error are counted on its row.\<close>

definition record_error :: "(string \<Rightarrow> string) \<Rightarrow> string \<Rightarrow> job_item \<Rightarrow> string \<Rightarrow> instant \<Rightarrow> db \<Rightarrow> db" where
  "record_error digest job_id i code now d =
     (let fp = digest (error_text job_id (i_id i) code) in
      case first_row (\<lambda>e. fingerprint e = fp \<and> resolved_at e = None) (job_errors d) of
        Some e \<Rightarrow>
          d\<lparr>job_errors := update_where (\<lambda>x. er_id x = er_id e)
               (\<lambda>x. x\<lparr>occurrences := occurrences x + 1, last_seen_at := now\<rparr>) (job_errors d)\<rparr>
      | None \<Rightarrow> add_error job_id (Some (i_id i)) (photo_id i) ''worker'' code fp now d)"

definition retry_delay :: "int option \<Rightarrow> nat \<Rightarrow> int" where
  "retry_delay interval att = (case interval of Some s \<Rightarrow> max 1 s | None \<Rightarrow> min 300 (2 ^ att))"

definition fail_item :: "(string \<Rightarrow> string) \<Rightarrow> string \<Rightarrow> string \<Rightarrow> string \<Rightarrow> int \<Rightarrow> int option \<Rightarrow> string option \<Rightarrow>
    instant \<Rightarrow> db \<Rightarrow> bool \<times> db" where
  "fail_item digest job_id item_id code max_attempts retry_interval worker now d =
     (case first_row (running_item job_id item_id worker) (job_items d) of
        None \<Rightarrow> (False, d)
      | Some i \<Rightarrow>
          (let d1 = (if int (attempts i) \<ge> max_attempts
                     then upd_jobs (\<lambda>j. j_id j = job_id) (\<lambda>j. j\<lparr>failed_items := failed_items j + 1\<rparr>)
                            (upd_items (\<lambda>i. i_id i = item_id)
                               (\<lambda>i. i\<lparr>i_status := IFailed, completed_at := Some now, error_code := Some code,
                                      lease_until := None, worker_id := None, dead_lettered_at := Some now\<rparr>) d)
                     else upd_items (\<lambda>i. i_id i = item_id)
                            (\<lambda>x. x\<lparr>i_status := IPending,
                                   available_at := now + seconds (retry_delay retry_interval (attempts i)),
                                   error_code := Some code, lease_until := None, worker_id := None\<rparr>) d)
           in (True, record_error digest job_id i code now d1)))"

section \<open>Finalising and recovering\<close>

text \<open>The finalizer is the caller's: it writes in the same transaction or raises, with the class name and
  the message of its exception. Its failure is isolated by a savepoint.\<close>

definition run_finalizer :: "(string \<Rightarrow> string) \<Rightarrow>
    (db \<Rightarrow> string \<Rightarrow> job_status \<Rightarrow> (string \<times> string) + db) option \<Rightarrow> string \<Rightarrow> job_status \<Rightarrow> instant \<Rightarrow> db \<Rightarrow>
    job_status \<times> db" where
  "run_finalizer digest finalizer job_id target now d =
     (case finalizer of
        None \<Rightarrow> (target, d)
      | Some f \<Rightarrow>
         (case f d job_id target of
            Inr d' \<Rightarrow> (target, d')
          | Inl (cls, msg) \<Rightarrow>
              let message = (if take 1000 msg = [] then cls else take 1000 msg);
                  fp = digest (job_id @ '':finalizer:'' @ cls @ '':'' @ message)
              in (CompletedWithErrors,
                  add_event job_id ''finalizer_failed'' now
                    (add_error job_id None None ''finalizer'' ''JOB-FINALIZER-001'' fp now d))))"

definition finalize_if_done :: "(string \<Rightarrow> string) \<Rightarrow>
    (db \<Rightarrow> string \<Rightarrow> job_status \<Rightarrow> (string \<times> string) + db) option \<Rightarrow> string \<Rightarrow> instant \<Rightarrow> db \<Rightarrow> bool \<times> db" where
  "finalize_if_done digest finalizer job_id now d =
     (case find_job job_id d of
        None \<Rightarrow> (False, d)
      | Some j \<Rightarrow>
          if \<not> runnable_status (j_status j) then (False, d)
          else if items_of job_id open_item d > 0 then (False, d)
          else
            let target0 = (if items_of job_id (\<lambda>s. s = IFailed) d = 0 then Completed else CompletedWithErrors);
                (target, d1) = run_finalizer digest finalizer job_id target0 now d;
                p = (\<lambda>j. j_id j = job_id \<and> runnable_status (j_status j));
                d2 = upd_jobs p (\<lambda>j. j\<lparr>j_status := target, j_completed_at := Some now, heartbeat_at := Some now\<rparr>) d1
            in if row_count p (jobs d1) = 0 then (False, d2) else (True, add_event job_id ''finished'' now d2))"

definition stale_item :: "instant \<Rightarrow> job_item \<Rightarrow> bool" where
  "stale_item now i = (i_status i = IRunning \<and> (case lease_until i of None \<Rightarrow> True | Some t \<Rightarrow> t < now))"

fun extracted_truthy :: "json \<Rightarrow> bool" where
  "extracted_truthy (JArr _) = True"  \<comment> \<open>\<^verbatim>\<open>json_extract\<close> returns arrays and objects as text\<close>
| "extracted_truthy (JObj _) = True"
| "extracted_truthy v = py_truthy v"

fun seasonal_flag :: "json_text \<Rightarrow> bool" where
  "seasonal_flag (Encoded (JObj kvs)) =
     (case map_of kvs ''seasonal_analysis'' of None \<Rightarrow> False | Some v \<Rightarrow> extracted_truthy v)"
| "seasonal_flag _ = False"

text \<open>The body of the recovery loop for one row: a bounded number of attempts, then dead-lettered.\<close>

definition recover_one :: "(string \<Rightarrow> string) \<Rightarrow> instant \<Rightarrow> job_item \<times> bool \<Rightarrow> nat \<times> db \<Rightarrow> nat \<times> db" where
  "recover_one digest now row acc =
     (let (i, seasonal) = row; (recovered, d) = acc;
          p = (\<lambda>x. i_id x = i_id i \<and> stale_item now x);
          n = row_count p (job_items d)
      in if seasonal \<or> attempts i \<ge> MAX_STALE_RECOVERY_ATTEMPTS
         then
           (let d1 = upd_items p
               (\<lambda>x. x\<lparr>i_status := IFailed, completed_at := Some now, worker_id := None, lease_until := None,
                      error_code := Some ''WORKER_CRASH'', dead_lettered_at := Some now,
                      completion_state := ''worker_crash''\<rparr>) d
            in if n = 0 then (recovered, d1)
               else
                 let d2 = upd_jobs (\<lambda>j. j_id j = i_job_id i)
                            (\<lambda>j. j\<lparr>failed_items := failed_items j + 1, heartbeat_at := Some now\<rparr>) d1;
                     d3 = add_error (i_job_id i) (Some (i_id i)) (photo_id i) ''worker'' ''WORKER_CRASH''
                            (digest (error_text (i_job_id i) (i_id i) ''WORKER_CRASH'')) now d2
                 in (recovered + 1, add_event (i_job_id i) ''worker_crash'' now d3))
         else (recovered + n,
               upd_items p (\<lambda>x. x\<lparr>i_status := IPending, worker_id := None, lease_until := None, available_at := now\<rparr>) d))"

definition stale_rows :: "instant \<Rightarrow> db \<Rightarrow> (job_item \<times> bool) list" where
  "stale_rows now d =
     List.map_filter (\<lambda>i. map_option (\<lambda>j. (i, seasonal_flag (settings_json j))) (find_job (i_job_id i) d))
       (sort_key (\<lambda>i. (i_job_id i, i_id i)) (filter (stale_item now) (job_items d)))"

definition recover_stale :: "(string \<Rightarrow> string) \<Rightarrow> instant \<Rightarrow> db \<Rightarrow> nat \<times> db" where
  "recover_stale digest now d =
     (if row_count (stale_item now) (job_items d) = 0 \<and> row_count (\<lambda>j. j_status j = Pausing) (jobs d) = 0
      then (0, d)
      else
        let (recovered, d1) = fold (recover_one digest now) (stale_rows now d) (0, d)
        in (recovered,
            upd_jobs (\<lambda>j. j_status j = Pausing \<and> items_of (j_id j) (\<lambda>s. s = IRunning) d1 = 0)
                     (\<lambda>j. j\<lparr>j_status := Paused, heartbeat_at := Some now\<rparr>) d1))"

definition retry_failed :: "string \<Rightarrow> instant \<Rightarrow> db \<Rightarrow> repo_error + (nat \<times> db)" where
  "retry_failed job_id now d =
     (case find_job job_id d of
        None \<Rightarrow> Inr (0, d)
      | Some job \<Rightarrow>
          if j_status job \<noteq> Failed \<and> j_status job \<noteq> CompletedWithErrors then Inr (0, d)
          else if analysis_kind (kind job) \<and>
              (\<exists>p \<in> set (photos d). \<exists>i \<in> set (job_items d).
                 photo_id i = Some (p_id p) \<and> i_job_id i = job_id \<and> i_status i = IFailed \<and> reserved_analysis d p)
            then Inl AnalysisReservationConflict
          else
            let q = (\<lambda>i. i_job_id i = job_id \<and> i_status i = IFailed);
                n = row_count q (job_items d);
                d1 = upd_items q (\<lambda>i. i\<lparr>i_status := IPending, available_at := now, error_code := None,
                                        completed_at := None, dead_lettered_at := None\<rparr>) d
            in if n = 0 then Inr (0, d1)
               else case store_jobs (update_where
                        (\<lambda>j. j_id j = job_id \<and> (j_status j = Failed \<or> j_status j = CompletedWithErrors))
                        (\<lambda>j. j\<lparr>j_status := Pending, failed_items := 0, j_completed_at := None\<rparr>) (jobs d1)) d1 of
                      Inl e \<Rightarrow> Inl e
                    | Inr d2 \<Rightarrow> Inr (n, d2))"

section \<open>Batch items\<close>

definition batch_open :: "string \<Rightarrow> string \<Rightarrow> job_item \<Rightarrow> bool" where
  "batch_open job_id item_id i = (i_id i = item_id \<and> i_job_id i = job_id \<and> \<not> closed_item (i_status i))"

definition complete_batch_item :: "string \<Rightarrow> string \<Rightarrow> item_result \<Rightarrow> rat \<Rightarrow> instant \<Rightarrow> db \<Rightarrow> bool \<times> db" where
  "complete_batch_item job_id item_id r cost now d =
     (let p = batch_open job_id item_id;
          d1 = upd_items p (\<lambda>i. i\<lparr>i_status := ICompleted, completed_at := Some now,
                 result_json := Some (Encoded (r_json r)), estimated_cost := cost, stage := ''analysis_batch'',
                 lease_until := None\<rparr>) d
      in if row_count p (job_items d) = 0 then (False, d1)
         else (True, upd_jobs (\<lambda>j. j_id j = job_id)
                 (\<lambda>j. j\<lparr>completed_items := completed_items j + 1, spent := add_spent d1 cost j,
                        heartbeat_at := Some now\<rparr>) d1))"

definition fail_batch_item :: "(string \<Rightarrow> string) \<Rightarrow> string \<Rightarrow> string \<Rightarrow> string \<Rightarrow> instant \<Rightarrow> db \<Rightarrow> bool \<times> db" where
  "fail_batch_item digest job_id item_id code now d =
     (let p = batch_open job_id item_id;
          d1 = upd_items p (\<lambda>i. i\<lparr>i_status := IFailed, completed_at := Some now, error_code := Some code,
                 stage := ''analysis_batch'', lease_until := None\<rparr>) d
      in if row_count p (job_items d) = 0 then (False, d1)
         else
           let d2 = upd_jobs (\<lambda>j. j_id j = job_id)
                      (\<lambda>j. j\<lparr>failed_items := failed_items j + 1, heartbeat_at := Some now\<rparr>) d1
           in (True, (case first_row (\<lambda>i. i_id i = item_id) (job_items d2) of
                  None \<Rightarrow> d2
                | Some i \<Rightarrow> add_error job_id (Some item_id) (photo_id i) ''analysis_batch'' code
                              (digest (error_text job_id item_id code)) now d2)))"

definition cancel_batch_item :: "string \<Rightarrow> string \<Rightarrow> string \<Rightarrow> instant \<Rightarrow> db \<Rightarrow> bool \<times> db" where
  "cancel_batch_item job_id item_id reason now d =
     (let p = batch_open job_id item_id;
          d1 = upd_items p (\<lambda>i. i\<lparr>i_status := ICancelled, completed_at := Some now,
                 error_code := Some (take 120 reason), stage := ''analysis_batch'', lease_until := None\<rparr>) d
      in if row_count p (job_items d) = 0 then (False, d1)
         else (True, upd_jobs (\<lambda>j. j_id j = job_id \<and> j_status j \<noteq> Cancelled)
                 (\<lambda>j. j\<lparr>heartbeat_at := Some now\<rparr>) d1))"

definition finalize_batch_job :: "string \<Rightarrow> job_status \<Rightarrow> instant \<Rightarrow> db \<Rightarrow> repo_error + (bool \<times> db)" where
  "finalize_batch_job job_id status now d =
     (if \<not> terminal_status status then Inl InvalidTerminalStatus
      else
        let p = (\<lambda>j. j_id j = job_id \<and> \<not> terminal_status (j_status j)) in
        Inr (row_count p (jobs d) \<noteq> 0,
             upd_jobs p (\<lambda>j. j\<lparr>j_status := status, j_completed_at := Some now, heartbeat_at := Some now\<rparr>) d))"

definition abandon_unstarted :: "string \<Rightarrow> string \<Rightarrow> instant \<Rightarrow> db \<Rightarrow> bool \<times> db" where
  "abandon_unstarted job_id code now d =
     (let p = (\<lambda>j. j_id j = job_id \<and> j_status j = Pending) in
      if row_count p (jobs d) = 0 then (False, d)
      else
        let d1 = upd_jobs p (\<lambda>j. j\<lparr>j_status := Failed, j_completed_at := Some now, heartbeat_at := Some now\<rparr>) d;
            d2 = upd_items (\<lambda>i. i_job_id i = job_id \<and> (i_status i = IPending \<or> i_status i = IRetrying))
                   (\<lambda>i. i\<lparr>i_status := IFailed, completed_at := Some now, error_code := Some code\<rparr>) d1
        in (True, add_event job_id ''reservation_conflict'' now d2))"

text \<open>\<^verbatim>\<open>reopen_batch_job\<close> inside the caller's transaction, as its only call site uses it; no event is
  added there, because the connection is still in the transaction.\<close>

definition reopen_batch_job :: "string \<Rightarrow> instant \<Rightarrow> db \<Rightarrow> repo_error + (bool \<times> db)" where
  "reopen_batch_job job_id now d =
     (let p = (\<lambda>j. j_id j = job_id \<and> j_status j \<in> {Pending, Running, Retrying, Failed, CompletedWithErrors}) in
      case store_jobs (update_where p
             (\<lambda>j. j\<lparr>j_status := Running, j_completed_at := None, heartbeat_at := Some now\<rparr>) (jobs d)) d of
        Inl e \<Rightarrow> Inl e
      | Inr d1 \<Rightarrow>
          if row_count p (jobs d) = 0 then Inr (False, d1)
          else
            let d2 = upd_items (\<lambda>i. i_job_id i = job_id \<and> (i_status i = IFailed \<or> i_status i = IRetrying))
                       (\<lambda>i. i\<lparr>i_status := IPending, completed_at := None, error_code := None, lease_until := None\<rparr>) d1;
                d3 = upd_jobs (\<lambda>j. j_id j = job_id)
                       (\<lambda>j. j\<lparr>completed_items := items_of job_id (\<lambda>s. s = ICompleted) d2,
                              failed_items := items_of job_id (\<lambda>s. s = IFailed) d2\<rparr>) d2
            in Inr (True, d3))"

section \<open>Reading the queue\<close>

definition can_commit_item :: "string \<Rightarrow> string \<Rightarrow> string \<Rightarrow> string \<Rightarrow> instant \<Rightarrow> db \<Rightarrow> bool" where
  "can_commit_item job_id item_id worker key now d =
     (case (find_job job_id d, first_row (\<lambda>i. i_id i = item_id \<and> i_job_id i = job_id) (job_items d)) of
        (Some j, Some i) \<Rightarrow>
          j_status j \<in> {Running, Retrying, Pausing} \<and> i_status i = IRunning \<and>
          coalesce_text (worker_id i) = worker \<and> coalesce_text (idempotency_key i) = key \<and>
          (case lease_until i of None \<Rightarrow> False | Some t \<Rightarrow> now < t)
      | _ \<Rightarrow> False)"

definition can_access :: "string \<Rightarrow> string \<Rightarrow> bool \<Rightarrow> db \<Rightarrow> bool" where
  "can_access job_id user administrator d =
     (case find_job job_id d of
        None \<Rightarrow> False
      | Some j \<Rightarrow> administrator \<or> coalesce_text (created_by j) = user)"

definition failed_photo_ids :: "string \<Rightarrow> db \<Rightarrow> string list" where
  "failed_photo_ids job_id d =
     List.map_filter photo_id (sort_key i_id
        (filter (\<lambda>i. i_job_id i = job_id \<and> i_status i = IFailed \<and> photo_id i \<noteq> None) (job_items d)))"

definition failure_codes :: "string \<Rightarrow> db \<Rightarrow> string list" where
  "failure_codes job_id d =
     map (\<lambda>i. coalesce_text (error_code i))
       (sort_key i_id (filter (\<lambda>i. i_job_id i = job_id \<and> truthy_text (error_code i)) (job_items d)))"

end
