(* ===== verification/Job_Invariant.thy ===== *)
theory Job_Invariant
  imports Job_Repository
begin

text \<open>
  The well-formedness of the queue's tables and its preservation by every operation of
  \<open>Job_Repository\<close>: keys and foreign keys, the partial unique index on active dedupe keys, the
  priority range, the shape of a running item (owner, lease, idempotency key, at least one
  attempt), and the job counters against the items they count.
\<close>

section \<open>The invariant\<close>

definition running_ok :: "job_item \<Rightarrow> bool" where
  "running_ok i =
     (i_status i = IRunning \<longrightarrow>
        worker_id i \<noteq> None \<and> lease_until i \<noteq> None \<and> idempotency_key i \<noteq> None \<and> 0 < attempts i)"

definition item_pair :: "job_item \<Rightarrow> (string \<times> string) option" where
  "item_pair i = map_option (Pair (i_job_id i)) (photo_id i)"

definition wf_core :: "db \<Rightarrow> bool" where
  "wf_core d =
     (jobs_unique (jobs d) \<and> distinct (map i_id (job_items d)) \<and>
      i_job_id ` set (job_items d) \<subseteq> j_id ` set (jobs d) \<and> unique_key item_pair (job_items d) \<and>
      (\<forall>j \<in> set (jobs d). 1 \<le> priority j \<and> priority j \<le> 6) \<and>
      (\<forall>i \<in> set (job_items d). running_ok i))"

definition wf_counts :: "db \<Rightarrow> bool" where
  "wf_counts d =
     (\<forall>j \<in> set (jobs d).
        completed_items j = items_of (j_id j) (\<lambda>s. s = ICompleted) d \<and>
        failed_items j \<le> items_of (j_id j) (\<lambda>s. s = IFailed) d)"

definition wf_db :: "db \<Rightarrow> bool" where
  "wf_db d = (wf_core d \<and> wf_counts d)"

section \<open>Frames\<close>

named_theorems job_frame

lemma jobs_frames [job_frame, simp]:
  "jobs (add_event jid ev now d) = jobs d" "job_items (add_event jid ev now d) = job_items d"
  "jobs (upd_items p f d) = jobs d" "job_items (upd_jobs q g d) = job_items d"
  "jobs (upd_jobs q g d) = update_where q g (jobs d)"
  "job_items (upd_items p f d) = update_where p f (job_items d)"
  "jobs (add_error jid it ph c code fp now d) = jobs d"
  "job_items (add_error jid it ph c code fp now d) = job_items d"
  by (simp_all add: add_event_def upd_items_def upd_jobs_def add_error_def)

lemma record_error_frames [job_frame, simp]:
  "jobs (record_error h jid i code now d) = jobs d"
  "job_items (record_error h jid i code now d) = job_items d"
  by (simp_all add: record_error_def Let_def split: option.split)

lemma wf_frame:
  "jobs d' = jobs d \<Longrightarrow> job_items d' = job_items d \<Longrightarrow> wf_db d' = wf_db d"
  by (simp add: wf_db_def wf_core_def wf_counts_def items_of_def)

lemma wf_add_event [simp]: "wf_db (add_event jid ev now d) = wf_db d"
  by (rule wf_frame) simp_all

lemma wf_add_error [simp]: "wf_db (add_error jid it ph c code fp now d) = wf_db d"
  by (rule wf_frame) simp_all

lemma wf_record_error [simp]: "wf_db (record_error h jid i code now d) = wf_db d"
  by (rule wf_frame) simp_all

lemma items_of_upd_jobs [simp]: "items_of jid q (upd_jobs p f d) = items_of jid q d"
  by (simp add: items_of_def)

lemma items_of_add_event [simp]: "items_of jid q (add_event j ev now d) = items_of jid q d"
  by (simp add: items_of_def)

lemma items_of_jobs_update [simp]: "items_of jid q (d\<lparr>jobs := js\<rparr>) = items_of jid q d"
  by (simp add: items_of_def)

lemma wf_ids: "wf_db d \<Longrightarrow> distinct (map j_id (jobs d)) \<and> distinct (map i_id (job_items d))"
  by (simp add: wf_db_def wf_core_def jobs_unique_def)

lemma find_job_Some: "find_job jid d = Some j \<Longrightarrow> j \<in> set (jobs d) \<and> j_id j = jid"
  unfolding find_job_def by (blast dest: first_row_Some)

section \<open>Unique keys under updates\<close>

lemma in_map_filter: "y \<in> set (List.map_filter k rows) \<longleftrightarrow> (\<exists>r \<in> set rows. k r = Some y)"
  by (induction rows) (auto simp: List.map_filter_simps split: option.splits)

lemma unique_key_Cons:
  "unique_key k (x # xs) \<longleftrightarrow> unique_key k xs \<and> (case k x of None \<Rightarrow> True | Some v \<Rightarrow> \<forall>r \<in> set xs. k r \<noteq> Some v)"
  by (auto simp: unique_key_def List.map_filter_simps in_map_filter split: option.splits)

lemma unique_key_map:
  "(\<And>r. r \<in> set rows \<Longrightarrow> k (g r) = k r \<or> k (g r) = None) \<Longrightarrow> unique_key k rows \<Longrightarrow> unique_key k (map g rows)"
proof (induction rows)
  case Nil
  then show ?case by (simp add: unique_key_def)
next
  case (Cons a rows)
  then have IH: "unique_key k (map g rows)" by (simp add: unique_key_Cons)
  have "k r' \<noteq> Some v" if "k (g a) = Some v" "r' \<in> set (map g rows)" for v r'
  proof -
    from that obtain r where r: "r \<in> set rows" "r' = g r" by auto
    have "k a = Some v" using Cons.prems(1) [of a] that(1) by simp
    with Cons.prems(2) r(1) have "k r \<noteq> Some v" by (simp add: unique_key_Cons)
    then show ?thesis using Cons.prems(1) [of r] r by auto
  qed
  with IH show ?case by (auto simp: unique_key_Cons split: option.splits)
qed

lemma unique_key_update:
  "(\<And>r. r \<in> set rows \<Longrightarrow> p r \<Longrightarrow> k (f r) = k r \<or> k (f r) = None) \<Longrightarrow> unique_key k rows \<Longrightarrow>
   unique_key k (update_where p f rows)"
  unfolding update_where_def by (rule unique_key_map) auto

lemma unique_key_append:
  "unique_key k (xs @ [y]) \<longleftrightarrow> unique_key k xs \<and> (case k y of None \<Rightarrow> True | Some v \<Rightarrow> \<forall>x \<in> set xs. k x \<noteq> Some v)"
proof (induction xs)
  case (Cons a xs)
  then show ?case by (auto simp: unique_key_Cons split: option.splits)
qed (simp add: unique_key_def List.map_filter_simps split: option.split)

section \<open>Item updates\<close>

definition keeps_ids :: "(job_item \<Rightarrow> job_item) \<Rightarrow> bool" where
  "keeps_ids f = (\<forall>i. i_id (f i) = i_id i \<and> i_job_id (f i) = i_job_id i \<and> photo_id (f i) = photo_id i)"

lemma wf_core_upd_items:
  assumes "wf_core d" "keeps_ids f" "\<And>i. i \<in> set (job_items d) \<Longrightarrow> p i \<Longrightarrow> running_ok (f i)"
  shows "wf_core (upd_items p f d)"
proof -
  have ids: "map i_id (update_where p f (job_items d)) = map i_id (job_items d)"
    using assms(2) by (simp add: map_update_where keeps_ids_def)
  have "map i_job_id (update_where p f (job_items d)) = map i_job_id (job_items d)"
    using assms(2) by (simp add: map_update_where keeps_ids_def)
  then have jids: "i_job_id ` set (update_where p f (job_items d)) = i_job_id ` set (job_items d)"
    by (metis set_map)
  have pairs: "unique_key item_pair (update_where p f (job_items d))"
    using assms(1,2) by (intro unique_key_update) (auto simp: wf_core_def item_pair_def keeps_ids_def)
  show ?thesis using assms(1,3) ids jids pairs
    by (auto simp: wf_core_def set_update_where)
qed

text \<open>How an update of items acts on the number of items of a job in a status.\<close>

lemma items_of_same:
  assumes "keeps_ids f" "\<And>i. i \<in> set (job_items d) \<Longrightarrow> p i \<Longrightarrow> q (i_status (f i)) = q (i_status i)"
  shows "items_of jid q (upd_items p f d) = items_of jid q d"
  unfolding items_of_def using assms by (simp add: row_count_same keeps_ids_def)

lemma items_of_grow:
  assumes "keeps_ids f" "\<And>i. i \<in> set (job_items d) \<Longrightarrow> p i \<Longrightarrow> q (i_status i) \<Longrightarrow> q (i_status (f i))"
  shows "items_of jid q d \<le> items_of jid q (upd_items p f d)"
  unfolding items_of_def jobs_frames row_count_update_where
  using assms by (intro row_count_mono) (auto simp: keeps_ids_def)

lemma items_of_one:
  assumes "wf_db d" "keeps_ids f" "row_count p (job_items d) \<noteq> 0"
    and "\<And>i. p i \<Longrightarrow> i_id i = x \<and> i_job_id i = job \<and> \<not> q (i_status i) \<and> q (i_status (f i))"
  shows "items_of jid q (upd_items p f d) = items_of jid q d + (if jid = job then 1 else 0)"
proof -
  have p_eq: "p = (\<lambda>i. i_id i = x \<and> p i)" using assms(4) by auto
  have "row_count p (job_items d) \<le> 1"
    using row_count_key_le_one [of i_id "job_items d" x p] wf_ids [OF assms(1)] p_eq by simp
  with assms(3) have one: "row_count p (job_items d) = 1" by simp
  have "row_count (\<lambda>i. p i \<and> (i_job_id (f i) = jid \<and> q (i_status (f i)))) (job_items d)
        = (if jid = job then 1 else 0)"
  proof (cases "jid = job")
    case True
    then have "row_count (\<lambda>i. p i \<and> (i_job_id (f i) = jid \<and> q (i_status (f i)))) (job_items d)
      = row_count p (job_items d)"
      using assms(2,4) by (intro row_count_cong) (auto simp: keeps_ids_def)
    with one True show ?thesis by simp
  next
    case False
    then show ?thesis using assms(2,4) by (auto simp: row_count_zero_iff keeps_ids_def)
  qed
  then show ?thesis
    unfolding items_of_def jobs_frames
    by (subst row_count_gain) (use assms(4) in auto)
qed

text \<open>An update that neither completes an item nor takes a failed one back keeps the invariant.\<close>

lemma wf_upd_items:
  assumes "wf_db d" "keeps_ids f" "\<And>i. i \<in> set (job_items d) \<Longrightarrow> p i \<Longrightarrow> running_ok (f i)"
    and "\<And>i. i \<in> set (job_items d) \<Longrightarrow> p i \<Longrightarrow>
           (i_status (f i) = ICompleted) = (i_status i = ICompleted) \<and>
           (i_status i = IFailed \<longrightarrow> i_status (f i) = IFailed)"
  shows "wf_db (upd_items p f d)"
proof -
  have c: "items_of jid (\<lambda>s. s = ICompleted) (upd_items p f d) = items_of jid (\<lambda>s. s = ICompleted) d" for jid
    by (rule items_of_same [OF assms(2)]) (use assms(4) in blast)
  have f: "items_of jid (\<lambda>s. s = IFailed) d \<le> items_of jid (\<lambda>s. s = IFailed) (upd_items p f d)" for jid
    by (rule items_of_grow [OF assms(2)]) (use assms(4) in blast)
  show ?thesis
    using assms(1-3) c f wf_core_upd_items [OF _ assms(2), of d p]
    by (auto simp: wf_db_def wf_counts_def intro: le_trans)
qed

section \<open>Job updates\<close>

definition keeps_job :: "(job \<Rightarrow> job) \<Rightarrow> bool" where
  "keeps_job f = (\<forall>j. j_id (f j) = j_id j \<and> priority (f j) = priority j)"

lemma wf_core_upd_jobs:
  assumes "wf_core d" "keeps_job f"
    and "\<And>j. j \<in> set (jobs d) \<Longrightarrow> p j \<Longrightarrow> active_dedupe (f j) = active_dedupe j \<or> active_dedupe (f j) = None"
  shows "wf_core (upd_jobs p f d)"
proof -
  have ids: "map j_id (update_where p f (jobs d)) = map j_id (jobs d)"
    using assms(2) by (simp add: map_update_where keeps_job_def)
  have jids: "j_id ` set (update_where p f (jobs d)) = j_id ` set (jobs d)"
    using ids by (metis set_map)
  have uniq: "unique_key active_dedupe (update_where p f (jobs d))"
    using assms(1,3) by (intro unique_key_update) (auto simp: wf_core_def jobs_unique_def)
  show ?thesis using assms(1,2) ids jids uniq
    by (auto simp: wf_core_def jobs_unique_def set_update_where keeps_job_def)
qed

lemma wf_counts_upd_jobs:
  assumes "keeps_job f"
    and "\<And>j. j \<in> set (jobs d) \<Longrightarrow> \<not> p j \<Longrightarrow>
           completed_items j = items_of (j_id j) (\<lambda>s. s = ICompleted) d \<and>
           failed_items j \<le> items_of (j_id j) (\<lambda>s. s = IFailed) d"
    and "\<And>j. j \<in> set (jobs d) \<Longrightarrow> p j \<Longrightarrow>
           completed_items (f j) = items_of (j_id j) (\<lambda>s. s = ICompleted) d \<and>
           failed_items (f j) \<le> items_of (j_id j) (\<lambda>s. s = IFailed) d"
  shows "wf_counts (upd_jobs p f d)"
  using assms by (auto simp: wf_counts_def set_update_where keeps_job_def)

lemma wf_upd_jobs:
  assumes "wf_db d" "keeps_job f"
    and "\<And>j. j \<in> set (jobs d) \<Longrightarrow> p j \<Longrightarrow> active_dedupe (f j) = active_dedupe j \<or> active_dedupe (f j) = None"
    and "\<And>j. j \<in> set (jobs d) \<Longrightarrow> p j \<Longrightarrow>
           completed_items (f j) = items_of (j_id j) (\<lambda>s. s = ICompleted) d \<and>
           failed_items (f j) \<le> items_of (j_id j) (\<lambda>s. s = IFailed) d"
  shows "wf_db (upd_jobs p f d)"
  using assms wf_core_upd_jobs [of d f p] wf_counts_upd_jobs [of f d p]
  by (auto simp: wf_db_def wf_counts_def)

text \<open>The common case: counters untouched.\<close>

lemma wf_upd_jobs_simple:
  assumes "wf_db d" "keeps_job f"
    and "\<And>j. p j \<Longrightarrow> active_dedupe (f j) = active_dedupe j \<or> active_dedupe (f j) = None"
    and "\<And>j. completed_items (f j) = completed_items j \<and> failed_items (f j) = failed_items j"
  shows "wf_db (upd_jobs p f d)"
  using assms by (intro wf_upd_jobs) (auto simp: wf_db_def wf_counts_def)

text \<open>Writes to \<^verbatim>\<open>jobs\<close> that may violate a unique index.\<close>

lemma wf_store_jobs:
  assumes "wf_core d" "store_jobs (update_where p f (jobs d)) d = Inr d'" "keeps_job f"
    and "\<And>j. j \<in> set (jobs d) \<Longrightarrow> \<not> p j \<Longrightarrow>
           completed_items j = items_of (j_id j) (\<lambda>s. s = ICompleted) d \<and>
           failed_items j \<le> items_of (j_id j) (\<lambda>s. s = IFailed) d"
    and "\<And>j. j \<in> set (jobs d) \<Longrightarrow> p j \<Longrightarrow>
           completed_items (f j) = items_of (j_id j) (\<lambda>s. s = ICompleted) d \<and>
           failed_items (f j) \<le> items_of (j_id j) (\<lambda>s. s = IFailed) d"
  shows "wf_db d'"
proof -
  have d': "d' = upd_jobs p f d" and uniq: "jobs_unique (update_where p f (jobs d))"
    using assms(2) by (auto simp: store_jobs_def upd_jobs_def split: if_splits)
  have "map j_id (update_where p f (jobs d)) = map j_id (jobs d)"
    using assms(3) by (simp add: map_update_where keeps_job_def)
  then have "j_id ` set (update_where p f (jobs d)) = j_id ` set (jobs d)"
    by (metis set_map)
  then have "wf_core d'"
    using assms(1,3) uniq unfolding d' wf_core_def
    by (auto simp: set_update_where keeps_job_def)
  moreover have "wf_counts d'"
    unfolding d' using assms(3-5) by (rule wf_counts_upd_jobs)
  ultimately show ?thesis by (simp add: wf_db_def)
qed

text \<open>An update of one job's items does not change the counts of another job.\<close>

lemma items_of_other:
  assumes "keeps_ids f" "\<And>i. p i \<Longrightarrow> i_job_id i = job" "jid \<noteq> job"
  shows "items_of jid q (upd_items p f d) = items_of jid q d"
proof -
  have "i_job_id (f i) \<noteq> jid" if "p i" for i
    using assms that by (auto simp: keeps_ids_def)
  then show ?thesis
    unfolding items_of_def using assms(2,3) by (auto intro: row_count_same)
qed

section \<open>Finishing one item\<close>

lemma wf_complete_one:
  assumes "wf_db d" "keeps_ids f" "keeps_job g" "row_count p (job_items d) \<noteq> 0"
    and "\<And>i. p i \<Longrightarrow> i_id i = x \<and> i_job_id i = job \<and> i_status i \<noteq> ICompleted \<and> i_status i \<noteq> IFailed"
    and "\<And>i. i_status (f i) = ICompleted"
    and "\<And>j. completed_items (g j) = completed_items j + 1 \<and> failed_items (g j) = failed_items j
            \<and> active_dedupe (g j) = active_dedupe j"
  shows "wf_db (upd_jobs (\<lambda>j. j_id j = job) g (upd_items p f d))"
proof -
  let ?d = "upd_items p f d"
  have c: "items_of jid (\<lambda>s. s = ICompleted) ?d =
      items_of jid (\<lambda>s. s = ICompleted) d + (if jid = job then 1 else 0)" for jid
    by (rule items_of_one [OF assms(1,2,4)]) (use assms(5,6) in auto)
  have fl: "items_of jid (\<lambda>s. s = IFailed) ?d = items_of jid (\<lambda>s. s = IFailed) d" for jid
    by (rule items_of_same [OF assms(2)]) (use assms(5,6) in auto)
  have "wf_core ?d"
    using assms(1,2,6) by (intro wf_core_upd_items) (auto simp: wf_db_def running_ok_def)
  then have "wf_core (upd_jobs (\<lambda>j. j_id j = job) g ?d)"
    using assms(3,7) by (intro wf_core_upd_jobs) auto
  moreover have "wf_counts (upd_jobs (\<lambda>j. j_id j = job) g ?d)"
    using assms(1,3,7) by (intro wf_counts_upd_jobs) (auto simp: c fl wf_db_def wf_counts_def)
  ultimately show ?thesis by (simp add: wf_db_def)
qed

lemma wf_fail_one:
  assumes "wf_db d" "keeps_ids f" "keeps_job g" "row_count p (job_items d) \<noteq> 0"
    and "\<And>i. p i \<Longrightarrow> i_id i = x \<and> i_job_id i = job \<and> i_status i \<noteq> ICompleted \<and> i_status i \<noteq> IFailed"
    and "\<And>i. i_status (f i) = IFailed"
    and "\<And>j. completed_items (g j) = completed_items j \<and> failed_items (g j) = failed_items j + 1
            \<and> active_dedupe (g j) = active_dedupe j"
  shows "wf_db (upd_jobs (\<lambda>j. j_id j = job) g (upd_items p f d))"
proof -
  let ?d = "upd_items p f d"
  have c: "items_of jid (\<lambda>s. s = IFailed) ?d =
      items_of jid (\<lambda>s. s = IFailed) d + (if jid = job then 1 else 0)" for jid
    by (rule items_of_one [OF assms(1,2,4)]) (use assms(5,6) in auto)
  have cm: "items_of jid (\<lambda>s. s = ICompleted) ?d = items_of jid (\<lambda>s. s = ICompleted) d" for jid
    by (rule items_of_same [OF assms(2)]) (use assms(5,6) in auto)
  have "wf_core ?d"
    using assms(1,2,6) by (intro wf_core_upd_items) (auto simp: wf_db_def running_ok_def)
  then have "wf_core (upd_jobs (\<lambda>j. j_id j = job) g ?d)"
    using assms(3,7) by (intro wf_core_upd_jobs) auto
  moreover have "wf_counts (upd_jobs (\<lambda>j. j_id j = job) g ?d)"
    using assms(1,3,7) by (intro wf_counts_upd_jobs) (auto simp: c cm wf_db_def wf_counts_def)
  ultimately show ?thesis by (simp add: wf_db_def)
qed

end
