(* ===== verification/Job_Preservation.thy ===== *)
theory Job_Preservation
  imports Job_Invariant
begin

text \<open>
  Every operation of the job repository keeps the well-formedness of the queue. The hook of
  \<^verbatim>\<open>create\<close>, the guard of \<^verbatim>\<open>create_maintenance_atomic\<close> and the finalizer of
  \<^verbatim>\<open>finalize_if_done\<close> are the caller's code; they are assumed to keep it themselves.
\<close>

lemmas op_simps = keeps_ids_def keeps_job_def running_ok_def active_dedupe_def status_defs Let_def

lemma wf_counts_of:
  "wf_db d \<Longrightarrow> j \<in> set (jobs d) \<Longrightarrow>
     completed_items j = items_of (j_id j) (\<lambda>s. s = ICompleted) d \<and>
     failed_items j \<le> items_of (j_id j) (\<lambda>s. s = IFailed) d"
  by (simp add: wf_db_def wf_counts_def)

lemma wf_running_ok: "wf_db d \<Longrightarrow> i \<in> set (job_items d) \<Longrightarrow> running_ok i"
  by (simp add: wf_db_def wf_core_def)

section \<open>Status changes\<close>

lemma wf_heartbeat:
  "wf_db d \<Longrightarrow> wf_db (upd_jobs p (\<lambda>j. j\<lparr>heartbeat_at := t\<rparr>) d)"
  by (rule wf_upd_jobs_simple) (auto simp: op_simps)

lemma wf_fail_invalid_settings:
  assumes "wf_db d" shows "wf_db (snd (fail_invalid_settings job_id now d))"
proof -
  let ?p = "\<lambda>j. j_id j = job_id \<and> runnable_status (j_status j) \<and> items_of (j_id j) (\<lambda>s. s = IRunning) d = 0"
  let ?d1 = "upd_jobs ?p (\<lambda>j. j\<lparr>j_status := Failed, j_completed_at := Some now, heartbeat_at := Some now\<rparr>) d"
  let ?d2 = "upd_items (\<lambda>i. i_job_id i = job_id \<and> (i_status i = IPending \<or> i_status i = IRetrying))
     (\<lambda>i. i\<lparr>i_status := IFailed, completed_at := Some now, error_code := Some ''JOB-001'',
            worker_id := None, lease_until := None, dead_lettered_at := Some now\<rparr>) ?d1"
  have "wf_db ?d1" using assms by (rule wf_upd_jobs_simple) (auto simp: op_simps)
  then have d2: "wf_db ?d2" by (rule wf_upd_items) (auto simp: op_simps)
  have "wf_db (upd_jobs (\<lambda>j. j_id j = job_id)
           (\<lambda>j. j\<lparr>failed_items := items_of job_id (\<lambda>s. s = IFailed) ?d2\<rparr>) ?d2)"
    using d2 wf_counts_of [OF d2] by (intro wf_upd_jobs) (auto simp: op_simps)
  then show ?thesis using assms by (simp add: fail_invalid_settings_def Let_def)
qed

lemma wf_transition:
  assumes "wf_db d" "transition job_id from to_status ev now d = Inr (b, d')" shows "wf_db d'"
proof -
  obtain d1 where s: "store_jobs (update_where (\<lambda>j. j_id j = job_id \<and> j_status j \<in> set from)
      (\<lambda>j. j\<lparr>j_status := to_status, heartbeat_at := Some now\<rparr>) (jobs d)) d = Inr d1"
    and d': "d' = d1 \<or> d' = add_event job_id ev now d1"
    using assms(2) by (auto simp: transition_def Let_def split: sum.splits if_splits)
  have "wf_db d1"
    using _ s by (rule wf_store_jobs) (use assms(1) wf_counts_of [OF assms(1)] in \<open>auto simp: op_simps wf_db_def\<close>)
  with d' show ?thesis by auto
qed

lemma wf_request_pause:
  assumes "wf_db d" shows "wf_db (snd (request_pause job_id now d))"
proof (cases "find_job job_id d")
  case None
  then show ?thesis using assms by (simp add: request_pause_def)
next
  case (Some j)
  show ?thesis
  proof (cases "runnable_status (j_status j)")
    case True
    have same: "x = j" if "x \<in> set (jobs d)" "j_id x = job_id" for x
      using key_inj [of j_id "jobs d" x j] wf_ids [OF assms] find_job_Some [OF Some] that by simp
    have "wf_db (upd_jobs (\<lambda>j. j_id j = job_id)
            (\<lambda>j. j\<lparr>j_status := t, pause_requested_at := Some now, heartbeat_at := Some now\<rparr>) d)"
      if "t = Paused \<or> t = Pausing" for t
      using assms that True wf_counts_of [OF assms] by (intro wf_upd_jobs) (auto simp: op_simps dest: same)
    then show ?thesis using Some True by (simp add: request_pause_def Let_def)
  qed (use assms Some in \<open>simp add: request_pause_def\<close>)
qed

lemma wf_acknowledge_pause:
  assumes "wf_db d" shows "wf_db (snd (acknowledge_pause job_id now d))"
proof -
  have "wf_db (upd_jobs (\<lambda>j. j_id j = job_id \<and> j_status j = Pausing \<and> items_of (j_id j) (\<lambda>s. s = IRunning) d = 0)
     (\<lambda>j. j\<lparr>j_status := Paused, heartbeat_at := Some now\<rparr>) d)"
    using assms by (rule wf_upd_jobs_simple) (auto simp: op_simps)
  then show ?thesis by (simp add: acknowledge_pause_def Let_def)
qed

lemma wf_cancel:
  assumes "wf_db d" shows "wf_db (snd (cancel job_id now d))"
proof -
  let ?d1 = "upd_jobs (\<lambda>j. j_id j = job_id \<and> \<not> terminal_status (j_status j))
     (\<lambda>j. j\<lparr>j_status := Cancelled, cancel_requested_at := Some now, j_completed_at := Some now\<rparr>) d"
  have "wf_db ?d1" using assms by (rule wf_upd_jobs_simple) (auto simp: op_simps)
  then have "wf_db (upd_items (\<lambda>i. i_job_id i = job_id \<and> (i_status i = IPending \<or> i_status i = IRetrying))
     (\<lambda>i. i\<lparr>i_status := ICancelled, completed_at := Some now\<rparr>) ?d1)"
    by (rule wf_upd_items) (auto simp: op_simps)
  then show ?thesis using assms by (simp add: cancel_def Let_def)
qed

section \<open>Claims and leases\<close>

lemma claim_ids_due:
  assumes "wf_db d" "i \<in> set (job_items d)" "i_id i \<in> set (claim_ids oa b job_id limit now d)"
  shows "due_item job_id now i"
proof -
  obtain k where k: "k \<in> set (job_items d)" "due_item job_id now k" "i_id k = i_id i"
    using assms(3) by (auto simp: claim_ids_def sql_limit_def dest!: in_set_takeD split: if_splits)
  then have "k = i" using key_inj [of i_id "job_items d" k i] wf_ids [OF assms(1)] assms(2) by simp
  with k(2) show ?thesis by simp
qed

lemma wf_claim_rows:
  assumes "wf_db d" shows "wf_db (snd (claim_rows oa b job_id w limit ls now d))"
proof -
  let ?ids = "claim_ids oa b job_id limit now d"
  have "wf_db (upd_items (\<lambda>i. i_id i \<in> set ?ids) (claim_update w now (now + seconds ls)) d)"
    using assms
  proof (rule wf_upd_items)
    fix i assume "i \<in> set (job_items d)" "i_id i \<in> set ?ids"
    then have "i_status i = IPending" using claim_ids_due [OF assms] by (auto simp: due_item_def)
    then show "(i_status (claim_update w now (now + seconds ls) i) = ICompleted) = (i_status i = ICompleted) \<and>
        (i_status i = IFailed \<longrightarrow> i_status (claim_update w now (now + seconds ls) i) = IFailed)"
      by (simp add: claim_update_def)
  qed (auto simp: claim_update_def op_simps split: option.splits)
  then show ?thesis by (simp add: claim_rows_def Let_def wf_heartbeat)
qed

lemma claim_cases:
  "claim job_id w limit ls now d = Inr x \<Longrightarrow> x = ([], d) \<or> (\<exists>oa b. x = claim_rows oa b job_id w limit ls now d)"
  by (auto simp: claim_def Let_def split: option.splits if_splits json_text.splits)

lemma wf_claim:
  "wf_db d \<Longrightarrow> claim job_id w limit ls now d = Inr (rows, d') \<Longrightarrow> wf_db d'"
  using wf_claim_rows by (metis claim_cases snd_conv)

lemma wf_renew_leases:
  assumes "wf_db d" shows "wf_db (snd (renew_leases job_id w ls now d))"
proof -
  have "wf_db (upd_items (\<lambda>i. i_job_id i = job_id \<and> worker_id i = Some w \<and> i_status i = IRunning)
     (\<lambda>i. i\<lparr>lease_until := Some (now + seconds ls)\<rparr>) d)"
    using assms by (rule wf_upd_items) (use wf_running_ok [OF assms] in \<open>auto simp: op_simps\<close>)
  then show ?thesis by (simp add: renew_leases_def Let_def wf_heartbeat)
qed

section \<open>Finishing items\<close>

lemma upd_items_miss: "row_count p (job_items d) = 0 \<Longrightarrow> upd_items p f d = d"
  by (simp add: upd_items_def update_where_miss)

lemma wf_complete_item:
  assumes "wf_db d" shows "wf_db (snd (complete_item job_id item_id r cost w now d))"
proof -
  let ?p = "running_item job_id item_id w"
  have cancelled: "wf_db (upd_items ?p
      (\<lambda>i. i\<lparr>i_status := ICancelled, completed_at := Some now, lease_until := None, worker_id := None\<rparr>) d)"
    using assms by (rule wf_upd_items) (auto simp: op_simps running_item_def)
  have fin: "row_count ?p (job_items d) \<noteq> 0 \<Longrightarrow> wf_db (upd_jobs (\<lambda>j. j_id j = job_id)
      (\<lambda>j. j\<lparr>completed_items := completed_items j + 1, spent := sp j, heartbeat_at := Some now\<rparr>)
      (upd_items ?p (\<lambda>i. i\<lparr>i_status := ICompleted, completed_at := Some now, result_json := Some (Encoded (r_json r)),
          lease_until := None, worker_id := None, estimated_cost := cost,
          stage := take 64 (str_or (r_stage r) ''completed''), error_code := result_error r\<rparr>) d))" for sp
    using assms by (intro wf_complete_one [where x = item_id]) (auto simp: op_simps running_item_def)
  show ?thesis using cancelled fin assms
    by (auto simp: complete_item_def Let_def upd_items_miss split: option.split)
qed

lemma wf_record_late_completion:
  assumes "wf_db d" shows "wf_db (snd (record_late_completion job_id item_id r cost w now d))"
  unfolding record_late_completion_def Let_def
  using assms
  by (auto simp: upd_items_miss intro!: wf_fail_one [where x = item_id]) (auto simp: op_simps running_item_def)

lemma wf_defer_item:
  assumes "wf_db d" shows "wf_db (snd (defer_item item_id w after dp code now d))"
proof -
  let ?d1 = "upd_items (\<lambda>i. i_id i = item_id \<and> i_status i = IRunning \<and> owned_by w i)
       (\<lambda>i. i\<lparr>i_status := IPending, worker_id := None, lease_until := None, available_at := now + after,
              attempts := attempts i - 1, error_code := coalesce code (error_code i)\<rparr>) d"
  have d1: "wf_db ?d1" using assms by (rule wf_upd_items) (auto simp: op_simps)
  have "wf_db (upd_items (\<lambda>i. i_job_id i = jid \<and> i_status i = IPending)
       (\<lambda>i. i\<lparr>available_at := max (available_at i) (now + after), error_code := coalesce code (error_code i)\<rparr>) ?d1)" for jid
    using d1 by (rule wf_upd_items) (auto simp: op_simps)
  with d1 show ?thesis by (auto simp: defer_item_def Let_def split: option.split)
qed

lemma first_running_unique:
  assumes "wf_db d" "first_row (running_item job_id item_id w) (job_items d) = Some i"
    and "x \<in> set (job_items d)" "i_id x = item_id"
  shows "x = i"
  using assms key_inj [of i_id "job_items d" x i] wf_ids [OF assms(1)] first_row_Some [OF assms(2)]
  by (auto simp: running_item_def)

lemma upd_items_cong:
  assumes "\<And>i. i \<in> set (job_items d) \<Longrightarrow> p i = q i"
  shows "upd_items p f d = upd_items q f d"
proof -
  have "update_where p f (job_items d) = update_where q f (job_items d)"
    using assms by (auto simp: update_where_def)
  then show ?thesis by (simp add: upd_items_def)
qed

text \<open>\<^verbatim>\<open>WHERE id=?\<close> after the ownership check selects the same single row as the check itself.\<close>

lemma upd_items_owned:
  assumes "wf_db d" "first_row (running_item job_id item_id w) (job_items d) = Some i"
  shows "upd_items (\<lambda>i. i_id i = item_id) f d = upd_items (running_item job_id item_id w) f d"
  using first_running_unique [OF assms] first_row_Some [OF assms(2)]
  by (intro upd_items_cong) (auto simp: running_item_def)

lemma wf_fail_item:
  assumes "wf_db d" shows "wf_db (snd (fail_item h job_id item_id code m ri w now d))"
proof (cases "first_row (running_item job_id item_id w) (job_items d)")
  case None
  then show ?thesis using assms by (simp add: fail_item_def)
next
  case (Some i)
  have hit: "row_count (running_item job_id item_id w) (job_items d) \<noteq> 0"
    using first_row_Some [OF Some] by (auto simp: row_count_zero_iff)
  have "wf_db (upd_jobs (\<lambda>j. j_id j = job_id) (\<lambda>j. j\<lparr>failed_items := failed_items j + 1\<rparr>)
     (upd_items (running_item job_id item_id w)
        (\<lambda>i. i\<lparr>i_status := IFailed, completed_at := Some now, error_code := Some code,
               lease_until := None, worker_id := None, dead_lettered_at := Some now\<rparr>) d))"
    using assms hit by (intro wf_fail_one [where x = item_id]) (auto simp: op_simps running_item_def)
  moreover have "wf_db (upd_items (running_item job_id item_id w)
        (\<lambda>x. x\<lparr>i_status := IPending, available_at := t, error_code := Some code,
               lease_until := None, worker_id := None\<rparr>) d)" for t
    using assms by (rule wf_upd_items) (auto simp: op_simps running_item_def)
  ultimately show ?thesis
    using Some by (simp add: fail_item_def Let_def upd_items_owned [OF assms Some])
qed

section \<open>Finalising and recovering\<close>

lemma wf_finalize_if_done:
  assumes "wf_db d"
    and "\<And>f t d'. finalizer = Some f \<Longrightarrow> f d job_id t = Inr d' \<Longrightarrow> wf_db d'"
  shows "wf_db (snd (finalize_if_done h finalizer job_id now d))"
proof -
  have fin: "wf_db (upd_jobs (\<lambda>j. j_id j = job_id \<and> runnable_status (j_status j))
     (\<lambda>j. j\<lparr>j_status := t, j_completed_at := Some now, heartbeat_at := Some now\<rparr>) d1)"
    if "wf_db d1" "t = Completed \<or> t = CompletedWithErrors" for d1 t
    using that by (intro wf_upd_jobs_simple) (auto simp: op_simps)
  show ?thesis
    using assms fin by (auto simp: finalize_if_done_def run_finalizer_def Let_def split: option.splits sum.splits)
qed

lemma wf_recover_one:
  assumes "wf_db d" "\<And>x. x \<in> set (job_items d) \<Longrightarrow> i_id x = i_id i \<Longrightarrow> i_job_id x = i_job_id i"
  shows "wf_db (snd (recover_one h now (i, s) (n, d)))"
proof -
  let ?p = "\<lambda>x. i_id x = i_id i \<and> stale_item now x"
  let ?q = "\<lambda>x. i_id x = i_id i \<and> i_job_id x = i_job_id i \<and> stale_item now x"
  have pq: "upd_items ?p f d = upd_items ?q f d" "row_count ?p (job_items d) = row_count ?q (job_items d)" for f
    using assms(2) by (auto intro!: upd_items_cong row_count_cong)
  have crash: "wf_db (upd_jobs (\<lambda>j. j_id j = i_job_id i)
       (\<lambda>j. j\<lparr>failed_items := failed_items j + 1, heartbeat_at := Some now\<rparr>)
       (upd_items ?p (\<lambda>x. x\<lparr>i_status := IFailed, completed_at := Some now, worker_id := None, lease_until := None,
          error_code := Some ''WORKER_CRASH'', dead_lettered_at := Some now, completion_state := ''worker_crash''\<rparr>) d))"
    if "row_count ?p (job_items d) \<noteq> 0"
    using assms(1) that unfolding pq
    by (intro wf_fail_one [where x = "i_id i"]) (auto simp: op_simps stale_item_def)
  have requeue: "wf_db (upd_items ?p
       (\<lambda>x. x\<lparr>i_status := IPending, worker_id := None, lease_until := None, available_at := now\<rparr>) d)"
    using assms(1) by (rule wf_upd_items) (auto simp: op_simps stale_item_def)
  show ?thesis
    using assms(1) crash requeue by (auto simp: recover_one_def Let_def upd_items_miss)
qed

lemma recover_one_ids:
  "map (\<lambda>x. (i_id x, i_job_id x)) (job_items (snd (recover_one h now row acc))) =
   map (\<lambda>x. (i_id x, i_job_id x)) (job_items (snd acc))"
  by (cases row; cases acc) (simp add: recover_one_def Let_def map_update_where)

lemma id_pair_transfer:
  assumes "map (\<lambda>x. (i_id x, i_job_id x)) xs = map (\<lambda>x. (i_id x, i_job_id x)) ys"
    and "\<forall>y \<in> set ys. i_id y = i_id i \<longrightarrow> i_job_id y = i_job_id i"
  shows "\<forall>x \<in> set xs. i_id x = i_id i \<longrightarrow> i_job_id x = i_job_id i"
proof -
  have "(\<lambda>x. (i_id x, i_job_id x)) ` set xs = (\<lambda>x. (i_id x, i_job_id x)) ` set ys"
    using assms(1) by (metis set_map)
  then show ?thesis using assms(2) by (auto simp: set_eq_iff image_iff) metis
qed

lemma wf_recover_fold:
  assumes "wf_db (snd acc)"
    and "\<forall>(i, s) \<in> set rows. \<forall>x \<in> set (job_items (snd acc)). i_id x = i_id i \<longrightarrow> i_job_id x = i_job_id i"
  shows "wf_db (snd (fold (recover_one h now) rows acc))"
  using assms
proof (induction rows arbitrary: acc)
  case (Cons row rows)
  obtain i s where row: "row = (i, s)" by (cases row)
  obtain n d where acc: "acc = (n, d)" by (cases acc)
  have "wf_db (snd (recover_one h now row acc))"
    using Cons.prems unfolding row acc by (intro wf_recover_one) auto
  moreover have "\<forall>(i, s) \<in> set rows. \<forall>x \<in> set (job_items (snd (recover_one h now row acc))).
      i_id x = i_id i \<longrightarrow> i_job_id x = i_job_id i"
    using Cons.prems(2) id_pair_transfer [OF recover_one_ids [of h now row acc]] by fastforce
  ultimately show ?case using Cons.IH by simp
qed simp

lemma stale_rows_items: "(i, s) \<in> set (stale_rows now d) \<Longrightarrow> i \<in> set (job_items d) \<and> stale_item now i"
  by (auto simp: stale_rows_def in_map_filter)

lemma wf_recover_stale:
  assumes "wf_db d" shows "wf_db (snd (recover_stale h now d))"
proof -
  let ?r = "fold (recover_one h now) (stale_rows now d) (0, d)"
  have "\<forall>(i, s) \<in> set (stale_rows now d). \<forall>x \<in> set (job_items d). i_id x = i_id i \<longrightarrow> i_job_id x = i_job_id i"
    using wf_ids [OF assms] stale_rows_items key_inj [of i_id "job_items d"] by (auto dest!: stale_rows_items) metis
  then have "wf_db (snd ?r)" using assms by (intro wf_recover_fold) auto
  then have "wf_db (upd_jobs (\<lambda>j. j_status j = Pausing \<and> items_of (j_id j) (\<lambda>s. s = IRunning) (snd ?r) = 0)
      (\<lambda>j. j\<lparr>j_status := Paused, heartbeat_at := Some now\<rparr>) (snd ?r))"
    by (rule wf_upd_jobs_simple) (auto simp: op_simps)
  then show ?thesis using assms by (auto simp: recover_stale_def Let_def split: prod.splits)
qed

lemma wf_retry_failed:
  assumes "wf_db d" "retry_failed job_id now d = Inr (n, d')" shows "wf_db d'"
proof -
  let ?q = "\<lambda>i. i_job_id i = job_id \<and> i_status i = IFailed"
  let ?f = "\<lambda>i. i\<lparr>i_status := IPending, available_at := now, error_code := None, completed_at := None, dead_lettered_at := None\<rparr>"
  let ?d1 = "upd_items ?q ?f d"
  let ?p = "\<lambda>j. j_id j = job_id \<and> (j_status j = Failed \<or> j_status j = CompletedWithErrors)"
  have core: "wf_core ?d1"
    using assms(1) by (intro wf_core_upd_items) (auto simp: op_simps wf_db_def)
  have cm: "items_of jid (\<lambda>s. s = ICompleted) ?d1 = items_of jid (\<lambda>s. s = ICompleted) d" for jid
    by (rule items_of_same) (auto simp: op_simps)
  have fl: "jid \<noteq> job_id \<Longrightarrow> items_of jid (\<lambda>s. s = IFailed) ?d1 = items_of jid (\<lambda>s. s = IFailed) d" for jid
    by (rule items_of_other) (auto simp: op_simps)
  consider "d' = d" | "d' = ?d1" "row_count ?q (job_items d) = 0"
    | job where "find_job job_id d = Some job" "j_status job = Failed \<or> j_status job = CompletedWithErrors"
      "store_jobs (update_where ?p (\<lambda>j. j\<lparr>j_status := Pending, failed_items := 0, j_completed_at := None\<rparr>) (jobs ?d1)) ?d1 = Inr d'"
    using assms(2) by (auto simp: retry_failed_def Let_def split: option.splits if_splits sum.splits)
  then show ?thesis
  proof cases
    case 3
    have apart: "j_id j \<noteq> job_id" if "j \<in> set (jobs d)" "\<not> ?p j" for j
      using that 3(2) find_job_Some [OF 3(1)] key_inj [of j_id "jobs d" j job] wf_ids [OF assms(1)] by auto
    from core 3(3) show ?thesis
    proof (rule wf_store_jobs)
      fix j assume "j \<in> set (jobs ?d1)" "\<not> ?p j"
      then show "completed_items j = items_of (j_id j) (\<lambda>s. s = ICompleted) ?d1 \<and>
          failed_items j \<le> items_of (j_id j) (\<lambda>s. s = IFailed) ?d1"
        using wf_counts_of [OF assms(1)] apart [of j] by (simp add: cm fl)
    qed (use wf_counts_of [OF assms(1)] in \<open>auto simp: op_simps cm\<close>)
  qed (use assms(1) in \<open>simp_all add: upd_items_miss\<close>)
qed

section \<open>Batch items\<close>

lemma wf_complete_batch_item:
  assumes "wf_db d" shows "wf_db (snd (complete_batch_item job_id item_id r cost now d))"
  unfolding complete_batch_item_def Let_def
  using assms
  by (auto simp: upd_items_miss intro!: wf_complete_one [where x = item_id]) (auto simp: op_simps batch_open_def)

lemma wf_fail_batch_item:
  assumes "wf_db d" shows "wf_db (snd (fail_batch_item h job_id item_id code now d))"
  unfolding fail_batch_item_def Let_def
  using assms
  by (auto simp: upd_items_miss split: option.split intro!: wf_fail_one [where x = item_id])
    (auto simp: op_simps batch_open_def)

lemma wf_cancel_batch_item:
  assumes "wf_db d" shows "wf_db (snd (cancel_batch_item job_id item_id reason now d))"
proof -
  have "wf_db (upd_items (batch_open job_id item_id)
      (\<lambda>i. i\<lparr>i_status := ICancelled, completed_at := Some now, error_code := Some (take 120 reason),
             stage := ''analysis_batch'', lease_until := None\<rparr>) d)"
    using assms by (rule wf_upd_items) (auto simp: op_simps batch_open_def)
  then show ?thesis by (simp add: cancel_batch_item_def Let_def wf_heartbeat)
qed

lemma wf_finalize_batch_job:
  assumes "wf_db d" "finalize_batch_job job_id st now d = Inr (b, d')" shows "wf_db d'"
  using assms by (auto simp: finalize_batch_job_def Let_def split: if_splits intro!: wf_upd_jobs_simple)
    (auto simp: op_simps)

lemma wf_abandon_unstarted:
  assumes "wf_db d" shows "wf_db (snd (abandon_unstarted job_id code now d))"
proof -
  let ?d1 = "upd_jobs (\<lambda>j. j_id j = job_id \<and> j_status j = Pending)
     (\<lambda>j. j\<lparr>j_status := Failed, j_completed_at := Some now, heartbeat_at := Some now\<rparr>) d"
  have "wf_db ?d1" using assms by (rule wf_upd_jobs_simple) (auto simp: op_simps)
  then have "wf_db (upd_items (\<lambda>i. i_job_id i = job_id \<and> (i_status i = IPending \<or> i_status i = IRetrying))
     (\<lambda>i. i\<lparr>i_status := IFailed, completed_at := Some now, error_code := Some code\<rparr>) ?d1)"
    by (rule wf_upd_items) (auto simp: op_simps)
  then show ?thesis using assms by (simp add: abandon_unstarted_def Let_def)
qed

lemma wf_reopen_batch_job:
  assumes "wf_db d" "reopen_batch_job job_id now d = Inr (b, d')" shows "wf_db d'"
proof -
  let ?p = "\<lambda>j. j_id j = job_id \<and> j_status j \<in> {Pending, Running, Retrying, Failed, CompletedWithErrors}"
  let ?q = "\<lambda>i. i_job_id i = job_id \<and> (i_status i = IFailed \<or> i_status i = IRetrying)"
  let ?f = "\<lambda>i. i\<lparr>i_status := IPending, completed_at := None, error_code := None, lease_until := None\<rparr>"
  obtain d1 where s: "store_jobs (update_where ?p
        (\<lambda>j. j\<lparr>j_status := Running, j_completed_at := None, heartbeat_at := Some now\<rparr>) (jobs d)) d = Inr d1"
    using assms(2) by (auto simp: reopen_batch_job_def Let_def split: sum.splits)
  have d1: "wf_db d1"
    using _ s by (rule wf_store_jobs) (use assms(1) wf_counts_of [OF assms(1)] in \<open>auto simp: op_simps wf_db_def\<close>)
  let ?d2 = "upd_items ?q ?f d1"
  have core: "wf_core ?d2"
    using d1 by (intro wf_core_upd_items) (auto simp: op_simps wf_db_def)
  have other: "jid \<noteq> job_id \<Longrightarrow> items_of jid q ?d2 = items_of jid q d1" for jid q
    by (rule items_of_other) (auto simp: op_simps)
  let ?g = "\<lambda>j. j\<lparr>completed_items := items_of job_id (\<lambda>s. s = ICompleted) ?d2,
                   failed_items := items_of job_id (\<lambda>s. s = IFailed) ?d2\<rparr>"
  have "wf_core (upd_jobs (\<lambda>j. j_id j = job_id) ?g ?d2)"
    using core by (rule wf_core_upd_jobs) (auto simp: op_simps)
  moreover have "wf_counts (upd_jobs (\<lambda>j. j_id j = job_id) ?g ?d2)"
    by (rule wf_counts_upd_jobs) (use wf_counts_of [OF d1] other in \<open>auto simp: op_simps\<close>)
  ultimately have "wf_db (upd_jobs (\<lambda>j. j_id j = job_id) ?g ?d2)" by (simp add: wf_db_def)
  moreover have "d' = d1 \<or> d' = upd_jobs (\<lambda>j. j_id j = job_id) ?g ?d2"
    using assms(2) s by (auto simp: reopen_batch_job_def Let_def split: if_splits)
  ultimately show ?thesis using d1 by auto
qed

section \<open>Creating jobs\<close>

lemma insert_items_append:
  "insert_items ps is rows = Inr rows' \<Longrightarrow>
   \<exists>news. rows' = rows @ news \<and> set news \<subseteq> set is \<and> photo_id ` set news \<subseteq> Some ` p_id ` set ps"
proof (induction "is" arbitrary: rows)
  case (Cons i is')
  show ?case
  proof (cases "item_collides i rows")
    case True
    with Cons.prems obtain news where "rows' = rows @ news" "set news \<subseteq> set is'"
      "photo_id ` set news \<subseteq> Some ` p_id ` set ps"
      using Cons.IH [of rows] by auto
    then show ?thesis by auto
  next
    case False
    with Cons.prems have ok: "photo_id i \<in> Some ` p_id ` set ps" "insert_items ps is' (rows @ [i]) = Inr rows'"
      by (auto split: if_splits)
    then obtain news where "rows' = (rows @ [i]) @ news" "set news \<subseteq> set is'"
      "photo_id ` set news \<subseteq> Some ` p_id ` set ps"
      using Cons.IH [of "rows @ [i]"] by auto
    with ok(1) show ?thesis by (intro exI [of _ "i # news"]) auto
  qed
qed simp

lemma item_pair_Some: "item_pair i = Some v \<longleftrightarrow> i_job_id i = fst v \<and> photo_id i = Some (snd v)"
  by (cases v) (auto simp: item_pair_def)

lemma insert_items_unique:
  "insert_items ps is rows = Inr rows' \<Longrightarrow> distinct (map i_id rows) \<Longrightarrow> unique_key item_pair rows \<Longrightarrow>
   distinct (map i_id rows') \<and> unique_key item_pair rows'"
proof (induction "is" arbitrary: rows)
  case (Cons i is')
  show ?case
  proof (cases "item_collides i rows")
    case True
    then show ?thesis using Cons by auto
  next
    case False
    then have "distinct (map i_id (rows @ [i]))" "unique_key item_pair (rows @ [i])"
      using Cons.prems(2,3)
      by (auto simp: item_collides_def unique_key_append item_pair_Some split: option.split)
    then show ?thesis using Cons.IH [of "rows @ [i]"] Cons.prems(1) False by (auto split: if_splits)
  qed
qed simp

lemma items_of_append:
  "items_of jid q (d\<lparr>job_items := rows @ news\<rparr>) =
   row_count (\<lambda>i. i_job_id i = jid \<and> q (i_status i)) rows + row_count (\<lambda>i. i_job_id i = jid \<and> q (i_status i)) news"
  by (simp add: items_of_def row_count_append)

text \<open>Adding a job whose counters are zero together with pending items of that job.\<close>

lemma wf_add_job:
  assumes "wf_db d" "jobs_unique (jobs d @ [j])" "1 \<le> priority j" "priority j \<le> 6"
    and "completed_items j = 0" "failed_items j = 0"
    and "distinct (map i_id (job_items d @ news))" "unique_key item_pair (job_items d @ news)"
    and "\<And>i. i \<in> set news \<Longrightarrow> i_job_id i = j_id j \<and> i_status i = IPending"
  shows "wf_db (d\<lparr>jobs := jobs d @ [j], job_items := job_items d @ news\<rparr>)"
proof -
  let ?d = "d\<lparr>jobs := jobs d @ [j], job_items := job_items d @ news\<rparr>"
  have fresh: "j_id j \<notin> j_id ` set (jobs d)" using assms(2) by (simp add: jobs_unique_def)
  have none: "row_count (\<lambda>i. i_job_id i = jid \<and> i_status i = st) news = 0" if "st \<noteq> IPending" for jid st
    using assms(9) that by (auto simp: row_count_zero_iff)
  have keep: "items_of jid (\<lambda>s. s = st) ?d = items_of jid (\<lambda>s. s = st) d" if "st \<noteq> IPending" for jid st
    using none [OF that] by (simp add: items_of_def row_count_append)
  have new: "items_of (j_id j) q d = 0" for q
    using assms(1) fresh unfolding items_of_def row_count_zero_iff wf_db_def wf_core_def
    by (metis image_eqI subsetD)
  have "wf_core ?d"
    using assms(1-4,7,8) assms(9)
    by (auto simp: wf_db_def wf_core_def running_ok_def)
  moreover have "wf_counts ?d"
    using wf_counts_of [OF assms(1)] assms(5,6) keep [of ICompleted] keep [of IFailed] new
    by (auto simp: wf_counts_def)
  ultimately show ?thesis by (simp add: wf_db_def)
qed

lemma wf_total_items: "wf_db d \<Longrightarrow> wf_db (upd_jobs p (\<lambda>j. j\<lparr>total_items := n\<rparr>) d)"
  by (rule wf_upd_jobs_simple) (auto simp: op_simps)

lemma create_new_step:
  assumes "create_new hook job_id uuids r now d = Inr (jid, d')"
  obtains news d3 d4 where
    "jid = job_id" "jobs_unique (jobs d @ [new_job job_id r now])"
    "insert_items (photos d) (map (\<lambda>(n, p). new_item (uuids n) job_id (Some p) now) (enumerate 0 (cr_photo_ids r)))
       (job_items d) = Inr (job_items d @ news)"
    "set news \<subseteq> (\<lambda>(n, p). new_item (uuids n) job_id (Some p) now) ` set (enumerate 0 (cr_photo_ids r))"
    "d3 = upd_jobs (\<lambda>j. j_id j = job_id)
            (\<lambda>j. j\<lparr>total_items := row_count (\<lambda>i. i_job_id i = job_id) (job_items d @ news)\<rparr>)
            (d\<lparr>jobs := jobs d @ [new_job job_id r now], job_items := job_items d @ news\<rparr>)"
    "(case hook of None \<Rightarrow> Inr d3 | Some h \<Rightarrow> h d3 job_id) = Inr d4"
    "d' = add_event job_id ''created'' now d4"
    "\<not> (analysis_kind (cr_kind r) \<and> (\<exists>p \<in> set (photos d). p_id p \<in> set (cr_photo_ids r) \<and> reserved_analysis d p))"
proof -
  let ?new = "map (\<lambda>(n, p). new_item (uuids n) job_id (Some p) now) (enumerate 0 (cr_photo_ids r))"
  obtain rows where u: "jobs_unique (jobs d @ [new_job job_id r now])"
    and ins: "insert_items (photos d) ?new (job_items d) = Inr rows"
    using assms by (auto simp: create_new_def store_jobs_def Let_def split: if_splits sum.splits)
  obtain news where rows: "rows = job_items d @ news" "set news \<subseteq> set ?new"
    using insert_items_append [OF ins] by blast
  let ?d3 = "upd_jobs (\<lambda>j. j_id j = job_id)
            (\<lambda>j. j\<lparr>total_items := row_count (\<lambda>i. i_job_id i = job_id) (job_items d @ news)\<rparr>)
            (d\<lparr>jobs := jobs d @ [new_job job_id r now], job_items := job_items d @ news\<rparr>)"
  have free: "\<not> (analysis_kind (cr_kind r) \<and>
      (\<exists>p \<in> set (photos d). p_id p \<in> set (cr_photo_ids r) \<and> reserved_analysis d p))"
    using assms by (auto simp: create_new_def split: if_splits)
  have "(case (case hook of None \<Rightarrow> Inr ?d3 | Some h \<Rightarrow> h ?d3 job_id) of
          Inl e \<Rightarrow> Inl e | Inr d4 \<Rightarrow> Inr (job_id, add_event job_id ''created'' now d4)) = Inr (jid, d')"
    using assms u ins unfolding create_new_def if_not_P [OF free] rows(1)
    by (cases hook) (auto simp: store_jobs_def Let_def)
  then obtain d4 where "(case hook of None \<Rightarrow> Inr ?d3 | Some h \<Rightarrow> h ?d3 job_id) = Inr d4"
    "jid = job_id" "d' = add_event job_id ''created'' now d4"
    by (cases "case hook of None \<Rightarrow> Inr ?d3 | Some h \<Rightarrow> h ?d3 job_id") auto
  then show ?thesis using that u ins rows free by auto
qed

lemma wf_create_new:
  assumes "wf_db d" "create_new hook job_id uuids r now d = Inr (jid, d')"
    and "\<And>h x y. hook = Some h \<Longrightarrow> wf_db x \<Longrightarrow> h x job_id = Inr y \<Longrightarrow> wf_db y"
  shows "wf_db d'"
  using assms(2)
proof (rule create_new_step)
  fix news d3 d4
  let ?d = "d\<lparr>jobs := jobs d @ [new_job job_id r now], job_items := job_items d @ news\<rparr>"
  assume u: "jobs_unique (jobs d @ [new_job job_id r now])"
    and ins: "insert_items (photos d) (map (\<lambda>(n, p). new_item (uuids n) job_id (Some p) now)
               (enumerate 0 (cr_photo_ids r))) (job_items d) = Inr (job_items d @ news)"
    and news: "set news \<subseteq> (\<lambda>(n, p). new_item (uuids n) job_id (Some p) now) ` set (enumerate 0 (cr_photo_ids r))"
    and d3: "d3 = upd_jobs (\<lambda>j. j_id j = job_id)
               (\<lambda>j. j\<lparr>total_items := row_count (\<lambda>i. i_job_id i = job_id) (job_items d @ news)\<rparr>) ?d"
    and d4: "(case hook of None \<Rightarrow> Inr d3 | Some h \<Rightarrow> h d3 job_id) = Inr d4"
    and d': "d' = add_event job_id ''created'' now d4"
  have core: "distinct (map i_id (job_items d))" "unique_key item_pair (job_items d)"
    using assms(1) by (auto simp: wf_db_def wf_core_def)
  have "wf_db ?d"
    using insert_items_unique [OF ins core] u news assms(1)
    by (intro wf_add_job) (auto simp: new_job_def new_item_def)
  then have "wf_db d3" unfolding d3 by (rule wf_total_items)
  then have "wf_db d4" using d4 assms(3) by (auto split: option.splits)
  then show ?thesis by (simp add: d')
qed

lemma wf_adopt_existing:
  assumes "wf_db d" "adopt_existing e fp d = Inr d'" shows "wf_db d'"
proof -
  have "wf_db (upd_jobs (\<lambda>j. j_id j = j_id e \<and> request_fingerprint j = None) (\<lambda>j. j\<lparr>request_fingerprint := fp\<rparr>) d)"
    using assms(1) by (rule wf_upd_jobs_simple) (auto simp: op_simps)
  then show ?thesis using assms by (auto simp: adopt_existing_def Let_def split: if_splits)
qed

lemma wf_create:
  assumes "wf_db d" "create hook job_id uuids r now d = Inr (jid, d')"
    and "\<And>h x y. hook = Some h \<Longrightarrow> wf_db x \<Longrightarrow> h x job_id = Inr y \<Longrightarrow> wf_db y"
  shows "wf_db d'"
  using assms(2) wf_create_new [OF assms(1) _ assms(3)] wf_adopt_existing [OF assms(1)]
  by (auto simp: create_def split: option.splits sum.splits if_splits)

lemma wf_insert_maintenance:
  assumes "wf_db d" "insert_maintenance job_id item_id r now d = Inr d'" shows "wf_db d'"
proof -
  let ?d = "d\<lparr>jobs := jobs d @ [maintenance_job job_id r now],
              job_items := job_items d @ [new_item item_id job_id None now]\<rparr>"
  have u: "jobs_unique (jobs d @ [maintenance_job job_id r now])" and i: "item_id \<notin> i_id ` set (job_items d)"
    and d': "d' = add_event job_id ''created'' now ?d"
    using assms(2) by (auto simp: insert_maintenance_def store_jobs_def split: if_splits)
  have "wf_db ?d"
    using assms(1) u i
    by (intro wf_add_job)
      (auto simp: maintenance_job_def new_item_def wf_db_def wf_core_def unique_key_append item_pair_def)
  then show ?thesis by (simp add: d')
qed

lemma wf_create_maintenance_guarded:
  assumes "wf_db d" "create_maintenance_guarded guard job_id item_id r now d = Inr (x, d')"
    and "\<And>g. guard = Some g \<Longrightarrow> wf_db (snd (g d))"
  shows "wf_db d'"
  using assms wf_adopt_existing [OF assms(1)] wf_insert_maintenance
  by (auto simp: create_maintenance_guarded_def split: option.splits sum.splits if_splits prod.splits bool.splits)

lemma wf_create_maintenance_with_capacity:
  assumes "wf_db d"
    and "create_maintenance_with_capacity job_id item_id k name sets u pr pl sl now d = Inr (x, d')"
  shows "wf_db d'"
  using assms wf_insert_maintenance [OF assms(1)]
  by (auto simp: create_maintenance_with_capacity_def split: if_splits sum.splits)

lemma wf_get_by_dedupe_key:
  assumes "wf_db d" "get_by_dedupe_key key fp d = Inr (x, d')" shows "wf_db d'"
  using assms wf_adopt_existing [OF assms(1)]
  by (auto simp: get_by_dedupe_key_def Let_def split: if_splits option.splits sum.splits)

end
