(* ===== verification/Job_Lifecycle.thy ===== *)
theory Job_Lifecycle
  imports Job_Preservation
begin

text \<open>
  The queue as a transition system: one rule per operation of the repository, with the status
  changes that the services and the worker request. Reachable states are well formed, and
  completed items, completed jobs and cancelled jobs stay as they are.
\<close>

section \<open>Steps\<close>

text \<open>The status changes requested through \<^verbatim>\<open>transition\<close>: start, resume, resume of a backfill job,
  waiting for a provider, and the budget stop.\<close>

definition requested_transitions :: "(job_status list \<times> job_status) list" where
  "requested_transitions =
     [([Pending], Running), ([Paused, BudgetExceeded], Running), ([Pending, Paused], Running),
      ([Running], Retrying), ([Running, Retrying], BudgetExceeded)]"

text \<open>Callers' code inside a repository transaction writes to tables of its own.\<close>

definition frame_hook :: "(db \<Rightarrow> string \<Rightarrow> repo_error + db) option \<Rightarrow> bool" where
  "frame_hook hook =
     (\<forall>h d job_id d'. hook = Some h \<longrightarrow> h d job_id = Inr d' \<longrightarrow> jobs d' = jobs d \<and> job_items d' = job_items d)"

definition frame_guard :: "(db \<Rightarrow> bool \<times> db) option \<Rightarrow> bool" where
  "frame_guard guard =
     (\<forall>g d. guard = Some g \<longrightarrow> jobs (snd (g d)) = jobs d \<and> job_items (snd (g d)) = job_items d)"

definition frame_finalizer :: "(db \<Rightarrow> string \<Rightarrow> job_status \<Rightarrow> (string \<times> string) + db) option \<Rightarrow> bool" where
  "frame_finalizer fin =
     (\<forall>f d job_id t d'. fin = Some f \<longrightarrow> f d job_id t = Inr d' \<longrightarrow> jobs d' = jobs d \<and> job_items d' = job_items d)"

inductive repo_step :: "db \<Rightarrow> db \<Rightarrow> bool" where
  create: "frame_hook hook \<Longrightarrow> Job_Repository.create hook job_id uuids r now d = Inr (x, d') \<Longrightarrow> repo_step d d'"
| lookup: "get_by_dedupe_key key fp d = Inr (y, d') \<Longrightarrow> repo_step d d'"
| maintain: "frame_guard guard \<Longrightarrow> create_maintenance_guarded guard job_id item_id mr now d = Inr (z, d') \<Longrightarrow> repo_step d d'"
| preview: "create_maintenance_with_capacity job_id item_id k name sets u pr pl sl now d = Inr (x, d') \<Longrightarrow> repo_step d d'"
| invalid: "repo_step d (snd (fail_invalid_settings job_id now d))"
| change: "(from, to_status) \<in> set requested_transitions \<Longrightarrow>
     transition job_id from to_status ev now d = Inr (b, d') \<Longrightarrow> repo_step d d'"
| pause: "repo_step d (snd (request_pause job_id now d))"
| paused: "repo_step d (snd (acknowledge_pause job_id now d))"
| cancel: "repo_step d (snd (Job_Repository.cancel job_id now d))"
| claim: "Job_Repository.claim job_id w limit ls now d = Inr (rows, d') \<Longrightarrow> repo_step d d'"
| renew: "repo_step d (snd (renew_leases job_id w ls now d))"
| complete: "repo_step d (snd (complete_item job_id item_id res cost wo now d))"
| late: "repo_step d (snd (record_late_completion job_id item_id res cost wo now d))"
| deferral: "repo_step d (snd (defer_item item_id wo after dp code now d))"
| fail: "repo_step d (snd (fail_item h job_id item_id c m ri wo now d))"
| finalize: "frame_finalizer fin \<Longrightarrow> repo_step d (snd (finalize_if_done h fin job_id now d))"
| recover: "repo_step d (snd (recover_stale h now d))"
| retry: "retry_failed job_id now d = Inr (n, d') \<Longrightarrow> repo_step d d'"
| batch_complete: "repo_step d (snd (complete_batch_item job_id item_id res cost now d))"
| batch_fail: "repo_step d (snd (fail_batch_item h job_id item_id c now d))"
| batch_cancel: "repo_step d (snd (cancel_batch_item job_id item_id c now d))"
| batch_finalize: "finalize_batch_job job_id st now d = Inr (b, d') \<Longrightarrow> repo_step d d'"
| abandon: "repo_step d (snd (abandon_unstarted job_id c now d))"
| reopen: "reopen_batch_job job_id now d = Inr (b, d') \<Longrightarrow> repo_step d d'"

definition initial_db :: "db \<Rightarrow> bool" where
  "initial_db d = (jobs d = [] \<and> job_items d = [])"

lemma wf_initial: "initial_db d \<Longrightarrow> wf_db d"
  by (simp add: initial_db_def wf_db_def wf_core_def wf_counts_def jobs_unique_def unique_key_def)

lemma wf_repo_step: "repo_step d d' \<Longrightarrow> wf_db d \<Longrightarrow> wf_db d'"
proof (induction rule: repo_step.induct)
  case (create hook job_id uuids r now d x d')
  have "wf_db y" if "hook = Some h" "wf_db w" "h w job_id = Inr y" for h w y
    using create.hyps(1) that by (metis frame_hook_def wf_frame)
  then show ?case using create wf_create by blast
next
  case (maintain guard job_id item_id mr now d z d')
  have "wf_db (snd (g d))" if "guard = Some g" for g
    using maintain that by (metis frame_guard_def wf_frame)
  then show ?case using maintain wf_create_maintenance_guarded by blast
next
  case (finalize fin d h job_id now)
  have "wf_db d'" if "fin = Some f" "f d job_id t = Inr d'" for f t d'
    using finalize that by (metis frame_finalizer_def wf_frame)
  then show ?case using finalize wf_finalize_if_done by blast
qed (blast intro: wf_get_by_dedupe_key wf_create_maintenance_with_capacity wf_fail_invalid_settings wf_transition
  wf_request_pause wf_acknowledge_pause wf_cancel wf_claim wf_renew_leases wf_complete_item
  wf_record_late_completion wf_defer_item wf_fail_item wf_recover_stale wf_retry_failed
  wf_complete_batch_item wf_fail_batch_item wf_cancel_batch_item wf_finalize_batch_job
  wf_abandon_unstarted wf_reopen_batch_job)+

interpretation queue: invariant_system initial_db repo_step wf_db
  by unfold_locales (auto intro: wf_initial wf_repo_step)

section \<open>What never changes back\<close>

definition jobs_in :: "job_status \<Rightarrow> db \<Rightarrow> string set" where
  "jobs_in s d = j_id ` {j \<in> set (jobs d). j_status j = s}"

definition done_items :: "db \<Rightarrow> string set" where
  "done_items d = i_id ` {i \<in> set (job_items d). i_status i = ICompleted}"

definition evolves :: "db \<Rightarrow> db \<Rightarrow> bool" where
  "evolves d d' =
     (jobs_in Completed d \<subseteq> jobs_in Completed d' \<and> jobs_in Cancelled d \<subseteq> jobs_in Cancelled d' \<and>
      done_items d \<subseteq> done_items d')"

lemma evolves_refl [simp]: "evolves d d"
  by (simp add: evolves_def)

lemma evolves_trans: "evolves d e \<Longrightarrow> evolves e f \<Longrightarrow> evolves d f"
  by (auto simp: evolves_def)

lemma evolves_frame:
  "jobs d' = jobs d \<Longrightarrow> job_items d' = job_items d \<Longrightarrow> evolves d d'"
  by (simp add: evolves_def jobs_in_def done_items_def)

lemma evolves_append:
  "jobs d' = jobs d @ js \<Longrightarrow> job_items d' = job_items d @ is' \<Longrightarrow> evolves d d'"
  by (auto simp: evolves_def jobs_in_def done_items_def)

lemma evolves_upd_jobs:
  assumes "\<And>j. j \<in> set (jobs d) \<Longrightarrow> p j \<Longrightarrow> j_id (f j) = j_id j \<and>
     (j_status j = Completed \<longrightarrow> j_status (f j) = Completed) \<and> (j_status j = Cancelled \<longrightarrow> j_status (f j) = Cancelled)"
  shows "evolves d (upd_jobs p f d)"
  unfolding evolves_def jobs_in_def done_items_def jobs_frames
  using assms by (intro conjI key_image_update subset_refl) auto

lemma evolves_upd_items:
  assumes "\<And>i. i \<in> set (job_items d) \<Longrightarrow> p i \<Longrightarrow> i_id (f i) = i_id i \<and> (i_status i = ICompleted \<longrightarrow> i_status (f i) = ICompleted)"
  shows "evolves d (upd_items p f d)"
  unfolding evolves_def jobs_in_def done_items_def jobs_frames
  using assms by (intro conjI key_image_update subset_refl) auto

lemma evolves_store_jobs:
  assumes "store_jobs (update_where p f (jobs d)) d = Inr d'"
    and "\<And>j. j \<in> set (jobs d) \<Longrightarrow> p j \<Longrightarrow> j_id (f j) = j_id j \<and>
     (j_status j = Completed \<longrightarrow> j_status (f j) = Completed) \<and> (j_status j = Cancelled \<longrightarrow> j_status (f j) = Cancelled)"
  shows "evolves d d'"
proof -
  have "d' = upd_jobs p f d" using assms(1) by (auto simp: store_jobs_def upd_jobs_def split: if_splits)
  then show ?thesis using assms(2) by (simp add: evolves_upd_jobs)
qed

lemma evolves_add_event [simp]: "evolves d (add_event jid ev now e) = evolves d e"
  by (simp add: evolves_def jobs_in_def done_items_def)

lemma evolves_add_error [simp]: "evolves d (add_error jid it ph c code fp now e) = evolves d e"
  by (simp add: evolves_def jobs_in_def done_items_def)

lemma evolves_record_error [simp]: "evolves d (record_error h jid i code now e) = evolves d e"
  by (simp add: evolves_def jobs_in_def done_items_def)

text \<open>Rules for chains of updates.\<close>

lemma evolves_then_jobs:
  assumes "evolves d e"
    and "\<And>j. j \<in> set (jobs e) \<Longrightarrow> p j \<Longrightarrow> j_id (f j) = j_id j \<and>
     (j_status j = Completed \<longrightarrow> j_status (f j) = Completed) \<and> (j_status j = Cancelled \<longrightarrow> j_status (f j) = Cancelled)"
  shows "evolves d (upd_jobs p f e)"
  using assms evolves_trans evolves_upd_jobs by blast

lemma evolves_then_items:
  assumes "evolves d e"
    and "\<And>i. i \<in> set (job_items e) \<Longrightarrow> p i \<Longrightarrow> i_id (f i) = i_id i \<and> (i_status i = ICompleted \<longrightarrow> i_status (f i) = ICompleted)"
  shows "evolves d (upd_items p f e)"
  using assms evolves_trans evolves_upd_items by blast

lemmas evolves_chain = evolves_then_jobs evolves_then_items

lemma evolves_adopt: "adopt_existing e fp d = Inr d' \<Longrightarrow> evolves d d'"
  by (auto simp: adopt_existing_def Let_def split: if_splits intro!: evolves_chain)

lemma evolves_create_new:
  assumes "create_new hook job_id uuids r now d = Inr (x, d')" "frame_hook hook"
  shows "evolves d d'"
  using assms(1)
proof (rule create_new_step)
  fix news d3 d4
  assume d3: "d3 = upd_jobs (\<lambda>j. j_id j = job_id)
      (\<lambda>j. j\<lparr>total_items := row_count (\<lambda>i. i_job_id i = job_id) (job_items d @ news)\<rparr>)
      (d\<lparr>jobs := jobs d @ [new_job job_id r now], job_items := job_items d @ news\<rparr>)"
    and d4: "(case hook of None \<Rightarrow> Inr d3 | Some h \<Rightarrow> h d3 job_id) = Inr d4"
    and d': "d' = add_event job_id ''created'' now d4"
  have "evolves d d3"
    unfolding d3 by (intro evolves_chain evolves_append) auto
  moreover have "evolves d3 d4"
    using d4 assms(2) by (auto simp: frame_hook_def split: option.splits intro: evolves_frame)
  ultimately show ?thesis by (simp add: d' evolves_trans)
qed

lemma evolves_insert_maintenance: "insert_maintenance job_id item_id r now d = Inr d' \<Longrightarrow> evolves d d'"
  by (auto simp: insert_maintenance_def store_jobs_def split: if_splits intro!: evolves_append)

lemma evolves_guarded:
  assumes "frame_guard guard" "create_maintenance_guarded guard job_id item_id r now d = Inr (x, d')"
  shows "evolves d d'"
proof -
  have g: "evolves d (snd (g d))" if "guard = Some g" for g
    using assms(1) that by (auto simp: frame_guard_def intro: evolves_frame)
  show ?thesis using assms(2) g evolves_insert_maintenance evolves_adopt
    by (auto simp: create_maintenance_guarded_def split: option.splits sum.splits if_splits prod.splits bool.splits
        dest: evolves_trans) (metis evolves_trans snd_conv)+
qed

lemma evolves_recover_one: "evolves (snd acc) (snd (recover_one h now row acc))"
  by (cases row; cases acc) (auto simp: recover_one_def Let_def stale_item_def intro!: evolves_chain)

lemma evolves_recover_fold: "evolves (snd acc) (snd (fold (recover_one h now) rows acc))"
proof (induction rows arbitrary: acc)
  case (Cons row rows)
  show ?case using evolves_trans [OF evolves_recover_one Cons.IH] by simp
qed simp

lemma evolves_request_pause:
  assumes "wf_db d" shows "evolves d (snd (request_pause job_id now d))"
proof (cases "\<exists>j. find_job job_id d = Some j \<and> runnable_status (j_status j)")
  case True
  then obtain j where j: "find_job job_id d = Some j" "runnable_status (j_status j)" by blast
  have "x = j" if "x \<in> set (jobs d)" "j_id x = job_id" for x
    using key_inj [of j_id "jobs d" x j] wf_ids [OF assms] find_job_Some [OF j(1)] that by simp
  then show ?thesis using j
    by (auto simp: request_pause_def Let_def status_defs intro!: evolves_chain)
qed (auto simp: request_pause_def split: option.split)

lemma evolves_claim:
  assumes "wf_db d" "Job_Repository.claim job_id w limit ls now d = Inr (rows, d')" shows "evolves d d'"
proof -
  have "evolves d (snd (claim_rows oa b job_id w limit ls now d))" for oa b
    unfolding claim_rows_def Let_def
    by (auto intro!: evolves_chain dest: claim_ids_due [OF assms(1)] simp: due_item_def claim_update_def)
  then show ?thesis using claim_cases [OF assms(2)] by (metis evolves_refl snd_conv)
qed

lemma evolves_fail_item:
  assumes "wf_db d" shows "evolves d (snd (fail_item h job_id item_id c m ri wo now d))"
proof (cases "first_row (running_item job_id item_id wo) (job_items d)")
  case (Some i)
  show ?thesis
    using Some by (auto simp: fail_item_def Let_def upd_items_owned [OF assms Some] running_item_def
        intro!: evolves_chain)
qed (simp add: fail_item_def)

lemma evolves_retry_failed:
  assumes "retry_failed job_id now d = Inr (n, d')" shows "evolves d d'"
proof -
  let ?q = "\<lambda>i. i_job_id i = job_id \<and> i_status i = IFailed"
  let ?f = "\<lambda>i. i\<lparr>i_status := IPending, available_at := now, error_code := None, completed_at := None, dead_lettered_at := None\<rparr>"
  have "evolves d (upd_items ?q ?f d)" by (intro evolves_chain) auto
  moreover have "evolves (upd_items ?q ?f d) d'"
    if "store_jobs (update_where (\<lambda>j. j_id j = job_id \<and> (j_status j = Failed \<or> j_status j = CompletedWithErrors))
          (\<lambda>j. j\<lparr>j_status := Pending, failed_items := 0, j_completed_at := None\<rparr>) (jobs (upd_items ?q ?f d)))
          (upd_items ?q ?f d) = Inr d'"
    using that by (rule evolves_store_jobs) auto
  ultimately show ?thesis
    using assms by (auto simp: retry_failed_def Let_def split: option.splits if_splits sum.splits intro: evolves_trans)
qed

lemma evolves_reopen:
  assumes "reopen_batch_job job_id now d = Inr (b, d')" shows "evolves d d'"
proof -
  obtain d1 where s: "store_jobs (update_where
        (\<lambda>j. j_id j = job_id \<and> j_status j \<in> {Pending, Running, Retrying, Failed, CompletedWithErrors})
        (\<lambda>j. j\<lparr>j_status := Running, j_completed_at := None, heartbeat_at := Some now\<rparr>) (jobs d)) d = Inr d1"
    using assms by (auto simp: reopen_batch_job_def Let_def split: sum.splits)
  have "evolves d d1" using s by (rule evolves_store_jobs) auto
  then show ?thesis using assms s
    by (auto simp: reopen_batch_job_def Let_def split: if_splits intro!: evolves_chain)
qed

lemma evolves_transition:
  assumes "(from, to_status) \<in> set requested_transitions" "transition job_id from to_status ev now d = Inr (b, d')"
  shows "evolves d d'"
proof -
  obtain d1 where s: "store_jobs (update_where (\<lambda>j. j_id j = job_id \<and> j_status j \<in> set from)
      (\<lambda>j. j\<lparr>j_status := to_status, heartbeat_at := Some now\<rparr>) (jobs d)) d = Inr d1"
    and d': "d' = d1 \<or> d' = add_event job_id ev now d1"
    using assms(2) by (auto simp: transition_def Let_def split: sum.splits if_splits)
  have "evolves d d1"
    using s by (rule evolves_store_jobs) (use assms(1) in \<open>auto simp: requested_transitions_def\<close>)
  then show ?thesis using d' by auto
qed

lemma evolves_finalize:
  assumes "frame_finalizer fin" shows "evolves d (snd (finalize_if_done h fin job_id now d))"
proof -
  have own: "evolves d d'" if "fin = Some f" "f d job_id t = Inr d'" for f t d'
    using assms that by (metis evolves_frame frame_finalizer_def)
  have close: "evolves d (upd_jobs (\<lambda>j. j_id j = job_id \<and> runnable_status (j_status j))
     (\<lambda>j. j\<lparr>j_status := t, j_completed_at := Some now, heartbeat_at := Some now\<rparr>) d1)"
    if "evolves d d1" for d1 t
    using that by (intro evolves_chain) (auto simp: status_defs)
  show ?thesis
    using own close by (auto simp: finalize_if_done_def run_finalizer_def Let_def split: option.splits sum.splits)
qed

lemma evolves_recover_stale: "evolves d (snd (recover_stale h now d))"
  using evolves_recover_fold [of "(0, d)" h now "stale_rows now d"]
  by (auto simp: recover_stale_def Let_def split: prod.splits intro!: evolves_chain)

lemma evolves_status_ops:
  "evolves d (snd (fail_invalid_settings job_id now d))"
  "evolves d (snd (acknowledge_pause job_id now d))"
  "evolves d (snd (Job_Repository.cancel job_id now d))"
  "evolves d (snd (abandon_unstarted job_id c now d))"
  by (auto simp: fail_invalid_settings_def acknowledge_pause_def Job_Repository.cancel_def abandon_unstarted_def
      Let_def status_defs intro!: evolves_chain)

lemma evolves_item_ops:
  "evolves d (snd (renew_leases job_id w ls now d))"
  "evolves d (snd (complete_item job_id item_id res cost wo now d))"
  "evolves d (snd (record_late_completion job_id item_id res cost wo now d))"
  "evolves d (snd (defer_item item_id wo after dp code now d))"
  by (auto simp: renew_leases_def complete_item_def record_late_completion_def defer_item_def Let_def running_item_def
      split: option.split intro!: evolves_chain)

lemma evolves_batch_ops:
  "evolves d (snd (complete_batch_item job_id item_id res cost now d))"
  "evolves d (snd (fail_batch_item h job_id item_id c now d))"
  "evolves d (snd (cancel_batch_item job_id item_id c now d))"
  by (auto simp: complete_batch_item_def fail_batch_item_def cancel_batch_item_def Let_def batch_open_def status_defs
      split: option.split intro!: evolves_chain)

lemma evolves_repo_step: "repo_step d d' \<Longrightarrow> wf_db d \<Longrightarrow> evolves d d'"
proof (induction rule: repo_step.induct)
  case (create hook job_id uuids r now d x d')
  then show ?case
    by (auto simp: create_def split: option.splits sum.splits if_splits dest: evolves_create_new evolves_adopt)
next
  case (lookup key fp d y d')
  then show ?case
    by (auto simp: get_by_dedupe_key_def Let_def split: option.splits sum.splits if_splits dest: evolves_adopt)
next
  case (preview job_id item_id k name sets u pr pl sl now d x d')
  then show ?case
    by (auto simp: create_maintenance_with_capacity_def split: if_splits sum.splits dest: evolves_insert_maintenance)
next
  case (finalize fin d h job_id now)
  then show ?case by (blast intro: evolves_finalize)
next
  case (batch_finalize job_id st now d b d')
  then show ?case
    by (auto simp: finalize_batch_job_def Let_def status_defs split: if_splits intro!: evolves_chain)
qed (blast intro: evolves_guarded evolves_transition evolves_request_pause evolves_claim evolves_fail_item
    evolves_recover_stale evolves_retry_failed evolves_reopen evolves_status_ops evolves_item_ops evolves_batch_ops)+

lemma evolves_steps: "repo_step\<^sup>*\<^sup>* d d' \<Longrightarrow> wf_db d \<Longrightarrow> evolves d d'"
proof (induction rule: rtranclp_induct)
  case (step y z)
  then show ?case using evolves_repo_step evolves_trans queue.inv_steps by blast
qed simp

end
