(* ===== verification/Job_Examples.thy ===== *)
theory Job_Examples
  imports Job_Lifecycle
begin

text \<open>
  A small queue, built by running the operations: two photos, one analysis job over both, which
  is started and whose first item is claimed by worker \<^verbatim>\<open>w1\<close> for a minute. The witnesses of the
  queue's properties are instances at these states.
\<close>

definition demo_photo :: "string \<Rightarrow> photo" where
  "demo_photo x =
     \<lparr>p_id = x, sha256 = Some (''sha-'' @ x), lifecycle_status = ''active'', p_status = ''ready'', eligible = True,
      local_features_status = ''ready'', screenshot_likelihood = None, local_candidate_score = None,
      captured_at = None, p_created_at = ''2024'', never_upload = False, exclusion_status = ''eligible''\<rparr>"

definition demo_empty :: db where
  "demo_empty =
     \<lparr>photos = [demo_photo ''p1'', demo_photo ''p2''], photo_analysis = [], jobs = [], job_items = [],
      job_events = [], job_errors = [], analysis_batches = [], analysis_batch_items = [], settings = [],
      openai_pause_kind = None, backfill_enabled = False, backfill_pause_reason = None, backfill_tasks = [],
      api_usage_jobs = [], usage_archive_jobs = []\<rparr>"

definition demo_request :: create_request where
  "demo_request =
     \<lparr>cr_kind = ''analysis'', cr_name = ''n'', cr_strategy = ''single'', cr_settings = JObj [],
      cr_photo_ids = [''p1'', ''p2''], cr_created_by = Some ''u1'', cr_budget_limit = None, cr_priority = 9,
      cr_dedupe_key = Some ''k1'', cr_selection_mode = ''pending'', cr_analysis_fingerprint = None,
      cr_force_recompute = False, cr_analysis_spec = None, cr_request_fingerprint = Some ''f1''\<rparr>"

definition demo_uuids :: "nat \<Rightarrow> string" where
  "demo_uuids n = (if n = 0 then ''i1'' else ''i2'')"

definition demo_result :: item_result where
  "demo_result = \<lparr>r_json = JObj [], r_stage = None, r_outcome_code = None, r_outcome = None, r_error_code = None\<rparr>"

definition demo_created :: db where
  "demo_created = snd (projr (Job_Repository.create None ''j1'' demo_uuids demo_request 0 demo_empty))"

definition demo_started :: db where
  "demo_started = snd (projr (transition ''j1'' [Pending] Running ''started'' 1 demo_created))"

definition demo_claimed :: db where
  "demo_claimed = snd (projr (Job_Repository.claim ''j1'' ''w1'' 1 60 10 demo_started))"

definition demo_rows :: "job_item list" where
  "demo_rows = fst (projr (Job_Repository.claim ''j1'' ''w1'' 1 60 10 demo_started))"

text \<open>A call that returns, as its result.\<close>

lemma returned: "\<not> isl c \<Longrightarrow> fst (projr c) = x \<Longrightarrow> c = Inr (x, snd (projr c))"
  by (cases c) auto

lemma demo_create:
  "Job_Repository.create None ''j1'' demo_uuids demo_request 0 demo_empty = Inr (''j1'', demo_created)"
  unfolding demo_created_def by (rule returned; code_simp)

lemma demo_start: "transition ''j1'' [Pending] Running ''started'' 1 demo_created = Inr (True, demo_started)"
  unfolding demo_started_def by (rule returned; code_simp)

lemma demo_claim: "Job_Repository.claim ''j1'' ''w1'' 1 60 10 demo_started = Inr (demo_rows, demo_claimed)"
  unfolding demo_claimed_def demo_rows_def by (rule returned; code_simp)

lemma demo_steps:
  "repo_step demo_empty demo_created" "repo_step demo_created demo_started" "repo_step demo_started demo_claimed"
proof -
  have "frame_hook None" by (simp add: frame_hook_def)
  then show "repo_step demo_empty demo_created" using demo_create by (rule repo_step.create)
  show "repo_step demo_created demo_started"
    using demo_start by (intro repo_step.change) (auto simp: requested_transitions_def)
  show "repo_step demo_started demo_claimed" using demo_claim by (rule repo_step.claim)
qed

lemma demo_initial: "initial_db demo_empty"
  by (simp add: initial_db_def demo_empty_def)

lemma demo_reachable:
  "repo_step\<^sup>*\<^sup>* demo_empty demo_started" "repo_step\<^sup>*\<^sup>* demo_empty demo_claimed"
  using demo_steps by (meson rtranclp.rtrancl_into_rtrancl rtranclp.rtrancl_refl)+

lemma demo_wf: "wf_db demo_empty" "wf_db demo_created" "wf_db demo_started" "wf_db demo_claimed"
  using demo_steps demo_initial wf_initial wf_repo_step by blast+

text \<open>The same job after both items were completed.\<close>

definition demo_half :: db where
  "demo_half = snd (complete_item ''j1'' ''i1'' demo_result 0 (Some ''w1'') 20 demo_claimed)"

definition demo_done :: db where
  "demo_done = snd (complete_item ''j1'' ''i2'' demo_result 0 (Some ''w1'') 40
     (snd (projr (Job_Repository.claim ''j1'' ''w1'' 1 60 30 demo_half))))"

lemma demo_wf_half: "wf_db demo_half"
  unfolding demo_half_def by (rule wf_complete_item [OF demo_wf(4)])

lemma demo_wf_done: "wf_db demo_done"
proof -
  have "Job_Repository.claim ''j1'' ''w1'' 1 60 30 demo_half =
      Inr (fst (projr (Job_Repository.claim ''j1'' ''w1'' 1 60 30 demo_half)),
           snd (projr (Job_Repository.claim ''j1'' ''w1'' 1 60 30 demo_half)))"
    by (rule returned; code_simp)
  then have "wf_db (snd (projr (Job_Repository.claim ''j1'' ''w1'' 1 60 30 demo_half)))"
    by (rule wf_claim [OF demo_wf_half])
  then show ?thesis unfolding demo_done_def by (rule wf_complete_item)
qed

end
