(* ===== verification/Job_Properties.thy ===== *)
theory Job_Properties
  imports Job_Lifecycle Job_Examples
begin

text \<open>
  What the job queue guarantees to its clients: exclusive claims, fenced results, results
  counted at most once, bounded retries and recovery, idempotent creation and exclusive
  ownership of a photo's analysis.
\<close>

section \<open>A queue whose results are recorded at most once\<close>

text \<open>Executions that record which results were committed, newest first.\<close>

inductive exec :: "('s \<Rightarrow> 's \<Rightarrow> bool) \<Rightarrow> ('s \<Rightarrow> 'k \<Rightarrow> 's \<Rightarrow> bool) \<Rightarrow> 's \<Rightarrow> 'k list \<Rightarrow> 's \<Rightarrow> bool"
  for step commits where
  start: "exec step commits s [] s"
| other: "exec step commits s ks t \<Longrightarrow> step t u \<Longrightarrow> exec step commits s ks u"
| commit: "exec step commits s ks t \<Longrightarrow> commits t k u \<Longrightarrow> exec step commits s (k # ks) u"

text \<open>The contract a worker relies on: a commit is a step of the queue, it succeeds only for a
  result that is not recorded yet and records it, and no step forgets a recorded result.\<close>

locale committing_queue = invariant_system +
  fixes finished :: "'a \<Rightarrow> 'k set"
    and commits :: "'a \<Rightarrow> 'k \<Rightarrow> 'a \<Rightarrow> bool"
  assumes commit_is_step: "commits s k t \<Longrightarrow> step s t"
    and commit_fresh: "inv s \<Longrightarrow> commits s k t \<Longrightarrow> k \<notin> finished s"
    and commit_records: "inv s \<Longrightarrow> commits s k t \<Longrightarrow> k \<in> finished t"
    and finished_mono: "inv s \<Longrightarrow> step s t \<Longrightarrow> finished s \<subseteq> finished t"
begin

lemma exec_inv: "exec step commits s ks t \<Longrightarrow> inv s \<Longrightarrow> inv t"
  by (induction rule: exec.induct) (auto intro: inv_step commit_is_step)

lemma exec_finished:
  "exec step commits s ks t \<Longrightarrow> inv s \<Longrightarrow> distinct ks \<and> set ks \<subseteq> finished t"
proof (induction rule: exec.induct)
  case (other s ks t u)
  then show ?case using exec_inv finished_mono by blast
next
  case (commit s ks t k u)
  then have t: "inv t" using exec_inv by blast
  have "k \<notin> finished t" "k \<in> finished u" "finished t \<subseteq> finished u"
    using t commit.hyps(2) commit_fresh commit_records finished_mono commit_is_step by blast+
  with commit.IH commit.prems show ?case by auto
qed simp

end

section \<open>Definitions used by the properties\<close>

text \<open>A completion that was counted: the call returned true and the item is now completed.\<close>

definition commits_result :: "db \<Rightarrow> string \<Rightarrow> db \<Rightarrow> bool" where
  "commits_result d item_id d' =
     ((\<exists>job_id r cost w now. complete_item job_id item_id r cost w now d = (True, d') \<and> item_id \<in> done_items d') \<or>
      (\<exists>job_id r cost now. complete_batch_item job_id item_id r cost now d = (True, d')))"

section \<open>Lemmas\<close>

lemma item_by_id:
  assumes "wf_db d" "i \<in> set (job_items d)" "k \<in> set (job_items d)" "i_id i = i_id k" shows "i = k"
  using assms key_inj [of i_id "job_items d" i k] wf_ids by blast

lemma upd_items_mem:
  "i \<in> set (job_items d) \<Longrightarrow> p i \<Longrightarrow> f i \<in> set (job_items (upd_items p f d))"
  using in_update_where [of i "job_items d" p f] by simp

lemma fst_complete_item:
  "fst (complete_item job_id item_id r cost w now d) = (\<exists>i \<in> set (job_items d). running_item job_id item_id w i)"
  by (auto simp: complete_item_def Let_def row_count_zero_iff split: option.split)

lemma fst_complete_batch_item:
  "fst (complete_batch_item job_id item_id r cost now d) = (\<exists>i \<in> set (job_items d). batch_open job_id item_id i)"
  by (auto simp: complete_batch_item_def Let_def row_count_zero_iff)

lemma commits_fresh:
  assumes "wf_db d" "commits_result d x d'" shows "x \<notin> done_items d"
proof -
  obtain i where "i \<in> set (job_items d)" "i_id i = x" "i_status i \<noteq> ICompleted"
    using assms(2) fst_complete_item fst_complete_batch_item unfolding commits_result_def
    by (metis (no_types, lifting) batch_open_def closed_item_def fst_conv insertCI item_status.distinct running_item_def)
  then show ?thesis using item_by_id [OF assms(1)] by (auto simp: done_items_def)
qed

lemma commits_recorded:
  assumes "commits_result d x d'" shows "x \<in> done_items d'"
  using assms unfolding commits_result_def
proof
  assume "\<exists>job_id r cost now. complete_batch_item job_id x r cost now d = (True, d')"
  then obtain job_id r cost now where c: "complete_batch_item job_id x r cost now d = (True, d')" by blast
  then obtain i where i: "i \<in> set (job_items d)" "batch_open job_id x i"
    by (auto simp: complete_batch_item_def Let_def row_count_zero_iff split: if_splits)
  let ?f = "\<lambda>i. i\<lparr>i_status := ICompleted, completed_at := Some now, result_json := Some (Encoded (r_json r)),
      estimated_cost := cost, stage := ''analysis_batch'', lease_until := None\<rparr>"
  have "?f i \<in> set (job_items d')"
    using c in_update_where [OF i(1), of "batch_open job_id x" ?f] i(2)
    by (auto simp: complete_batch_item_def Let_def split: if_splits)
  then show ?thesis using i(2) unfolding done_items_def
    by (intro image_eqI [of _ _ "?f i"]) (simp_all add: batch_open_def)
qed blast

lemma commits_step: "commits_result d x d' \<Longrightarrow> repo_step d d'"
  unfolding commits_result_def by (metis repo_step.complete repo_step.batch_complete snd_conv)

lemma done_items_mono: "wf_db d \<Longrightarrow> repo_step d d' \<Longrightarrow> done_items d \<subseteq> done_items d'"
  using evolves_repo_step by (simp add: evolves_def)

interpretation results: committing_queue initial_db repo_step wf_db done_items commits_result
  by unfold_locales (auto dest: commits_fresh commits_recorded commits_step done_items_mono)

section \<open>Claims\<close>

lemma distinct_claim_ids: "wf_db d \<Longrightarrow> distinct (claim_ids oa b job_id limit now d)"
proof -
  assume "wf_db d"
  then have "distinct (map i_id (filter (due_item job_id now) (job_items d)))"
    using wf_ids distinct_map_filter by blast
  then have "distinct (map i_id (sort_key k (filter (due_item job_id now) (job_items d))))" for k :: "job_item \<Rightarrow> 'a::linorder"
    by (simp add: distinct_map)
  then show ?thesis
    by (auto simp: claim_ids_def sql_limit_def distinct_map intro: inj_on_subset [OF _ set_take_subset])
qed

lemma length_claim_ids: "0 \<le> limit \<Longrightarrow> length (claim_ids oa b job_id limit now d) \<le> nat limit"
  by (simp add: claim_ids_def sql_limit_def)

lemma claim_ids_mem: "x \<in> set (claim_ids oa b job_id limit now d) \<Longrightarrow> \<exists>i \<in> set (job_items d). i_id i = x \<and> due_item job_id now i"
  by (auto simp: claim_ids_def sql_limit_def dest!: in_set_takeD split: if_splits)

lemma rows_by_id_all:
  assumes "distinct (map i_id rows)" "set ids \<subseteq> i_id ` set rows"
  shows "map i_id (rows_by_id ids rows) = ids \<and> set (rows_by_id ids rows) \<subseteq> set rows"
  using assms(2)
proof (induction ids)
  case (Cons x ids)
  then obtain r where r: "r \<in> set rows" "i_id r = x" by auto
  then have "first_row (\<lambda>i. i_id i = x) rows = Some r" using assms(1) by (intro first_row_key)
  with Cons r show ?case by (simp add: rows_by_id_def List.map_filter_simps)
qed (simp add: rows_by_id_def List.map_filter_simps)

lemma claim_rows_spec:
  assumes "wf_db d" "claim_rows oa b job_id w limit ls now d = (rows, d')"
  shows "map i_id rows = claim_ids oa b job_id limit now d"
    and "r \<in> set rows \<Longrightarrow> r \<in> set (job_items d') \<and> (\<exists>i \<in> set (job_items d). i_id i = i_id r \<and>
       due_item job_id now i \<and> r = claim_update w now (now + seconds ls) i)"
    and "i \<in> set (job_items d) \<Longrightarrow> i_id i \<notin> i_id ` set rows \<Longrightarrow> i \<in> set (job_items d')"
proof -
  let ?ids = "claim_ids oa b job_id limit now d" and ?f = "claim_update w now (now + seconds ls)"
  have items: "job_items d' = update_where (\<lambda>i. i_id i \<in> set ?ids) ?f (job_items d)"
    and rows: "rows = rows_by_id ?ids (job_items d')"
    using assms(2) by (auto simp: claim_rows_def Let_def)
  have ids: "map i_id (job_items d') = map i_id (job_items d)"
    unfolding items by (simp add: map_update_where claim_update_def)
  have sub: "set ?ids \<subseteq> i_id ` set (job_items d')"
  proof
    fix x assume "x \<in> set ?ids"
    then have "x \<in> set (map i_id (job_items d))" using claim_ids_mem by fastforce
    then show "x \<in> i_id ` set (job_items d')" unfolding ids [symmetric] by simp
  qed
  have all: "map i_id rows = ?ids" "set rows \<subseteq> set (job_items d')"
    using rows_by_id_all [OF _ sub] wf_ids [OF assms(1)] ids unfolding rows by auto
  show "map i_id rows = ?ids" by (fact all(1))
  have idset: "i_id ` set rows = set ?ids" using all(1) by (metis list.set_map)
  show "r \<in> set (job_items d') \<and> (\<exists>i \<in> set (job_items d). i_id i = i_id r \<and>
       due_item job_id now i \<and> r = claim_update w now (now + seconds ls) i)" if "r \<in> set rows"
  proof -
    have r: "r \<in> set (job_items d')" using that all(2) by blast
    have rid: "i_id r \<in> set ?ids" using that idset by blast
    obtain i where i: "i \<in> set (job_items d)" "r = (if i_id i \<in> set ?ids then ?f i else i)"
      using r unfolding items set_update_where by auto
    have id: "i_id i = i_id r" using i(2) by (auto simp: claim_update_def)
    have due: "due_item job_id now i" using claim_ids_due [OF assms(1) i(1)] rid id by simp
    show ?thesis using i id due r rid by auto
  qed
  show "i \<in> set (job_items d')" if "i \<in> set (job_items d)" "i_id i \<notin> i_id ` set rows"
    using that(2) in_update_where [OF that(1), of "\<lambda>i. i_id i \<in> set ?ids" ?f]
    unfolding items idset by simp
qed

lemma claim_spec:
  assumes "wf_db d" "Job_Repository.claim job_id w limit ls now d = Inr (rows, d')"
  shows "distinct (map i_id rows)" "0 \<le> limit \<Longrightarrow> length rows \<le> nat limit"
    and "r \<in> set rows \<Longrightarrow> r \<in> set (job_items d') \<and> (\<exists>i \<in> set (job_items d). i_id i = i_id r \<and>
       due_item job_id now i \<and> r = claim_update w now (now + seconds ls) i)"
    and "i \<in> set (job_items d) \<Longrightarrow> i_id i \<notin> i_id ` set rows \<Longrightarrow> i \<in> set (job_items d')"
proof -
  consider "rows = []" "d' = d" | oa b where "claim_rows oa b job_id w limit ls now d = (rows, d')"
    using claim_cases [OF assms(2)] by force
  note cases = this
  show "distinct (map i_id rows)"
    using cases by cases (use claim_rows_spec(1) [OF assms(1)] distinct_claim_ids [OF assms(1)] in auto)
  show "length rows \<le> nat limit" if "0 \<le> limit"
    using cases by cases (use claim_rows_spec(1) [OF assms(1)] length_claim_ids [OF that] in \<open>auto simp flip: length_map [of i_id]\<close>)
  show "r \<in> set (job_items d') \<and> (\<exists>i \<in> set (job_items d). i_id i = i_id r \<and>
       due_item job_id now i \<and> r = claim_update w now (now + seconds ls) i)" if "r \<in> set rows"
    using cases by cases (use that claim_rows_spec(2) [OF assms(1)] in auto)
  show "i \<in> set (job_items d')" if "i \<in> set (job_items d)" "i_id i \<notin> i_id ` set rows"
    using cases by cases (use that claim_rows_spec(3) [OF assms(1)] in auto)
qed

lemma sorted_take_before:
  assumes "sorted (map k xs)" "x \<in> set (take n xs)" "y \<in> set xs" "y \<notin> set (take n xs)"
  shows "k x \<le> k y"
proof -
  have "y \<in> set (drop n xs)" using assms(3,4) by (metis Un_iff append_take_drop_id set_append)
  then show ?thesis using assms(1,2) sorted_append [of "map k (take n xs)" "map k (drop n xs)"]
    by (metis append_take_drop_id image_eqI list.set_map map_append)
qed

lemma claim_ids_earliest:
  assumes "i \<in> set (job_items d)" "i_id i \<in> set (claim_ids oa b job_id limit now d)"
    and "k \<in> set (job_items d)" "due_item job_id now k" "i_id k \<notin> set (claim_ids oa b job_id limit now d)" "wf_db d"
  shows "claim_key oa b d i \<le> claim_key oa b d k"
proof -
  let ?xs = "sort_key (claim_key oa b d) (filter (due_item job_id now) (job_items d))"
  have k: "k \<in> set ?xs" "k \<notin> set (sql_limit limit ?xs)" using assms(3-5) by (auto simp: claim_ids_def)
  have lim: "\<not> limit < 0" using k by (auto simp: sql_limit_def)
  obtain i' where "i' \<in> set (sql_limit limit ?xs)" "i_id i' = i_id i" using assms(2) by (auto simp: claim_ids_def)
  moreover from this have "i' \<in> set (job_items d)"
    by (auto simp: sql_limit_def dest!: in_set_takeD split: if_splits)
  ultimately have "i \<in> set (sql_limit limit ?xs)" using item_by_id [OF assms(6) _ assms(1)] by metis
  then show ?thesis using k lim sorted_take_before [of "claim_key oa b d" ?xs i "nat limit" k]
    by (simp add: sql_limit_def)
qed

section \<open>Properties of the whole queue\<close>

text \<open>C1. In every state reachable from an empty queue by the operations of the repository, in any
  order, with any arguments and with callers' hooks that write to their own tables: job ids, item
  ids and (job, photo) pairs are unique, every item belongs to a job, two active jobs never share
  a dedupe key, priorities lie in 1..6, a running item has an owner, a lease, an idempotency key
  and at least one attempt, \<^verbatim>\<open>completed_items\<close> equals the number of completed items of the job and
  \<^verbatim>\<open>failed_items\<close> never exceeds the number of failed ones.\<close>

theorem reachable_wf_db:
  assumes "initial_db d0" "repo_step\<^sup>*\<^sup>* d0 d"
  shows "distinct (map j_id (jobs d)) \<and> distinct (map i_id (job_items d)) \<and>
    i_job_id ` set (job_items d) \<subseteq> j_id ` set (jobs d) \<and> unique_key item_pair (job_items d) \<and>
    unique_key active_dedupe (jobs d) \<and>
    (\<forall>j \<in> set (jobs d). 1 \<le> priority j \<and> priority j \<le> 6 \<and>
        completed_items j = items_of (j_id j) (\<lambda>s. s = ICompleted) d \<and>
        failed_items j \<le> items_of (j_id j) (\<lambda>s. s = IFailed) d) \<and>
    (\<forall>i \<in> set (job_items d). i_status i = IRunning \<longrightarrow>
        worker_id i \<noteq> None \<and> lease_until i \<noteq> None \<and> idempotency_key i \<noteq> None \<and> 0 < attempts i)"
  using queue.reachable_inv [OF assms]
  by (auto simp: wf_db_def wf_core_def wf_counts_def jobs_unique_def running_ok_def)

theorem reachable_wf_db_witness:
  "repo_step\<^sup>*\<^sup>* demo_empty demo_claimed \<and> distinct (map i_id (job_items demo_claimed)) \<and>
   list_all (\<lambda>i. 1 \<le> priority i \<and> priority i \<le> 6) (jobs demo_claimed)"
  using reachable_wf_db [OF demo_initial demo_reachable(2)] demo_reachable(2) by (auto simp: list_all_iff)

text \<open>C2. However the operations interleave, the result of an item is counted at most once: in an
  execution from a well-formed state the committed item ids are pairwise different, whether the
  realtime worker or the Batch importer committed them.\<close>

theorem results_counted_once:
  assumes "wf_db d" "exec repo_step commits_result d ks d'"
  shows "distinct ks \<and> set ks \<subseteq> done_items d'"
  using assms by (simp add: results.exec_finished)

theorem results_counted_once_witness:
  "exec repo_step commits_result demo_claimed [''i1''] demo_half \<and> ''i1'' \<in> done_items demo_half"
proof -
  have "fst (complete_item ''j1'' ''i1'' demo_result 0 (Some ''w1'') 20 demo_claimed)" by code_simp
  then have "complete_item ''j1'' ''i1'' demo_result 0 (Some ''w1'') 20 demo_claimed = (True, demo_half)"
    by (simp add: demo_half_def prod_eq_iff)
  moreover have "\<exists>i \<in> set (job_items demo_half). i_id i = ''i1'' \<and> i_status i = ICompleted" by code_simp
  then have "''i1'' \<in> done_items demo_half" unfolding done_items_def by (metis (mono_tags, lifting) image_eqI mem_Collect_eq)
  ultimately have "commits_result demo_claimed ''i1'' demo_half" unfolding commits_result_def by blast
  then have "exec repo_step commits_result demo_claimed [''i1''] demo_half"
    using exec.commit exec.start by metis
  with results_counted_once [OF demo_wf(4) this] show ?thesis by simp
qed

text \<open>C28. A completed or cancelled job is never revived and a completed item is never reopened,
  whatever operations follow.\<close>

theorem final_states_absorbing:
  assumes "wf_db d" "repo_step\<^sup>*\<^sup>* d d'"
  shows "jobs_in Completed d \<subseteq> jobs_in Completed d' \<and> jobs_in Cancelled d \<subseteq> jobs_in Cancelled d' \<and>
    done_items d \<subseteq> done_items d'"
  using evolves_steps [OF assms(2,1)] by (simp add: evolves_def)

theorem final_states_absorbing_witness:
  "repo_step\<^sup>*\<^sup>* demo_half (snd (Job_Repository.cancel ''j1'' 50 demo_half)) \<and>
   done_items demo_half \<subseteq> done_items (snd (Job_Repository.cancel ''j1'' 50 demo_half))"
proof -
  have "repo_step\<^sup>*\<^sup>* demo_half (snd (Job_Repository.cancel ''j1'' 50 demo_half))"
    using repo_step.cancel by blast
  with final_states_absorbing [OF demo_wf_half this] show ?thesis by blast
qed

section \<open>Properties of claims\<close>

text \<open>C3. A claim hands out items of a job that may run, and only items that were pending and due; each
  comes back running, owned by the caller, with the new lease and one more attempt, exactly as it
  is stored; at most \<^verbatim>\<open>limit\<close> items are returned, none twice, and every other item is untouched.\<close>

theorem claim_hands_out_due_items:
  assumes "wf_db d" "Job_Repository.claim job_id w limit ls now d = Inr (rows, d')" "0 \<le> limit"
  shows "distinct (map i_id rows) \<and> length rows \<le> nat limit \<and>
    (rows \<noteq> [] \<longrightarrow> (\<exists>j. find_job job_id d = Some j \<and> runnable_status (j_status j))) \<and>
    (\<forall>r \<in> set rows. r \<in> set (job_items d') \<and> i_status r = IRunning \<and> worker_id r = Some w \<and>
       lease_until r = Some (now + seconds ls) \<and>
       (\<exists>i \<in> set (job_items d). i_id i = i_id r \<and> i_job_id i = job_id \<and> i_status i = IPending \<and>
          available_at i \<le> now \<and> attempts r = attempts i + 1)) \<and>
    (\<forall>i \<in> set (job_items d). i_id i \<notin> i_id ` set rows \<longrightarrow> i \<in> set (job_items d'))"
proof -
  have "rows \<noteq> [] \<longrightarrow> (\<exists>j. find_job job_id d = Some j \<and> runnable_status (j_status j))"
    using assms(2) by (auto simp: Job_Repository.claim_def split: option.splits if_splits)
  moreover have "r \<in> set (job_items d') \<and> i_status r = IRunning \<and> worker_id r = Some w \<and>
       lease_until r = Some (now + seconds ls) \<and>
       (\<exists>i \<in> set (job_items d). i_id i = i_id r \<and> i_job_id i = job_id \<and> i_status i = IPending \<and>
          available_at i \<le> now \<and> attempts r = attempts i + 1)" if "r \<in> set rows" for r
    using claim_spec(3) [OF assms(1,2) that] by (auto simp: claim_update_def due_item_def)
  ultimately show ?thesis using claim_spec [OF assms(1,2)] assms(3) by blast
qed

theorem claim_hands_out_due_items_witness:
  "length demo_rows \<le> 1 \<and> map i_id demo_rows = [''i1''] \<and> list_all (\<lambda>r. worker_id r = Some ''w1'') demo_rows"
proof -
  have "map i_id demo_rows = [''i1'']" by code_simp
  with claim_hands_out_due_items [OF demo_wf(3) demo_claim] show ?thesis by (simp add: list_all_iff)
qed



end
