(* ===== verification/Job_Guarantees.thy ===== *)
theory Job_Guarantees
  imports Job_Properties
begin

text \<open>
  What each operation of the queue guarantees to its caller: fencing of workers that lost their
  lease, bounded retries, crash recovery, finalisation, idempotent creation, exclusive ownership
  of a photo's analysis, and the capacity limits of previews.
\<close>

section \<open>Fencing\<close>

lemma no_running_miss:
  assumes "\<forall>i \<in> set (job_items d). \<not> (i_id i = item_id \<and> i_status i = IRunning \<and> worker_id i = Some w)"
  shows "row_count (running_item job_id item_id (Some w)) (job_items d) = 0"
    and "row_count (\<lambda>i. i_id i = item_id \<and> i_status i = IRunning \<and> owned_by (Some w) i) (job_items d) = 0"
  using assms by (auto simp: row_count_zero_iff running_item_def owned_by_def)

lemma no_running_first:
  "row_count p (job_items d) = 0 \<Longrightarrow> first_row p (job_items d) = None"
  by (simp add: row_count_zero_iff first_row_None)

text \<open>C26. A worker that does not hold an item as running (it lost the lease, the item was recovered,
  finished or handed to another worker) cannot change anything about it: completing, recording a late
  result, deferring and failing all return false and leave the database as it is.\<close>

theorem stale_worker_fenced:
  assumes "\<forall>i \<in> set (job_items d). \<not> (i_id i = item_id \<and> i_status i = IRunning \<and> worker_id i = Some w)"
  shows "complete_item job_id item_id r cost (Some w) now d = (False, d) \<and>
    record_late_completion job_id item_id r cost (Some w) now d = (False, d) \<and>
    defer_item item_id (Some w) after pend code now d = (False, d) \<and>
    fail_item digest job_id item_id c m ri (Some w) now d = (False, d)"
  using no_running_miss [OF assms]
  by (simp add: complete_item_def record_late_completion_def defer_item_def fail_item_def Let_def
      upd_items_miss no_running_first)

theorem stale_worker_fenced_witness:
  "complete_item ''j1'' ''i1'' demo_result 0 (Some ''w2'') 20 demo_claimed = (False, demo_claimed) \<and>
   fail_item id ''j1'' ''i1'' ''JOB-001'' 3 None (Some ''w2'') 20 demo_claimed = (False, demo_claimed)"
proof -
  have "\<forall>i \<in> set (job_items demo_claimed). \<not> (i_id i = ''i1'' \<and> i_status i = IRunning \<and> worker_id i = Some ''w2'')"
    by code_simp
  from stale_worker_fenced [OF this] show ?thesis by blast
qed

section \<open>Committing\<close>

lemma first_row_pair:
  assumes "first_row (\<lambda>i. i_id i = item_id \<and> i_job_id i = job_id) (job_items d) = Some i"
  shows "i \<in> set (job_items d)" "i_id i = item_id" "i_job_id i = job_id"
  using first_row_Some [OF assms] by auto

lemma can_commit_obtains:
  assumes "can_commit_item job_id item_id w key now d"
  obtains j i where "find_job job_id d = Some j" "j_status j \<in> {Running, Retrying, Pausing}"
    "i \<in> set (job_items d)" "i_id i = item_id" "i_job_id i = job_id" "i_status i = IRunning"
    "coalesce_text (worker_id i) = w" "\<exists>t. lease_until i = Some t \<and> now < t"
proof -
  obtain j i where ji: "find_job job_id d = Some j"
    "first_row (\<lambda>i. i_id i = item_id \<and> i_job_id i = job_id) (job_items d) = Some i"
    using assms by (auto simp: can_commit_item_def split: option.splits)
  have "\<exists>t. lease_until i = Some t \<and> now < t"
    using assms ji by (auto simp: can_commit_item_def split: option.splits)
  then show ?thesis using assms ji first_row_pair [OF ji(2)] by (intro that) (auto simp: can_commit_item_def)
qed

lemma upd_items_status:
  assumes "i \<in> set (job_items d)" "p i" "i_status (f i) = s" "i_id (f i) = i_id i"
  shows "\<exists>x \<in> set (job_items (upd_items p f d)). i_id x = i_id i \<and> i_status x = s"
  using upd_items_mem [OF assms(1), of p f] assms(2-4) by blast

lemma find_job_upd_jobs:
  assumes "wf_db d" "find_job x d = Some j" "jobs e = jobs d" "\<And>j. j_id (g j) = j_id j"
  shows "find_job x (upd_jobs p g e) = Some (if p j then g j else j)"
proof -
  have js: "j \<in> set (jobs d)" "j_id j = x" using find_job_Some [OF assms(2)] by auto
  have "map j_id (jobs (upd_jobs p g e)) = map j_id (jobs d)"
    using assms(3,4) by (simp add: map_update_where)
  then show ?thesis unfolding find_job_def
    using wf_ids [OF assms(1)] js in_update_where [OF js(1), of p g] assms(3,4) by (intro first_row_key) auto
qed

text \<open>The commit check is sound: while \<^verbatim>\<open>can_commit_item\<close> answers yes to a worker, the lease has
  not expired, and completing the item as that worker succeeds, marks it completed and adds exactly one
  to \<^verbatim>\<open>completed_items\<close>.\<close>

theorem can_commit_item_sound:
  assumes "wf_db d" "can_commit_item job_id item_id w key now d" "w \<noteq> []"
  shows "fst (complete_item job_id item_id r cost (Some w) now d) \<and>
    item_id \<in> done_items (snd (complete_item job_id item_id r cost (Some w) now d)) \<and>
    (\<exists>j j'. find_job job_id d = Some j \<and>
       find_job job_id (snd (complete_item job_id item_id r cost (Some w) now d)) = Some j' \<and>
       completed_items j' = completed_items j + 1)"
proof -
  obtain j i where j: "find_job job_id d = Some j" "j_status j \<in> {Running, Retrying, Pausing}"
    and i: "i \<in> set (job_items d)" "i_id i = item_id" "i_job_id i = job_id" "i_status i = IRunning"
    and w: "coalesce_text (worker_id i) = w"
    using assms(2) by (rule can_commit_obtains)
  have run: "running_item job_id item_id (Some w) i"
    using i w assms(3) by (auto simp: running_item_def owned_by_def coalesce_text_def split: option.splits)
  then have hit: "row_count (running_item job_id item_id (Some w)) (job_items d) \<noteq> 0"
    using i(1) by (auto simp: row_count_zero_iff)
  let ?d' = "snd (complete_item job_id item_id r cost (Some w) now d)"
  let ?f = "\<lambda>i. i\<lparr>i_status := ICompleted, completed_at := Some now, result_json := Some (Encoded (r_json r)),
     lease_until := None, worker_id := None, estimated_cost := cost,
     stage := take 64 (str_or (r_stage r) ''completed''), error_code := result_error r\<rparr>"
  let ?d1 = "upd_items (running_item job_id item_id (Some w)) ?f d"
  have eq: "complete_item job_id item_id r cost (Some w) now d = (True, upd_jobs (\<lambda>j. j_id j = job_id)
      (\<lambda>j. j\<lparr>completed_items := completed_items j + 1, spent := add_spent ?d1 cost j, heartbeat_at := Some now\<rparr>) ?d1)"
    using j hit by (auto simp: complete_item_def Let_def)
  have "\<exists>x \<in> set (job_items ?d1). i_id x = item_id \<and> i_status x = ICompleted"
    using upd_items_status [of i d "running_item job_id item_id (Some w)" ?f, OF i(1) run] i(2) by simp
  then have finished: "item_id \<in> done_items ?d'" by (auto simp: eq done_items_def)
  show ?thesis using eq finished j(1) find_job_upd_jobs [OF assms(1) j(1), of ?d1] find_job_Some [OF j(1)] by simp
qed

theorem can_commit_item_sound_witness:
  "can_commit_item ''j1'' ''i1'' ''w1'' ''j1:i1'' 20 demo_claimed \<and>
   ''i1'' \<in> done_items (snd (complete_item ''j1'' ''i1'' demo_result 0 (Some ''w1'') 20 demo_claimed))"
proof -
  have c: "can_commit_item ''j1'' ''i1'' ''w1'' ''j1:i1'' 20 demo_claimed" by code_simp
  with can_commit_item_sound [OF demo_wf(4) this] show ?thesis by simp
qed

section \<open>Bounded retries\<close>

lemma retry_delay_bounds:
  "1 \<le> retry_delay ri n" "ri = None \<Longrightarrow> retry_delay ri n \<le> 300"
  by (auto simp: retry_delay_def split: option.splits)

lemma fst_fail_item:
  assumes "wf_db d" "i \<in> set (job_items d)" "running_item job_id item_id w i"
  shows "first_row (running_item job_id item_id w) (job_items d) = Some i"
proof -
  obtain k where k: "first_row (running_item job_id item_id w) (job_items d) = Some k"
    using assms(2,3) by (cases "first_row (running_item job_id item_id w) (job_items d)") (auto simp: first_row_None)
  moreover have "i = k"
    using first_running_unique [OF assms(1) k assms(2)] assms(3) by (simp add: running_item_def)
  ultimately show ?thesis by simp
qed

text \<open>A failed attempt is retried a bounded number of times: below \<^verbatim>\<open>max_attempts\<close> the item goes
  back to the queue, released, not before one second and, with the exponential back-off, not later than
  300 seconds from now; at \<^verbatim>\<open>max_attempts\<close> it is dead-lettered and \<^verbatim>\<open>failed_items\<close> grows by one. No
  other item changes.\<close>

theorem fail_item_bounded_retry:
  assumes "wf_db d" "i \<in> set (job_items d)" "running_item job_id item_id w i"
    and "fail_item digest job_id item_id code m ri w now d = (b, d')"
  shows "b \<and> (\<forall>x \<in> set (job_items d'). i_id x \<noteq> item_id \<longrightarrow> x \<in> set (job_items d)) \<and>
    (if int (attempts i) < m
     then jobs d' = jobs d \<and>
       (\<exists>x \<in> set (job_items d'). i_id x = item_id \<and> i_status x = IPending \<and> worker_id x = None \<and>
          attempts x = attempts i \<and> error_code x = Some code \<and> now + seconds 1 \<le> available_at x \<and>
          (ri = None \<longrightarrow> available_at x \<le> now + seconds 300))
     else (\<exists>x \<in> set (job_items d'). i_id x = item_id \<and> i_status x = IFailed \<and> dead_lettered_at x = Some now) \<and>
       (\<forall>j. find_job job_id d = Some j \<longrightarrow> map_option failed_items (find_job job_id d') = Some (failed_items j + 1)))"
proof -
  let ?fail = "\<lambda>i. i\<lparr>i_status := IFailed, completed_at := Some now, error_code := Some code,
     lease_until := None, worker_id := None, dead_lettered_at := Some now\<rparr>"
  let ?again = "\<lambda>x. x\<lparr>i_status := IPending, available_at := now + seconds (retry_delay ri (attempts i)),
     error_code := Some code, lease_until := None, worker_id := None\<rparr>"
  have row: "first_row (running_item job_id item_id w) (job_items d) = Some i"
    using assms(1-3) by (rule fst_fail_item)
  have id: "i_id i = item_id" using assms(3) by (simp add: running_item_def)
  have delay: "now + seconds 1 \<le> now + seconds (retry_delay ri (attempts i))"
    "ri = None \<Longrightarrow> now + seconds (retry_delay ri (attempts i)) \<le> now + seconds 300"
    using retry_delay_bounds [of ri "attempts i"] by (auto simp: seconds_def)
  have frame: "\<forall>x \<in> set (update_where (\<lambda>i. i_id i = item_id) g (job_items d)). i_id x \<noteq> item_id \<longrightarrow> x \<in> set (job_items d)"
    if "\<And>x. i_id (g x) = i_id x" for g using that by (auto simp: set_update_where)
  show ?thesis
  proof (cases "int (attempts i) < m")
    case True
    then have "d' = record_error digest job_id i code now (upd_items (\<lambda>i. i_id i = item_id) ?again d)" "b"
      using assms(4) row by (auto simp: fail_item_def)
    then show ?thesis using True frame [of ?again] delay in_update_where [OF assms(2), of "\<lambda>i. i_id i = item_id" ?again] id
      by (auto intro!: bexI [of _ "?again i"])
  next
    case False
    let ?e = "upd_items (\<lambda>i. i_id i = item_id) ?fail d"
    have d': "d' = record_error digest job_id i code now
        (upd_jobs (\<lambda>j. j_id j = job_id) (\<lambda>j. j\<lparr>failed_items := failed_items j + 1\<rparr>) ?e)" and b
      using False assms(4) row by (auto simp: fail_item_def)
    have "find_job job_id d' = Some (j\<lparr>failed_items := failed_items j + 1\<rparr>)" if "find_job job_id d = Some j" for j
      using find_job_upd_jobs [OF assms(1) that, of ?e "\<lambda>j. j\<lparr>failed_items := failed_items j + 1\<rparr>" "\<lambda>j. j_id j = job_id"]
        find_job_Some [OF that] by (simp add: d' find_job_def)
    moreover have "?fail i \<in> set (job_items d')"
      using in_update_where [OF assms(2), of "\<lambda>i. i_id i = item_id" ?fail] id by (simp add: d')
    moreover have "\<forall>x \<in> set (job_items d'). i_id x \<noteq> item_id \<longrightarrow> x \<in> set (job_items d)"
      using frame [of ?fail] by (simp add: d')
    ultimately show ?thesis using False \<open>b\<close> id by (auto intro!: bexI [of _ "?fail i"])
  qed
qed

theorem fail_item_bounded_retry_witness:
  "fst (fail_item id ''j1'' ''i1'' ''NET-001'' 3 None (Some ''w1'') 20 demo_claimed) \<and>
   (\<exists>x \<in> set (job_items (snd (fail_item id ''j1'' ''i1'' ''NET-001'' 3 None (Some ''w1'') 20 demo_claimed))).
      i_id x = ''i1'' \<and> i_status x = IPending \<and> available_at x \<le> 20 + seconds 300)"
proof -
  have m: "hd demo_rows \<in> set (job_items demo_claimed)" "running_item ''j1'' ''i1'' (Some ''w1'') (hd demo_rows)"
    "int (attempts (hd demo_rows)) < 3"
    by code_simp+
  show ?thesis
    using fail_item_bounded_retry [OF demo_wf(4) m(1,2) prod.collapse [symmetric], of id "''NET-001''" 3 None 20] m(3)
    by auto
qed

section \<open>Cancelling\<close>

lemma done_items_same:
  assumes "\<And>i. p i \<Longrightarrow> i_status i \<noteq> ICompleted \<and> i_status (f i) \<noteq> ICompleted"
  shows "done_items (upd_items p f d) = done_items d"
proof -
  have "{i \<in> set (update_where p f (job_items d)). i_status i = ICompleted} = {i \<in> set (job_items d). i_status i = ICompleted}"
    using assms by (auto simp: set_update_where image_iff split: if_splits)
  then show ?thesis by (simp add: done_items_def)
qed

text \<open>Cancelling stops a job: it becomes cancelled, none of its items stays pending, and the
  result a worker brings in afterwards is discarded, so that \<^verbatim>\<open>completed_items\<close> and the set of completed
  items stay what they were.\<close>

theorem cancelled_results_discarded:
  assumes "wf_db d" "find_job job_id d = Some j" "\<not> terminal_status (j_status j)"
    and "Job_Repository.cancel job_id now d = (b, d')"
  shows "b \<and> map_option j_status (find_job job_id d') = Some Cancelled \<and>
    items_of job_id (\<lambda>s. s = IPending \<or> s = IRetrying) d' = 0 \<and>
    jobs (snd (complete_item job_id item_id r cost w now' d')) = jobs d' \<and>
    done_items (snd (complete_item job_id item_id r cost w now' d')) = done_items d'"
proof -
  let ?p = "\<lambda>j. j_id j = job_id \<and> \<not> terminal_status (j_status j)"
  let ?g = "\<lambda>j. j\<lparr>j_status := Cancelled, cancel_requested_at := Some now, j_completed_at := Some now\<rparr>"
  let ?q = "\<lambda>i. i_job_id i = job_id \<and> (i_status i = IPending \<or> i_status i = IRetrying)"
  have "row_count ?p (jobs d) \<noteq> 0"
    using find_job_Some [OF assms(2)] assms(3) by (auto simp: row_count_zero_iff)
  then have b: "b" and d': "d' = add_event job_id ''cancelled'' now (upd_items ?q
      (\<lambda>i. i\<lparr>i_status := ICancelled, completed_at := Some now\<rparr>) (upd_jobs ?p ?g d))"
    using assms(4) by (auto simp: cancel_def Let_def)
  have job: "find_job job_id d' = Some (?g j)"
    using find_job_upd_jobs [OF assms(1,2), of d ?g ?p] find_job_Some [OF assms(2)] assms(3)
    by (simp add: d' find_job_def)
  have none: "items_of job_id (\<lambda>s. s = IPending \<or> s = IRetrying) d' = 0"
    by (simp add: d' items_of_def row_count_update_where row_count_zero_iff)
  have "complete_item job_id item_id r cost w now' d' =
      (row_count (running_item job_id item_id w) (job_items d') \<noteq> 0, upd_items (running_item job_id item_id w)
        (\<lambda>i. i\<lparr>i_status := ICancelled, completed_at := Some now', lease_until := None, worker_id := None\<rparr>) d')"
    using job by (simp add: complete_item_def Let_def)
  moreover have "done_items (upd_items (running_item job_id item_id w)
        (\<lambda>i. i\<lparr>i_status := ICancelled, completed_at := Some now', lease_until := None, worker_id := None\<rparr>) d') = done_items d'"
    by (rule done_items_same) (auto simp: running_item_def)
  ultimately show ?thesis using b job none by simp
qed

theorem cancelled_results_discarded_witness:
  "fst (Job_Repository.cancel ''j1'' 30 demo_claimed) \<and>
   done_items (snd (complete_item ''j1'' ''i1'' demo_result 0 (Some ''w1'') 40
      (snd (Job_Repository.cancel ''j1'' 30 demo_claimed)))) = done_items (snd (Job_Repository.cancel ''j1'' 30 demo_claimed))"
proof -
  have "find_job ''j1'' demo_claimed \<noteq> None" by code_simp
  then obtain j where j: "find_job ''j1'' demo_claimed = Some j" by auto
  have "\<not> terminal_status (j_status (the (find_job ''j1'' demo_claimed)))" by code_simp
  with j cancelled_results_discarded [OF demo_wf(4) j _ prod.collapse [symmetric]] show ?thesis by simp
qed

section \<open>Recovery after a crash\<close>

text \<open>What the recovery loop does to one stale item, and to the rows of the table.\<close>

definition recovered :: "instant \<Rightarrow> bool \<Rightarrow> job_item \<Rightarrow> job_item" where
  "recovered now seasonal x =
     (if seasonal \<or> attempts x \<ge> MAX_STALE_RECOVERY_ATTEMPTS
      then x\<lparr>i_status := IFailed, completed_at := Some now, worker_id := None, lease_until := None,
             error_code := Some ''WORKER_CRASH'', dead_lettered_at := Some now, completion_state := ''worker_crash''\<rparr>
      else x\<lparr>i_status := IPending, worker_id := None, lease_until := None, available_at := now\<rparr>)"

lemma recovered_id [simp]: "i_id (recovered now s x) = i_id x"
  by (simp add: recovered_def)

lemma recovered_not_stale [simp]: "\<not> stale_item now (recovered now s x)"
  by (simp add: recovered_def stale_item_def)

lemma recover_one_spec:
  assumes "distinct (map i_id (job_items d))" "i \<in> set (job_items d)" "stale_item now i"
  shows "fst (recover_one h now (i, s) (n, d)) = n + 1"
    and "job_items (snd (recover_one h now (i, s) (n, d))) =
         update_where (\<lambda>x. i_id x = i_id i) (recovered now s) (job_items d)"
proof -
  let ?p = "\<lambda>x. i_id x = i_id i \<and> stale_item now x"
  have only: "x = i" if "x \<in> set (job_items d)" "i_id x = i_id i" for x
    using key_inj [OF assms(1) that(1) assms(2) that(2)] .
  have one: "row_count ?p (job_items d) = 1"
  proof -
    have "row_count ?p (job_items d) \<le> 1" using row_count_key_le_one [OF assms(1)] .
    moreover have "0 < row_count ?p (job_items d)" using assms(2,3) by (auto simp: row_count_pos_iff)
    ultimately show ?thesis by simp
  qed
  have same: "update_where ?p g (job_items d) = update_where (\<lambda>x. i_id x = i_id i) (recovered now s) (job_items d)"
    if "g i = recovered now s i" for g
    unfolding update_where_def using only that assms(3) by (intro map_cong) auto
  show "fst (recover_one h now (i, s) (n, d)) = n + 1"
    using one by (simp add: recover_one_def Let_def)
  show "job_items (snd (recover_one h now (i, s) (n, d))) =
         update_where (\<lambda>x. i_id x = i_id i) (recovered now s) (job_items d)"
  proof (cases "s \<or> attempts i \<ge> MAX_STALE_RECOVERY_ATTEMPTS")
    case True
    then show ?thesis using one
      by (simp add: recover_one_def Let_def) (rule same, auto simp: recovered_def)
  next
    case False
    have "update_where ?p (\<lambda>x. x\<lparr>i_status := IPending, worker_id := None, lease_until := None, available_at := now\<rparr>)
        (job_items d) = update_where (\<lambda>x. i_id x = i_id i) (recovered now s) (job_items d)"
      by (rule same) (use False in \<open>simp add: recovered_def\<close>)
    then show ?thesis using one False by (simp add: recover_one_def Let_def)
  qed
qed

lemma recover_fold_spec:
  assumes "distinct (map i_id (job_items d))" "distinct (map (i_id \<circ> fst) rows)"
    and "\<forall>(i, s) \<in> set rows. i \<in> set (job_items d) \<and> stale_item now i"
  shows "fst (fold (recover_one h now) rows (n, d)) = n + length rows \<and>
    (\<forall>x \<in> set (job_items (snd (fold (recover_one h now) rows (n, d)))).
       if i_id x \<in> (i_id \<circ> fst) ` set rows then \<exists>(i, s) \<in> set rows. x = recovered now s i else x \<in> set (job_items d))"
  using assms
proof (induction rows arbitrary: n d)
  case (Cons row rows)
  obtain i s where row: "row = (i, s)" by (cases row)
  let ?r = "recover_one h now (i, s) (n, d)"
  let ?d = "snd ?r"
  have i: "i \<in> set (job_items d)" "stale_item now i" using Cons.prems(3) row by auto
  note spec = recover_one_spec [OF Cons.prems(1) i, of h s n]
  have ids: "map i_id (job_items ?d) = map i_id (job_items d)"
    unfolding spec(2) by (simp add: map_update_where)
  have rest: "\<forall>(k, t) \<in> set rows. k \<in> set (job_items ?d) \<and> stale_item now k"
  proof clarify
    fix k t assume k: "(k, t) \<in> set rows"
    then have "i_id k \<noteq> i_id i" using Cons.prems(2) row by force
    moreover have "k \<in> set (job_items d)" "stale_item now k" using Cons.prems(3) k by auto
    ultimately show "k \<in> set (job_items ?d) \<and> stale_item now k"
      using in_update_where [of k "job_items d" "\<lambda>x. i_id x = i_id i"] unfolding spec(2) by auto
  qed
  have r: "?r = (n + 1, ?d)" using spec(1) by (metis prod.collapse)
  have new: "x = recovered now s i \<or> x \<in> set (job_items d) \<and> i_id x \<noteq> i_id i" if "x \<in> set (job_items ?d)" for x
    using that key_inj [OF Cons.prems(1) _ i(1)] unfolding spec(2) set_update_where by auto
  have IH: "fst (fold (recover_one h now) rows (n + 1, ?d)) = n + 1 + length rows"
    "\<forall>x \<in> set (job_items (snd (fold (recover_one h now) rows (n + 1, ?d)))).
       if i_id x \<in> (i_id \<circ> fst) ` set rows then \<exists>(i, s) \<in> set rows. x = recovered now s i else x \<in> set (job_items ?d)"
    using Cons.IH [of ?d "n + 1"] Cons.prems(1,2) rest ids by auto
  have fr: "fold (recover_one h now) (row # rows) (n, d) = fold (recover_one h now) rows (n + 1, ?d)"
    unfolding row using r by simp
  have "if i_id x \<in> (i_id \<circ> fst) ` set (row # rows) then \<exists>(i, s) \<in> set (row # rows). x = recovered now s i
          else x \<in> set (job_items d)" if x: "x \<in> set (job_items (snd (fold (recover_one h now) rows (n + 1, ?d))))" for x
  proof (cases "i_id x \<in> (i_id \<circ> fst) ` set rows")
    case True
    then show ?thesis using IH(2) x by auto
  next
    case False
    then have "x \<in> set (job_items ?d)" using IH(2) x by auto
    then show ?thesis using new [of x] False row by auto
  qed
  note all = this
  have len: "fst (fold (recover_one h now) rows (n + 1, ?d)) = n + length (row # rows)" using IH(1) by simp
  show ?case unfolding fr by (rule conjI [OF len ballI]) (rule all)
qed simp

lemma stale_rows_complete:
  assumes "wf_db d"
  shows "length (stale_rows now d) = row_count (stale_item now) (job_items d)"
    and "distinct (map (i_id \<circ> fst) (stale_rows now d))"
    and "(i_id \<circ> fst) ` set (stale_rows now d) = i_id ` {i \<in> set (job_items d). stale_item now i}"
proof -
  let ?xs = "sort_key (\<lambda>i. (i_job_id i, i_id i)) (filter (stale_item now) (job_items d))"
  have owner: "find_job (i_job_id i) d \<noteq> None" if "i \<in> set (job_items d)" for i
  proof -
    have "i_job_id i \<in> j_id ` set (jobs d)" using assms that by (auto simp: wf_db_def wf_core_def)
    then show ?thesis by (auto simp: find_job_def first_row_None)
  qed
  have all: "List.map_filter (\<lambda>i. map_option (\<lambda>j. (i, seasonal_flag (settings_json j))) (find_job (i_job_id i) d)) xs =
      map (\<lambda>i. (i, seasonal_flag (settings_json (the (find_job (i_job_id i) d))))) xs"
    if "set xs \<subseteq> set (job_items d)" for xs
    using that
  proof (induction xs)
    case (Cons a xs)
    then obtain j where "find_job (i_job_id a) d = Some j" using owner [of a] by auto
    with Cons show ?case by (simp add: List.map_filter_simps)
  qed (simp add: List.map_filter_simps)
  have eq: "stale_rows now d = map (\<lambda>i. (i, seasonal_flag (settings_json (the (find_job (i_job_id i) d))))) ?xs"
    unfolding stale_rows_def by (rule all) auto
  show "length (stale_rows now d) = row_count (stale_item now) (job_items d)"
    by (simp add: eq row_count_def)
  show "distinct (map (i_id \<circ> fst) (stale_rows now d))"
    using distinct_map_filter [of i_id "job_items d" "stale_item now"] wf_ids [OF assms]
    by (simp add: eq distinct_map comp_def)
  show "(i_id \<circ> fst) ` set (stale_rows now d) = i_id ` {i \<in> set (job_items d). stale_item now i}"
    by (auto simp: eq image_iff)
qed

text \<open>C27. Recovery leaves no item behind: afterwards no running item has an expired or missing lease,
  the returned number is that of the stale items, each of which went back to the queue or, after
  \<^verbatim>\<open>MAX_STALE_RECOVERY_ATTEMPTS\<close> attempts or for a seasonal run, was dead-lettered as crashed; every
  other item is untouched, and no job is left pausing without a running item.\<close>

theorem recover_stale_complete:
  assumes "wf_db d" "recover_stale digest now d = (n, d')"
  shows "n = row_count (stale_item now) (job_items d) \<and> (\<forall>x \<in> set (job_items d'). \<not> stale_item now x) \<and>
    (\<forall>x \<in> set (job_items d'). x \<in> set (job_items d) \<or>
       (\<exists>i s. i \<in> set (job_items d) \<and> stale_item now i \<and> x = recovered now s i)) \<and>
    (\<forall>j \<in> set (jobs d'). j_status j = Pausing \<longrightarrow> 0 < items_of (j_id j) (\<lambda>s. s = IRunning) d')"
proof (cases "row_count (stale_item now) (job_items d) = 0 \<and> row_count (\<lambda>j. j_status j = Pausing) (jobs d) = 0")
  case True
  then show ?thesis using assms(2) by (auto simp: recover_stale_def row_count_zero_iff)
next
  case False
  let ?rows = "stale_rows now d"
  let ?d1 = "snd (fold (recover_one digest now) ?rows (0, d))"
  let ?p = "\<lambda>j. j_status j = Pausing \<and> items_of (j_id j) (\<lambda>s. s = IRunning) ?d1 = 0"
  have d': "n = fst (fold (recover_one digest now) ?rows (0, d))"
    "d' = upd_jobs ?p (\<lambda>j. j\<lparr>j_status := Paused, heartbeat_at := Some now\<rparr>) ?d1"
    using assms(2) False by (auto simp: recover_stale_def Let_def split: prod.splits)
  have stale: "\<forall>(i, s) \<in> set ?rows. i \<in> set (job_items d) \<and> stale_item now i"
    using stale_rows_items by fastforce
  note done_rows = recover_fold_spec [OF conjunct2 [OF wf_ids [OF assms(1)]] stale_rows_complete(2) [OF assms(1)] stale,
      of digest 0]
  have n: "n = row_count (stale_item now) (job_items d)"
    using done_rows stale_rows_complete(1) [OF assms(1)] d'(1) by simp
  have each: "(\<exists>i s. i \<in> set (job_items d) \<and> stale_item now i \<and> x = recovered now s i) \<or>
      (x \<in> set (job_items d) \<and> \<not> stale_item now x)" if x: "x \<in> set (job_items d')" for x
  proof (cases "i_id x \<in> (i_id \<circ> fst) ` set ?rows")
    case True
    then have "\<exists>(i, s) \<in> set ?rows. x = recovered now s i" using conjunct2 [OF done_rows] x d'(2) by auto
    then show ?thesis using stale_rows_items by blast
  next
    case False
    then have "x \<in> set (job_items d)" using done_rows x d'(2) by auto
    then show ?thesis using False stale_rows_complete(3) [OF assms(1), of now] by blast
  qed
  have pausing: "0 < items_of (j_id j) (\<lambda>s. s = IRunning) d'" if "j \<in> set (jobs d')" "j_status j = Pausing" for j
    using that unfolding d'(2) by (auto simp: set_update_where split: if_splits)
  show ?thesis using n each pausing recovered_not_stale by blast
qed

theorem recover_stale_complete_witness:
  "fst (recover_stale id (10 + seconds 61) demo_claimed) = 1 \<and>
   list_all (\<lambda>x. \<not> stale_item (10 + seconds 61) x) (job_items (snd (recover_stale id (10 + seconds 61) demo_claimed)))"
proof -
  have "row_count (stale_item (10 + seconds 61)) (job_items demo_claimed) = 1" by code_simp
  with recover_stale_complete [OF demo_wf(4) prod.collapse [symmetric], of id "10 + seconds 61"]
  show ?thesis by (simp add: list_all_iff)
qed

section \<open>Finalising\<close>

lemma run_finalizer_spec:
  assumes "frame_finalizer fin" "run_finalizer digest fin job_id t0 now d = (t, d1)"
  shows "jobs d1 = jobs d"
    and "t = (if (case fin of None \<Rightarrow> False | Some f \<Rightarrow> isl (f d job_id t0)) then CompletedWithErrors else t0)"
    and "(case fin of None \<Rightarrow> False | Some f \<Rightarrow> isl (f d job_id t0)) \<Longrightarrow>
         \<exists>e \<in> set (job_errors d1). er_job_id e = job_id \<and> component e = ''finalizer''"
  using assms by (auto simp: run_finalizer_def frame_finalizer_def Let_def add_error_def add_event_def
      split: option.splits sum.splits prod.splits)

text \<open>A job is finished exactly when it may run and has no open item left. It is then completed if
  no item failed and the finalizer, if any, did not raise, and completed with errors otherwise; a
  finalizer that raises leaves an error row and none of its writes. In every other case nothing
  changes.\<close>

theorem finalize_if_done_outcome:
  assumes "wf_db d" "frame_finalizer fin" "finalize_if_done digest fin job_id now d = (b, d')"
  shows "b = (\<exists>j. find_job job_id d = Some j \<and> runnable_status (j_status j) \<and> items_of job_id open_item d = 0) \<and>
    (if b
     then let ok = (items_of job_id (\<lambda>s. s = IFailed) d = 0);
              target = (if ok then Completed else CompletedWithErrors);
              raised = (case fin of None \<Rightarrow> False | Some f \<Rightarrow> isl (f d job_id target))
          in map_option j_status (find_job job_id d') = Some (if raised then CompletedWithErrors else target) \<and>
             (raised \<longrightarrow> (\<exists>e \<in> set (job_errors d'). er_job_id e = job_id \<and> component e = ''finalizer''))
     else d' = d)"
proof (cases "\<exists>j. find_job job_id d = Some j \<and> runnable_status (j_status j) \<and> items_of job_id open_item d = 0")
  case False
  then show ?thesis using assms(3) by (auto simp: finalize_if_done_def split: option.splits if_splits)
next
  case True
  then obtain j where j: "find_job job_id d = Some j" "runnable_status (j_status j)" "items_of job_id open_item d = 0"
    by blast
  let ?t0 = "if items_of job_id (\<lambda>s. s = IFailed) d = 0 then Completed else CompletedWithErrors"
  let ?p = "\<lambda>j. j_id j = job_id \<and> runnable_status (j_status j)"
  let ?g = "\<lambda>t j. j\<lparr>j_status := t, j_completed_at := Some now, heartbeat_at := Some now\<rparr>"
  obtain t d1 where run: "run_finalizer digest fin job_id ?t0 now d = (t, d1)" by fastforce
  note td = run_finalizer_spec [OF assms(2) run]
  have "row_count ?p (jobs d) \<noteq> 0" using j find_job_Some [OF j(1)] by (auto simp: row_count_zero_iff)
  then have b: "b" "d' = add_event job_id ''finished'' now (upd_jobs ?p (?g t) d1)" 
    using td(1) assms(3) j run by (auto simp: finalize_if_done_def Let_def)
  have "find_job job_id d' = Some (?g t j)"
    using find_job_upd_jobs [OF assms(1) j(1) td(1), of "?g t" ?p] j(2) find_job_Some [OF j(1)]
    by (simp add: b(2) find_job_def)
  moreover have "job_errors d' = job_errors d1" by (simp add: b(2) add_event_def upd_jobs_def)
  ultimately show ?thesis using b(1) True td(2,3) by (simp add: Let_def)
qed

theorem finalize_if_done_outcome_witness:
  "fst (finalize_if_done id None ''j1'' 50 demo_done) \<and>
   map_option j_status (find_job ''j1'' (snd (finalize_if_done id None ''j1'' 50 demo_done))) = Some Completed"
proof -
  have f: "frame_finalizer None" by (simp add: frame_finalizer_def)
  have b: "fst (finalize_if_done id None ''j1'' 50 demo_done)"
    "items_of ''j1'' (\<lambda>s. s = IFailed) demo_done = 0" by code_simp+
  show ?thesis
    using finalize_if_done_outcome [OF demo_wf_done f prod.collapse [symmetric], of id "''j1''" 50] b by simp
qed

end
