(* ===== verification/Job_Admission.thy ===== *)
theory Job_Admission
  imports Job_Guarantees
begin

text \<open>
  Admission of jobs: creation is idempotent by dedupe key, a photo under analysis is owned by one
  job, previews are limited, and failed items are retried only as a whole.
\<close>

section \<open>Idempotent creation\<close>

lemma newest_job_cong_map:
  assumes "\<And>j. p (f j) = p j" "\<And>j. j_created_at (f j) = j_created_at j \<and> j_id (f j) = j_id j"
  shows "newest_job p (map f js) = map_option f (newest_job p js)"
proof -
  let ?k = "\<lambda>j. (j_created_at j, j_id j)"
  have k: "?k \<circ> f = ?k" using assms(2) by auto
  have ins: "insort_key ?k (f x) (map f xs) = map f (insort_key ?k x xs)" for x xs
    using assms(2) by (induction xs) auto
  have "sort_key ?k (map f xs) = map f (sort_key ?k xs)" for xs
    by (induction xs) (auto simp: sort_key_def ins)
  moreover have "filter p (map f js) = map f (filter p js)" using assms(1) by (simp add: filter_map comp_def)
  ultimately show ?thesis unfolding newest_job_def rev_map [symmetric]
    by (auto simp: rev_map split: list.splits)
qed

lemma newest_job_in: "newest_job p js = Some j \<Longrightarrow> j \<in> set js \<and> p j"
proof -
  assume "newest_job p js = Some j"
  then obtain xs where "rev (sort_key (\<lambda>j. (j_created_at j, j_id j)) (filter p js)) = j # xs"
    by (auto simp: newest_job_def split: list.splits)
  then have "j \<in> set (rev (sort_key (\<lambda>j. (j_created_at j, j_id j)) (filter p js)))" by (metis list.set_intros(1))
  then show ?thesis by simp
qed

lemma newest_job_None: "newest_job p js = None \<longleftrightarrow> (\<forall>j \<in> set js. \<not> p j)"
proof -
  have "newest_job p js = None \<longleftrightarrow> sort_key (\<lambda>j. (j_created_at j, j_id j)) (filter p js) = []"
    by (auto simp: newest_job_def split: list.splits)
  also have "\<dots> \<longleftrightarrow> filter p js = []" by (metis set_empty set_sort)
  finally show ?thesis by (auto simp: filter_empty_conv)
qed

lemma newest_job_single:
  "\<forall>j \<in> set js. \<not> p j \<Longrightarrow> p x \<Longrightarrow> newest_job p (js @ [x]) = Some x"
  by (simp add: newest_job_def filter_empty_conv)

text \<open>Adopting the same request again finds nothing left to do.\<close>

lemma adopt_existing_again:
  assumes "adopt_existing existing fp d = Inr d'"
    and "newest_job (\<lambda>j. dedupe_key j = k) (jobs d) = Some existing"
  shows "\<exists>e. newest_job (\<lambda>j. dedupe_key j = k) (jobs d') = Some e \<and> j_id e = j_id existing \<and>
    adopt_existing e fp d' = Inr d'"
proof -
  let ?p = "\<lambda>j. j_id j = j_id existing \<and> request_fingerprint j = None"
  let ?f = "\<lambda>j. if ?p j then j\<lparr>request_fingerprint := fp\<rparr> else j"
  show ?thesis
  proof (cases "truthy_text fp \<and> coalesce_text (request_fingerprint existing) = []")
    case True
    then have d': "d' = upd_jobs ?p (\<lambda>j. j\<lparr>request_fingerprint := fp\<rparr>) d"
      using assms(1) by (auto simp: adopt_existing_def)
    have js: "jobs d' = map ?f (jobs d)" by (simp add: d' update_where_def)
    have "newest_job (\<lambda>j. dedupe_key j = k) (jobs d') = Some (?f existing)"
      unfolding js using assms(2) by (subst newest_job_cong_map) auto
    moreover have "adopt_existing (?f existing) fp d' = Inr d'"
    proof (cases "request_fingerprint existing")
      case None
      then show ?thesis using True by (simp add: adopt_existing_def truthy_text_def)
    next
      case (Some t)
      have "existing \<in> set (jobs d)" using newest_job_in [OF assms(2)] by simp
      have miss: "upd_jobs (\<lambda>j. j_id j = j_id existing \<and> request_fingerprint j = None) g d' = d'" for g
      proof -
        have "fp \<noteq> None" using True by (cases fp) (auto simp: truthy_text_def coalesce_text_def)
        then have "row_count ?p (jobs d') = 0" unfolding js by (auto simp: row_count_zero_iff)
        then show ?thesis by (simp add: upd_jobs_def update_where_miss)
      qed
      then show ?thesis using True Some by (simp add: adopt_existing_def)
    qed
    ultimately show ?thesis by auto
  next
    case False
    then have "d' = d" using assms(1) by (auto simp: adopt_existing_def Let_def split: if_splits)
    then show ?thesis using assms by auto
  qed
qed

text \<open>Creating a job is idempotent: once a request with a dedupe key has been accepted, the same
  request answers with the same job and writes nothing, whatever identifiers, clock and commit hook
  the repetition brings.\<close>

theorem create_idempotent:
  assumes "frame_hook hook" "truthy_text (cr_dedupe_key r)"
    and "Job_Repository.create hook job_id uuids r now d = Inr (x, d')"
  shows "Job_Repository.create hook' job_id' uuids' r now' d' = Inr (x, d')"
proof (cases "newest_job (\<lambda>j. dedupe_key j = cr_dedupe_key r) (jobs d)")
  case (Some existing)
  then have "adopt_existing existing (cr_request_fingerprint r) d = Inr d'" "x = j_id existing"
    using assms(2,3) by (auto simp: Job_Repository.create_def split: sum.splits)
  then show ?thesis using adopt_existing_again [OF _ Some] assms(2) by (fastforce simp: Job_Repository.create_def)
next
  case None
  then have new: "create_new hook job_id uuids r now d = Inr (x, d')"
    using assms(2,3) by (simp add: Job_Repository.create_def)
  obtain news d3 d4 where s: "x = job_id"
    "d3 = upd_jobs (\<lambda>j. j_id j = job_id)
            (\<lambda>j. j\<lparr>total_items := row_count (\<lambda>i. i_job_id i = job_id) (job_items d @ news)\<rparr>)
            (d\<lparr>jobs := jobs d @ [new_job job_id r now], job_items := job_items d @ news\<rparr>)"
    "(case hook of None \<Rightarrow> Inr d3 | Some h \<Rightarrow> h d3 job_id) = Inr d4"
    "d' = add_event job_id ''created'' now d4"
    using new by (rule create_new_step)
  let ?t = "\<lambda>j. if j_id j = job_id then j\<lparr>total_items := row_count (\<lambda>i. i_job_id i = job_id) (job_items d @ news)\<rparr> else j"
  have "jobs d4 = jobs d3" using s(3) assms(1) by (cases hook) (auto simp: frame_hook_def)
  then have js: "jobs d' = map ?t (jobs d @ [new_job job_id r now])"
    by (simp add: s(2,4) update_where_def)
  have "newest_job (\<lambda>j. dedupe_key j = cr_dedupe_key r) (jobs d @ [new_job job_id r now]) = Some (new_job job_id r now)"
    using None by (intro newest_job_single) (auto simp: newest_job_None new_job_def)
  then have "newest_job (\<lambda>j. dedupe_key j = cr_dedupe_key r) (jobs d') = Some (?t (new_job job_id r now))"
    unfolding js by (subst newest_job_cong_map) auto
  moreover have "adopt_existing (?t (new_job job_id r now)) (cr_request_fingerprint r) d' = Inr d'"
    by (simp add: adopt_existing_def new_job_def truthy_text_def)
  ultimately show ?thesis using assms(2) s(1) by (simp add: Job_Repository.create_def new_job_def)
qed

theorem create_idempotent_witness:
  "Job_Repository.create None ''j9'' demo_uuids demo_request 77 demo_created = Inr (''j1'', demo_created)"
proof -
  have "frame_hook None" "truthy_text (cr_dedupe_key demo_request)"
    by (simp_all add: frame_hook_def demo_request_def truthy_text_def coalesce_text_def)
  from create_idempotent [OF this demo_create] show ?thesis .
qed

section \<open>Ownership of a photo's analysis\<close>

lemma insert_items_covers:
  assumes "insert_items ps is rows = Inr rows'" "i \<in> set is"
    and "distinct (map i_id is)" "i_id ` set is \<inter> i_id ` set rows = {}" "photo_id i \<noteq> None"
  shows "\<exists>r \<in> set rows'. i_job_id r = i_job_id i \<and> photo_id r = photo_id i"
  using assms
proof (induction "is" arbitrary: rows)
  case (Cons x xs)
  have grow: "set r0 \<subseteq> set rows'" if "insert_items ps xs r0 = Inr rows'" for r0
    using insert_items_append [OF that] by auto
  show ?case
  proof (cases "item_collides x rows")
    case True
    then have rest: "insert_items ps xs rows = Inr rows'" using Cons.prems(1) by simp
    obtain r where r: "r \<in> set rows" "i_id r = i_id x \<or> i_job_id r = i_job_id x \<and> photo_id r = photo_id x"
      using True by (auto simp: item_collides_def)
    have "i_id r \<noteq> i_id x"
    proof
      assume "i_id r = i_id x"
      then have "i_id x \<in> i_id ` set rows" using r(1) by (metis image_eqI)
      then show False using Cons.prems(4) by simp
    qed
    then show ?thesis using r Cons.IH [OF rest] Cons.prems(2-5) grow [OF rest] by auto
  next
    case False
    then have rest: "insert_items ps xs (rows @ [x]) = Inr rows'"
      using Cons.prems(1) by (auto split: if_splits)
    have "i_id ` set xs \<inter> i_id ` set (rows @ [x]) = {}" using Cons.prems(3,4) by auto
    then show ?thesis using Cons.IH [OF rest] Cons.prems(2,3,5) grow [OF rest] by auto
  qed
qed simp

lemma reserved_by_item:
  assumes "i \<in> set (job_items d)" "open_item (i_status i)" "photo_id i = Some (p_id p)" "p \<in> set (photos d)"
    and "j \<in> set (jobs d)" "j_id j = i_job_id i" "analysis_kind (kind j)" "reserving_job_status (j_status j)"
    and "p_id p = p_id q \<or> same_content q (sha256 p)"
  shows "reserved_analysis d q"
  using assms unfolding reserved_analysis_def reserving_item_def by blast

lemma create_new_item_stored:
  assumes "wf_db d" "create_new hook job_id uuids r now d = Inr (x, d')" "frame_hook hook"
    and "ph \<in> set (cr_photo_ids r)" "inj_on uuids {..<length (cr_photo_ids r)}"
    and "uuids ` {..<length (cr_photo_ids r)} \<inter> i_id ` set (job_items d) = {}"
  shows "\<exists>i \<in> set (job_items d'). i_status i = IPending \<and> photo_id i = Some ph \<and> i_job_id i = job_id"
    and "\<exists>j \<in> set (jobs d'). j_id j = job_id \<and> kind j = cr_kind r \<and> j_status j = Pending"
proof -
  let ?new = "map (\<lambda>(n, p). new_item (uuids n) job_id (Some p) now) (enumerate 0 (cr_photo_ids r))"
  obtain news d3 d4 where s: "jobs_unique (jobs d @ [new_job job_id r now])"
    "insert_items (photos d) ?new (job_items d) = Inr (job_items d @ news)"
    "set news \<subseteq> (\<lambda>(n, p). new_item (uuids n) job_id (Some p) now) ` set (enumerate 0 (cr_photo_ids r))"
    "d3 = upd_jobs (\<lambda>j. j_id j = job_id)
            (\<lambda>j. j\<lparr>total_items := row_count (\<lambda>i. i_job_id i = job_id) (job_items d @ news)\<rparr>)
            (d\<lparr>jobs := jobs d @ [new_job job_id r now], job_items := job_items d @ news\<rparr>)"
    "(case hook of None \<Rightarrow> Inr d3 | Some h \<Rightarrow> h d3 job_id) = Inr d4"
    "d' = add_event job_id ''created'' now d4"
    using assms(2) by (rule create_new_step)
  have same: "jobs d' = jobs d3" "job_items d' = job_items d @ news"
    using s(4,5,6) assms(3) by (cases hook; auto simp: frame_hook_def)+
  obtain n where n: "n < length (cr_photo_ids r)" "cr_photo_ids r ! n = ph" using assms(4) by (auto simp: in_set_conv_nth)
  have ids: "map i_id ?new = map uuids [0..<length (cr_photo_ids r)]"
    by (rule nth_equalityI) (auto simp: nth_enumerate_eq new_item_def)
  then have idset: "i_id ` set ?new = uuids ` {..<length (cr_photo_ids r)}"
    by (metis list.set_map set_upt atLeast0LessThan)
  have "new_item (uuids n) job_id (Some ph) now \<in> set ?new"
    using n unfolding in_set_conv_nth by (intro exI [of _ n]) (simp add: nth_enumerate_eq)
  moreover have "distinct (map i_id ?new)"
    unfolding ids using assms(5) by (simp add: distinct_map atLeast0LessThan)
  ultimately obtain i where i: "i \<in> set (job_items d @ news)" "i_job_id i = job_id" "photo_id i = Some ph"
    using insert_items_covers [OF s(2), of "new_item (uuids n) job_id (Some ph) now"] idset assms(6)
    by (auto simp: new_item_def)
  have "job_id \<notin> j_id ` set (jobs d)" using s(1) by (auto simp: jobs_unique_def new_job_def)
  then have "i \<notin> set (job_items d)" using assms(1) i(2) by (auto simp: wf_db_def wf_core_def)
  then have "i \<in> set news" using i(1) by auto
  then have "i_status i = IPending" using s(3) by (auto simp: new_item_def)
  then show "\<exists>i \<in> set (job_items d'). i_status i = IPending \<and> photo_id i = Some ph \<and> i_job_id i = job_id"
    using i same(2) by auto
  show "\<exists>j \<in> set (jobs d'). j_id j = job_id \<and> kind j = cr_kind r \<and> j_status j = Pending"
    unfolding same(1) s(4) by (auto simp: update_where_def new_job_def)
qed



section \<open>Preview capacity\<close>

text \<open>Previews stay within their limits: when a preview job is admitted, the active previews of
  its user and of the whole system, the new one included, do not exceed the configured limits (a limit
  below one counts as one), and when a limit is already reached the request is refused.\<close>

theorem preview_capacity_respected:
  "(case create_maintenance_with_capacity job_id item_id ''render_preview'' name sets u prio per_user system now d of
      Inr (x, d') \<Rightarrow> int (active_count ''render_preview'' (Some u) d') \<le> max 1 per_user \<and>
        int (active_count ''render_preview'' None d') \<le> max 1 system \<and>
        active_count ''render_preview'' None d' = active_count ''render_preview'' None d + 1
    | Inl (PreviewCapacityError scope) \<Rightarrow>
        int (active_count ''render_preview'' (Some u) d) \<ge> max 1 per_user \<or>
        int (active_count ''render_preview'' None d) \<ge> max 1 system
    | Inl e \<Rightarrow> e = IntegrityError)"
  by (auto simp: create_maintenance_with_capacity_def insert_maintenance_def store_jobs_def active_count_def
      maintenance_job_def row_count_append active_status_def split: sum.splits repo_error.splits if_splits)

section \<open>Retrying failed items\<close>

text \<open>Retrying puts every failed item of a finished job back to the queue and nothing else: the
  returned number is that of the failed items, none of the job's items is failed afterwards, completed
  items stay completed, and the job is pending with no failures; if one of the photos is meanwhile
  owned by another analysis, the request is refused.\<close>

theorem retry_failed_requeues:
  assumes "wf_db d" "retry_failed job_id now d = Inr (n, d')" "n \<noteq> 0"
  shows "n = items_of job_id (\<lambda>s. s = IFailed) d \<and> items_of job_id (\<lambda>s. s = IFailed) d' = 0 \<and>
    items_of job_id (\<lambda>s. s = IPending) d' = items_of job_id (\<lambda>s. s = IPending) d + n \<and>
    done_items d' = done_items d \<and>
    (\<exists>j. find_job job_id d' = Some j \<and> j_status j = Pending \<and> failed_items j = 0)"
proof -
  let ?q = "\<lambda>i. i_job_id i = job_id \<and> i_status i = IFailed"
  let ?f = "\<lambda>i. i\<lparr>i_status := IPending, available_at := now, error_code := None, completed_at := None, dead_lettered_at := None\<rparr>"
  let ?d1 = "upd_items ?q ?f d"
  let ?p = "\<lambda>j. j_id j = job_id \<and> (j_status j = Failed \<or> j_status j = CompletedWithErrors)"
  let ?g = "\<lambda>j. j\<lparr>j_status := Pending, failed_items := 0, j_completed_at := None\<rparr>"
  obtain j where j: "find_job job_id d = Some j" "j_status j = Failed \<or> j_status j = CompletedWithErrors"
    using assms(2,3) by (auto simp: retry_failed_def split: option.splits if_splits)
  have n: "n = row_count ?q (job_items d)" and store: "store_jobs (update_where ?p ?g (jobs ?d1)) ?d1 = Inr d'"
    using assms(2,3) j by (auto simp: retry_failed_def Let_def split: if_splits sum.splits)
  have d': "d' = upd_jobs ?p ?g ?d1" using store by (auto simp: store_jobs_def upd_jobs_def split: if_splits)
  have "find_job job_id d' = Some (?g j)"
    using find_job_upd_jobs [OF assms(1) j(1), of ?d1 ?g ?p] j(2) find_job_Some [OF j(1)] by (simp add: d')
  moreover have "items_of job_id (\<lambda>s. s = IFailed) d' = 0"
    by (simp add: d' items_of_def row_count_update_where row_count_zero_iff)
  moreover have "items_of job_id (\<lambda>s. s = IPending) d' = items_of job_id (\<lambda>s. s = IPending) d + n"
    using row_count_gain [of "job_items d" ?q "\<lambda>i. i_job_id i = job_id \<and> i_status i = IPending" ?f]
    by (simp add: d' items_of_def n cong: conj_cong)
  moreover have "done_items d' = done_items d"
    using done_items_same [of ?q ?f d] by (simp add: d' done_items_def)
  moreover have "n = items_of job_id (\<lambda>s. s = IFailed) d" by (simp add: n items_of_def)
  ultimately show ?thesis by simp
qed

definition demo_failed :: db where
  "demo_failed = snd (finalize_if_done id None ''j1'' 60 (snd (fail_item id ''j1'' ''i2'' ''NET-001'' 1 None (Some ''w1'') 40
     (snd (projr (Job_Repository.claim ''j1'' ''w1'' 1 60 30 demo_half))))))"

lemma demo_wf_failed: "wf_db demo_failed"
proof -
  have "Job_Repository.claim ''j1'' ''w1'' 1 60 30 demo_half =
      Inr (fst (projr (Job_Repository.claim ''j1'' ''w1'' 1 60 30 demo_half)),
           snd (projr (Job_Repository.claim ''j1'' ''w1'' 1 60 30 demo_half)))"
    by (rule returned; code_simp)
  then have "wf_db (snd (projr (Job_Repository.claim ''j1'' ''w1'' 1 60 30 demo_half)))"
    by (rule wf_claim [OF demo_wf_half])
  then show ?thesis unfolding demo_failed_def by (intro wf_finalize_if_done wf_fail_item) auto
qed

theorem retry_failed_requeues_witness:
  "fst (projr (retry_failed ''j1'' 70 demo_failed)) = 1 \<and>
   items_of ''j1'' (\<lambda>s. s = IFailed) (snd (projr (retry_failed ''j1'' 70 demo_failed))) = 0"
proof -
  let ?r = "retry_failed ''j1'' 70 demo_failed"
  have n: "fst (projr ?r) = 1" by code_simp
  have "?r = Inr (fst (projr ?r), snd (projr ?r))" by (rule returned; code_simp)
  from retry_failed_requeues [OF demo_wf_failed this] n show ?thesis by simp
qed

section \<open>A counter that is not kept\<close>

text \<open>\<^verbatim>\<open>abandon_unstarted\<close> fails every pending item of the job it abandons and, unlike the other
  operations that fail items, leaves \<^verbatim>\<open>failed_items\<close> of every job as it was: the counter of the
  abandoned job does not show its failures. When the job is not pending nothing changes.\<close>

theorem abandon_counter_gap:
  "map failed_items (jobs (snd (abandon_unstarted job_id code now d))) = map failed_items (jobs d) \<and>
   (if fst (abandon_unstarted job_id code now d)
    then items_of job_id (\<lambda>s. s = IFailed) (snd (abandon_unstarted job_id code now d)) =
         items_of job_id (\<lambda>s. s = IFailed) d + items_of job_id (\<lambda>s. s = IPending \<or> s = IRetrying) d
    else snd (abandon_unstarted job_id code now d) = d)"
proof -
  have "row_count (\<lambda>i. i_job_id i = job_id \<and> i_status i = IFailed) (update_where
      (\<lambda>i. i_job_id i = job_id \<and> (i_status i = IPending \<or> i_status i = IRetrying))
      (\<lambda>i. i\<lparr>i_status := IFailed, completed_at := Some now, error_code := Some code\<rparr>) (job_items d)) =
    row_count (\<lambda>i. i_job_id i = job_id \<and> i_status i = IFailed) (job_items d) +
    row_count (\<lambda>i. i_job_id i = job_id \<and> (i_status i = IPending \<or> i_status i = IRetrying)) (job_items d)"
    by (subst row_count_gain) (auto intro: row_count_cong)
  then show ?thesis by (auto simp: abandon_unstarted_def Let_def map_update_where items_of_def)
qed

end
