(* ===== verification/Job_Termination.thy ===== *)
theory Job_Termination
  imports Job_Guarantees
begin

text \<open>
  Retrying ends: an item that is claimed and fails again and again is dead-lettered after a number of
  attempts that \<^verbatim>\<open>max_attempts\<close> fixes (\<^verbatim>\<open>claim\<close> and \<^verbatim>\<open>fail_item\<close> of \<^verbatim>\<open>repositories/jobs.py\<close>).
\<close>

section \<open>Attempts\<close>

text \<open>One attempt at the item \<open>x\<close>: some worker claims it, alone or with others, and reports a failure. Job,
  worker, clock readings, error code and back-off are arbitrary in every attempt.\<close>

inductive failed_attempt :: "string \<Rightarrow> int \<Rightarrow> db \<Rightarrow> db \<Rightarrow> bool" for x m where
  failed_attempt: "Job_Repository.claim job_id w limit ls now d = Inr (rows, d1) \<Longrightarrow> r \<in> set rows \<Longrightarrow> i_id r = x \<Longrightarrow>
    fail_item digest job_id x code m ri (Some w) now' d1 = (b, d') \<Longrightarrow> failed_attempt x m d d'"

definition attempts_left :: "int \<Rightarrow> job_item \<Rightarrow> nat" where
  "attempts_left m i = max 1 (nat m - attempts i)"

section \<open>Lemmas\<close>

lemma update_where_bex: "r \<in> set rows \<Longrightarrow> p r \<Longrightarrow> P (f r) \<Longrightarrow> \<exists>y \<in> set (update_where p f rows). P y"
  by (auto simp: set_update_where)

lemma fail_item_row:
  assumes "wf_db d" "r \<in> set (job_items d)" "running_item job_id x w r" "fail_item digest job_id x code m ri w now d = (b, d')"
  shows "\<exists>y \<in> set (job_items d'). i_id y = x \<and> attempts y = attempts r \<and>
    i_status y = (if int (attempts r) \<ge> m then IFailed else IPending)"
proof -
  have row: "first_row (running_item job_id x w) (job_items d) = Some r" using assms(1-3) by (rule fst_fail_item)
  have id: "i_id r = x" using assms(3) by (simp add: running_item_def)
  show ?thesis
    using assms(4) row id
    by (cases "int (attempts r) \<ge> m") (auto simp: fail_item_def intro!: update_where_bex [OF assms(2)])
qed

lemma failed_attempt_row:
  assumes "wf_db d" "i \<in> set (job_items d)" "i_id i = x" "failed_attempt x m d d'"
  shows "wf_db d' \<and> i_status i = IPending \<and> (\<exists>y \<in> set (job_items d'). i_id y = x \<and> attempts y = attempts i + 1 \<and>
    i_status y = (if int (attempts i + 1) \<ge> m then IFailed else IPending))"
  using assms(4)
proof cases
  case (failed_attempt job_id w limit ls now rows d1 r digest code ri now' b)
  have wf1: "wf_db d1" using assms(1) failed_attempt(1) by (rule wf_claim)
  obtain i' where i': "i' \<in> set (job_items d)" "i_id i' = i_id r" "due_item job_id now i'" "r = claim_update w now (now + seconds ls) i'"
    and r: "r \<in> set (job_items d1)"
    using claim_spec(3) [OF assms(1) failed_attempt(1,2)] by blast
  have same: "i' = i" using item_by_id [OF assms(1) i'(1) assms(2)] i'(2) failed_attempt(3) assms(3) by simp
  have run: "running_item job_id x (Some w) r"
    using i'(3,4) failed_attempt(3) by (simp add: running_item_def owned_by_def claim_update_def due_item_def)
  have "wf_db d'" using wf_fail_item [OF wf1, of digest job_id x code m ri "Some w" now'] failed_attempt(4) by simp
  moreover have "attempts r = attempts i + 1" using i'(4) same by (simp add: claim_update_def)
  ultimately show ?thesis
    using fail_item_row [OF wf1 r run failed_attempt(4)] i'(3) same by (simp add: due_item_def)
qed

section \<open>Properties\<close>



end
