(* ===== verification/Idempotency_Ledger.thy ===== *)
theory Idempotency_Ledger
  imports Job_Repository
begin

text \<open>
  The request-level idempotency ledger: the \<^verbatim>\<open>idempotency_requests\<close> table and the methods of
  \<^verbatim>\<open>JobRepository\<close> over it (\<^verbatim>\<open>get\<close>, \<^verbatim>\<open>reserve\<close>, \<^verbatim>\<open>freeze\<close>, \<^verbatim>\<open>renew\<close> and
  \<^verbatim>\<open>complete_idempotent_request\<close>), and \<^verbatim>\<open>scoped_idempotency_key\<close> and \<^verbatim>\<open>grouped_idempotency_key\<close>
  of \<^verbatim>\<open>core/idempotency.py\<close>. The clock, the new reservation token and the SHA-256 digest are
  arguments.
\<close>

section \<open>Keys\<close>

definition normalized_key :: "string option \<Rightarrow> string" where
  "normalized_key raw = take 128 (py_strip (coalesce_text raw))"

definition scoped_idempotency_key :: "(string \<Rightarrow> string) \<Rightarrow> string \<Rightarrow> string \<Rightarrow> string option \<Rightarrow> string option" where
  "scoped_idempotency_key sha endpoint actor raw =
     (let key = normalized_key raw in
      if key = [] then None
      else Some (''idempotency:'' @ endpoint @ '':'' @ take 24 (sha actor) @ '':'' @ key))"

text \<open>\<open>is_alnum\<close> is \<^verbatim>\<open>str.isalnum\<close> on ASCII characters.\<close>

definition is_alnum :: "char \<Rightarrow> bool" where
  "is_alnum c = (let n = (of_char c :: nat) in
     (48 \<le> n \<and> n \<le> 57) \<or> (65 \<le> n \<and> n \<le> 90) \<or> (97 \<le> n \<and> n \<le> 122))"

text \<open>\<open>canonical grp key\<close> is the JSON text of the grouped identity; the digest is taken of it.\<close>

definition grouped_idempotency_key :: "(string \<Rightarrow> string) \<Rightarrow> (string \<Rightarrow> string \<Rightarrow> string) \<Rightarrow> string option \<Rightarrow> string \<Rightarrow> string option" where
  "grouped_idempotency_key sha canonical raw grp =
     (let key = normalized_key raw in
      if key = [] then None
      else
        let legacy = key @ '':'' @ grp in
        if CHR '':'' \<notin> set key \<and> CHR '':'' \<notin> set grp \<and> grp = py_strip grp \<and> length legacy \<le> 128
        then Some legacy
        else
          let hint = map (\<lambda>c. if is_alnum c then c else CHR ''_'') (take 24 key)
          in Some ((if hint = [] then ''key'' else hint) @ '':g1:'' @ sha (canonical grp key)))"

section \<open>The ledger\<close>

datatype ledger_status = LInProgress | LCompleted

record ledger_row =
  scope_key :: string
  l_fingerprint :: string
  l_status :: ledger_status
  request_snapshot :: json
  response_json :: "json option"
  reservation_token :: "string option"
  reservation_expires_at :: "instant option"
  l_created_at :: instant
  l_updated_at :: instant

datatype ledger_error = LedgerConflict | LedgerKeyError | ReservationLost

definition ledger_find :: "string \<Rightarrow> ledger_row list \<Rightarrow> ledger_row option" where
  "ledger_find key rows = first_row (\<lambda>r. scope_key r = key) rows"

definition get_idempotent_request :: "string \<Rightarrow> string \<Rightarrow> ledger_row list \<Rightarrow> ledger_error + ledger_row option" where
  "get_idempotent_request key fp rows =
     (case ledger_find key rows of
        None \<Rightarrow> Inr None
      | Some row \<Rightarrow> if l_fingerprint row \<noteq> fp then Inl LedgerConflict else Inr (Some row))"

definition lease_end :: "instant \<Rightarrow> int \<Rightarrow> instant" where
  "lease_end now lease_seconds = now + seconds (max 1 lease_seconds)"

definition lease_free :: "instant \<Rightarrow> ledger_row \<Rightarrow> bool" where
  "lease_free now r =
     (reservation_token r = None \<or> (case reservation_expires_at r of None \<Rightarrow> True | Some e \<Rightarrow> e \<le> now))"

text \<open>Each method returns the row together with \<^verbatim>\<open>reservation_owner\<close>.\<close>

definition reserve_idempotent_request :: "string \<Rightarrow> string \<Rightarrow> json option \<Rightarrow> int \<Rightarrow> string \<Rightarrow> instant \<Rightarrow> ledger_row list \<Rightarrow>
    ledger_error + ((ledger_row \<times> bool) \<times> ledger_row list)" where
  "reserve_idempotent_request key fp snapshot lease_seconds token now rows =
     (case ledger_find key rows of
        Some row \<Rightarrow>
          if l_fingerprint row \<noteq> fp then Inl LedgerConflict
          else if l_status row = LCompleted then Inr ((row, False), rows)
          else
            let rows1 = update_where (\<lambda>r. scope_key r = key \<and> l_status r = LInProgress \<and> lease_free now r)
                  (\<lambda>r. r\<lparr>reservation_token := Some token, reservation_expires_at := Some (lease_end now lease_seconds),
                         l_updated_at := now\<rparr>) rows
            in (case ledger_find key rows1 of
                  None \<Rightarrow> Inl LedgerKeyError
                | Some row1 \<Rightarrow> Inr ((row1, coalesce_text (reservation_token row1) = token), rows1))
      | None \<Rightarrow>
          let row = \<lparr>scope_key = key, l_fingerprint = fp, l_status = LInProgress,
                request_snapshot = (case snapshot of None \<Rightarrow> JObj [] | Some s \<Rightarrow> s), response_json = None,
                reservation_token = Some token, reservation_expires_at = Some (lease_end now lease_seconds),
                l_created_at = now, l_updated_at = now\<rparr>
          in Inr ((row, True), rows @ [row]))"

definition live_reservation :: "string \<Rightarrow> string \<Rightarrow> instant \<Rightarrow> ledger_row \<Rightarrow> bool" where
  "live_reservation key token now r =
     (scope_key r = key \<and> l_status r = LInProgress \<and> reservation_token r = Some token \<and>
      (case reservation_expires_at r of None \<Rightarrow> False | Some e \<Rightarrow> now < e))"

definition freeze_idempotent_request :: "string \<Rightarrow> string \<Rightarrow> string \<Rightarrow> json \<Rightarrow> int \<Rightarrow> instant \<Rightarrow> ledger_row list \<Rightarrow>
    ledger_error + ((ledger_row \<times> bool) \<times> ledger_row list)" where
  "freeze_idempotent_request key fp token snapshot lease_seconds now rows =
     (case ledger_find key rows of
        None \<Rightarrow> Inl LedgerKeyError
      | Some row \<Rightarrow>
          if l_fingerprint row \<noteq> fp then Inl LedgerConflict
          else if l_status row = LCompleted then Inr ((row, False), rows)
          else
            let p = live_reservation key token now;
                rows1 = update_where p (\<lambda>r. r\<lparr>request_snapshot := snapshot,
                          reservation_expires_at := Some (lease_end now lease_seconds), l_updated_at := now\<rparr>) rows
            in if row_count p rows \<noteq> 1 then Inl ReservationLost
               else (case ledger_find key rows1 of
                       None \<Rightarrow> Inl LedgerKeyError
                     | Some row1 \<Rightarrow> Inr ((row1, True), rows1)))"

definition renew_idempotent_request :: "string \<Rightarrow> string \<Rightarrow> string \<Rightarrow> int \<Rightarrow> instant \<Rightarrow> ledger_row list \<Rightarrow> bool \<times> ledger_row list" where
  "renew_idempotent_request key fp token lease_seconds now rows =
     (let p = (\<lambda>r. live_reservation key token now r \<and> l_fingerprint r = fp)
      in (row_count p rows = 1,
          update_where p (\<lambda>r. r\<lparr>reservation_expires_at := Some (lease_end now lease_seconds), l_updated_at := now\<rparr>) rows))"

definition complete_idempotent_request :: "string \<Rightarrow> string \<Rightarrow> json \<Rightarrow> instant \<Rightarrow> ledger_row list \<Rightarrow>
    ledger_error + (ledger_row \<times> ledger_row list)" where
  "complete_idempotent_request key fp response now rows =
     (case ledger_find key rows of
        None \<Rightarrow> Inl LedgerKeyError
      | Some row \<Rightarrow>
          if l_fingerprint row \<noteq> fp then Inl LedgerConflict
          else
            let rows1 = (if l_status row = LInProgress
                  then update_where (\<lambda>r. scope_key r = key \<and> l_status r = LInProgress)
                         (\<lambda>r. r\<lparr>l_status := LCompleted, response_json := Some response, l_updated_at := now\<rparr>) rows
                  else rows)
            in (case ledger_find key rows1 of None \<Rightarrow> Inl LedgerKeyError | Some row1 \<Rightarrow> Inr (row1, rows1)))"

section \<open>The ledger as a transition system\<close>

inductive ledger_step :: "ledger_row list \<Rightarrow> ledger_row list \<Rightarrow> bool" where
  reserve: "reserve_idempotent_request key fp snap lease token now L = Inr (res, L') \<Longrightarrow> ledger_step L L'"
| freeze: "freeze_idempotent_request key fp token js lease now L = Inr (res, L') \<Longrightarrow> ledger_step L L'"
| renew: "renew_idempotent_request key fp token lease now L = (b, L') \<Longrightarrow> ledger_step L L'"
| complete: "complete_idempotent_request key fp js now L = Inr (row, L') \<Longrightarrow> ledger_step L L'"

definition ledger_ok :: "ledger_row list \<Rightarrow> bool" where
  "ledger_ok L = (distinct (map scope_key L) \<and> (\<forall>r \<in> set L. (l_status r = LCompleted) = (response_json r \<noteq> None)))"

definition ledger_init :: "ledger_row list \<Rightarrow> bool" where
  "ledger_init L = (L = [])"

text \<open>Every operation appends a row with a new key, or rewrites rows in progress, keeping the key, the
  fingerprint and the correspondence of status and response.\<close>

definition ledger_update :: "(ledger_row \<Rightarrow> ledger_row) \<Rightarrow> bool" where
  "ledger_update f = (\<forall>r. scope_key (f r) = scope_key r \<and> l_fingerprint (f r) = l_fingerprint r \<and>
     (l_status r = LInProgress \<longrightarrow> (response_json r = None \<longrightarrow> (l_status (f r) = LCompleted) = (response_json (f r) \<noteq> None))))"

lemma ledger_find_Some: "ledger_find key L = Some r \<Longrightarrow> r \<in> set L \<and> scope_key r = key"
  by (auto simp: ledger_find_def dest: first_row_Some)

lemma ledger_find_None: "ledger_find key L = None \<longleftrightarrow> key \<notin> scope_key ` set L"
  by (auto simp: ledger_find_def first_row_None)

lemma ledger_step_cases:
  assumes "ledger_step L L'"
  obtains r where "L' = L @ [r]" "scope_key r \<notin> scope_key ` set L" "l_status r = LInProgress" "response_json r = None"
  | p f where "L' = update_where p f L" "ledger_update f" "\<forall>r. p r \<longrightarrow> l_status r = LInProgress"
  using assms
proof cases
  case (reserve key fp snap lease token now res)
  then show ?thesis
  proof (cases "ledger_find key L")
    case None
    then show ?thesis using reserve that(1) ledger_find_None [of key L]
      by (fastforce simp: reserve_idempotent_request_def Let_def)
  next
    case (Some row)
    show ?thesis
    proof (cases "l_status row = LCompleted")
      case True
      then have "L' = update_where (\<lambda>_. False) id L" using Some reserve
        by (auto simp: reserve_idempotent_request_def update_where_def split: if_splits)
      then show ?thesis by (rule that(2)) (auto simp: ledger_update_def)
    next
      case False
      then have "L' = update_where (\<lambda>r. scope_key r = key \<and> l_status r = LInProgress \<and> lease_free now r)
          (\<lambda>r. r\<lparr>reservation_token := Some token, reservation_expires_at := Some (lease_end now lease), l_updated_at := now\<rparr>) L"
        using Some reserve by (auto simp: reserve_idempotent_request_def Let_def split: if_splits option.splits)
      then show ?thesis by (rule that(2)) (auto simp: ledger_update_def)
    qed
  qed
next
  case (freeze key fp token js lease now res)
  then consider "L' = update_where (\<lambda>_. False) id L"
    | "L' = update_where (live_reservation key token now) (\<lambda>r. r\<lparr>request_snapshot := js,
              reservation_expires_at := Some (lease_end now lease), l_updated_at := now\<rparr>) L"
    by (auto simp: freeze_idempotent_request_def Let_def update_where_def split: if_splits option.splits)
  then show ?thesis by cases (erule that(2); auto simp: ledger_update_def live_reservation_def)+
next
  case (renew key fp token lease now b)
  then have "L' = update_where (\<lambda>r. live_reservation key token now r \<and> l_fingerprint r = fp)
     (\<lambda>r. r\<lparr>reservation_expires_at := Some (lease_end now lease), l_updated_at := now\<rparr>) L"
    by (auto simp: renew_idempotent_request_def Let_def)
  then show ?thesis by (rule that(2)) (auto simp: ledger_update_def live_reservation_def)
next
  case (complete key fp js now row)
  then consider "L' = update_where (\<lambda>_. False) id L"
    | "L' = update_where (\<lambda>r. scope_key r = key \<and> l_status r = LInProgress)
              (\<lambda>r. r\<lparr>l_status := LCompleted, response_json := Some js, l_updated_at := now\<rparr>) L"
    by (auto simp: complete_idempotent_request_def Let_def update_where_def split: if_splits option.splits)
  then show ?thesis by cases (erule that(2); auto simp: ledger_update_def)+
qed

lemma ledger_ok_step: "ledger_ok L \<Longrightarrow> ledger_step L L' \<Longrightarrow> ledger_ok L'"
proof -
  assume ok: "ledger_ok L" and "ledger_step L L'"
  from this(2) show ?thesis
  proof (cases rule: ledger_step_cases)
    case (1 r)
    then show ?thesis using ok by (auto simp: ledger_ok_def)
  next
    case (2 p f)
    have "map scope_key L' = map scope_key L"
      unfolding 2(1) using 2(2) by (intro map_update_where) (simp add: ledger_update_def)
    moreover have "\<forall>r \<in> set L'. (l_status r = LCompleted) = (response_json r \<noteq> None)"
      unfolding 2(1) set_update_where using ok 2(2,3) by (force simp: ledger_ok_def ledger_update_def)
    ultimately show ?thesis using ok by (simp add: ledger_ok_def)
  qed
qed

interpretation ledger: invariant_system ledger_init ledger_step ledger_ok
proof
  show "ledger_ok L" if "ledger_init L" for L using that by (simp add: ledger_init_def ledger_ok_def)
  show "ledger_ok L'" if "ledger_ok L" "ledger_step L L'" for L L' using that by (rule ledger_ok_step)
qed

lemma completed_row_kept: "ledger_step L L' \<Longrightarrow> r \<in> set L \<Longrightarrow> l_status r = LCompleted \<Longrightarrow> r \<in> set L'"
  by (erule ledger_step_cases) (auto simp: set_update_where image_iff)

lemma completed_row_kept_steps:
  "ledger_step\<^sup>*\<^sup>* L L' \<Longrightarrow> r \<in> set L \<Longrightarrow> l_status r = LCompleted \<Longrightarrow> r \<in> set L'"
  by (induction rule: rtranclp_induct) (auto intro: completed_row_kept)

lemma ledger_find_key: "ledger_ok L \<Longrightarrow> r \<in> set L \<Longrightarrow> ledger_find (scope_key r) L = Some r"
  unfolding ledger_find_def ledger_ok_def by (rule first_row_key) auto

lemma complete_returns_row:
  assumes "ledger_ok L" "complete_idempotent_request key fp js now L = Inr (row, L1)"
  shows "ledger_ok L1" "row \<in> set L1" "scope_key row = key" "l_fingerprint row = fp" "l_status row = LCompleted"
proof -
  have step: "ledger_step L L1" using assms(2) by (rule ledger_step.complete)
  show ok: "ledger_ok L1" using ledger_ok_step [OF assms(1) step] .
  obtain row0 where row0: "ledger_find key L = Some row0" "l_fingerprint row0 = fp"
    using assms(2) by (auto simp: complete_idempotent_request_def split: option.splits if_splits)
  have find: "ledger_find key L1 = Some row"
    using assms(2) by (auto simp: complete_idempotent_request_def Let_def split: option.splits if_splits)
  then show mem: "row \<in> set L1" "scope_key row = key" using ledger_find_Some by auto
  let ?f = "\<lambda>r. r\<lparr>l_status := LCompleted, response_json := Some js, l_updated_at := now\<rparr>"
  have only: "r = row0" if "r \<in> set L" "scope_key r = key" for r
    using assms(1) that ledger_find_Some [OF row0(1)] key_inj [of scope_key L r row0] by (simp add: ledger_ok_def)
  have "row = row0 \<and> l_status row0 = LCompleted \<or> row = ?f row0"
  proof (cases "l_status row0")
    case LInProgress
    then have "L1 = update_where (\<lambda>r. scope_key r = key \<and> l_status r = LInProgress) ?f L"
      using assms(2) row0 by (auto simp: complete_idempotent_request_def Let_def split: option.splits if_splits)
    then show ?thesis using mem only LInProgress by (auto simp: set_update_where)
  next
    case LCompleted
    then have "L1 = L" using assms(2) row0
      by (auto simp: complete_idempotent_request_def Let_def split: option.splits if_splits)
    then show ?thesis using mem only LCompleted by auto
  qed
  then show "l_fingerprint row = fp" "l_status row = LCompleted" using row0(2) by auto
qed

section \<open>Properties\<close>

text \<open>C30. The first completion of a request is final: whatever operations follow, reserving or
  completing the same request again returns the stored row with its response, grants no ownership and
  changes nothing, and a different request under the same key is refused.\<close>

theorem ledger_response_final:
  assumes "ledger_ok L" "complete_idempotent_request key fp js now L = Inr (row, L1)" "ledger_step\<^sup>*\<^sup>* L1 L2"
  shows "response_json row \<noteq> None \<and>
    reserve_idempotent_request key fp snap lease token t L2 = Inr ((row, False), L2) \<and>
    complete_idempotent_request key fp js' t L2 = Inr (row, L2) \<and>
    (fp' \<noteq> fp \<longrightarrow> reserve_idempotent_request key fp' snap lease token t L2 = Inl LedgerConflict)"
proof -
  note row = complete_returns_row [OF assms(1,2)]
  have ok: "ledger_ok L2" using ledger.inv_steps [OF assms(3) row(1)] .
  have mem: "row \<in> set L2" using completed_row_kept_steps [OF assms(3) row(2,5)] .
  have find: "ledger_find key L2 = Some row" using ledger_find_key [OF ok mem] row(3) by simp
  have "response_json row \<noteq> None" using ok mem row(5) by (auto simp: ledger_ok_def)
  then show ?thesis using find row(4,5)
    by (simp add: reserve_idempotent_request_def complete_idempotent_request_def Let_def)
qed

definition demo_ledger :: "ledger_row list" where
  "demo_ledger = snd (projr (reserve_idempotent_request ''k'' ''f'' None 60 ''t1'' 0 []))"

theorem ledger_response_final_witness:
  "map_option response_json (ledger_find ''k'' (snd (projr (complete_idempotent_request ''k'' ''f'' (JInt 1) 5 demo_ledger)))) =
     Some (Some (JInt 1)) \<and>
   isl (reserve_idempotent_request ''k'' ''g'' None 60 ''t2'' 9
          (snd (projr (complete_idempotent_request ''k'' ''f'' (JInt 1) 5 demo_ledger))))"
proof -
  let ?c = "complete_idempotent_request ''k'' ''f'' (JInt 1) 5 demo_ledger"
  have ok: "ledger_ok demo_ledger" by code_simp
  have c: "?c = Inr (fst (projr ?c), snd (projr ?c))" by code_simp
  have e: "map_option response_json (ledger_find ''k'' (snd (projr ?c))) = Some (Some (JInt 1))" by code_simp
  have "''g'' \<noteq> ''f''" by simp
  with ledger_response_final [OF ok c rtranclp.rtrancl_refl, of None 60 "''t2''" 9 "JInt 2" "''g''"] e
  show ?thesis by simp
qed

text \<open>A live reservation has one owner: while its lease runs, another token is not granted
  ownership and cannot freeze the request or renew the lease, and none of these attempts changes the
  ledger.\<close>

theorem reservation_exclusive:
  assumes "ledger_ok L" "row \<in> set L" "live_reservation key owner now row" "token \<noteq> owner"
  shows "reserve_idempotent_request key (l_fingerprint row) snap lease token now L = Inr ((row, False), L) \<and>
    freeze_idempotent_request key (l_fingerprint row) token js lease now L = Inl ReservationLost \<and>
    renew_idempotent_request key (l_fingerprint row) token lease now L = (False, L)"
proof -
  have key: "scope_key row = key" using assms(3) by (simp add: live_reservation_def)
  have only: "r = row" if "r \<in> set L" "scope_key r = key" for r
    using assms(1,2) that key key_inj [of scope_key L r row] by (simp add: ledger_ok_def)
  have find: "ledger_find key L = Some row" using ledger_find_key [OF assms(1,2)] key by simp
  have taken: "\<not> lease_free now row" "l_status row = LInProgress" "coalesce_text (reservation_token row) = owner"
    using assms(3) by (auto simp: live_reservation_def lease_free_def coalesce_text_def split: option.splits)
  have none: "row_count (live_reservation key token now) L = 0"
    "row_count (\<lambda>r. live_reservation key token now r \<and> l_fingerprint r = l_fingerprint row) L = 0"
    "row_count (\<lambda>r. scope_key r = key \<and> l_status r = LInProgress \<and> lease_free now r) L = 0"
    unfolding row_count_zero_iff using only assms(3,4) taken(1) by (force simp: live_reservation_def)+
  then show ?thesis using find taken assms(4)
    by (simp add: reserve_idempotent_request_def freeze_idempotent_request_def renew_idempotent_request_def
        Let_def update_where_miss)
qed

theorem reservation_exclusive_witness:
  "renew_idempotent_request ''k'' ''f'' ''t2'' 60 5 demo_ledger = (False, demo_ledger)"
proof -
  have ok: "ledger_ok demo_ledger" "hd demo_ledger \<in> set demo_ledger" "live_reservation ''k'' ''t1'' 5 (hd demo_ledger)"
    "l_fingerprint (hd demo_ledger) = ''f''"
    by code_simp+
  have "''t2'' \<noteq> ''t1''" by simp
  from reservation_exclusive [OF ok(1-3) this] show ?thesis using ok(4) by simp
qed

lemma split_first_colon:
  "x @ '':'' @ y = x' @ '':'' @ y' \<Longrightarrow> CHR '':'' \<notin> set x \<Longrightarrow> CHR '':'' \<notin> set x' \<Longrightarrow> x = x' \<and> y = y'"
  by (induction x arbitrary: x') (auto simp: Cons_eq_append_conv append_eq_Cons_conv)

lemma hint_no_colon: "CHR '':'' \<notin> set (map (\<lambda>c. if is_alnum c then c else CHR ''_'') xs)"
  by (auto simp: is_alnum_def)

text \<open>Grouped keys do not collide: as long as the digest separates the canonical texts, two requests
  get the same grouped key only when their normalised client key and their group are the same; the short
  and the hashed form never meet.\<close>

theorem grouped_key_injective:
  assumes "\<And>g k g' k'. sha (canonical g k) = sha (canonical g' k') \<Longrightarrow> g = g' \<and> k = k'"
    and "grouped_idempotency_key sha canonical raw g = Some x"
    and "grouped_idempotency_key sha canonical raw' g' = Some x"
  shows "g = g' \<and> normalized_key raw = normalized_key raw'"
proof -
  let ?hint = "\<lambda>k. (let h = map (\<lambda>c. if is_alnum c then c else CHR ''_'') (take 24 k) in if h = [] then ''key'' else h)"
  have form: "(CHR '':'' \<notin> set (normalized_key raw) \<and> CHR '':'' \<notin> set g \<and> x = normalized_key raw @ '':'' @ g) \<or>
      x = ?hint (normalized_key raw) @ '':'' @ (''g1:'' @ sha (canonical g (normalized_key raw)))"
    if "grouped_idempotency_key sha canonical raw g = Some x" for raw g
    using that by (auto simp: grouped_idempotency_key_def Let_def split: if_splits)
  have free: "CHR '':'' \<notin> set (?hint k)" for k using hint_no_colon [of "take 24 k"] by (auto simp: Let_def)
  have mixed: False if "CHR '':'' \<notin> set k" "CHR '':'' \<notin> set h" "k @ '':'' @ h = ?hint k' @ '':'' @ (''g1:'' @ z)" for k h k' z
    using split_first_colon [OF that(3,1) free] that(2) by auto
  let ?k = "normalized_key raw" and ?k' = "normalized_key raw'"
  let ?z = "sha (canonical g ?k)" and ?z' = "sha (canonical g' ?k')"
  note f1 = form [OF assms(2)] and f2 = form [OF assms(3)]
  from f1 show ?thesis
  proof (elim disjE conjE)
    assume s1: "CHR '':'' \<notin> set ?k" "CHR '':'' \<notin> set g" "x = ?k @ '':'' @ g"
    from f2 show ?thesis
    proof (elim disjE conjE)
      assume "CHR '':'' \<notin> set ?k'" "x = ?k' @ '':'' @ g'"
      then show ?thesis using split_first_colon [of ?k g ?k' g'] s1 by auto
    next
      assume h2: "x = ?hint ?k' @ '':'' @ (''g1:'' @ ?z')"
      show ?thesis using mixed [OF s1(1,2) trans [OF s1(3) [symmetric] h2]] ..
    qed
  next
    assume h1: "x = ?hint ?k @ '':'' @ (''g1:'' @ ?z)"
    from f2 show ?thesis
    proof (elim disjE conjE)
      assume s2: "CHR '':'' \<notin> set ?k'" "CHR '':'' \<notin> set g'" "x = ?k' @ '':'' @ g'"
      show ?thesis using mixed [OF s2(1,2) trans [OF s2(3) [symmetric] h1]] ..
    next
      assume h2: "x = ?hint ?k' @ '':'' @ (''g1:'' @ ?z')"
      from trans [OF h1 [symmetric] h2] have "''g1:'' @ ?z = ''g1:'' @ ?z'" by (rule conjunct2 [OF split_first_colon [OF _ free free]])
      then show ?thesis using assms(1) [of g ?k g' ?k'] by simp
    qed
  qed
qed

theorem grouped_key_injective_witness:
  "grouped_idempotency_key id (\<lambda>g k. replicate (length g) CHR ''a'' @ ''b'' @ g @ k) (Some '' run '') ''g'' = Some ''run:g'' \<and>
   grouped_idempotency_key id (\<lambda>g k. replicate (length g) CHR ''a'' @ ''b'' @ g @ k) (Some ''run'') ''h'' \<noteq> Some ''run:g''"
proof -
  let ?c = "\<lambda>g k. replicate (length g) CHR ''a'' @ ''b'' @ g @ k"
  have inj: "id (?c g k) = id (?c g' k') \<Longrightarrow> g = g' \<and> k = k'" for g k g' k'
  proof -
    assume eq: "id (?c g k) = id (?c g' k')"
    have "takeWhile (\<lambda>c. c = CHR ''a'') (?c h m) = replicate (length h) CHR ''a''" for h m
      by (induction "length h") (auto simp: takeWhile_append takeWhile_replicate)
    then have "replicate (length g) CHR ''a'' = replicate (length g') CHR ''a''" using eq by (metis id_apply)
    then have "length g = length g'" by (metis length_replicate)
    then show "g = g' \<and> k = k'" using eq by simp
  qed
  have r: "grouped_idempotency_key id ?c (Some '' run '') ''g'' = Some ''run:g''" by code_simp
  have "grouped_idempotency_key id ?c (Some ''run'') ''h'' \<noteq> Some ''run:g''"
    using grouped_key_injective [of id ?c "Some '' run ''" "''g''" "''run:g''" "Some ''run''" "''h''", OF inj r] by auto
  with r show ?thesis by simp
qed

end
