(* ===== verification/Ledger_Refinement.thy ===== *)
theory Ledger_Refinement
  imports Idempotency_Ledger
begin

text \<open>
  The ledger's contract as an abstract book of requests: a key has no entry, is open with the lease of the
  caller that works on it, or is answered for good. The methods of the ledger, which read and update table
  rows, implement the operations of the book.
\<close>

section \<open>The book\<close>

datatype entry = Open string "(string \<times> instant) option" | Answered string "json option"

type_synonym book = "string \<Rightarrow> entry option"

definition held :: "(string \<times> instant) option \<Rightarrow> instant \<Rightarrow> bool" where
  "held l now = (case l of None \<Rightarrow> False | Some (t, e) \<Rightarrow> now < e)"

definition held_by :: "string \<Rightarrow> (string \<times> instant) option \<Rightarrow> instant \<Rightarrow> bool" where
  "held_by token l now = (held l now \<and> map_option fst l = Some token)"

definition book_reserve :: "string \<Rightarrow> string \<Rightarrow> string \<Rightarrow> instant \<Rightarrow> instant \<Rightarrow> book \<Rightarrow> ledger_error + bool \<times> book" where
  "book_reserve key fp token until now B =
     (case B key of
        None \<Rightarrow> Inr (True, B(key \<mapsto> Open fp (Some (token, until))))
      | Some (Answered f r) \<Rightarrow> if f \<noteq> fp then Inl LedgerConflict else Inr (False, B)
      | Some (Open f l) \<Rightarrow>
          if f \<noteq> fp then Inl LedgerConflict
          else if held l now then Inr (held_by token l now, B)
          else Inr (True, B(key \<mapsto> Open f (Some (token, until)))))"

definition book_freeze :: "string \<Rightarrow> string \<Rightarrow> string \<Rightarrow> instant \<Rightarrow> instant \<Rightarrow> book \<Rightarrow> ledger_error + bool \<times> book" where
  "book_freeze key fp token until now B =
     (case B key of
        None \<Rightarrow> Inl LedgerKeyError
      | Some (Answered f r) \<Rightarrow> if f \<noteq> fp then Inl LedgerConflict else Inr (False, B)
      | Some (Open f l) \<Rightarrow>
          if f \<noteq> fp then Inl LedgerConflict
          else if held_by token l now then Inr (True, B(key \<mapsto> Open f (Some (token, until))))
          else Inl ReservationLost)"

definition book_renew :: "string \<Rightarrow> string \<Rightarrow> string \<Rightarrow> instant \<Rightarrow> instant \<Rightarrow> book \<Rightarrow> bool \<times> book" where
  "book_renew key fp token until now B =
     (case B key of
        Some (Open f l) \<Rightarrow>
          if f = fp \<and> held_by token l now then (True, B(key \<mapsto> Open f (Some (token, until)))) else (False, B)
      | _ \<Rightarrow> (False, B))"

definition book_complete :: "string \<Rightarrow> string \<Rightarrow> json \<Rightarrow> book \<Rightarrow> ledger_error + json option \<times> book" where
  "book_complete key fp response B =
     (case B key of
        None \<Rightarrow> Inl LedgerKeyError
      | Some (Answered f r) \<Rightarrow> if f \<noteq> fp then Inl LedgerConflict else Inr (r, B)
      | Some (Open f l) \<Rightarrow> if f \<noteq> fp then Inl LedgerConflict else Inr (Some response, B(key \<mapsto> Answered f (Some response))))"

section \<open>Abstraction\<close>

definition lease_of :: "ledger_row \<Rightarrow> (string \<times> instant) option" where
  "lease_of r = (case (reservation_token r, reservation_expires_at r) of (Some t, Some e) \<Rightarrow> Some (t, e) | _ \<Rightarrow> None)"

definition entry_of :: "ledger_row \<Rightarrow> entry" where
  "entry_of r =
     (if l_status r = LCompleted then Answered (l_fingerprint r) (response_json r) else Open (l_fingerprint r) (lease_of r))"

definition book_of :: "ledger_row list \<Rightarrow> book" where
  "book_of L = (\<lambda>key. map_option entry_of (ledger_find key L))"

text \<open>The result of a method, with the book of the table it leaves.\<close>

definition outcome_book :: "ledger_error + ((ledger_row \<times> bool) \<times> ledger_row list) \<Rightarrow> ledger_error + bool \<times> book" where
  "outcome_book = map_sum id (\<lambda>((row, owner), L). (owner, book_of L))"

section \<open>Lemmas\<close>

lemma lease_free_held: "lease_free now r \<longleftrightarrow> \<not> held (lease_of r) now"
  by (auto simp: lease_free_def held_def lease_of_def split: option.splits)

lemma live_held: "live_reservation key token now r \<longleftrightarrow> scope_key r = key \<and> l_status r = LInProgress \<and> held_by token (lease_of r) now"
  by (auto simp: live_reservation_def held_by_def held_def lease_of_def split: option.splits)

lemma held_token: "held (lease_of r) now \<Longrightarrow> coalesce_text (reservation_token r) = token \<longleftrightarrow> held_by token (lease_of r) now"
  by (auto simp: held_by_def held_def lease_of_def coalesce_text_def split: option.splits)

lemma ledger_find_update:
  "(\<And>r. scope_key (f r) = scope_key r) \<Longrightarrow> ledger_find k (update_where p f L) = map_option (\<lambda>r. if p r then f r else r) (ledger_find k L)"
  unfolding ledger_find_def by (rule first_row_update) simp

text \<open>An update that only touches one key changes the book at that key.\<close>

lemma book_update:
  assumes "\<And>r. scope_key (f r) = scope_key r" "\<And>r. p r \<Longrightarrow> scope_key r = key" "ledger_find key L = Some r"
  shows "book_of (update_where p f L) = (book_of L)(key \<mapsto> entry_of (if p r then f r else r))"
proof
  fix k
  have keep: "map_option (\<lambda>r. if p r then f r else r) (ledger_find k L) = ledger_find k L" if "k \<noteq> key"
    using assms(2) that by (cases "ledger_find k L") (auto dest: ledger_find_Some)
  show "book_of (update_where p f L) k = ((book_of L)(key \<mapsto> entry_of (if p r then f r else r))) k"
    using keep assms(3) by (cases "k = key") (auto simp: book_of_def ledger_find_update [OF assms(1)])
qed

lemma book_same: "ledger_find key L = Some r \<Longrightarrow> (book_of L)(key \<mapsto> entry_of r) = book_of L"
  by (auto simp: book_of_def)

lemma count_key:
  assumes "distinct (map scope_key L)" "ledger_find key L = Some r"
  shows "row_count (\<lambda>x. scope_key x = key \<and> P x) L = (if P r then 1 else 0)"
proof -
  have r: "r \<in> set L" "scope_key r = key" using ledger_find_Some [OF assms(2)] by auto
  have one: "x = r" if "x \<in> set L" "scope_key x = key" for x using key_inj [OF assms(1) that(1) r(1)] that(2) r(2) by simp
  show ?thesis
  proof (cases "P r")
    case True
    then have "0 < row_count (\<lambda>x. scope_key x = key \<and> P x) L" using r by (auto simp: row_count_pos_iff)
    then show ?thesis using True row_count_key_le_one [OF assms(1), of key P] by simp
  next
    case False
    then show ?thesis using one by (auto simp: row_count_zero_iff)
  qed
qed

lemma first_row_single: "first_row p [r] = (if p r then Some r else None)"
  by (simp add: first_row_def)

lemma book_append: "ledger_find (scope_key r) L = None \<Longrightarrow> book_of (L @ [r]) = (book_of L)(scope_key r \<mapsto> entry_of r)"
proof
  fix k assume none: "ledger_find (scope_key r) L = None"
  show "book_of (L @ [r]) k = ((book_of L)(scope_key r \<mapsto> entry_of r)) k"
    using none by (cases "k = scope_key r") (auto simp: book_of_def ledger_find_def first_row_append first_row_single split: option.split)
qed

lemma count_no_key: "ledger_find key L = None \<Longrightarrow> row_count (\<lambda>x. scope_key x = key \<and> P x) L = 0"
  by (auto simp: ledger_find_def first_row_None row_count_zero_iff)

lemma reserve_refines:
  "outcome_book (reserve_idempotent_request key fp snap ls token now L) = book_reserve key fp token (lease_end now ls) now (book_of L)"
proof (cases "ledger_find key L")
  case None
  let ?row = "\<lparr>scope_key = key, l_fingerprint = fp, l_status = LInProgress,
    request_snapshot = (case snap of None \<Rightarrow> JObj [] | Some s \<Rightarrow> s), response_json = None,
    reservation_token = Some token, reservation_expires_at = Some (lease_end now ls), l_created_at = now, l_updated_at = now\<rparr>"
  have "book_of L key = None" using None by (simp add: book_of_def)
  then show ?thesis using None book_append [of ?row L]
    by (simp add: outcome_book_def reserve_idempotent_request_def book_reserve_def Let_def entry_of_def lease_of_def)
next
  case (Some r)
  let ?p = "\<lambda>r. scope_key r = key \<and> l_status r = LInProgress \<and> lease_free now r"
  let ?f = "\<lambda>r. r\<lparr>reservation_token := Some token, reservation_expires_at := Some (lease_end now ls), l_updated_at := now\<rparr>"
  have at: "book_of L key = Some (entry_of r)" and key: "scope_key r = key"
    using Some ledger_find_Some [OF Some] by (auto simp: book_of_def)
  have up: "book_of (update_where ?p ?f L) = (book_of L)(key \<mapsto> entry_of (if ?p r then ?f r else r))"
    by (rule book_update) (use Some in auto)
  have find: "ledger_find key (update_where ?p ?f L) = Some (if ?p r then ?f r else r)"
    using Some by (simp add: ledger_find_update)
  show ?thesis
  proof (cases "l_status r = LCompleted")
    case True
    then show ?thesis using Some at by (auto simp: outcome_book_def reserve_idempotent_request_def book_reserve_def entry_of_def)
  next
    case False
    then have prog: "l_status r = LInProgress" by (cases "l_status r") auto
    show ?thesis
    proof (cases "held (lease_of r) now")
      case True
      then have "\<not> ?p r" by (simp add: lease_free_held)
      then have "book_of (update_where ?p ?f L) = book_of L" unfolding up using book_same [OF Some] by (simp only: if_False)
      then show ?thesis using Some at True prog find \<open>\<not> ?p r\<close> held_token [OF True, of token]
        by (auto simp: outcome_book_def reserve_idempotent_request_def book_reserve_def entry_of_def Let_def)
    next
      case False
      then have "?p r" using prog key by (simp add: lease_free_held)
      then show ?thesis using Some at False prog find up
        by (auto simp: outcome_book_def reserve_idempotent_request_def book_reserve_def entry_of_def lease_of_def coalesce_text_def Let_def)
    qed
  qed
qed

lemma freeze_refines:
  assumes "distinct (map scope_key L)"
  shows "outcome_book (freeze_idempotent_request key fp token js ls now L) = book_freeze key fp token (lease_end now ls) now (book_of L)"
proof (cases "ledger_find key L")
  case None
  then show ?thesis by (simp add: outcome_book_def freeze_idempotent_request_def book_freeze_def book_of_def)
next
  case (Some r)
  let ?p = "live_reservation key token now"
  let ?f = "\<lambda>r. r\<lparr>request_snapshot := js, reservation_expires_at := Some (lease_end now ls), l_updated_at := now\<rparr>"
  have at: "book_of L key = Some (entry_of r)" and key: "scope_key r = key"
    using Some ledger_find_Some [OF Some] by (auto simp: book_of_def)
  have up: "book_of (update_where ?p ?f L) = (book_of L)(key \<mapsto> entry_of (if ?p r then ?f r else r))"
    by (rule book_update) (use Some in \<open>auto simp: live_reservation_def\<close>)
  have find: "ledger_find key (update_where ?p ?f L) = Some (if ?p r then ?f r else r)"
    using Some by (simp add: ledger_find_update)
  have cnt: "row_count ?p L = (if ?p r then 1 else 0)"
    using count_key [OF assms Some, of "\<lambda>r. l_status r = LInProgress \<and> held_by token (lease_of r) now"] key
    by (simp add: live_held cong: row_count_cong)
  have tok: "reservation_token r = Some token" if "?p r" using that by (simp add: live_reservation_def)
  show ?thesis
  proof (cases "?p r")
    case True
    then have "l_status r = LInProgress" "held_by token (lease_of r) now" by (simp_all add: live_held)
    moreover have "lease_of (?f r) = Some (token, lease_end now ls)" using tok [OF True] by (simp add: lease_of_def)
    ultimately show ?thesis using Some at up find cnt True
      by (simp add: outcome_book_def freeze_idempotent_request_def book_freeze_def entry_of_def Let_def)
  next
    case False
    then have "l_status r = LInProgress \<Longrightarrow> \<not> held_by token (lease_of r) now" using key by (simp add: live_held)
    then show ?thesis using Some at cnt False
      by (cases "l_status r") (simp_all add: outcome_book_def freeze_idempotent_request_def book_freeze_def entry_of_def Let_def)
  qed
qed

lemma renew_refines:
  assumes "distinct (map scope_key L)"
  shows "map_prod id book_of (renew_idempotent_request key fp token ls now L) = book_renew key fp token (lease_end now ls) now (book_of L)"
proof (cases "ledger_find key L")
  case None
  then have "row_count (\<lambda>r. live_reservation key token now r \<and> l_fingerprint r = fp) L = 0"
    using count_no_key [OF None, of "\<lambda>r. live_reservation key token now r \<and> l_fingerprint r = fp"]
    by (auto simp: row_count_zero_iff live_held)
  then show ?thesis using None by (simp add: renew_idempotent_request_def book_renew_def book_of_def update_where_miss)
next
  case (Some r)
  let ?p = "\<lambda>r. live_reservation key token now r \<and> l_fingerprint r = fp"
  let ?f = "\<lambda>r. r\<lparr>reservation_expires_at := Some (lease_end now ls), l_updated_at := now\<rparr>"
  have at: "book_of L key = Some (entry_of r)" and key: "scope_key r = key"
    using Some ledger_find_Some [OF Some] by (auto simp: book_of_def)
  have up: "book_of (update_where ?p ?f L) = (book_of L)(key \<mapsto> entry_of (if ?p r then ?f r else r))"
    by (rule book_update) (use Some in \<open>auto simp: live_reservation_def\<close>)
  have cnt: "row_count ?p L = (if ?p r then 1 else 0)"
    using count_key [OF assms Some, of "\<lambda>r. l_status r = LInProgress \<and> held_by token (lease_of r) now \<and> l_fingerprint r = fp"] key
    by (simp add: live_held conj_assoc cong: row_count_cong)
  have tok: "reservation_token r = Some token" if "?p r" using that by (simp add: live_reservation_def)
  show ?thesis
  proof (cases "?p r")
    case True
    then have "l_status r = LInProgress" "held_by token (lease_of r) now" "l_fingerprint r = fp" by (simp_all add: live_held)
    moreover have "lease_of (?f r) = Some (token, lease_end now ls)" using tok [OF True] by (simp add: lease_of_def)
    ultimately show ?thesis using at up cnt True by (simp add: renew_idempotent_request_def book_renew_def entry_of_def Let_def)
  next
    case False
    then have "l_status r = LInProgress \<Longrightarrow> \<not> (held_by token (lease_of r) now \<and> l_fingerprint r = fp)" using key by (simp add: live_held)
    moreover have "update_where ?p ?f L = L" using cnt False by (intro update_where_miss) simp
    ultimately show ?thesis using at cnt False
      by (cases "l_status r") (auto simp: renew_idempotent_request_def book_renew_def entry_of_def Let_def)
  qed
qed

lemma complete_refines:
  "map_sum id (\<lambda>(row, L). (response_json row, book_of L)) (complete_idempotent_request key fp response now L) = book_complete key fp response (book_of L)"
proof (cases "ledger_find key L")
  case None
  then show ?thesis by (simp add: complete_idempotent_request_def book_complete_def book_of_def)
next
  case (Some r)
  let ?p = "\<lambda>r. scope_key r = key \<and> l_status r = LInProgress"
  let ?f = "\<lambda>r. r\<lparr>l_status := LCompleted, response_json := Some response, l_updated_at := now\<rparr>"
  have at: "book_of L key = Some (entry_of r)" and key: "scope_key r = key"
    using Some ledger_find_Some [OF Some] by (auto simp: book_of_def)
  have up: "book_of (update_where ?p ?f L) = (book_of L)(key \<mapsto> entry_of (if ?p r then ?f r else r))"
    by (rule book_update) (use Some in auto)
  have find: "ledger_find key (update_where ?p ?f L) = Some (if ?p r then ?f r else r)"
    using Some by (simp add: ledger_find_update)
  show ?thesis using Some at up find key
    by (cases "l_status r") (auto simp: complete_idempotent_request_def book_complete_def entry_of_def Let_def)
qed

section \<open>Properties\<close>

text \<open>C32. The ledger implements the abstract book of requests: in every reachable state each method gives the
  outcome the book's operation gives, error or answer, and leaves the table in a state whose book is the
  one that operation leaves.\<close>

theorem ledger_refines_book:
  assumes "ledger_init L0" "ledger_step\<^sup>*\<^sup>* L0 L"
  shows "outcome_book (reserve_idempotent_request key fp snap ls token now L) = book_reserve key fp token (lease_end now ls) now (book_of L) \<and>
    outcome_book (freeze_idempotent_request key fp token js ls now L) = book_freeze key fp token (lease_end now ls) now (book_of L) \<and>
    map_prod id book_of (renew_idempotent_request key fp token ls now L) = book_renew key fp token (lease_end now ls) now (book_of L) \<and>
    map_sum id (\<lambda>(row, L). (response_json row, book_of L)) (complete_idempotent_request key fp response now L) =
      book_complete key fp response (book_of L)"
proof -
  have "ledger_ok L" by (rule ledger.reachable_inv [OF assms])
  then have keys: "distinct (map scope_key L)" by (simp add: ledger_ok_def)
  show ?thesis by (intro conjI reserve_refines freeze_refines [OF keys] renew_refines [OF keys] complete_refines)
qed

theorem ledger_refines_book_witness:
  "outcome_book (reserve_idempotent_request ''k'' ''f'' None 60 ''t'' 5 []) =
    Inr (True, [''k'' \<mapsto> Open ''f'' (Some (''t'', lease_end 5 60))])"
proof -
  have "ledger_init []" by (simp add: ledger_init_def)
  moreover have "book_of [] = Map.empty" by (simp add: book_of_def ledger_find_def first_row_def)
  ultimately show ?thesis
    using ledger_refines_book [of "[]" "[]" "''k''" "''f''" None 60 "''t''" 5] by (simp add: book_reserve_def)
qed

end
