(* ===== verification/Job_Selection.thy ===== *)
theory Job_Selection
  imports Job_Examples
begin

text \<open>
  The selecting queries of \<^verbatim>\<open>JobRepository\<close>: the keyset walks \<^verbatim>\<open>iter_photo_ids\<close>,
  \<^verbatim>\<open>iter_pending_photo_ids\<close> and \<^verbatim>\<open>iter_runnable\<close>, the preview of a selection, and the reads of a
  job's results. A walk runs one query per page and remembers the key of the last row; it is shown
  to return what one ordered query over the whole table would. The tables do not change during a
  walk in this model.
\<close>

section \<open>Keyset walks\<close>

definition after_key :: "'k::linorder option \<Rightarrow> 'k \<Rightarrow> bool" where
  "after_key mark k = (case mark of None \<Rightarrow> True | Some l \<Rightarrow> l < k)"

definition keyset_page :: "('r \<Rightarrow> 'k::linorder) \<Rightarrow> ('r \<Rightarrow> bool) \<Rightarrow> nat \<Rightarrow> 'k option \<Rightarrow> 'r list \<Rightarrow> 'r list" where
  "keyset_page key p n mark rows = take n (sort_key key (filter (\<lambda>r. p r \<and> after_key mark (key r)) rows))"

text \<open>The size of the next page: the page size, or what remains of the limit.\<close>

definition page_length :: "nat \<Rightarrow> int option \<Rightarrow> nat" where
  "page_length n remaining = (case remaining of None \<Rightarrow> n | Some r \<Rightarrow> min n (nat r))"

function keyset_walk :: "('r \<Rightarrow> 'k::linorder) \<Rightarrow> ('r \<Rightarrow> bool) \<Rightarrow> nat \<Rightarrow> int option \<Rightarrow> 'k option \<Rightarrow> 'r list \<Rightarrow> 'r list" where
  "keyset_walk key p n remaining mark rows =
     (if remaining \<noteq> None \<and> the remaining \<le> 0 then []
      else
        let page = keyset_page key p (page_length n remaining) mark rows
        in if page = [] then []
           else page @ keyset_walk key p n (map_option (\<lambda>r. r - int (length page)) remaining)
                         (Some (key (List.last page))) rows)"
  by pat_completeness auto

lemma keyset_page_mem:
  "r \<in> set (keyset_page key p n l rows) \<Longrightarrow> r \<in> set rows \<and> p r \<and> after_key l (key r)"
  unfolding keyset_page_def by (auto dest!: in_set_takeD)

termination keyset_walk
proof (relation "measure (\<lambda>(key, p, n, remaining, mark, rows). row_count (\<lambda>r. p r \<and> after_key mark (key r)) rows)")
  fix key :: "'r \<Rightarrow> 'k::linorder" and p n remaining and l :: "'k option" and rows :: "'r list" and page
  assume page: "page = keyset_page key p (page_length n remaining) l rows" "page \<noteq> []"
  let ?z = "List.last page"
  have z: "?z \<in> set rows" "p ?z" "after_key l (key ?z)"
    using keyset_page_mem [of ?z key p "page_length n remaining" l rows] page by auto
  have "row_count (\<lambda>r. p r \<and> after_key (Some (key ?z)) (key r)) rows < row_count (\<lambda>r. p r \<and> after_key l (key r)) rows"
    using z
  proof (induction rows)
    case (Cons a rows)
    have mono: "row_count (\<lambda>r. p r \<and> after_key (Some (key ?z)) (key r)) rows \<le> row_count (\<lambda>r. p r \<and> after_key l (key r)) rows"
      using Cons.prems(3) by (intro row_count_mono) (auto simp: after_key_def split: option.splits)
    show ?case
    proof (cases "a = ?z")
      case True
      then show ?thesis using mono Cons.prems by (simp add: after_key_def)
    next
      case False
      then have "row_count (\<lambda>r. p r \<and> after_key (Some (key ?z)) (key r)) rows < row_count (\<lambda>r. p r \<and> after_key l (key r)) rows"
        using Cons by auto
      moreover have "after_key l (key a)" if "after_key (Some (key ?z)) (key a)"
        using that Cons.prems(3) by (auto simp: after_key_def split: option.splits)
      ultimately show ?thesis by auto
    qed
  qed simp
  then show "((key, p, n, map_option (\<lambda>r. r - int (length page)) remaining, Some (key ?z), rows),
      key, p, n, remaining, l, rows) \<in> measure (\<lambda>(key, p, n, remaining, mark, rows).
        row_count (\<lambda>r. p r \<and> after_key mark (key r)) rows)"
    by simp
qed simp

declare keyset_walk.simps [simp del]

section \<open>The walks of the repository\<close>

definition iter_photo_ids :: "string list \<Rightarrow> int option \<Rightarrow> db \<Rightarrow> string list" where
  "iter_photo_ids statuses limit d =
     map p_id (keyset_walk p_id (\<lambda>p. lifecycle_status p = ''active'' \<and> p_status p \<in> set statuses)
       500 limit (Some []) (photos d))"

definition current_analysis :: "string \<Rightarrow> string \<Rightarrow> db \<Rightarrow> photo \<Rightarrow> bool" where
  "current_analysis fp alternate d p =
     (\<exists>(x, f) \<in> set (photo_analysis d). x = p_id p \<and> (f = Some fp \<or> f = Some alternate))"

definition analysed :: "db \<Rightarrow> photo \<Rightarrow> bool" where
  "analysed d p = (\<exists>(x, f) \<in> set (photo_analysis d). x = p_id p)"

definition selection_predicate :: "string \<Rightarrow> string \<Rightarrow> string \<Rightarrow> db \<Rightarrow> photo \<Rightarrow> bool" where
  "selection_predicate mode fp alternate d p =
     (if mode = ''force_all'' then True
      else if mode = ''stale_only'' then \<not> current_analysis fp alternate d p \<and> analysed d p
      else \<not> current_analysis fp alternate d p)"

definition likelihood :: "photo \<Rightarrow> rat" where
  "likelihood p = (case screenshot_likelihood p of None \<Rightarrow> 0 | Some q \<Rightarrow> q)"

definition candidate_score :: "photo \<Rightarrow> rat" where
  "candidate_score p = (case local_candidate_score p of None \<Rightarrow> -1 | Some q \<Rightarrow> q)"

definition selectable :: "string \<Rightarrow> string \<Rightarrow> string \<Rightarrow> db \<Rightarrow> photo \<Rightarrow> bool" where
  "selectable mode fp alternate d p =
     (eligible p \<and> local_features_status p = ''complete'' \<and> likelihood p < 95 / 100 \<and>
      selection_predicate mode fp alternate d p \<and> \<not> reserved_analysis d p)"

text \<open>\<^verbatim>\<open>str(alternate or fingerprint)\<close> and \<^verbatim>\<open>str(fingerprint or "")\<close>.\<close>

definition fingerprints :: "string option \<Rightarrow> string option \<Rightarrow> string \<times> string" where
  "fingerprints fp alternate = (let f = coalesce_text fp in (f, str_or alternate f))"

text \<open>Best candidates first, then by id: the key is the negated score with the id.\<close>

definition candidate_key :: "photo \<Rightarrow> rat \<times> string" where
  "candidate_key p = (- candidate_score p, p_id p)"

definition iter_pending_photo_ids :: "string option \<Rightarrow> string \<Rightarrow> int option \<Rightarrow> string option \<Rightarrow> db \<Rightarrow> string list" where
  "iter_pending_photo_ids fpr mode limit alternate_fp d =
     (let (fp, alternate) = fingerprints fpr alternate_fp in
      map p_id (keyset_walk candidate_key
        (\<lambda>p. lifecycle_status p = ''active'' \<and> selectable mode fp alternate d p) 500 limit None (photos d)))"

definition runnable_now :: "instant \<Rightarrow> db \<Rightarrow> job \<Rightarrow> bool" where
  "runnable_now now d j =
     (runnable_status (j_status j) \<and>
      ((\<exists>i \<in> set (job_items d). due_item (j_id j) now i) \<or> items_of (j_id j) open_item d = 0))"

definition runnable_key :: "job \<Rightarrow> int \<times> instant \<times> string" where
  "runnable_key j = (priority j, j_created_at j, j_id j)"

definition iter_runnable :: "int \<Rightarrow> instant \<Rightarrow> db \<Rightarrow> job list" where
  "iter_runnable page_size now d =
     keyset_walk runnable_key (runnable_now now d) (nat (max 1 (min page_size 500))) None None (jobs d)"

section \<open>Preview of a selection\<close>

text \<open>A sum over no rows is NULL, which only some of the fields turn into 0. \<open>scans\<close> is the
  \<^verbatim>\<open>scan_runs\<close> table: id, status, completion time.\<close>

record preview =
  total_active :: nat
  excluded :: "nat option"
  never_analyzed :: "nat option"
  already_current :: "nat option"
  already_queued :: "nat option"
  screenshot_excluded :: "nat option"
  missing :: nat
  pending_total :: nat
  limited_to :: int
  pv_failed :: nat
  pv_stale :: nat
  last_successful_scan_at :: "instant option"
  pv_selection_mode :: string

definition sql_sum :: "('r \<Rightarrow> bool) \<Rightarrow> 'r list \<Rightarrow> nat option" where
  "sql_sum p rows = (if rows = [] then None else Some (row_count p rows))"

definition last_scan :: "(string \<times> string \<times> instant option) list \<Rightarrow> instant option" where
  "last_scan scans =
     (case rev (sort_key (\<lambda>(x, t). (t, x)) (List.map_filter (\<lambda>(x, st, t).
          if st = ''completed'' \<or> st = ''completed_with_warnings'' then map_option (Pair x) t else None) scans)) of
        [] \<Rightarrow> None | (x, t) # _ \<Rightarrow> Some t)"

definition selection_preview :: "string option \<Rightarrow> string \<Rightarrow> int option \<Rightarrow> string option \<Rightarrow>
    (string \<times> string \<times> instant option) list \<Rightarrow> db \<Rightarrow> preview" where
  "selection_preview fpr mode limit alternate_fp scans d =
     (let (fp, alternate) = fingerprints fpr alternate_fp;
          active = filter (\<lambda>p. lifecycle_status p = ''active'') (photos d);
          pending = row_count (selectable mode fp alternate d) active
      in \<lparr>total_active = length active,
          excluded = sql_sum (\<lambda>p. \<not> eligible p) active,
          never_analyzed = sql_sum (\<lambda>p. \<not> analysed d p) active,
          already_current = sql_sum (current_analysis fp alternate d) active,
          already_queued = sql_sum (reserved_analysis d) active,
          screenshot_excluded = sql_sum (\<lambda>p. likelihood p \<ge> 95 / 100) active,
          missing = row_count (\<lambda>p. lifecycle_status p = ''missing'') (photos d),
          pending_total = pending,
          limited_to = (case limit of None \<Rightarrow> int pending | Some l \<Rightarrow> min (int pending) (max 0 l)),
          pv_failed = row_count (\<lambda>p. \<not> current_analysis fp alternate d p \<and>
             (\<exists>i \<in> set (job_items d). \<exists>j \<in> set (jobs d). j_id j = i_job_id i \<and> photo_id i = Some (p_id p) \<and>
                i_status i = IFailed \<and> coalesce_text (analysis_fingerprint j) = fp)) active,
          pv_stale = row_count (\<lambda>p. analysed d p \<and> \<not> current_analysis fp alternate d p) active,
          last_successful_scan_at = last_scan scans,
          pv_selection_mode = mode\<rparr>)"

section \<open>Reading results\<close>

text \<open>\<open>render\<close> is Python's \<^verbatim>\<open>str()\<close> of a JSON value that is not text.\<close>

definition outcome_of :: "(json \<Rightarrow> string) \<Rightarrow> json \<Rightarrow> string option" where
  "outcome_of render js =
     (case js of
        JObj kvs \<Rightarrow>
          (let code = (case map_of kvs ''outcome_code'' of None \<Rightarrow> JNull | Some v \<Rightarrow> v);
               code1 = (if code = JNull \<and> map_of kvs ''outcome'' = Some (JStr ''no_content'')
                        then JStr ''NO_CONTENT'' else code)
           in if py_truthy code1 then Some (case code1 of JStr s \<Rightarrow> s | v \<Rightarrow> render v) else None)
      | _ \<Rightarrow> None)"

definition outcome_codes :: "(json \<Rightarrow> string) \<Rightarrow> string \<Rightarrow> db \<Rightarrow> string list" where
  "outcome_codes render job_id d =
     List.map_filter (\<lambda>i. case result_json i of Some (Encoded js) \<Rightarrow> outcome_of render js | _ \<Rightarrow> None)
       (sort_key i_id (filter (\<lambda>i. i_job_id i = job_id \<and> i_status i = ICompleted) (job_items d)))"

section \<open>Lemmas on walks\<close>

text \<open>What the walk should return: one ordered query, cut at the limit.\<close>

definition limited :: "int option \<Rightarrow> 'a list \<Rightarrow> 'a list" where
  "limited remaining xs = (case remaining of None \<Rightarrow> xs | Some r \<Rightarrow> take (nat r) xs)"

lemma strict_sorted_after:
  assumes "sorted (map key xs)" "distinct (map key xs)" "0 < n" "n \<le> length xs"
  shows "filter (\<lambda>r. key (xs ! (n - 1)) < key r) xs = drop n xs"
proof -
  have strict: "key (xs ! i) < key (xs ! j)" if "i < j" "j < length xs" for i j
  proof -
    have "key (xs ! i) \<le> key (xs ! j)" using assms(1) that by (auto simp: sorted_iff_nth_mono_less)
    moreover have "key (xs ! i) \<noteq> key (xs ! j)" using assms(2) that by (auto simp: distinct_conv_nth)
    ultimately show ?thesis by simp
  qed
  have "filter (\<lambda>r. key (xs ! (n - 1)) < key r) (take n xs) = []"
  proof -
    have "\<not> key (xs ! (n - 1)) < key r" if "r \<in> set (take n xs)" for r
    proof -
      obtain i where "i < n" "r = xs ! i" using \<open>r \<in> _\<close> assms(4) by (auto simp: in_set_conv_nth)
      moreover have "i < n - 1 \<or> i = n - 1" using \<open>i < n\<close> by linarith
      ultimately show ?thesis using strict [of i "n - 1"] assms(3,4) by fastforce
    qed
    then show ?thesis by (simp add: filter_empty_conv)
  qed
  moreover have "filter (\<lambda>r. key (xs ! (n - 1)) < key r) (drop n xs) = drop n xs"
    using strict assms(3,4) by (intro filter_True) (auto simp: in_set_conv_nth)
  ultimately show ?thesis by (metis append_take_drop_id filter_append append_Nil)
qed

lemma keyset_next:
  fixes key :: "'r \<Rightarrow> 'k::linorder"
  assumes "distinct (map key rows)" "page = keyset_page key p n l rows" "page \<noteq> []"
  shows "sort_key key (filter (\<lambda>r. p r \<and> after_key (Some (key (List.last page))) (key r)) rows) =
    drop (length page) (sort_key key (filter (\<lambda>r. p r \<and> after_key l (key r)) rows))"
proof -
  let ?S = "sort_key key (filter (\<lambda>r. p r \<and> after_key l (key r)) rows)"
  have page: "page = take n ?S" using assms(2) by (simp add: keyset_page_def)
  have len: "0 < length page" "length page \<le> length ?S" using assms(3) page by auto
  have "set ?S \<subseteq> set rows" by auto
  have lastp: "List.last page = ?S ! (length page - 1)"
  proof -
    have "List.last page = page ! (length page - 1)" using assms(3) by (rule last_conv_nth)
    moreover have "length page - 1 < n" 
    proof -
      have "length page \<le> n" by (simp add: page)
      then show ?thesis using len(1) by linarith
    qed
    ultimately show ?thesis using nth_take [of "length page - 1" n ?S] page by simp
  qed
  have mem: "List.last page \<in> set ?S" using assms(3) page by (metis last_in_set in_set_takeD)
  have "filter (\<lambda>r. p r \<and> after_key (Some (key (List.last page))) (key r)) rows =
      filter (\<lambda>r. key (List.last page) < key r) (filter (\<lambda>r. p r \<and> after_key l (key r)) rows)"
    using mem by (auto simp: after_key_def split: option.splits intro!: filter_cong)
  then have "sort_key key (filter (\<lambda>r. p r \<and> after_key (Some (key (List.last page))) (key r)) rows) =
      filter (\<lambda>r. key (List.last page) < key r) ?S"
    by (simp only: filter_sort)
  also have "\<dots> = drop (length page) ?S" unfolding lastp
  proof (rule strict_sorted_after)
    show "distinct (map key ?S)"
      using distinct_map_filter [OF assms(1)] by (simp add: distinct_map)
  qed (use len in auto)
  finally show ?thesis .
qed

lemma keyset_walk_limited:
  fixes key :: "'r \<Rightarrow> 'k::linorder"
  assumes "distinct (map key rows)" "0 < n"
  shows "keyset_walk key p n remaining l rows =
    limited remaining (sort_key key (filter (\<lambda>r. p r \<and> after_key l (key r)) rows))"
  using assms
proof (induction key p n remaining l rows rule: keyset_walk.induct)
  case (1 key p n remaining l rows)
  let ?S = "sort_key key (filter (\<lambda>r. p r \<and> after_key l (key r)) rows)"
  let ?n = "page_length n remaining"
  let ?page = "keyset_page key p ?n l rows"
  have page: "?page = take ?n ?S" by (simp add: keyset_page_def)
  show ?case
  proof (cases "remaining \<noteq> None \<and> the remaining \<le> 0")
    case True
    then show ?thesis by (auto simp: keyset_walk.simps limited_def)
  next
    case more: False
    show ?thesis
    proof (cases "?page = []")
      case True
      have "0 < ?n" using more 1 by (auto simp: page_length_def split: option.splits)
      then have "?S = []" using True page by auto
      then show ?thesis using True more by (auto simp: keyset_walk.simps limited_def split: option.splits)
    next
      case False
      have IH: "keyset_walk key p n (map_option (\<lambda>r. r - int (length ?page)) remaining) (Some (key (List.last ?page))) rows =
          limited (map_option (\<lambda>r. r - int (length ?page)) remaining) (drop (length ?page) ?S)"
        using "1.IH" [OF more refl False] "1.prems" keyset_next [OF "1.prems"(1) refl False] by simp
      have walk: "keyset_walk key p n remaining l rows =
          ?page @ keyset_walk key p n (map_option (\<lambda>r. r - int (length ?page)) remaining) (Some (key (List.last ?page))) rows"
        using more False by (subst keyset_walk.simps) (auto simp: Let_def)
      have len: "length ?page = min ?n (length ?S)" by (simp add: page)
      show ?thesis unfolding walk IH
      proof (cases remaining)
        case None
        then show "?page @ limited (map_option (\<lambda>r. r - int (length ?page)) remaining) (drop (length ?page) ?S) = limited remaining ?S"
          using append_take_drop_id [of "length ?page" ?S] len page by (simp add: limited_def min_def take_all split: if_splits)
      next
        case (Some r)
        have n: "?n \<le> nat r" using Some by (simp add: page_length_def)
        have "?page = take (length ?page) ?S" using len page by (simp add: min_def)
        moreover have "nat r = length ?page + (nat r - length ?page)" using n len by simp
        then have "take (nat r) ?S = take (length ?page) ?S @ take (nat r - length ?page) (drop (length ?page) ?S)"
          by (metis take_add)
        ultimately have "take (nat r) ?S = ?page @ take (nat r - length ?page) (drop (length ?page) ?S)" by simp
        moreover have "nat (r - int (length ?page)) = nat r - length ?page" by simp
        ultimately show "?page @ limited (map_option (\<lambda>r. r - int (length ?page)) remaining) (drop (length ?page) ?S) = limited remaining ?S"
          using Some by (simp add: limited_def)
      qed
    qed
  qed
qed

section \<open>Tables that can be walked\<close>

text \<open>A table with an ordering key that never repeats in a valid state: every walk over it, with any
  page size, returns the rows of one ordered query, each once.\<close>

locale keyset_table =
  fixes valid :: "'s \<Rightarrow> bool"
    and rows_of :: "'s \<Rightarrow> 'r list"
    and key :: "'r \<Rightarrow> 'k::linorder"
  assumes key_distinct: "valid s \<Longrightarrow> distinct (map key (rows_of s))"
begin

lemma walk_all:
  "valid s \<Longrightarrow> 0 < n \<Longrightarrow>
   keyset_walk key p n remaining None (rows_of s) = limited remaining (sort_key key (filter p (rows_of s)))"
  using keyset_walk_limited [OF key_distinct, of s n p remaining None] by (simp add: after_key_def)

lemma walk_mem:
  assumes "valid s" "0 < n" "r \<in> set (keyset_walk key p n remaining None (rows_of s))"
  shows "r \<in> set (rows_of s) \<and> p r"
  using assms(3) unfolding walk_all [OF assms(1,2)]
  by (auto simp: limited_def dest: in_set_takeD split: option.splits)

lemma walk_distinct:
  assumes "valid s" "0 < n"
  shows "distinct (map key (keyset_walk key p n remaining None (rows_of s)))"
proof -
  have "distinct (map key (sort_key key (filter p (rows_of s))))"
    using distinct_map_filter [OF key_distinct [OF assms(1)]] by (simp add: distinct_map)
  then show ?thesis unfolding walk_all [OF assms]
    by (auto simp: limited_def take_map [symmetric] split: option.splits)
qed

end

definition photos_ok :: "db \<Rightarrow> bool" where
  "photos_ok d = distinct (map p_id (photos d))"

lemma runnable_key_distinct: "wf_db d \<Longrightarrow> distinct (map runnable_key (jobs d))"
  using wf_ids [of d] by (auto simp: distinct_map inj_on_def runnable_key_def)

lemma candidate_key_distinct: "photos_ok d \<Longrightarrow> distinct (map candidate_key (photos d))"
  by (auto simp: photos_ok_def distinct_map inj_on_def candidate_key_def)

interpretation runnable_jobs: keyset_table wf_db jobs runnable_key
  by unfold_locales (rule runnable_key_distinct)

interpretation candidate_photos: keyset_table photos_ok photos candidate_key
  by unfold_locales (rule candidate_key_distinct)

section \<open>Properties\<close>

text \<open>The worker's walk over the runnable jobs misses none and repeats none, whatever the page size:
  it is the list of all jobs that may run and have an item due or nothing left open, in the order of
  priority, creation and id.\<close>

theorem iter_runnable_ordered:
  assumes "wf_db d"
  shows "iter_runnable page_size now d = sort_key runnable_key (filter (runnable_now now d) (jobs d)) \<and>
    sorted (map runnable_key (iter_runnable page_size now d)) \<and> distinct (iter_runnable page_size now d) \<and>
    set (iter_runnable page_size now d) = {j \<in> set (jobs d). runnable_now now d j}"
proof -
  have "0 < nat (max 1 (min page_size 500))" by simp
  then have eq: "iter_runnable page_size now d = sort_key runnable_key (filter (runnable_now now d) (jobs d))"
    unfolding iter_runnable_def using runnable_jobs.walk_all [OF assms] by (simp add: limited_def)
  have "distinct (filter (runnable_now now d) (jobs d))"
    using wf_ids [OF assms] by (simp add: distinct_map)
  then show ?thesis using eq by auto
qed

theorem iter_runnable_ordered_witness:
  "map j_id (iter_runnable 1 5 demo_started) = [''j1''] \<and> distinct (iter_runnable 1 5 demo_started)"
proof -
  have "map j_id (sort_key runnable_key (filter (runnable_now 5 demo_started) (jobs demo_started))) = [''j1'']" by code_simp
  with iter_runnable_ordered [OF demo_wf(3), of 1 5] show ?thesis by metis
qed

text \<open>The preview of a selection tells what the selection will return: \<^verbatim>\<open>pending_total\<close> is the number
  of photos the unlimited walk yields and \<^verbatim>\<open>limited_to\<close> that of the limited one, for every mode and limit;
  the walk returns each photo once, and only active photos that are not reserved by another analysis.\<close>

theorem selection_matches_preview:
  assumes "photos_ok d"
  shows "pending_total (selection_preview fp mode limit alt scans d) = length (iter_pending_photo_ids fp mode None alt d) \<and>
    limited_to (selection_preview fp mode limit alt scans d) = int (length (iter_pending_photo_ids fp mode limit alt d)) \<and>
    distinct (iter_pending_photo_ids fp mode limit alt d) \<and>
    (\<forall>x \<in> set (iter_pending_photo_ids fp mode limit alt d).
       \<exists>p \<in> set (photos d). p_id p = x \<and> lifecycle_status p = ''active'' \<and> \<not> reserved_analysis d p)"
proof -
  obtain f g where fg: "fingerprints fp alt = (f, g)" by fastforce
  let ?p = "\<lambda>p. lifecycle_status p = ''active'' \<and> selectable mode f g d p"
  let ?walk = "\<lambda>l. keyset_walk candidate_key ?p 500 l None (photos d)"
  have iter: "iter_pending_photo_ids fp mode l alt d = map p_id (?walk l)" for l
    by (simp add: iter_pending_photo_ids_def fg)
  have all: "?walk l = limited l (sort_key candidate_key (filter ?p (photos d)))" for l
    by (rule candidate_photos.walk_all [OF assms]) simp
  have count: "pending_total (selection_preview fp mode limit alt scans d) = length (filter ?p (photos d))"
    by (simp add: selection_preview_def fg Let_def row_count_def filter_filter conj_commute)
  have "limited_to (selection_preview fp mode limit alt scans d) =
      (case limit of None \<Rightarrow> int (length (filter ?p (photos d))) | Some l \<Rightarrow> min (int (length (filter ?p (photos d)))) (max 0 l))"
    using count by (cases limit) (simp_all add: selection_preview_def fg Let_def)
  then have limit: "limited_to (selection_preview fp mode limit alt scans d) = int (length (?walk limit))"
    unfolding all by (cases limit) (auto simp: limited_def)
  have once: "distinct (map p_id (?walk limit))"
  proof -
    have d: "distinct (map candidate_key (?walk limit))" by (rule candidate_photos.walk_distinct [OF assms]) simp
    have sub: "set (?walk limit) \<subseteq> set (photos d)" using candidate_photos.walk_mem [OF assms, of 500] by auto
    have "inj_on p_id (set (?walk limit))"
      using assms sub by (auto simp: photos_ok_def distinct_map intro: inj_on_subset)
    then show ?thesis using d by (simp add: distinct_map)
  qed
  have mem: "p \<in> set (photos d) \<and> ?p p" if "p \<in> set (?walk limit)" for p
    using candidate_photos.walk_mem [OF assms _ that] by simp
  have "\<exists>p \<in> set (photos d). p_id p = x \<and> lifecycle_status p = ''active'' \<and> \<not> reserved_analysis d p"
    if x: "x \<in> set (map p_id (?walk limit))" for x
  proof -
    obtain p where "p \<in> set (?walk limit)" "x = p_id p" using x by auto
    then show ?thesis using mem [of p] by (auto simp: selectable_def)
  qed
  moreover have "pending_total (selection_preview fp mode limit alt scans d) = length (?walk None)"
    unfolding all using count by (simp add: limited_def)
  ultimately show ?thesis using limit once unfolding iter by auto
qed

definition demo_photos :: db where
  "demo_photos = demo_empty\<lparr>photos := map (\<lambda>p. p\<lparr>local_features_status := ''complete''\<rparr>) (photos demo_empty)\<rparr>"

theorem selection_matches_preview_witness:
  "length (iter_pending_photo_ids (Some ''f'') ''pending'' (Some 1) None demo_photos) = 1 \<and>
   distinct (iter_pending_photo_ids (Some ''f'') ''pending'' (Some 1) None demo_photos)"
proof -
  have ok: "photos_ok demo_photos" by code_simp
  have "limited_to (selection_preview (Some ''f'') ''pending'' (Some 1) None [] demo_photos) = 1" by code_simp
  with selection_matches_preview [OF ok, of "Some ''f''" "''pending''" "Some 1" None "[]"] show ?thesis by simp
qed

end
