(* ===== verification/Job_Service.thy ===== *)
theory Job_Service
  imports Failure_Policy Job_Admission Job_Selection
begin

text \<open>
  \<^verbatim>\<open>JobService\<close> (\<^verbatim>\<open>inktime/app/services/jobs.py\<close>), the layer the API calls, and the strategy
  names and result fingerprints of \<^verbatim>\<open>inktime/app/domain/analysis/plan.py\<close> it uses. A method that
  returns nothing is modelled by its error, if any, and the new state: what was committed before an
  exception stays. Text outside ASCII that is stored is written as its UTF-8 bytes.
\<close>

section \<open>Strategies and fingerprints\<close>

datatype service_error =
    UnsupportedStrategy
  | InvalidSettings settings_error
  | NegativeBudget
  | NoEligibleCandidates
  | InvalidJobTransition
  | SettingsNotReadable
  | RepositoryError repo_error

definition STRATEGIES :: "string list" where
  "STRATEGIES = [''local'', ''single'', ''low_cost'', ''high_quality'', ''single_high'', ''smart'', ''smart_two_stage'', ''custom'']"

definition SINGLE_ANALYSIS_STRATEGIES :: "string list" where
  "SINGLE_ANALYSIS_STRATEGIES = [''single'', ''single_high'', ''high_quality'']"

definition LEGACY_ANALYSIS_STRATEGIES :: "string list" where
  "LEGACY_ANALYSIS_STRATEGIES = [''custom'', ''low_cost'', ''smart'', ''smart_two_stage'']"

definition normalize_analysis_strategy :: "string option \<Rightarrow> service_error + string" where
  "normalize_analysis_strategy value =
     (let resolved = py_casefold (py_strip (str_or value ''single'')) in
      if resolved \<in> set SINGLE_ANALYSIS_STRATEGIES then Inr ''single''
      else if resolved \<in> set LEGACY_ANALYSIS_STRATEGIES then Inr ''single''
      else if resolved = ''local'' then Inr resolved
      else Inl UnsupportedStrategy)"

text \<open>\<open>digest\<close> is the SHA-256 of the canonical JSON text of an object.\<close>

definition plan_fingerprint :: "((string \<times> json) list \<Rightarrow> string) \<Rightarrow> (string \<times> json) list \<Rightarrow> string" where
  "plan_fingerprint digest plan = digest plan"

definition dict_without :: "string list \<Rightarrow> (string \<times> json) list \<Rightarrow> (string \<times> json) list" where
  "dict_without ks kvs = filter (\<lambda>(k, v). k \<notin> set ks) kvs"

definition stored_analysis_fingerprint :: "((string \<times> json) list \<Rightarrow> string) \<Rightarrow> (string \<times> json) list \<Rightarrow> string" where
  "stored_analysis_fingerprint digest plan =
     plan_fingerprint digest (dict_without [''caption_display_controls'', ''repair_policy''] plan)"

definition reusable_analysis_fingerprint :: "((string \<times> json) list \<Rightarrow> string) \<Rightarrow> (string \<times> json) list \<Rightarrow> string" where
  "reusable_analysis_fingerprint digest plan =
     plan_fingerprint digest (dict_without [''caption_display_controls'', ''repair_policy'', ''ranking_weights'',
        ''favorite_bonus'', ''favorite_override'', ''scoring_profile_id''] plan)"

section \<open>Status changes\<close>

definition start :: "string \<Rightarrow> instant \<Rightarrow> db \<Rightarrow> service_error option \<times> db" where
  "start job_id now d =
     (case transition job_id [Pending] Running ''started'' now d of
        Inl e \<Rightarrow> (Some (RepositoryError e), d)
      | Inr (ok, d') \<Rightarrow> (if ok then None else Some InvalidJobTransition, d'))"

definition pause :: "string \<Rightarrow> instant \<Rightarrow> db \<Rightarrow> service_error option \<times> db" where
  "pause job_id now d =
     (let (ok, d') = request_pause job_id now d in
      if \<not> ok then (Some InvalidJobTransition, d')
      else case find_job job_id d' of
        None \<Rightarrow> (None, d')
      | Some job \<Rightarrow>
         (case settings_json job of
            Malformed \<Rightarrow> (Some SettingsNotReadable, d')
          | Encoded js \<Rightarrow>
             (case dict_get js ''complementary_lane'' of
                None \<Rightarrow> (Some SettingsNotReadable, d')
              | Some lane \<Rightarrow>
                  if lane = JStr ''openai_backfill'' then (None, d'\<lparr>openai_pause_kind := Some ''manual''\<rparr>)
                  else (None, d'))))"

definition resume :: "string \<Rightarrow> instant \<Rightarrow> db \<Rightarrow> service_error option \<times> db" where
  "resume job_id now d =
     (case transition job_id [Paused, BudgetExceeded] Running ''resumed'' now d of
        Inl e \<Rightarrow> (Some (RepositoryError e), d)
      | Inr (ok, d') \<Rightarrow> (if ok then None else Some InvalidJobTransition, d'))"

definition cancel_job :: "string \<Rightarrow> instant \<Rightarrow> db \<Rightarrow> service_error option \<times> db" where
  "cancel_job job_id now d =
     (let (ok, d') = Job_Repository.cancel job_id now d in (if ok then None else Some InvalidJobTransition, d'))"

section \<open>Creating analysis jobs\<close>

definition UNNAMED_JOB :: string where
  "UNNAMED_JOB = map char_of [230::nat, 156, 170, 229, 145, 189, 229, 144, 141, 229, 136, 134, 230, 158, 144, 229, 183, 165, 228, 189, 156]"

definition RESCUE_SUFFIX :: string where
  "RESCUE_SUFFIX = map char_of [239::nat, 188, 141, 229, 164, 177, 230, 149, 151, 231, 133, 167, 231, 137, 135, 232, 163, 156, 230, 149, 145]"

record analysis_request =
  aq_name :: string
  aq_strategy :: string
  aq_settings :: json
  aq_created_by :: string
  aq_budget_limit :: "rat option"
  aq_limit :: "int option"
  aq_photo_ids :: "string list option"
  aq_priority :: int
  aq_dedupe_key :: "string option"
  aq_selection_mode :: string
  aq_analysis_fingerprint :: "string option"
  aq_force_recompute :: bool
  aq_analysis_spec :: "(string \<times> json) list option"
  aq_request_fingerprint :: "string option"

text \<open>The plain fingerprint of the plan is an alternate identity of a result when the request names the
  stored one.\<close>

definition alternate_fingerprint :: "((string \<times> json) list \<Rightarrow> string) \<Rightarrow> analysis_request \<Rightarrow> string option" where
  "alternate_fingerprint digest r =
     (case aq_analysis_spec r of
        None \<Rightarrow> None
      | Some spec \<Rightarrow>
          if spec \<noteq> [] \<and> aq_analysis_fingerprint r = Some (stored_analysis_fingerprint digest spec)
          then Some (plan_fingerprint digest spec) else None)"

definition repository_request :: "analysis_request \<Rightarrow> string \<Rightarrow> json \<Rightarrow> string list \<Rightarrow> create_request" where
  "repository_request r strat sets selected =
     \<lparr>cr_kind = ''analysis'', cr_name = (if py_strip (aq_name r) = [] then UNNAMED_JOB else py_strip (aq_name r)),
      cr_strategy = strat, cr_settings = sets, cr_photo_ids = selected, cr_created_by = Some (aq_created_by r),
      cr_budget_limit = aq_budget_limit r, cr_priority = aq_priority r, cr_dedupe_key = aq_dedupe_key r,
      cr_selection_mode = aq_selection_mode r, cr_analysis_fingerprint = aq_analysis_fingerprint r,
      cr_force_recompute = aq_force_recompute r, cr_analysis_spec = map_option JObj (aq_analysis_spec r),
      cr_request_fingerprint = aq_request_fingerprint r\<rparr>"

definition lift_repo :: "repo_error + 'a \<Rightarrow> service_error + 'a" where
  "lift_repo r = (case r of Inl e \<Rightarrow> Inl (RepositoryError e) | Inr x \<Rightarrow> Inr x)"

text \<open>The part of \<^verbatim>\<open>create_analysis_job\<close> after the dedupe lookup.\<close>

definition submit_selection :: "((string \<times> json) list \<Rightarrow> string) \<Rightarrow> string \<Rightarrow> (nat \<Rightarrow> string) \<Rightarrow> analysis_request \<Rightarrow>
    string \<Rightarrow> json \<Rightarrow> instant \<Rightarrow> db \<Rightarrow> service_error + (string \<times> db)" where
  "submit_selection digest job_id uuids r strat sets now d =
     (let alternate = alternate_fingerprint digest r in
      case aq_photo_ids r of
        Some ids \<Rightarrow> lift_repo (Job_Repository.create None job_id uuids (repository_request r strat sets ids) now d)
      | None \<Rightarrow>
          if limited_to (selection_preview (aq_analysis_fingerprint r) (aq_selection_mode r) (aq_limit r) alternate [] d) = 0
          then Inl NoEligibleCandidates
          else lift_repo (Job_Repository.create None job_id uuids (repository_request r strat sets
                 (iter_pending_photo_ids (aq_analysis_fingerprint r) (aq_selection_mode r) (aq_limit r) alternate d)) now d))"

definition create_analysis_job :: "((string \<times> json) list \<Rightarrow> string) \<Rightarrow> string \<Rightarrow> (nat \<Rightarrow> string) \<Rightarrow> analysis_request \<Rightarrow>
    instant \<Rightarrow> db \<Rightarrow> service_error + (string \<times> db)" where
  "create_analysis_job digest job_id uuids r now d =
     (if aq_strategy r \<notin> set STRATEGIES then Inl UnsupportedStrategy
      else case normalize_analysis_strategy (Some (aq_strategy r)) of
        Inl e \<Rightarrow> Inl e
      | Inr strat \<Rightarrow>
         (case validate_worker_settings (aq_settings r) of
            Inl e \<Rightarrow> Inl (InvalidSettings e)
          | Inr sets \<Rightarrow>
              if (case aq_budget_limit r of None \<Rightarrow> False | Some b \<Rightarrow> b < 0) then Inl NegativeBudget
              else if truthy_text (aq_dedupe_key r)
              then (case get_by_dedupe_key (coalesce_text (aq_dedupe_key r)) (aq_request_fingerprint r) d of
                      Inl e \<Rightarrow> Inl (RepositoryError e)
                    | Inr (Some existing, d') \<Rightarrow> Inr (j_id existing, d')
                    | Inr (None, d') \<Rightarrow> submit_selection digest job_id uuids r strat sets now d')
              else submit_selection digest job_id uuids r strat sets now d))"

section \<open>Rescue jobs\<close>

record rescue =
  rs_id :: string
  affected :: nat
  rs_created :: bool
  rs_status :: job_status

definition rescue_request :: "((string \<times> json) list \<Rightarrow> string) \<Rightarrow> job \<Rightarrow> string \<Rightarrow> (string \<times> json) list \<Rightarrow> string \<Rightarrow> string list \<Rightarrow>
    string \<Rightarrow> analysis_request" where
  "rescue_request digest original strat spec by_user photo_ids key =
     \<lparr>aq_name = j_name original @ RESCUE_SUFFIX, aq_strategy = strat,
      aq_settings = JObj [(''force_ai'', JBool True), (''source'', JStr ''retry-failed-current-route''),
        (''parent_job_id'', JStr (j_id original))],
      aq_created_by = by_user, aq_budget_limit = budget_limit original, aq_limit = None,
      aq_photo_ids = Some photo_ids, aq_priority = (if priority original = 0 then 3 else priority original),
      aq_dedupe_key = Some key, aq_selection_mode = ''force_all'',
      aq_analysis_fingerprint = Some (stored_analysis_fingerprint digest spec), aq_force_recompute = True,
      aq_analysis_spec = Some spec, aq_request_fingerprint = None\<rparr>"

definition rescue_key :: "((string \<times> json) list \<Rightarrow> string) \<Rightarrow> string \<Rightarrow> (string \<times> json) list \<Rightarrow> string" where
  "rescue_key digest job_id spec =
     ''retry-current-route:'' @ job_id @ '':'' @ stored_analysis_fingerprint digest spec"

definition retry_failed_with_current_plan :: "((string \<times> json) list \<Rightarrow> string) \<Rightarrow> string \<Rightarrow> string \<Rightarrow> (nat \<Rightarrow> string) \<Rightarrow>
    (string \<times> json) list \<Rightarrow> string \<Rightarrow> instant \<Rightarrow> db \<Rightarrow> service_error + (rescue \<times> db)" where
  "retry_failed_with_current_plan digest job_id new_id uuids spec by_user now d =
     (case find_job job_id d of
        None \<Rightarrow> Inl InvalidJobTransition
      | Some original \<Rightarrow>
          if kind original \<noteq> ''analysis'' then Inl InvalidJobTransition
          else if j_status original \<noteq> Failed \<and> j_status original \<noteq> CompletedWithErrors then Inl InvalidJobTransition
          else case normalize_analysis_strategy (Some (strategy original)) of
            Inl e \<Rightarrow> Inl e
          | Inr strat \<Rightarrow>
              if strat = ''local'' then Inl InvalidJobTransition
              else
                let photo_ids = failed_photo_ids job_id d; key = rescue_key digest job_id spec in
                if photo_ids = [] then Inl InvalidJobTransition
                else case newest_job (\<lambda>j. dedupe_key j = Some key) (jobs d) of
                  Some existing \<Rightarrow> Inr (\<lparr>rs_id = j_id existing, affected = length photo_ids, rs_created = False,
                      rs_status = j_status existing\<rparr>, d)
                | None \<Rightarrow>
                   (case create_analysis_job digest new_id uuids
                           (rescue_request digest original strat spec by_user photo_ids key) now d of
                      Inl e \<Rightarrow> Inl e
                    | Inr (rescue_id, d') \<Rightarrow> Inr (\<lparr>rs_id = rescue_id, affected = length photo_ids, rs_created = True,
                        rs_status = Pending\<rparr>, d')))"

definition demo_uuids2 :: "nat \<Rightarrow> string" where
  "demo_uuids2 n = ''i3''"

section \<open>Lemmas\<close>

lemma strategies_normalize: "list_all (\<lambda>s. \<not> isl (normalize_analysis_strategy (Some s))) STRATEGIES"
  by code_simp

lemma store_status_change:
  assumes "wf_db d" "find_job job_id d = Some j" "j_status j \<in> set from"
    and "transition job_id from to_status ev now d = Inr (ok, d')"
  shows "ok \<and> map_option j_status (find_job job_id d') = Some to_status"
proof -
  let ?p = "\<lambda>j. j_id j = job_id \<and> j_status j \<in> set from"
  let ?g = "\<lambda>j. j\<lparr>j_status := to_status, heartbeat_at := Some now\<rparr>"
  have hit: "row_count ?p (jobs d) \<noteq> 0"
    using find_job_Some [OF assms(2)] assms(3) by (auto simp: row_count_zero_iff)
  then have d': "ok" "d' = add_event job_id ev now (upd_jobs ?p ?g d)"
    using assms(4) by (auto simp: transition_def store_jobs_def upd_jobs_def Let_def split: if_splits sum.splits)
  then show ?thesis
    using find_job_upd_jobs [OF assms(1,2), of d ?g ?p] find_job_Some [OF assms(2)] assms(3) by (simp add: find_job_def)
qed

lemma transition_miss:
  assumes "wf_db d" "\<forall>j. find_job job_id d = Some j \<longrightarrow> j_status j \<notin> set from"
  shows "transition job_id from to_status ev now d = Inr (False, d)"
proof -
  let ?p = "\<lambda>j. j_id j = job_id \<and> j_status j \<in> set from"
  have none: "row_count ?p (jobs d) = 0"
    unfolding row_count_zero_iff
  proof
    fix j assume j: "j \<in> set (jobs d)"
    then have "j_id j = job_id \<Longrightarrow> find_job job_id d = Some j"
      unfolding find_job_def using wf_ids [OF assms(1)] by (intro first_row_key) auto
    then show "\<not> ?p j" using assms(2) by blast
  qed
  have "jobs_unique (jobs d)" using assms(1) by (simp add: wf_db_def wf_core_def)
  then show ?thesis using none by (simp add: transition_def store_jobs_def Let_def update_where_miss)
qed

lemma unique_key_iff:
  "distinct rows \<Longrightarrow> unique_key k rows \<longleftrightarrow> (\<forall>a \<in> set rows. \<forall>b \<in> set rows. k a \<noteq> None \<and> k a = k b \<longrightarrow> a = b)"
proof (induction rows)
  case (Cons x rows)
  have rest: "unique_key k rows \<longleftrightarrow> (\<forall>a \<in> set rows. \<forall>b \<in> set rows. k a \<noteq> None \<and> k a = k b \<longrightarrow> a = b)"
    using Cons by simp
  have "(case k x of None \<Rightarrow> True | Some v \<Rightarrow> \<forall>r \<in> set rows. k r \<noteq> Some v) \<longleftrightarrow> (\<forall>r \<in> set rows. k x \<noteq> None \<longrightarrow> k r \<noteq> k x)"
    by (cases "k x") auto
  moreover note Cons.prems
  ultimately have cons: "unique_key k (x # rows) \<longleftrightarrow>
      (\<forall>a \<in> set rows. \<forall>b \<in> set rows. k a \<noteq> None \<and> k a = k b \<longrightarrow> a = b) \<and> (\<forall>r \<in> set rows. k x \<noteq> None \<longrightarrow> k r \<noteq> k x)"
    unfolding unique_key_Cons rest by simp
  show ?case unfolding cons
  proof (intro iffI ballI impI conjI)
    fix a b assume *: "(\<forall>a \<in> set rows. \<forall>b \<in> set rows. k a \<noteq> None \<and> k a = k b \<longrightarrow> a = b) \<and> (\<forall>r \<in> set rows. k x \<noteq> None \<longrightarrow> k r \<noteq> k x)"
      "a \<in> set (x # rows)" "b \<in> set (x # rows)" "k a \<noteq> None \<and> k a = k b"
    then show "a = b" by (cases "a = x"; cases "b = x") auto
  next
    fix a b assume "\<forall>a \<in> set (x # rows). \<forall>b \<in> set (x # rows). k a \<noteq> None \<and> k a = k b \<longrightarrow> a = b"
      "a \<in> set rows" "b \<in> set rows" "k a \<noteq> None \<and> k a = k b"
    then show "a = b" by (meson list.set_intros(2))
  next
    fix r assume "\<forall>a \<in> set (x # rows). \<forall>b \<in> set (x # rows). k a \<noteq> None \<and> k a = k b \<longrightarrow> a = b" "r \<in> set rows" "k x \<noteq> None"
    then show "k r \<noteq> k x" using Cons.prems by (metis distinct.simps(2) list.set_intros(1,2))
  qed
qed (simp add: unique_key_def)

lemma unique_keyD:
  "unique_key k rows \<Longrightarrow> distinct rows \<Longrightarrow> a \<in> set rows \<Longrightarrow> b \<in> set rows \<Longrightarrow> k a = v \<Longrightarrow> k b = v \<Longrightarrow> v \<noteq> None \<Longrightarrow> a = b"
  unfolding unique_key_iff by (elim ballE [of _ _ a] ballE [of _ _ b]) auto

text \<open>Another active job uses the dedupe key of this one.\<close>

definition dedupe_taken :: "job \<Rightarrow> db \<Rightarrow> bool" where
  "dedupe_taken j d =
     (dedupe_key j \<noteq> None \<and> (\<exists>k \<in> set (jobs d). j_id k \<noteq> j_id j \<and> active_status (j_status k) \<and> dedupe_key k = dedupe_key j))"

lemma activate_unique:
  assumes "wf_db d" "find_job job_id d = Some j" "\<And>k. P k = (j_id k = job_id \<and> Q k)" "Q j" "active_status st"
  shows "jobs_unique (update_where P (\<lambda>j. j\<lparr>j_status := st, heartbeat_at := Some now\<rparr>) (jobs d)) = (\<not> dedupe_taken j d)"
proof -
  let ?f = "\<lambda>j. j\<lparr>j_status := st, heartbeat_at := Some now\<rparr>"
  let ?g = "\<lambda>k. if j_id k = job_id then ?f k else k"
  have j: "j \<in> set (jobs d)" "j_id j = job_id" using find_job_Some [OF assms(2)] by auto
  have only: "k = j" if "k \<in> set (jobs d)" "j_id k = job_id" for k
    using key_inj [of j_id "jobs d" k j] wf_ids [OF assms(1)] that j by auto
  have rows: "update_where P ?f (jobs d) = map ?g (jobs d)"
    unfolding update_where_def using only assms(3,4) by (intro map_cong) auto
  have ids: "map j_id (map ?g (jobs d)) = map j_id (jobs d)" by simp
  have dist: "distinct (map j_id (jobs d))" "unique_key active_dedupe (jobs d)"
    using assms(1) by (auto simp: wf_db_def wf_core_def jobs_unique_def)
  have d1: "distinct (map ?g (jobs d))"
  proof -
    have "distinct (map j_id (map ?g (jobs d)))" using dist(1) unfolding ids .
    then show ?thesis by (rule conjunct1 [OF iffD1 [OF distinct_map]])
  qed
  have d0: "distinct (jobs d)" using dist(1) by (simp add: distinct_map)
  have old: "\<forall>a \<in> set (jobs d). \<forall>b \<in> set (jobs d). active_dedupe a \<noteq> None \<and> active_dedupe a = active_dedupe b \<longrightarrow> a = b"
    by (rule iffD1 [OF unique_key_iff [OF d0] dist(2)])
  have new: "active_dedupe (?g j) = dedupe_key j" "\<And>k. j_id k \<noteq> job_id \<Longrightarrow> ?g k = k"
    using j assms(5) by (auto simp: active_dedupe_def)
  have "unique_key active_dedupe (map ?g (jobs d)) = (\<not> dedupe_taken j d)"
  proof
    assume u: "unique_key active_dedupe (map ?g (jobs d))"
    show "\<not> dedupe_taken j d"
    proof
      assume "dedupe_taken j d"
      then obtain k where k: "k \<in> set (jobs d)" "j_id k \<noteq> job_id" "active_status (j_status k)" "dedupe_key k = dedupe_key j" "dedupe_key j \<noteq> None"
        using j by (auto simp: dedupe_taken_def)
      have "?g k \<in> set (map ?g (jobs d))" "?g j \<in> set (map ?g (jobs d))" using k(1) j(1) by auto
      moreover have "active_dedupe (?g k) = dedupe_key j" using k new(2) [OF k(2)] by (simp add: active_dedupe_def)
      moreover have "active_dedupe (?g j) = dedupe_key j" by (rule new(1))
      ultimately have "?g k = ?g j" using k(5) by (rule unique_keyD [OF u d1])
      then show False using k(2) j(2) by (auto split: if_splits)
    qed
  next
    assume free: "\<not> dedupe_taken j d"
    have "?g a = ?g b" if "a \<in> set (jobs d)" "b \<in> set (jobs d)" "active_dedupe (?g a) \<noteq> None" "active_dedupe (?g a) = active_dedupe (?g b)" for a b
    proof (cases "j_id a = job_id"; cases "j_id b = job_id")
      assume "j_id a \<noteq> job_id" "j_id b \<noteq> job_id"
      then show ?thesis using old that by auto
    next
      assume "j_id a = job_id" "j_id b = job_id"
      then show ?thesis using only that by metis
    next
      assume ab: "j_id a = job_id" "j_id b \<noteq> job_id"
      then show ?thesis using only [OF that(1)] free that new j by (auto simp: dedupe_taken_def active_dedupe_def split: if_splits)
    next
      assume ab: "j_id a \<noteq> job_id" "j_id b = job_id"
      then show ?thesis using only [OF that(2)] free that new j by (auto simp: dedupe_taken_def active_dedupe_def split: if_splits)
    qed
    note same = this
    show "unique_key active_dedupe (map ?g (jobs d))"
      unfolding unique_key_iff [OF d1]
    proof (intro ballI impI)
      fix x y assume xy: "x \<in> set (map ?g (jobs d))" "y \<in> set (map ?g (jobs d))" "active_dedupe x \<noteq> None \<and> active_dedupe x = active_dedupe y"
      obtain a where a: "a \<in> set (jobs d)" "x = ?g a" using xy(1) by auto
      obtain b where b: "b \<in> set (jobs d)" "y = ?g b" using xy(2) by auto
      show "x = y" using same [OF a(1) b(1)] xy(3) unfolding a(2) b(2) by blast
    qed
  qed
  then show ?thesis unfolding rows jobs_unique_def ids using dist(1) by simp
qed

lemma transition_activates:
  assumes "wf_db d" "find_job job_id d = Some j" "j_status j \<in> set from" "active_status to_status"
  shows "if dedupe_taken j d then transition job_id from to_status ev now d = Inl IntegrityError
     else \<exists>d'. transition job_id from to_status ev now d = Inr (True, d') \<and>
            map_option j_status (find_job job_id d') = Some to_status"
proof (cases "dedupe_taken j d")
  case True
  then show ?thesis using activate_unique [OF assms(1,2) refl, of "\<lambda>k. j_status k \<in> set from" to_status now] assms(3,4)
    by (simp add: transition_def store_jobs_def Let_def)
next
  case False
  then have "jobs_unique (update_where (\<lambda>j. j_id j = job_id \<and> j_status j \<in> set from)
      (\<lambda>j. j\<lparr>j_status := to_status, heartbeat_at := Some now\<rparr>) (jobs d))"
    using activate_unique [OF assms(1,2) refl, of "\<lambda>k. j_status k \<in> set from" to_status now] assms(3,4) by simp
  then obtain ok d' where "transition job_id from to_status ev now d = Inr (ok, d')"
    by (simp add: transition_def store_jobs_def Let_def) (metis (full_types))
  then show ?thesis using False store_status_change [OF assms(1-3), of to_status ev now ok d'] by auto
qed

lemma active_not_taken:
  assumes "wf_db d" "find_job job_id d = Some j" "active_status (j_status j)" shows "\<not> dedupe_taken j d"
proof
  assume "dedupe_taken j d"
  then obtain k where k: "k \<in> set (jobs d)" "j_id k \<noteq> j_id j" "active_dedupe k = active_dedupe j" "active_dedupe j \<noteq> None"
    using assms(3) by (auto simp: dedupe_taken_def active_dedupe_def)
  have "distinct (jobs d)" "unique_key active_dedupe (jobs d)"
    using assms(1) by (auto simp: wf_db_def wf_core_def jobs_unique_def distinct_map)
  then have "k = j" using unique_key_iff [of "jobs d" active_dedupe] k find_job_Some [OF assms(2)] by metis
  then show False using k(2) by simp
qed

lemma pause_frame:
  "jobs (snd (pause job_id now d)) = jobs (snd (request_pause job_id now d))"
  "job_items (snd (pause job_id now d)) = job_items (snd (request_pause job_id now d))"
  by (simp_all add: pause_def split: prod.split option.split json_text.split)

lemma wf_pause: "wf_db d \<Longrightarrow> wf_db (snd (pause job_id now d))"
  using wf_request_pause [of d job_id now] wf_frame [OF pause_frame] by blast

section \<open>Rescue jobs are created once\<close>

lemma create_new_effect:
  assumes "create_new None job_id uuids r now d = Inr (x, d')"
  obtains n news where "x = job_id" "job_id \<notin> j_id ` set (jobs d)" "job_items d' = job_items d @ news"
    "\<forall>i \<in> set news. i_job_id i = job_id"
    "jobs d' = map (\<lambda>j. if j_id j = job_id then j\<lparr>total_items := n\<rparr> else j) (jobs d @ [new_job job_id r now])"
proof -
  obtain news d3 d4 where s: "x = job_id" "jobs_unique (jobs d @ [new_job job_id r now])"
    "set news \<subseteq> (\<lambda>(n, p). new_item (uuids n) job_id (Some p) now) ` set (enumerate 0 (cr_photo_ids r))"
    "d3 = upd_jobs (\<lambda>j. j_id j = job_id)
            (\<lambda>j. j\<lparr>total_items := row_count (\<lambda>i. i_job_id i = job_id) (job_items d @ news)\<rparr>)
            (d\<lparr>jobs := jobs d @ [new_job job_id r now], job_items := job_items d @ news\<rparr>)"
    "Inr d3 = (Inr d4 :: repo_error + db)" "d' = add_event job_id ''created'' now d4"
    using assms by (rule create_new_step) simp
  have "job_id \<notin> j_id ` set (jobs d)" using s(2) by (auto simp: jobs_unique_def new_job_def)
  moreover have "\<forall>i \<in> set news. i_job_id i = job_id" using s(3) by (auto simp: new_item_def)
  moreover have d4: "d4 = d3" using s(5) by simp
  have "job_items d' = job_items d @ news" unfolding s(6) d4 s(4) by simp
  moreover have "jobs d' = map (\<lambda>j. if j_id j = job_id
      then j\<lparr>total_items := row_count (\<lambda>i. i_job_id i = job_id) (job_items d @ news)\<rparr> else j) (jobs d @ [new_job job_id r now])"
    unfolding s(6) d4 s(4) by (simp add: update_where_def)
  ultimately show ?thesis using that s(1) by blast
qed

lemma rescue_created:
  assumes "create_analysis_job digest new_id uuids (rescue_request digest original ''single'' spec u ids key) now d = Inr (x, d')"
    and "newest_job (\<lambda>j. dedupe_key j = Some key) (jobs d) = None" "key \<noteq> []"
  shows "create_new None new_id uuids (repository_request (rescue_request digest original ''single'' spec u ids key) ''single''
      (aq_settings (rescue_request digest original ''single'' spec u ids key)) ids) now d = Inr (x, d')"
proof -
  let ?r = "rescue_request digest original ''single'' spec u ids key"
  have norm: "normalize_analysis_strategy (Some ''single'') = Inr ''single''" by code_simp
  have strat: "''single'' \<in> set STRATEGIES" by code_simp
  have sets: "validate_worker_settings (aq_settings ?r) = Inr (aq_settings ?r)"
    by (simp add: rescue_request_def worker_bounds_def)
  have strat_r: "aq_strategy ?r = ''single''" by (simp add: rescue_request_def)
  have key: "truthy_text (aq_dedupe_key ?r)" "coalesce_text (aq_dedupe_key ?r) = key"
    using assms(3) by (auto simp: rescue_request_def truthy_text_def coalesce_text_def)
  have look: "get_by_dedupe_key key (aq_request_fingerprint ?r) d = Inr (None, d)"
    using assms(2) by (simp add: get_by_dedupe_key_def rescue_request_def truthy_text_def coalesce_text_def)
  have "submit_selection digest new_id uuids ?r ''single'' (aq_settings ?r) now d = Inr (x, d')"
    using assms(1) norm strat sets key look unfolding create_analysis_job_def strat_r by (auto split: if_splits)
  moreover have "aq_photo_ids ?r = Some ids" by (simp add: rescue_request_def)
  ultimately have "Job_Repository.create None new_id uuids (repository_request ?r ''single'' (aq_settings ?r) ids) now d = Inr (x, d')"
    by (auto simp: submit_selection_def lift_repo_def Let_def split: sum.splits)
  then show ?thesis
    using assms(2) key by (simp add: Job_Repository.create_def repository_request_def rescue_request_def truthy_text_def coalesce_text_def)
qed

lemma first_row_appendI: "first_row p xs = Some r \<Longrightarrow> first_row p (xs @ ys) = Some r"
  by (simp add: first_row_append)

lemma rescue_key_nonempty: "rescue_key digest job_id spec \<noteq> []"
  by (simp add: rescue_key_def)

lemma normalize_cases: "normalize_analysis_strategy v = Inr s \<Longrightarrow> s = ''single'' \<or> s = ''local''"
  by (auto simp: normalize_analysis_strategy_def Let_def split: if_splits)

text \<open>A rescue job, once created, is found by its key, and the original job and its failed photos are unchanged.\<close>

lemma rescue_visible:
  assumes "find_job job_id d = Some original"
    and "create_analysis_job digest new_id uuids (rescue_request digest original ''single'' spec u ids key) now d = Inr (x, d')"
    and "newest_job (\<lambda>j. dedupe_key j = Some key) (jobs d) = None" "key \<noteq> []"
  shows "find_job job_id d' = Some original \<and> failed_photo_ids job_id d' = failed_photo_ids job_id d \<and>
    (\<exists>j. newest_job (\<lambda>j. dedupe_key j = Some key) (jobs d') = Some j \<and> x = j_id j \<and> j_status j = Pending)"
proof -
  let ?req = "repository_request (rescue_request digest original ''single'' spec u ids key) ''single''
    (aq_settings (rescue_request digest original ''single'' spec u ids key)) ids"
  obtain n news where e: "x = new_id" "new_id \<notin> j_id ` set (jobs d)" "job_items d' = job_items d @ news"
    "\<forall>i \<in> set news. i_job_id i = new_id"
    "jobs d' = map (\<lambda>j. if j_id j = new_id then j\<lparr>total_items := n\<rparr> else j) (jobs d @ [new_job new_id ?req now])"
    using rescue_created [OF assms(2-4)] by (rule create_new_effect)
  have diff: "job_id \<noteq> new_id" using find_job_Some [OF assms(1)] e(2) by auto
  have old: "map (\<lambda>j. if j_id j = new_id then j\<lparr>total_items := n\<rparr> else j) (jobs d) = jobs d"
    using e(2) by (intro map_idI) auto
  have find: "find_job job_id d' = Some original"
    using first_row_appendI [OF assms(1) [unfolded find_job_def]] unfolding find_job_def e(5) map_append old by this
  have failed: "failed_photo_ids job_id d' = failed_photo_ids job_id d"
    using e(4) diff by (simp add: failed_photo_ids_def e(3) filter_empty_conv)
  have key: "dedupe_key (new_job new_id ?req now) = Some key"
    by (simp add: new_job_def repository_request_def rescue_request_def)
  have "map (\<lambda>j. if j_id j = new_id then j\<lparr>total_items := n\<rparr> else j) [new_job new_id ?req now] =
      [(new_job new_id ?req now)\<lparr>total_items := n\<rparr>]" by (simp add: new_job_def)
  then have "newest_job (\<lambda>j. dedupe_key j = Some key) (jobs d') = Some ((new_job new_id ?req now)\<lparr>total_items := n\<rparr>)"
    unfolding e(5) map_append old using assms(3) key
    by (simp only:) (rule newest_job_single, auto simp: newest_job_None)
  then show ?thesis using find failed e(1) by (simp add: new_job_def)
qed

text \<open>A rescue job is created once: after \<^verbatim>\<open>retry_failed_with_current_plan\<close> returned, calling it again for
  the same job and plan, by any user, returns the same job as not created and changes nothing. The number it
  reports is that of the original job's failed photos.\<close>

theorem rescue_created_once:
  assumes "wf_db d" "retry_failed_with_current_plan digest job_id new_id uuids spec u now d = Inr (r, d')"
  shows "retry_failed_with_current_plan digest job_id new_id' uuids' spec u' now' d' = Inr (r\<lparr>rs_created := False\<rparr>, d') \<and>
    affected r = length (failed_photo_ids job_id d)"
proof -
  let ?key = "rescue_key digest job_id spec" and ?ids = "failed_photo_ids job_id d"
  obtain original where o: "find_job job_id d = Some original" "kind original = ''analysis''"
    "j_status original = Failed \<or> j_status original = CompletedWithErrors"
    "normalize_analysis_strategy (Some (strategy original)) = Inr ''single''" "?ids \<noteq> []"
    using assms(2) normalize_cases
    by (fastforce simp: retry_failed_with_current_plan_def Let_def split: option.splits if_splits sum.splits)
  have guards: "retry_failed_with_current_plan digest job_id a b spec v t e =
      (case newest_job (\<lambda>j. dedupe_key j = Some ?key) (jobs e) of
         Some existing \<Rightarrow> Inr (\<lparr>rs_id = j_id existing, affected = length ?ids, rs_created = False, rs_status = j_status existing\<rparr>, e)
       | None \<Rightarrow> (case create_analysis_job digest a b (rescue_request digest original ''single'' spec v ?ids ?key) t e of
                   Inl e \<Rightarrow> Inl e
                 | Inr (x, e') \<Rightarrow> Inr (\<lparr>rs_id = x, affected = length ?ids, rs_created = True, rs_status = Pending\<rparr>, e')))"
    if "find_job job_id e = Some original" "failed_photo_ids job_id e = ?ids" for a b v t e
    using that o by (auto simp: retry_failed_with_current_plan_def Let_def)
  show ?thesis
  proof (cases "newest_job (\<lambda>j. dedupe_key j = Some ?key) (jobs d)")
    case (Some existing)
    then show ?thesis using assms(2) guards [OF o(1) refl] by auto
  next
    case None
    then obtain x where c: "create_analysis_job digest new_id uuids (rescue_request digest original ''single'' spec u ?ids ?key) now d = Inr (x, d')"
      and r: "r = \<lparr>rs_id = x, affected = length ?ids, rs_created = True, rs_status = Pending\<rparr>"
      using assms(2) guards [OF o(1) refl, of new_id uuids u now] by (auto split: sum.splits)
    obtain j where v: "find_job job_id d' = Some original" "failed_photo_ids job_id d' = ?ids"
      "newest_job (\<lambda>j. dedupe_key j = Some ?key) (jobs d') = Some j" "x = j_id j" "j_status j = Pending"
      using rescue_visible [OF o(1) c None rescue_key_nonempty] by blast
    then show ?thesis using guards [OF v(1,2)] r by simp
  qed
qed

theorem rescue_created_once_witness:
  "map_sum id fst (retry_failed_with_current_plan (\<lambda>_. ''h'') ''j1'' ''r9'' demo_uuids [] ''u2'' 90
      (snd (projr (retry_failed_with_current_plan (\<lambda>_. ''h'') ''j1'' ''r1'' demo_uuids2 [] ''u1'' 80 demo_failed)))) =
   Inr \<lparr>rs_id = ''r1'', affected = 1, rs_created = False, rs_status = Pending\<rparr>"
proof -
  let ?c = "retry_failed_with_current_plan (\<lambda>_. ''h'') ''j1'' ''r1'' demo_uuids2 [] ''u1'' 80 demo_failed"
  have "?c = Inr (\<lparr>rs_id = ''r1'', affected = 1, rs_created = True, rs_status = Pending\<rparr>, snd (projr ?c))"
    by (rule returned; code_simp)
  from rescue_created_once [OF demo_wf_failed this] show ?thesis by simp
qed

section \<open>Properties\<close>

text \<open>Starting and resuming: a job starts exactly when it is pending; a paused or budget-stopped job
  resumes, unless another active job took its dedupe key meanwhile, in which case the unique index makes
  the call fail with an integrity error instead of the documented \<^verbatim>\<open>InvalidJobTransition\<close>; in any other
  status both are refused. A refused or failed call changes nothing.\<close>

theorem start_resume_outcomes:
  assumes "wf_db d" "find_job job_id d = Some j"
  shows "(if j_status j = Pending
          then fst (start job_id now d) = None \<and> map_option j_status (find_job job_id (snd (start job_id now d))) = Some Running
          else start job_id now d = (Some InvalidJobTransition, d)) \<and>
    (if j_status j = Paused \<or> j_status j = BudgetExceeded
     then if dedupe_taken j d then resume job_id now d = (Some (RepositoryError IntegrityError), d)
          else fst (resume job_id now d) = None \<and> map_option j_status (find_job job_id (snd (resume job_id now d))) = Some Running
     else resume job_id now d = (Some InvalidJobTransition, d))"
proof -
  have run: "active_status Running" by (simp add: active_status_def)
  have "if j_status j = Pending
        then fst (start job_id now d) = None \<and> map_option j_status (find_job job_id (snd (start job_id now d))) = Some Running
        else start job_id now d = (Some InvalidJobTransition, d)"
  proof (cases "j_status j = Pending")
    case True
    then have "\<not> dedupe_taken j d" using active_not_taken [OF assms] by (simp add: active_status_def)
    then show ?thesis using transition_activates [OF assms _ run, of "[Pending]" "''started''" now] True by (auto simp: start_def)
  next
    case False
    then show ?thesis using transition_miss [OF assms(1), of job_id "[Pending]"] assms(2) by (simp add: start_def)
  qed
  moreover have "if j_status j = Paused \<or> j_status j = BudgetExceeded
     then if dedupe_taken j d then resume job_id now d = (Some (RepositoryError IntegrityError), d)
          else fst (resume job_id now d) = None \<and> map_option j_status (find_job job_id (snd (resume job_id now d))) = Some Running
     else resume job_id now d = (Some InvalidJobTransition, d)"
  proof (cases "j_status j = Paused \<or> j_status j = BudgetExceeded")
    case True
    then show ?thesis using transition_activates [OF assms _ run, of "[Paused, BudgetExceeded]" "''resumed''" now]
      by (auto simp: resume_def split: if_splits)
  next
    case False
    then show ?thesis using transition_miss [OF assms(1), of job_id "[Paused, BudgetExceeded]"] assms(2) by (simp add: resume_def)
  qed
  ultimately show ?thesis by blast
qed

section \<open>A resume that fails\<close>

definition demo_scan :: maintenance_request where
  "demo_scan = \<lparr>mr_kind = ''scan'', mr_name = ''n'', mr_settings = JObj [], mr_created_by = None, mr_priority = None,
     mr_dedupe_key = Some ''scan'', mr_request_fingerprint = None\<rparr>"

text \<open>A scan is created, started and paused; a second scan with the same key is created, because only
  active jobs count for it.\<close>

definition demo_paused :: db where
  "demo_paused = snd (pause ''s1'' 2 (snd (start ''s1'' 1 (snd (projr (create_maintenance ''s1'' ''x1'' demo_scan 0 demo_empty))))))"

definition demo_clash :: db where
  "demo_clash = snd (projr (create_maintenance ''s2'' ''x2'' demo_scan 3 demo_paused))"

lemma demo_wf_clash: "wf_db demo_clash"
proof -
  have c1: "create_maintenance ''s1'' ''x1'' demo_scan 0 demo_empty =
      Inr (Some ''s1'', snd (projr (create_maintenance ''s1'' ''x1'' demo_scan 0 demo_empty)))" by (rule returned; code_simp)
  have wf1: "wf_db (snd (projr (create_maintenance ''s1'' ''x1'' demo_scan 0 demo_empty)))"
    using wf_create_maintenance_guarded [OF demo_wf(1), of None] c1 by (auto simp: create_maintenance_def)
  have wf2: "wf_db (snd (start job_id now d))" if "wf_db d" for job_id now d
    using wf_transition that by (fastforce simp: start_def split: sum.splits)
  have c2: "create_maintenance ''s2'' ''x2'' demo_scan 3 demo_paused = Inr (Some ''s2'', demo_clash)"
    unfolding demo_clash_def by (rule returned; code_simp)
  have "wf_db demo_paused" unfolding demo_paused_def by (intro wf_pause wf2 wf1)
  then show ?thesis
    using wf_create_maintenance_guarded [of demo_paused None] c2 by (auto simp: create_maintenance_def)
qed

theorem start_resume_outcomes_witness:
  "start ''j1'' 5 demo_created = (None, snd (start ''j1'' 5 demo_created)) \<and>
   resume ''s1'' 9 demo_clash = (Some (RepositoryError IntegrityError), demo_clash)"
proof -
  have "find_job ''j1'' demo_created \<noteq> None" "j_status (the (find_job ''j1'' demo_created)) = Pending"
    "find_job ''s1'' demo_clash \<noteq> None" "j_status (the (find_job ''s1'' demo_clash)) = Paused"
    "dedupe_taken (the (find_job ''s1'' demo_clash)) demo_clash" by code_simp+
  then obtain j k where "find_job ''j1'' demo_created = Some j" "j_status j = Pending"
    "find_job ''s1'' demo_clash = Some k" "j_status k = Paused" "dedupe_taken k demo_clash" by auto
  with start_resume_outcomes [OF demo_wf(2), of "''j1''" j 5] start_resume_outcomes [OF demo_wf_clash, of "''s1''" k 9]
  show ?thesis by (simp add: prod_eq_iff)
qed

end
