(* ===== verification/Job_Worker.thy ===== *)
theory Job_Worker
  imports Job_Service
begin

text \<open>
  The bounded worker (\<^verbatim>\<open>inktime/app/workers/job_worker.py\<close>): how it is configured, what it does with a
  failure, and its thread-based main loop. The threads, the clock and \<^verbatim>\<open>request_stop\<close> are the environment: an
  iteration of the loop receives as a \<open>tick\<close> what the code observes of them, which futures are done
  and with what outcome, which have run too long, whether the shutdown deadline has passed. Processes and
  the killing of children are not modelled.
\<close>

section \<open>Failures as the worker sees them\<close>

datatype retry_hint = NoHint | Hint rat | NotNumeric | NotFinite

record worker_failure =
  f_raised :: raised
  f_http_status :: "int option"
  f_retry_after :: retry_hint
  f_ambiguous :: "bool option"
  f_vision_started :: "bool option"
  f_request_started :: "bool option"
  f_not_sent :: bool
  f_child_started :: "bool option"

definition request_definitely_not_sent :: "worker_failure \<Rightarrow> bool" where
  "request_definitely_not_sent e =
     (let marks = [f_ambiguous e, f_vision_started e, f_request_started e] in
      if Some True \<in> set marks then False
      else if f_not_sent e then True
      else if f_child_started e = Some False then True
      else marks = [Some False, Some False, Some False])"

text \<open>\<^verbatim>\<open>float(retry_after or 60)\<close>, 60 when it is no finite number, kept within a day.\<close>

definition wait_seconds :: "retry_hint \<Rightarrow> rat" where
  "wait_seconds h =
     (case h of
        NoHint \<Rightarrow> 60
      | NotNumeric \<Rightarrow> 60
      | NotFinite \<Rightarrow> 60
      | Hint q \<Rightarrow> min 86400 (max 1 (if q = 0 then 60 else q)))"

text \<open>\<^verbatim>\<open>timedelta(seconds=q)\<close> in microseconds: rounded half to even.\<close>

definition round_half_even :: "rat \<Rightarrow> int" where
  "round_half_even q =
     (let f = \<lfloor>q\<rfloor>; r = q - of_int f in
      if r < 1 / 2 then f else if r > 1 / 2 then f + 1 else if even f then f else f + 1)"

definition timedelta_seconds :: "rat \<Rightarrow> int" where
  "timedelta_seconds q = round_half_even (q * 1000000)"

definition PROVIDER_WAIT_CODES :: "string list" where
  "PROVIDER_WAIT_CODES = [''VLM-001'', ''VLM-002'', ''VLM-005'', ''AI-PROVIDER-TIMEOUT'', ''AI-PROVIDER-UNAVAILABLE'']"

definition SAFETY_PAUSE_CODES :: "string list" where
  "SAFETY_PAUSE_CODES = [''CONFIG_INVALID'', ''AUTH_REQUIRED'', ''VLM-008'']"

section \<open>The worker's state\<close>

record worker =
  w_id :: string
  concurrency :: int
  queue_size :: int
  w_max_attempts :: int
  w_retry_interval :: "int option"
  progress_interval_items :: int
  has_timeout :: bool
  hard_timeout :: bool
  stopped :: bool
  failure_count :: nat
  schema_failure_streak :: nat
  provider_rejection_streak :: nat
  processed_items :: nat
  max_observed_futures :: nat
  reported :: "(string \<times> string \<times> nat) list"  \<comment> \<open>calls of \<^verbatim>\<open>error_callback\<close>\<close>

definition MAX_CHILD_PROCESSES :: int where
  "MAX_CHILD_PROCESSES = 4"

definition new_worker :: "string \<Rightarrow> int \<Rightarrow> int \<Rightarrow> int \<Rightarrow> int option \<Rightarrow> int \<Rightarrow> rat \<Rightarrow> bool \<Rightarrow> worker" where
  "new_worker wid conc mult max_att retry progress timeout hard =
     (let requested_hard = (hard \<and> timeout > 0);
          c = (if requested_hard then min (max 1 conc) MAX_CHILD_PROCESSES else max 1 conc)
      in \<lparr>w_id = wid, concurrency = c, queue_size = c * max 1 mult, w_max_attempts = max 1 max_att,
          w_retry_interval = map_option (max 1) retry, progress_interval_items = max 1 progress,
          has_timeout = (timeout > 0), hard_timeout = requested_hard, stopped = False, failure_count = 0,
          schema_failure_streak = 0, provider_rejection_streak = 0, processed_items = 0, max_observed_futures = 0,
          reported = []\<rparr>)"

definition dispatch_capacity :: "worker \<Rightarrow> int" where
  "dispatch_capacity w = min (queue_size w) (concurrency w)"

definition report_error :: "string \<Rightarrow> string \<Rightarrow> worker \<Rightarrow> worker" where
  "report_error job_id item_id w = w\<lparr>reported := reported w @ [(job_id, item_id, failure_count w)]\<rparr>"

text \<open>A status change whose result the worker ignores. It starts from an active status, so the index on
  dedupe keys cannot refuse it.\<close>

definition do_transition :: "string \<Rightarrow> job_status list \<Rightarrow> job_status \<Rightarrow> string \<Rightarrow> instant \<Rightarrow> db \<Rightarrow> db" where
  "do_transition job_id from to_status ev now d =
     (case transition job_id from to_status ev now d of Inl e \<Rightarrow> d | Inr (ok, d') \<Rightarrow> d')"

section \<open>Recording a failure\<close>

definition count_failure :: "string \<Rightarrow> bool \<Rightarrow> worker \<Rightarrow> worker" where
  "count_failure code rejected w =
     w\<lparr>failure_count := failure_count w + 1,
       schema_failure_streak := (if code = ''VLM-004'' then schema_failure_streak w + 1 else 0),
       provider_rejection_streak := (if rejected then provider_rejection_streak w + 1 else 0)\<rparr>"

definition safety_pause :: "string \<Rightarrow> bool \<Rightarrow> worker \<Rightarrow> job option \<Rightarrow> bool" where
  "safety_pause code rejected w job =
     (let isolated = (rejected \<and> (case job of None \<Rightarrow> False | Some j \<Rightarrow> completed_items j > 0) \<and>
                      provider_rejection_streak w < 3)
      in (code \<in> set SAFETY_PAUSE_CODES \<and> \<not> isolated) \<or> schema_failure_streak w \<ge> 3)"

definition record_failure :: "(string \<Rightarrow> string) \<Rightarrow> string \<Rightarrow> string \<Rightarrow> worker_failure \<Rightarrow> instant \<Rightarrow> worker \<times> db \<Rightarrow> worker \<times> db" where
  "record_failure digest job_id item_id e now st =
     (let (w, d) = st; code = failure_code (f_raised e); me = Some (w_id w) in
      if code = ''API_CREDIT_EXHAUSTED'' then
        (let (ok, d1) = defer_item item_id me 0 False (Some code) now d in
         if ok then (w, add_event job_id ''provider_credit_pause'' now (snd (request_pause job_id now d1))) else (w, d1))
      else if code \<in> set PROVIDER_WAIT_CODES \<and> request_definitely_not_sent e then
        (let (ok, d1) = defer_item item_id me (timedelta_seconds (wait_seconds (f_retry_after e))) True (Some code) now d in
         if ok then (w, add_event job_id ''provider_wait'' now (do_transition job_id [Running] Retrying ''provider_wait'' now d1))
         else (w, d1))
      else
        let rejected = (code = ''CONFIG_INVALID'' \<and> f_http_status e = Some 400);
            w1 = count_failure code rejected w
        in if starts_with ''BUDGET-'' code then
             (let (ok, d1) = defer_item item_id me 0 False None now d in
              if \<not> ok then (w1, d1)
              else (report_error job_id item_id w1,
                    do_transition job_id [Running, Retrying] BudgetExceeded ''budget_exceeded'' now d1))
           else
             let att = (if classify_failure (f_raised e) = TERMINAL_NO_RETRY then 1 else w_max_attempts w1);
                 (recorded, d1) = fail_item digest job_id item_id code att (w_retry_interval w1) me now d
             in if \<not> recorded then (w1, d1)
                else
                  let d2 = (if safety_pause code rejected w1 (find_job job_id d1)
                            then add_event job_id ''provider_safety_pause'' now (snd (request_pause job_id now d1))
                            else d1);
                      w2 = (if failure_count w1 \<le> 3 \<or> int (failure_count w1) mod progress_interval_items w1 = 0
                            then report_error job_id item_id w1 else w1)
                  in (w2, d2))"

section \<open>The main loop\<close>

datatype outcome = Finished item_result rat | Erred worker_failure

record run =
  r_worker :: worker
  futures :: "(nat \<times> string) list"  \<comment> \<open>future, item id\<close>
  timed_out :: "nat list"
  timeout_triggered :: bool
  next_future :: nat
  forced_shutdown :: bool
  r_db :: db

record tick =
  t_now :: instant
  t_stop :: bool            \<comment> \<open>\<^verbatim>\<open>request_stop\<close> was called meanwhile\<close>
  t_deadline :: bool        \<comment> \<open>the shutdown deadline has passed\<close>
  t_done :: "(nat \<times> outcome) list"
  t_deadline_after :: bool  \<comment> \<open>it has passed after waiting\<close>
  t_expired :: "nat list"   \<comment> \<open>futures running longer than the timeout\<close>
  t_renew :: bool           \<comment> \<open>the renewal interval has passed\<close>

datatype loop_result = Continue run | Break run | Crash repo_error run

definition with_worker_db :: "run \<Rightarrow> worker \<times> db \<Rightarrow> run" where
  "with_worker_db s wd = s\<lparr>r_worker := fst wd, r_db := snd wd\<rparr>"

text \<open>The local function \<^verbatim>\<open>consume\<close>, with \<^verbatim>\<open>_record_processed\<close>'s counter.\<close>

definition consume :: "(string \<Rightarrow> string) \<Rightarrow> string \<Rightarrow> instant \<Rightarrow> nat \<times> string \<times> outcome \<Rightarrow> run \<Rightarrow> run" where
  "consume digest job_id now entry s =
     (let (fut, item_id, res) = entry;
          s1 = (case res of
             Erred e \<Rightarrow> with_worker_db s (record_failure digest job_id item_id e now (r_worker s, r_db s))
           | Finished result cost \<Rightarrow>
               let w1 = (r_worker s)\<lparr>schema_failure_streak := 0, provider_rejection_streak := 0\<rparr>;
                   me = Some (w_id w1)
               in with_worker_db s (w1,
                    if fut \<in> set (timed_out s) then snd (record_late_completion job_id item_id result cost me now (r_db s))
                    else snd (complete_item job_id item_id result cost me now (r_db s))))
      in s1\<lparr>r_worker := (r_worker s1)\<lparr>processed_items := processed_items (r_worker s1) + 1\<rparr>\<rparr>)"

text \<open>The done futures that are in flight, with their items, and the others.\<close>

definition done_entries :: "(nat \<times> outcome) list \<Rightarrow> (nat \<times> string) list \<Rightarrow> (nat \<times> string \<times> outcome) list" where
  "done_entries ds fs =
     List.map_filter (\<lambda>(f, res). map_option (\<lambda>item. (f, item, res)) (map_of fs f)) ds"

definition still_running :: "(nat \<times> outcome) list \<Rightarrow> (nat \<times> string) list \<Rightarrow> (nat \<times> string) list" where
  "still_running ds fs = filter (\<lambda>(f, item). f \<notin> fst ` set ds) fs"

definition dispatch :: "job_item list \<Rightarrow> run \<Rightarrow> run" where
  "dispatch rows s =
     (let fs = futures s @ zip [next_future s ..< next_future s + length rows] (map i_id rows)
      in s\<lparr>futures := fs, next_future := next_future s + length rows,
           r_worker := (r_worker s)\<lparr>max_observed_futures := max (max_observed_futures (r_worker s)) (length fs)\<rparr>\<rparr>)"

definition stop_status :: "job_status \<Rightarrow> bool" where
  "stop_status st = (st \<in> {Cancelled, Completed, CompletedWithErrors, Failed, Paused, BudgetExceeded})"

text \<open>Waiting for the futures: what happens after the claim.\<close>

definition await :: "(string \<Rightarrow> string) \<Rightarrow> (db \<Rightarrow> string \<Rightarrow> job_status \<Rightarrow> (string \<times> string) + db) option \<Rightarrow> string \<Rightarrow> tick \<Rightarrow> run \<Rightarrow> loop_result" where
  "await digest fin job_id t s =
     (if futures s = [] then Break (s\<lparr>r_db := snd (finalize_if_done digest fin job_id (t_now t) (r_db s))\<rparr>)
      else
        let me = w_id (r_worker s); ds = filter (\<lambda>(f, res). f \<in> fst ` set (futures s)) (t_done t) in
        if ds = [] then
          (if t_deadline_after t then Break (s\<lparr>forced_shutdown := True\<rparr>)
           else
             let s1 = s\<lparr>r_db := snd (renew_leases job_id me 300 (t_now t) (r_db s))\<rparr>;
                 late = filter (\<lambda>f. f \<in> fst ` set (futures s)) (t_expired t)
             in if has_timeout (r_worker s) \<and> late \<noteq> []
                then Continue (s1\<lparr>timed_out := timed_out s1 @ late, timeout_triggered := True,
                                  r_worker := (r_worker s1)\<lparr>stopped := True\<rparr>\<rparr>)
                else Continue s1)
        else
          let s1 = fold (consume digest job_id (t_now t)) (done_entries ds (futures s)) s;
              s2 = s1\<lparr>futures := still_running ds (futures s)\<rparr>
          in Continue (if t_renew t then s2\<lparr>r_db := snd (renew_leases job_id me 300 (t_now t) (r_db s2))\<rparr> else s2))"

definition loop_body :: "(string \<Rightarrow> string) \<Rightarrow> (db \<Rightarrow> string \<Rightarrow> job_status \<Rightarrow> (string \<times> string) + db) option \<Rightarrow> string \<Rightarrow> tick \<Rightarrow> run \<Rightarrow> loop_result" where
  "loop_body digest fin job_id t s0 =
     (let s = (if t_stop t then s0\<lparr>r_worker := (r_worker s0)\<lparr>stopped := True\<rparr>\<rparr> else s0); w = r_worker s; d = r_db s in
      if stopped w \<and> futures s = [] then Break s
      else if t_deadline t then Break (s\<lparr>forced_shutdown := (futures s \<noteq> [])\<rparr>)
      else case find_job job_id d of
        None \<Rightarrow> Break s
      | Some job \<Rightarrow>
          if stop_status (j_status job) then Break s
          else if j_status job = Pausing \<and> futures s = []
            then Break (s\<lparr>r_db := snd (acknowledge_pause job_id (t_now t) d)\<rparr>)
          else if (case budget_limit job of None \<Rightarrow> False | Some b \<Rightarrow> b > 0 \<and> spent job \<ge> b)
            then Break (s\<lparr>r_db := do_transition job_id [Running, Retrying] BudgetExceeded ''budget_exceeded'' (t_now t) d\<rparr>)
          else if \<not> timeout_triggered s \<and> \<not> stopped w \<and> runnable_status (j_status job) \<and>
                  int (length (futures s)) < dispatch_capacity w
            then (case Job_Repository.claim job_id (w_id w) (dispatch_capacity w - int (length (futures s))) 300 (t_now t) d of
                    Inl e \<Rightarrow> Crash e s
                  | Inr (rows, d') \<Rightarrow> await digest fin job_id t (dispatch rows (s\<lparr>r_db := d'\<rparr>)))
          else await digest fin job_id t s)"

fun run_loop :: "(string \<Rightarrow> string) \<Rightarrow> (db \<Rightarrow> string \<Rightarrow> job_status \<Rightarrow> (string \<times> string) + db) option \<Rightarrow> string \<Rightarrow> tick list \<Rightarrow> run \<Rightarrow> loop_result" where
  "run_loop digest fin job_id [] s = Continue s"
| "run_loop digest fin job_id (t # ts) s =
     (case loop_body digest fin job_id t s of Continue s' \<Rightarrow> run_loop digest fin job_id ts s' | r \<Rightarrow> r)"

section \<open>Draining at the end\<close>

text \<open>What the drain observes: futures done within the remaining time, then for each of the others whether it
  finished after all, could be cancelled, or is still running.\<close>

datatype drain_fate = LateDone outcome | CancelledFuture | StillRunning

definition plain_error :: "raised \<Rightarrow> worker_failure" where
  "plain_error r = \<lparr>f_raised = r, f_http_status = None, f_retry_after = NoHint, f_ambiguous = None, f_vision_started = None,
     f_request_started = None, f_not_sent = False, f_child_started = None\<rparr>"

definition drain_one :: "(string \<Rightarrow> string) \<Rightarrow> string \<Rightarrow> instant \<Rightarrow> (nat \<Rightarrow> drain_fate) \<Rightarrow> nat \<times> string \<Rightarrow> run \<Rightarrow> run" where
  "drain_one digest job_id now fate entry s =
     (let (fut, item_id) = entry in
      case fate fut of
        LateDone res \<Rightarrow> consume digest job_id now (fut, item_id, res) s
      | CancelledFuture \<Rightarrow> consume digest job_id now (fut, item_id, Erred (plain_error (Raised None None False))) s
      | StillRunning \<Rightarrow> consume digest job_id now (fut, item_id, Erred (plain_error (JobShutdownAmbiguousError None))) s)"

definition finish_run :: "(string \<Rightarrow> string) \<Rightarrow> (db \<Rightarrow> string \<Rightarrow> job_status \<Rightarrow> (string \<times> string) + db) option \<Rightarrow> string \<Rightarrow> instant \<Rightarrow>
    (nat \<times> outcome) list \<Rightarrow> (nat \<Rightarrow> drain_fate) \<Rightarrow> run \<Rightarrow> run" where
  "finish_run digest fin job_id now done_now fate s =
     (let ds = filter (\<lambda>(f, res). f \<in> fst ` set (futures s)) done_now;
          s1 = (fold (consume digest job_id now) (done_entries ds (futures s)) s)\<lparr>futures := still_running ds (futures s)\<rparr>;
          s2 = (if futures s1 = [] then s1
                else (fold (drain_one digest job_id now fate) (futures s1) s1)\<lparr>futures := [], forced_shutdown := True\<rparr>);
          d1 = (case find_job job_id (r_db s2) of
                  Some j \<Rightarrow> if j_status j = Pausing then snd (acknowledge_pause job_id now (r_db s2)) else r_db s2
                | None \<Rightarrow> r_db s2)
      in s2\<lparr>r_db := snd (finalize_if_done digest fin job_id now d1)\<rparr>)"

definition start_run :: "worker \<Rightarrow> db \<Rightarrow> run" where
  "start_run w d =
     \<lparr>r_worker = w\<lparr>schema_failure_streak := 0, provider_rejection_streak := 0\<rparr>, futures = [], timed_out = [],
      timeout_triggered = False, next_future = 0, forced_shutdown = False, r_db = d\<rparr>"

section \<open>A worker for the examples\<close>

definition demo_tick :: tick where
  "demo_tick = \<lparr>t_now = 10, t_stop = False, t_deadline = False, t_done = [], t_deadline_after = False, t_expired = [], t_renew = False\<rparr>"

definition demo_worker :: worker where
  "demo_worker = new_worker ''w1'' 1 2 3 None 50 0 False"

definition demo_run :: run where
  "demo_run = (case loop_body id None ''j1'' demo_tick (start_run demo_worker demo_started) of Continue s \<Rightarrow> s | Break s \<Rightarrow> s | Crash e s \<Rightarrow> s)"

definition demo_unavailable :: worker_failure where
  "demo_unavailable = \<lparr>f_raised = Raised (Some ''VLM-002'') None False, f_http_status = None, f_retry_after = Hint 30, f_ambiguous = None,
     f_vision_started = None, f_request_started = None, f_not_sent = True, f_child_started = None\<rparr>"

section \<open>Preservation\<close>

lemma wf_do_transition: "wf_db d \<Longrightarrow> wf_db (do_transition job_id from to_status ev now d)"
  by (auto simp: do_transition_def intro: wf_transition split: sum.split)

text \<open>What never changes in a worker: its identity and its limits.\<close>

definition same_config :: "worker \<Rightarrow> worker \<Rightarrow> bool" where
  "same_config w w' = (w_id w' = w_id w \<and> concurrency w' = concurrency w \<and> queue_size w' = queue_size w \<and>
     max_observed_futures w' = max_observed_futures w)"

lemma record_failure_ok:
  assumes "wf_db d"
  shows "wf_db (snd (record_failure digest job_id item_id e now (w, d)))"
    and "same_config w (fst (record_failure digest job_id item_id e now (w, d)))"
proof -
  show "wf_db (snd (record_failure digest job_id item_id e now (w, d)))"
    using assms
    by (simp add: record_failure_def Let_def split_beta wf_defer_item wf_request_pause wf_do_transition wf_fail_item)
  show "same_config w (fst (record_failure digest job_id item_id e now (w, d)))"
    by (simp add: record_failure_def Let_def split_beta same_config_def count_failure_def report_error_def)
qed

definition same_frame :: "run \<Rightarrow> run \<Rightarrow> bool" where
  "same_frame s s' = (futures s' = futures s \<and> same_config (r_worker s) (r_worker s'))"

lemma same_frame_trans: "same_frame s t \<Longrightarrow> same_frame t u \<Longrightarrow> same_frame s u"
  by (simp add: same_frame_def same_config_def)

lemma consume_ok:
  assumes "wf_db (r_db s)"
  shows "wf_db (r_db (consume digest job_id now entry s)) \<and> same_frame s (consume digest job_id now entry s)"
proof (cases entry)
  case (fields fut item_id res)
  then show ?thesis
    using assms record_failure_ok [OF assms]
    by (cases res) (auto simp: consume_def Let_def with_worker_db_def same_frame_def same_config_def
        wf_record_late_completion wf_complete_item)
qed

lemma fold_ok:
  assumes "\<And>x s. wf_db (r_db s) \<Longrightarrow> wf_db (r_db (f x s)) \<and> same_frame s (f x s)" "wf_db (r_db s)"
  shows "wf_db (r_db (fold f xs s)) \<and> same_frame s (fold f xs s)"
  using assms(2)
proof (induction xs arbitrary: s)
  case (Cons x xs)
  then have step: "wf_db (r_db (f x s))" "same_frame s (f x s)" using assms(1) by auto
  then show ?case using Cons.IH [OF step(1)] same_frame_trans [OF step(2)] by auto
qed (simp add: same_frame_def same_config_def)

lemma drain_one_ok:
  assumes "wf_db (r_db s)"
  shows "wf_db (r_db (drain_one digest job_id now fate entry s)) \<and> same_frame s (drain_one digest job_id now fate entry s)"
  using consume_ok [OF assms] by (auto simp: drain_one_def split: prod.split drain_fate.split)

section \<open>The loop as a transition system\<close>

definition worker_ok :: "int \<Rightarrow> worker \<Rightarrow> bool" where
  "worker_ok c w = (concurrency w = c \<and> 1 \<le> c \<and> c \<le> queue_size w \<and> int (max_observed_futures w) \<le> c)"

definition run_ok :: "int \<Rightarrow> run \<Rightarrow> bool" where
  "run_ok c s = (wf_db (r_db s) \<and> worker_ok c (r_worker s) \<and> int (length (futures s)) \<le> c)"

definition run_init :: "int \<Rightarrow> run \<Rightarrow> bool" where
  "run_init c s = (\<exists>w d. s = start_run w d \<and> worker_ok c w \<and> wf_db d)"

inductive run_step :: "run \<Rightarrow> run \<Rightarrow> bool" where
  iterate: "frame_finalizer fin \<Longrightarrow> loop_body digest fin job_id t s = Continue s' \<Longrightarrow> run_step s s'"
| leave: "frame_finalizer fin \<Longrightarrow> loop_body digest fin job_id t s = Break s' \<Longrightarrow> run_step s s'"
| finish: "frame_finalizer fin \<Longrightarrow> run_step s (finish_run digest fin job_id now done_now fate s)"

lemma wf_finalize: "frame_finalizer fin \<Longrightarrow> wf_db d \<Longrightarrow> wf_db (snd (finalize_if_done h fin job_id now d))"
  by (rule wf_repo_step [OF repo_step.finalize])

lemma run_ok_frame:
  assumes "run_ok c s" "same_frame s t" "wf_db (r_db t)"
  shows "run_ok c t"
  using assms by (simp add: run_ok_def same_frame_def same_config_def worker_ok_def)

lemma length_still_running: "length (still_running ds fs) \<le> length fs"
  by (simp add: still_running_def)

lemma consumed_ok:
  assumes "run_ok c s"
  shows "run_ok c ((fold (consume digest job_id now) xs s)\<lparr>futures := still_running ds (futures s)\<rparr>)"
proof -
  have "wf_db (r_db (fold (consume digest job_id now) xs s)) \<and> same_frame s (fold (consume digest job_id now) xs s)"
    using assms by (intro fold_ok consume_ok) (auto simp: run_ok_def)
  then show ?thesis using assms length_still_running [of ds "futures s"]
    by (simp add: run_ok_def same_frame_def same_config_def worker_ok_def)
qed

lemma run_ok_db: "run_ok c s \<Longrightarrow> wf_db d \<Longrightarrow> run_ok c (s\<lparr>r_db := d\<rparr>)"
  by (simp add: run_ok_def)

lemma await_ok:
  assumes "run_ok c s" "frame_finalizer fin" "await digest fin job_id t s = r"
  shows "(\<forall>s'. r = Continue s' \<longrightarrow> run_ok c s') \<and> (\<forall>s'. r = Break s' \<longrightarrow> run_ok c s')"
proof (cases "futures s = []")
  case True
  then have "r = Break (s\<lparr>r_db := snd (finalize_if_done digest fin job_id (t_now t) (r_db s))\<rparr>)"
    using assms(3) by (simp add: await_def)
  moreover have "run_ok c (s\<lparr>r_db := snd (finalize_if_done digest fin job_id (t_now t) (r_db s))\<rparr>)"
    using assms(1,2) by (intro run_ok_db wf_finalize) (auto simp: run_ok_def)
  ultimately show ?thesis by simp
next
  case False
  let ?me = "w_id (r_worker s)" and ?ds = "filter (\<lambda>(f, res). f \<in> fst ` set (futures s)) (t_done t)"
  have wf: "wf_db (r_db s)" using assms(1) by (simp add: run_ok_def)
  have renewed: "run_ok c (s\<lparr>r_db := snd (renew_leases job_id ?me 300 (t_now t) (r_db s))\<rparr>)"
    using assms(1) wf by (intro run_ok_db wf_renew_leases)
  let ?s2 = "(fold (consume digest job_id (t_now t)) (done_entries ?ds (futures s)) s)\<lparr>futures := still_running ?ds (futures s)\<rparr>"
  have s2: "run_ok c ?s2" using assms(1) by (rule consumed_ok)
  then have s3: "run_ok c (?s2\<lparr>r_db := snd (renew_leases job_id ?me 300 (t_now t) (r_db ?s2))\<rparr>)"
    by (intro run_ok_db wf_renew_leases) (auto simp: run_ok_def)
  have timed: "run_ok c (x\<lparr>timed_out := l, timeout_triggered := True, r_worker := (r_worker x)\<lparr>stopped := True\<rparr>\<rparr>)" if "run_ok c x" for x l
    using that by (simp add: run_ok_def worker_ok_def)
  have forced: "run_ok c (s\<lparr>forced_shutdown := True\<rparr>)" using assms(1) by (simp add: run_ok_def)
  show ?thesis using assms(3) False forced renewed s2 s3 timed [OF renewed] unfolding await_def Let_def
    by (auto split: if_splits)
qed

lemma dispatch_ok:
  assumes "run_ok c s" "int (length (futures s)) < dispatch_capacity (r_worker s)"
    and "Job_Repository.claim job_id wid (dispatch_capacity (r_worker s) - int (length (futures s))) 300 now (r_db s) = Inr (rows, d')"
  shows "run_ok c (dispatch rows (s\<lparr>r_db := d'\<rparr>))"
proof -
  have wf: "wf_db (r_db s)" using assms(1) by (simp add: run_ok_def)
  have "length rows \<le> nat (dispatch_capacity (r_worker s) - int (length (futures s)))"
    using claim_spec(2) [OF wf assms(3)] assms(2) by simp
  then have "int (length (futures s) + length rows) \<le> concurrency (r_worker s)"
    using assms(2) unfolding dispatch_capacity_def by linarith
  moreover have "wf_db d'" using wf_claim [OF wf assms(3)] .
  ultimately show ?thesis using assms(1) by (simp add: run_ok_def worker_ok_def dispatch_def Let_def max_def)
qed

lemma loop_body_ok:
  assumes "run_ok c s0" "frame_finalizer fin"
    and "loop_body digest fin job_id t s0 = Continue s' \<or> loop_body digest fin job_id t s0 = Break s'"
  shows "run_ok c s'"
proof -
  define s where "s = (if t_stop t then s0\<lparr>r_worker := (r_worker s0)\<lparr>stopped := True\<rparr>\<rparr> else s0)"
  have s: "run_ok c s" using assms(1) by (simp add: s_def run_ok_def worker_ok_def)
  then have wf: "wf_db (r_db s)" by (simp add: run_ok_def)
  have pausing: "run_ok c (s\<lparr>r_db := snd (acknowledge_pause job_id (t_now t) (r_db s))\<rparr>)"
    using s wf by (intro run_ok_db wf_acknowledge_pause)
  have budget: "run_ok c (s\<lparr>r_db := do_transition job_id [Running, Retrying] BudgetExceeded ''budget_exceeded'' (t_now t) (r_db s)\<rparr>)"
    using s wf by (intro run_ok_db wf_do_transition)
  have forced: "run_ok c (s\<lparr>forced_shutdown := b\<rparr>)" for b using s by (simp add: run_ok_def)
  have waits: "await digest fin job_id t y = Continue x \<Longrightarrow> run_ok c y \<Longrightarrow> run_ok c x"
    "await digest fin job_id t y = Break x \<Longrightarrow> run_ok c y \<Longrightarrow> run_ok c x" for x y
    using await_ok [OF _ assms(2) refl, of c y digest job_id t] by blast+
  have claims: "run_ok c (dispatch rows (s\<lparr>r_db := d'\<rparr>))"
    if "int (length (futures s)) < dispatch_capacity (r_worker s)"
      "Job_Repository.claim job_id (w_id (r_worker s)) (dispatch_capacity (r_worker s) - int (length (futures s))) 300 (t_now t) (r_db s) = Inr (rows, d')" for rows d'
    using dispatch_ok [OF s that] .
  show ?thesis
    using assms(3) s pausing budget forced claims unfolding loop_body_def s_def [symmetric] Let_def
    by (auto dest: waits split: if_splits option.splits sum.splits)
qed

lemma finish_run_ok:
  assumes "run_ok c s" "frame_finalizer fin" shows "run_ok c (finish_run digest fin job_id now done_now fate s)"
proof -
  define ds where "ds = filter (\<lambda>(f, res). f \<in> fst ` set (futures s)) done_now"
  define s1 where "s1 = (fold (consume digest job_id now) (done_entries ds (futures s)) s)\<lparr>futures := still_running ds (futures s)\<rparr>"
  have s1: "run_ok c s1" using assms(1) unfolding s1_def by (rule consumed_ok)
  define s2 where "s2 = (if futures s1 = [] then s1
    else (fold (drain_one digest job_id now fate) (futures s1) s1)\<lparr>futures := [], forced_shutdown := True\<rparr>)"
  have "wf_db (r_db (fold (drain_one digest job_id now fate) (futures s1) s1)) \<and>
      same_frame s1 (fold (drain_one digest job_id now fate) (futures s1) s1)"
    using s1 by (intro fold_ok drain_one_ok) (auto simp: run_ok_def)
  then have s2: "run_ok c s2" using s1 by (simp add: s2_def run_ok_def same_frame_def same_config_def worker_ok_def)
  define d1 where "d1 = (case find_job job_id (r_db s2) of
      Some j \<Rightarrow> if j_status j = Pausing then snd (acknowledge_pause job_id now (r_db s2)) else r_db s2
    | None \<Rightarrow> r_db s2)"
  have "wf_db d1" using s2 by (auto simp: d1_def run_ok_def wf_acknowledge_pause split: option.split)
  then have "run_ok c (s2\<lparr>r_db := snd (finalize_if_done digest fin job_id now d1)\<rparr>)"
    using s2 assms(2) by (intro run_ok_db wf_finalize)
  then show ?thesis
    unfolding finish_run_def Let_def ds_def [symmetric] s1_def [symmetric] s2_def [symmetric] d1_def [symmetric] .
qed

lemma run_ok_step: "run_step s s' \<Longrightarrow> run_ok c s \<Longrightarrow> run_ok c s'"
  by (induction rule: run_step.induct) (auto intro: loop_body_ok finish_run_ok)

interpretation worker_loop: invariant_system "run_init c" run_step "run_ok c" for c :: int
proof
  show "run_ok c s" if "run_init c s" for s using that by (auto simp: run_init_def start_run_def run_ok_def worker_ok_def)
  show "run_ok c t" if "run_ok c s" "run_step s t" for s t using that run_ok_step by blast
qed

lemma new_worker_ok: "worker_ok (if hard \<and> timeout > 0 then min (max 1 conc) MAX_CHILD_PROCESSES else max 1 conc) (new_worker wid conc mult att retry progress timeout hard)"
proof -
  let ?c = "if hard \<and> timeout > 0 then min (max 1 conc) MAX_CHILD_PROCESSES else max 1 conc"
  have c: "1 \<le> ?c" by (auto simp: MAX_CHILD_PROCESSES_def)
  then have "?c * 1 \<le> ?c * max 1 mult" by (intro mult_left_mono) auto
  then show ?thesis using c by (simp add: worker_ok_def new_worker_def Let_def)
qed



section \<open>Lemmas on waiting for a provider\<close>

lemma wait_seconds_bounds: "1 \<le> wait_seconds h \<and> wait_seconds h \<le> 86400"
  by (auto simp: wait_seconds_def split: retry_hint.split)

lemma round_half_even_mono: "of_int a \<le> q \<Longrightarrow> q \<le> of_int b \<Longrightarrow> a \<le> round_half_even q \<and> round_half_even q \<le> b"
proof -
  assume a: "of_int a \<le> q" and b: "q \<le> of_int b"
  have "a \<le> \<lfloor>q\<rfloor>" using a by (simp add: le_floor_iff)
  moreover have "\<lfloor>q\<rfloor> + 1 \<le> b" if "0 < q - of_int \<lfloor>q\<rfloor>" using that b by linarith
  moreover have "\<lfloor>q\<rfloor> \<le> b" using b by linarith
  ultimately show ?thesis by (auto simp: round_half_even_def Let_def)
qed

lemma wait_micros: "seconds 1 \<le> timedelta_seconds (wait_seconds h) \<and> timedelta_seconds (wait_seconds h) \<le> seconds 86400"
  unfolding timedelta_seconds_def seconds_def using wait_seconds_bounds [of h]
  by (intro round_half_even_mono) auto

lemma defer_pending_spec:
  assumes "wf_db d" "i \<in> set (job_items d)" "i_id i = item_id" "i_status i = IRunning" "owned_by w i"
    and "defer_item item_id w after True code now d = (ok, d')"
  shows "ok" "jobs d' = jobs d"
    and "\<exists>x \<in> set (job_items d'). i_id x = item_id \<and> i_status x = IPending \<and> worker_id x = None \<and>
       attempts x = attempts i - 1 \<and> available_at x = now + after"
    and "\<And>y. y \<in> set (job_items d') \<Longrightarrow> i_job_id y = i_job_id i \<Longrightarrow> i_status y = IPending \<Longrightarrow> now + after \<le> available_at y"
proof -
  let ?p = "\<lambda>i. i_id i = item_id \<and> i_status i = IRunning \<and> owned_by w i"
  let ?f = "\<lambda>i. i\<lparr>i_status := IPending, worker_id := None, lease_until := None, available_at := now + after,
     attempts := attempts i - 1, error_code := coalesce code (error_code i)\<rparr>"
  let ?g = "\<lambda>i. i\<lparr>available_at := max (available_at i) (now + after), error_code := coalesce code (error_code i)\<rparr>"
  let ?d1 = "upd_items ?p ?f d"
  have hit: "row_count ?p (job_items d) \<noteq> 0" using assms(2-5) by (auto simp: row_count_zero_iff)
  have fi: "?f i \<in> set (job_items ?d1)" using upd_items_mem [OF assms(2), of ?p ?f] assms(3-5) by simp
  have ids: "distinct (map i_id (job_items ?d1))"
    using wf_ids [OF assms(1)] by (simp add: map_update_where)
  have own: "first_row (\<lambda>i. i_id i = item_id) (job_items ?d1) = Some (?f i)"
    using first_row_key [OF ids fi, of item_id] assms(3) by simp
  let ?q = "\<lambda>y. i_job_id y = i_job_id i \<and> i_status y = IPending"
  have d': "ok" "d' = upd_items ?q ?g ?d1"
    using assms(6) hit own by (auto simp: defer_item_def Let_def)
  show ok by (fact d'(1))
  show "jobs d' = jobs d" by (simp add: d'(2))
  have "?g (?f i) \<in> set (job_items d')" unfolding d'(2) using upd_items_mem [OF fi, of ?q ?g] by simp
  then show "\<exists>x \<in> set (job_items d'). i_id x = item_id \<and> i_status x = IPending \<and> worker_id x = None \<and>
       attempts x = attempts i - 1 \<and> available_at x = now + after"
    using assms(3) by (intro bexI [of _ "?g (?f i)"]) auto
  show "now + after \<le> available_at y" if y: "y \<in> set (job_items d')" "i_job_id y = i_job_id i" "i_status y = IPending" for y
  proof -
    obtain z where z: "z \<in> set (job_items ?d1)" "y = (if ?q z then ?g z else z)"
      using y(1) unfolding d'(2) jobs_frames set_update_where by blast
    then show ?thesis using y(2,3) by (auto split: if_splits)
  qed
qed

lemma failed_items_do_transition: "map failed_items (jobs (do_transition job_id from to_status ev now d)) = map failed_items (jobs d)"
  by (auto simp: do_transition_def transition_def store_jobs_def Let_def map_update_where split: sum.splits if_splits)

section \<open>Properties\<close>

text \<open>The worker is bounded: however many items a job has and whatever the threads, the clock and the other
  clients of the queue do, a worker created with a concurrency never has more futures in flight, and never
  observed more, than the effective concurrency (at least one, at most four with the hard timeout), and
  every state it leaves in the database is well formed.\<close>

theorem worker_futures_bounded:
  assumes "wf_db d" "run_step\<^sup>*\<^sup>* (start_run (new_worker wid conc mult att retry progress timeout hard) d) s"
  shows "int (length (futures s)) \<le> max 1 conc \<and> int (max_observed_futures (r_worker s)) \<le> max 1 conc \<and>
    (hard \<and> timeout > 0 \<longrightarrow> int (length (futures s)) \<le> 4) \<and> wf_db (r_db s)"
proof -
  let ?c = "if hard \<and> timeout > 0 then min (max 1 conc) MAX_CHILD_PROCESSES else max 1 conc"
  have "run_init ?c (start_run (new_worker wid conc mult att retry progress timeout hard) d)"
    unfolding run_init_def using new_worker_ok assms(1) by blast
  then have "run_ok ?c s" using worker_loop.reachable_inv [OF _ assms(2)] by blast
  then show ?thesis by (auto simp: run_ok_def worker_ok_def MAX_CHILD_PROCESSES_def split: if_splits)
qed

theorem worker_futures_bounded_witness:
  "map snd (futures demo_run) = [''i1''] \<and> int (length (futures demo_run)) \<le> 1 \<and> wf_db (r_db demo_run)"
proof -
  have f: "map snd (futures demo_run) = [''i1'']" by code_simp
  have "(case loop_body id None ''j1'' demo_tick (start_run demo_worker demo_started) of Continue s \<Rightarrow> True | _ \<Rightarrow> False)"
    by code_simp
  then have "loop_body id None ''j1'' demo_tick (start_run demo_worker demo_started) = Continue demo_run"
    unfolding demo_run_def by (cases "loop_body id None ''j1'' demo_tick (start_run demo_worker demo_started)") auto
  then have "run_step (start_run demo_worker demo_started) demo_run"
    by (rule run_step.iterate [rotated]) (simp add: frame_finalizer_def)
  then have "run_step\<^sup>*\<^sup>* (start_run (new_worker ''w1'' 1 2 3 None 50 0 False) demo_started) demo_run"
    unfolding demo_worker_def by blast
  from worker_futures_bounded [OF demo_wf(3) this] show ?thesis using f by simp
qed

text \<open>A provider that is temporarily unavailable costs nothing: when the request was definitely not sent, the
  item goes back to the queue with the attempt of this claim taken back, the worker counts no failure and no
  job counts one, and neither this item nor any other pending item of the job can be claimed before the
  wait is over, which lasts at least one second and at most a day.\<close>

theorem provider_wait_costs_nothing:
  assumes "wf_db d" "i \<in> set (job_items d)" "running_item job_id item_id (Some (w_id w)) i"
    and "failure_code (f_raised e) \<in> set PROVIDER_WAIT_CODES" "request_definitely_not_sent e"
    and "record_failure digest job_id item_id e now (w, d) = (w', d')"
  shows "w' = w \<and> map failed_items (jobs d') = map failed_items (jobs d) \<and>
    (\<exists>x \<in> set (job_items d'). i_id x = item_id \<and> i_status x = IPending \<and> worker_id x = None \<and>
       attempts x = attempts i - 1 \<and> available_at x \<le> now + seconds 86400) \<and>
    (\<forall>y \<in> set (job_items d'). i_job_id y = job_id \<longrightarrow> i_status y = IPending \<longrightarrow> now + seconds 1 \<le> available_at y)"
proof -
  let ?code = "failure_code (f_raised e)" and ?after = "timedelta_seconds (wait_seconds (f_retry_after e))"
  have credit: "?code \<noteq> ''API_CREDIT_EXHAUSTED''" using assms(4) by (auto simp: PROVIDER_WAIT_CODES_def)
  obtain ok d1 where df: "defer_item item_id (Some (w_id w)) ?after True (Some ?code) now d = (ok, d1)" by fastforce
  have run: "i_id i = item_id" "i_status i = IRunning" "owned_by (Some (w_id w)) i" "i_job_id i = job_id"
    using assms(3) by (auto simp: running_item_def)
  note spec = defer_pending_spec [OF assms(1,2) run(1-3) df]
  have res: "w' = w" "d' = add_event job_id ''provider_wait'' now (do_transition job_id [Running] Retrying ''provider_wait'' now d1)"
    using assms(4-6) credit df spec(1) by (auto simp: record_failure_def Let_def)
  have items: "job_items (do_transition job_id [Running] Retrying ''provider_wait'' now d1) = job_items d1"
    by (auto simp: do_transition_def transition_def store_jobs_def Let_def split: sum.splits if_splits)
  have "map failed_items (jobs d') = map failed_items (jobs d)"
    by (simp add: res(2) failed_items_do_transition spec(2))
  moreover have "job_items d' = job_items d1" by (simp add: res(2) items)
  moreover have "now + seconds 1 \<le> available_at y" if "y \<in> set (job_items d1)" "i_job_id y = job_id" "i_status y = IPending" for y
    using spec(4) [OF that(1) _ that(3)] that(2) run(4) wait_micros [of "f_retry_after e"] by simp
  moreover have "\<exists>x \<in> set (job_items d1). i_id x = item_id \<and> i_status x = IPending \<and> worker_id x = None \<and>
       attempts x = attempts i - 1 \<and> available_at x \<le> now + seconds 86400"
    using spec(3) wait_micros [of "f_retry_after e"] by auto
  ultimately show ?thesis using res(1) by auto
qed

theorem provider_wait_costs_nothing_witness:
  "fst (record_failure id ''j1'' ''i1'' demo_unavailable 20 (demo_worker, demo_claimed)) = demo_worker \<and>
   map failed_items (jobs (snd (record_failure id ''j1'' ''i1'' demo_unavailable 20 (demo_worker, demo_claimed)))) = [0]"
proof -
  have m: "hd demo_rows \<in> set (job_items demo_claimed)" "running_item ''j1'' ''i1'' (Some (w_id demo_worker)) (hd demo_rows)"
    "failure_code (f_raised demo_unavailable) \<in> set PROVIDER_WAIT_CODES" "request_definitely_not_sent demo_unavailable"
    "map failed_items (jobs demo_claimed) = [0]"
    by code_simp+
  from provider_wait_costs_nothing [OF demo_wf(4) m(1-4) prod.collapse [symmetric], of id 20] m(5) show ?thesis by simp
qed

end
