(* ===== verification/Panel_Codec.thy ===== *)
theory Panel_Codec
  imports Prelude "HOL-Library.Word"
begin

text \<open>
  The panel's pixel formats: the display profiles and the packing loop of \<^verbatim>\<open>encode_image\<close>
  (\<^verbatim>\<open>inktime/app/domain/rendering/palette.py\<close>), and the readers of packed frames
  (\<^verbatim>\<open>inktime/app/domain/photopainter/stock_protocol.py\<close>). Bytes are 8-bit words. A locale states
  what packing relies on, that the bits of one pixel do not touch those of another; both formats
  interpret it.
\<close>

unbundle bit_operations_syntax

type_synonym byte = "8 word"

section \<open>Display profiles\<close>

text \<open>The fields that only describe a panel (label, palette version, refresh abilities) are left out.\<close>

record palette_color =
  code :: nat
  color_name :: string
  rgb :: "nat \<times> nat \<times> nat"

record display_profile =
  profile_key :: string
  display_type :: string
  pixel_format :: string
  colors :: "palette_color list"

datatype panel_error =
    UnknownProfile | PixelOutOfRange | UnsupportedFormat | FrameSizeMismatch | UnknownColorCode
  | ColorIndexError | ByteOverflow | CoordinateOutOfRange | RgbLengthMismatch | BadMode | StructError
  | AssertionFailed

definition color :: "nat \<Rightarrow> string \<Rightarrow> nat \<times> nat \<times> nat \<Rightarrow> palette_color" where
  "color c n q = \<lparr>code = c, color_name = n, rgb = q\<rparr>"

definition DISPLAY_PROFILES :: "(string \<times> display_profile) list" where
  "DISPLAY_PROFILES =
     [(''safe_4c'', \<lparr>profile_key = ''safe_4c'', display_type = ''7.3-inch-four-color'', pixel_format = ''2bpp'',
         colors = [color 0 ''black'' (0, 0, 0), color 1 ''white'' (255, 255, 255), color 2 ''red'' (220, 30, 30),
                   color 3 ''yellow'' (245, 190, 25)]\<rparr>),
      (''gdep073e01_6c'', \<lparr>profile_key = ''gdep073e01_6c'', display_type = ''GoodDisplay-GDEP073E01-Spectra6'',
         pixel_format = ''indexed4'',
         colors = [color 0 ''black'' (0, 0, 0), color 1 ''white'' (255, 255, 255), color 2 ''green'' (25, 155, 70),
                   color 3 ''blue'' (30, 85, 170), color 4 ''red'' (210, 35, 35), color 5 ''yellow'' (240, 195, 25)]\<rparr>),
      (''gdey073d46_7c'', \<lparr>profile_key = ''gdey073d46_7c'', display_type = ''GoodDisplay-GDEY073D46-ACeP7'',
         pixel_format = ''indexed4'',
         colors = [color 0 ''black'' (0, 0, 0), color 1 ''white'' (255, 255, 255), color 2 ''green'' (25, 155, 70),
                   color 3 ''blue'' (30, 85, 170), color 4 ''red'' (210, 35, 35), color 5 ''yellow'' (240, 195, 25),
                   color 6 ''orange'' (240, 110, 20)]\<rparr>)]"

definition get_display_profile :: "string \<Rightarrow> panel_error + display_profile" where
  "get_display_profile key = (case map_of DISPLAY_PROFILES key of None \<Rightarrow> Inl UnknownProfile | Some p \<Rightarrow> Inr p)"

definition bytes_per_image :: "display_profile \<Rightarrow> nat" where
  "bytes_per_image p = (let pixels = 480 * 800 in if pixel_format p = ''2bpp'' then pixels div 4 else pixels div 2)"

section \<open>Packing\<close>

text \<open>The pixels of one byte, highest bits first: four of two bits, or two of four.\<close>

definition per_byte :: "string \<Rightarrow> nat" where
  "per_byte fmt = (if fmt = ''2bpp'' then 4 else 2)"

definition pixel_shift :: "string \<Rightarrow> nat \<Rightarrow> nat" where
  "pixel_shift fmt slot = (if fmt = ''2bpp'' then 6 - slot * 2 else if slot = 0 then 4 else 0)"

definition pixel_mask :: "string \<Rightarrow> nat" where
  "pixel_mask fmt = (if fmt = ''2bpp'' then 3 else 15)"

text \<open>\<^verbatim>\<open>payload[i] |= code << shift\<close>; a value above 255 does not fit a \<^verbatim>\<open>bytearray\<close>.\<close>

definition pack_pixel :: "string \<Rightarrow> nat \<times> nat \<Rightarrow> panel_error + byte list \<Rightarrow> panel_error + byte list" where
  "pack_pixel fmt entry acc =
     (case acc of
        Inl e \<Rightarrow> Inl e
      | Inr payload \<Rightarrow>
         (let (index, c) = entry; i = index div per_byte fmt; v = push_bit (pixel_shift fmt (index mod per_byte fmt)) c in
          if v > 255 then Inl ByteOverflow else Inr (payload[i := payload ! i OR word_of_nat v])))"

definition pack_codes :: "string \<Rightarrow> nat list \<Rightarrow> panel_error + byte list" where
  "pack_codes fmt codes =
     fold (pack_pixel fmt) (enumerate 0 codes)
       (Inr (replicate ((length codes + (per_byte fmt - 1)) div per_byte fmt) 0))"

text \<open>The end of \<^verbatim>\<open>encode_image\<close>: palette indexes to packed color codes.\<close>

definition encode_payload :: "display_profile \<Rightarrow> nat list \<Rightarrow> panel_error + byte list" where
  "encode_payload p indexes =
     (if list_all (\<lambda>i. i < length (colors p)) indexes
      then pack_codes (pixel_format p) (map (\<lambda>i. code (colors p ! i)) indexes)
      else Inl ColorIndexError)"

section \<open>Reading\<close>

definition read_indexed4 :: "byte list \<Rightarrow> int \<Rightarrow> panel_error + byte" where
  "read_indexed4 payload pixel =
     (if pixel < 0 \<or> pixel div 2 \<ge> int (length payload) then Inl PixelOutOfRange
      else
        let packed = payload ! nat (pixel div 2)
        in Inr (if pixel mod 2 = 0 then drop_bit 4 packed else packed AND 15))"

definition read_2bpp :: "byte list \<Rightarrow> int \<Rightarrow> panel_error + byte" where
  "read_2bpp payload pixel =
     (if pixel < 0 \<or> pixel div 4 \<ge> int (length payload) then Inl PixelOutOfRange
      else
        let packed = payload ! nat (pixel div 4)
        in Inr (drop_bit (nat (6 - (pixel mod 4) * 2)) packed AND 3))"

definition read_slot :: "string \<Rightarrow> byte \<Rightarrow> nat \<Rightarrow> byte" where
  "read_slot fmt b slot = drop_bit (pixel_shift fmt slot) b AND word_of_nat (pixel_mask fmt)"

definition unpack_indices :: "byte list \<Rightarrow> nat \<Rightarrow> nat \<Rightarrow> string \<Rightarrow> panel_error + byte list" where
  "unpack_indices payload width height fmt =
     (let pixels = width * height; expected = pixels div (if fmt = ''2bpp'' then 4 else 2) in
      if length payload \<noteq> expected then Inl FrameSizeMismatch
      else if fmt = ''2bpp'' \<or> fmt = ''indexed4''
      then Inr (map (\<lambda>i. read_slot fmt (payload ! (i div per_byte fmt)) (i mod per_byte fmt)) [0..<pixels])
      else Inl UnsupportedFormat)"

section \<open>What packing relies on\<close>

text \<open>A codec cuts a byte into \<open>n\<close> fields: \<open>put\<close> adds a code to a field, \<open>get\<close> reads one. Adding a code to
  a field that reads 0 makes it read the code and leaves the other fields alone.\<close>

locale field_codec =
  fixes n :: nat
    and valid :: "nat \<Rightarrow> bool"
    and put :: "nat \<Rightarrow> nat \<Rightarrow> byte \<Rightarrow> byte"
    and get :: "byte \<Rightarrow> nat \<Rightarrow> byte"
  assumes n_pos: "0 < n"
    and get_zero: "s < n \<Longrightarrow> get 0 s = 0"
    and get_put: "s < n \<Longrightarrow> valid c \<Longrightarrow> get b s = 0 \<Longrightarrow> get (put s c b) s = word_of_nat c"
    and get_put_other: "s < n \<Longrightarrow> t < n \<Longrightarrow> t \<noteq> s \<Longrightarrow> valid c \<Longrightarrow> get (put s c b) t = get b t"
begin

definition put_at :: "nat \<times> nat \<Rightarrow> byte list \<Rightarrow> byte list" where
  "put_at entry bs = (let (i, c) = entry in bs[i div n := put (i mod n) c (bs ! (i div n))])"

definition get_at :: "byte list \<Rightarrow> nat \<Rightarrow> byte" where
  "get_at bs i = get (bs ! (i div n)) (i mod n)"

lemma length_put_at [simp]: "length (put_at e bs) = length bs"
  by (simp add: put_at_def split: prod.split)

lemma get_put_at:
  assumes "i div n < length bs" "valid c" "get_at bs i = 0"
  shows "get_at (put_at (i, c) bs) i = word_of_nat c"
  using assms n_pos by (simp add: get_at_def put_at_def get_put)

lemma get_put_at_other:
  assumes "valid c" "k \<noteq> i" "i div n < length bs"
  shows "get_at (put_at (i, c) bs) k = get_at bs k"
proof (cases "k div n = i div n")
  case True
  then have "k mod n \<noteq> i mod n" using assms(2) by (metis div_mult_mod_eq)
  then show ?thesis using True assms n_pos by (simp add: get_at_def put_at_def get_put_other)
next
  case False
  then show ?thesis using n_pos by (simp add: get_at_def put_at_def)
qed

text \<open>Packing a list from position \<open>a\<close> on: the fields read the codes, and nothing else changed.\<close>

lemma fold_put_at:
  assumes "\<And>i. i < length cs \<Longrightarrow> (a + i) div n < length bs" "list_all valid cs" "\<And>i. a \<le> i \<Longrightarrow> i < a + length cs \<Longrightarrow> get_at bs i = 0"
  shows "length (fold put_at (enumerate a cs) bs) = length bs \<and>
    (\<forall>i. get_at (fold put_at (enumerate a cs) bs) i =
       (if a \<le> i \<and> i < a + length cs then word_of_nat (cs ! (i - a)) else get_at bs i))"
  using assms
proof (induction cs arbitrary: a bs)
  case (Cons c cs)
  let ?b = "put_at (a, c) bs"
  have a: "a div n < length bs" using Cons.prems(1) [of 0] by simp
  have c: "valid c" "list_all valid cs" using Cons.prems(2) by auto
  have here: "get_at ?b a = word_of_nat c" using get_put_at [OF a c(1)] Cons.prems(3) [of a] by simp
  have other: "get_at ?b i = get_at bs i" if "i \<noteq> a" for i using get_put_at_other [OF c(1) that a] .
  have IH: "length (fold put_at (enumerate (Suc a) cs) ?b) = length ?b \<and>
    (\<forall>i. get_at (fold put_at (enumerate (Suc a) cs) ?b) i =
       (if Suc a \<le> i \<and> i < Suc a + length cs then word_of_nat (cs ! (i - Suc a)) else get_at ?b i))"
  proof (rule Cons.IH)
    show "(Suc a + i) div n < length ?b" if "i < length cs" for i using Cons.prems(1) [of "Suc i"] that by simp
    show "list_all valid cs" by (fact c(2))
    show "get_at ?b i = 0" if "Suc a \<le> i" "i < Suc a + length cs" for i
      using other [of i] Cons.prems(3) [of i] that by simp
  qed
  have "get_at (fold put_at (enumerate (Suc a) cs) ?b) i =
      (if a \<le> i \<and> i < a + length (c # cs) then word_of_nat ((c # cs) ! (i - a)) else get_at bs i)" for i
  proof (cases "i = a")
    case True
    then show ?thesis using IH here by simp
  next
    case False
    then show ?thesis using IH other [of i] by (auto simp: nth_Cons')
  qed
  then show ?case using IH by simp
qed auto

lemma pack_all:
  assumes "list_all valid cs" "length cs \<le> m * n"
  shows "length (fold put_at (enumerate 0 cs) (replicate m 0)) = m \<and>
    (\<forall>i < length cs. get_at (fold put_at (enumerate 0 cs) (replicate m 0)) i = word_of_nat (cs ! i))"
proof -
  have inside: "i div n < m" if "i < length cs" for i
    using that assms(2) by (meson less_le_trans less_mult_imp_div_less)
  have "get_at (replicate m 0) i = 0" if "i < length cs" for i
    using inside [OF that] n_pos by (simp add: get_at_def get_zero)
  then show ?thesis using fold_put_at [of cs 0 "replicate m 0"] inside assms(1) by simp
qed

end

section \<open>Both formats\<close>

definition put_slot :: "string \<Rightarrow> nat \<Rightarrow> nat \<Rightarrow> byte \<Rightarrow> byte" where
  "put_slot fmt s c b = b OR word_of_nat (push_bit (pixel_shift fmt s) c)"

lemma read_slot_or: "read_slot fmt (b OR d) s = read_slot fmt b s OR read_slot fmt d s"
  by (simp add: read_slot_def drop_bit_or bit.conj_disj_distrib2)

lemma slots_2bpp: "s < 4 \<Longrightarrow> s = 0 \<or> s = 1 \<or> s = 2 \<or> s = (3::nat)"
  by auto

lemma codes_2bpp: "c \<le> 3 \<Longrightarrow> c = 0 \<or> c = 1 \<or> c = 2 \<or> c = (3::nat)"
  by auto

lemma codes_indexed4:
  "c \<le> 15 \<Longrightarrow> c = 0 \<or> c = 1 \<or> c = 2 \<or> c = 3 \<or> c = 4 \<or> c = 5 \<or> c = 6 \<or> c = 7 \<or>
     c = 8 \<or> c = 9 \<or> c = 10 \<or> c = 11 \<or> c = 12 \<or> c = 13 \<or> c = 14 \<or> c = (15::nat)"
  by presburger

lemma read_put_2bpp:
  "s < 4 \<Longrightarrow> t < 4 \<Longrightarrow> c \<le> 3 \<Longrightarrow>
   read_slot ''2bpp'' (word_of_nat (push_bit (pixel_shift ''2bpp'' s) c)) t = (if s = t then word_of_nat c else 0)"
  by (drule slots_2bpp, drule slots_2bpp, drule codes_2bpp, elim disjE)
     (simp_all add: read_slot_def pixel_shift_def pixel_mask_def push_bit_eq_mult drop_bit_eq_div)

lemma read_put_indexed4:
  "s < 2 \<Longrightarrow> t < 2 \<Longrightarrow> c \<le> 15 \<Longrightarrow>
   read_slot ''indexed4'' (word_of_nat (push_bit (pixel_shift ''indexed4'' s) c)) t = (if s = t then word_of_nat c else 0)"
  by (drule less_2_cases, drule less_2_cases, drule codes_indexed4, elim disjE)
     (simp_all add: read_slot_def pixel_shift_def pixel_mask_def push_bit_eq_mult drop_bit_eq_div)

interpretation two_bpp: field_codec 4 "\<lambda>c. c \<le> 3" "put_slot ''2bpp''" "read_slot ''2bpp''"
  by unfold_locales (simp_all add: put_slot_def read_slot_or read_put_2bpp, simp add: read_slot_def)

interpretation indexed4: field_codec 2 "\<lambda>c. c \<le> 15" "put_slot ''indexed4''" "read_slot ''indexed4''"
  by unfold_locales (simp_all add: put_slot_def read_slot_or read_put_indexed4, simp add: read_slot_def)

section \<open>Lemmas on frames\<close>

definition known_format :: "string \<Rightarrow> bool" where
  "known_format fmt = (fmt = ''2bpp'' \<or> fmt = ''indexed4'')"

lemma put_slot_fits:
  assumes "known_format fmt" "c \<le> pixel_mask fmt" "s < per_byte fmt"
  shows "push_bit (pixel_shift fmt s) c \<le> 255"
proof -
  have "c * 2 ^ pixel_shift fmt s \<le> pixel_mask fmt * 2 ^ pixel_shift fmt s" using assms(2) by simp
  also have "\<dots> \<le> 255"
    using assms(1,3) slots_2bpp [of s] less_2_cases [of s]
    by (auto simp: known_format_def pixel_mask_def pixel_shift_def per_byte_def)
  finally show ?thesis by (simp add: push_bit_eq_mult)
qed

lemma per_byte_pos: "0 < per_byte fmt"
  by (simp add: per_byte_def)

definition put_code :: "string \<Rightarrow> nat \<times> nat \<Rightarrow> byte list \<Rightarrow> byte list" where
  "put_code fmt entry bs =
     (let (i, c) = entry in bs[i div per_byte fmt := put_slot fmt (i mod per_byte fmt) c (bs ! (i div per_byte fmt))])"

lemma put_code_codec:
  "put_code ''2bpp'' = two_bpp.put_at" "put_code ''indexed4'' = indexed4.put_at"
  by (auto simp: fun_eq_iff put_code_def two_bpp.put_at_def indexed4.put_at_def per_byte_def)

lemma fold_pack_pixel:
  assumes "known_format fmt" "list_all (\<lambda>(i, c). c \<le> pixel_mask fmt) entries"
  shows "fold (pack_pixel fmt) entries (Inr bs) = Inr (fold (put_code fmt) entries bs)"
  using assms(2)
proof (induction entries arbitrary: bs)
  case (Cons e entries)
  obtain i c where e: "e = (i, c)" by (cases e)
  have "push_bit (pixel_shift fmt (i mod per_byte fmt)) c \<le> 255"
    using Cons.prems e by (intro put_slot_fits [OF assms(1)]) (auto simp: per_byte_pos)
  then have "pack_pixel fmt e (Inr bs) = Inr (put_code fmt e bs)"
    by (simp add: e pack_pixel_def put_code_def put_slot_def Let_def)
  then show ?case using Cons by simp
qed simp

lemma pack_codes_spec:
  assumes "known_format fmt" "list_all (\<lambda>c. c \<le> pixel_mask fmt) cs"
  shows "\<exists>bs. pack_codes fmt cs = Inr bs \<and> length bs = (length cs + (per_byte fmt - 1)) div per_byte fmt \<and>
    (\<forall>i < length cs. read_slot fmt (bs ! (i div per_byte fmt)) (i mod per_byte fmt) = word_of_nat (cs ! i))"
proof -
  let ?m = "(length cs + (per_byte fmt - 1)) div per_byte fmt"
  let ?bs = "fold (put_code fmt) (enumerate 0 cs) (replicate ?m 0)"
  have "list_all (\<lambda>(i, c). c \<le> pixel_mask fmt) (enumerate 0 cs)"
    using assms(2) by (auto simp: list_all_iff enumerate_eq_zip dest: set_zip_rightD)
  then have packed: "pack_codes fmt cs = Inr ?bs"
    unfolding pack_codes_def by (rule fold_pack_pixel [OF assms(1)])
  have room: "length cs \<le> ?m * per_byte fmt"
    using div_mult_mod_eq [of "length cs + (per_byte fmt - 1)" "per_byte fmt"]
      mod_less_divisor [OF per_byte_pos, of "length cs + (per_byte fmt - 1)" fmt] by linarith
  consider "fmt = ''2bpp''" | "fmt = ''indexed4''" using assms(1) by (auto simp: known_format_def)
  then have "length ?bs = ?m \<and> (\<forall>i < length cs. read_slot fmt (?bs ! (i div per_byte fmt)) (i mod per_byte fmt) = word_of_nat (cs ! i))"
  proof cases
    case 1
    then show ?thesis using two_bpp.pack_all [of cs ?m] assms(2) room
      by (simp add: put_code_codec two_bpp.get_at_def pixel_mask_def per_byte_def)
  next
    case 2
    then show ?thesis using indexed4.pack_all [of cs ?m] assms(2) room
      by (simp add: put_code_codec indexed4.get_at_def pixel_mask_def per_byte_def)
  qed
  then show ?thesis using packed by blast
qed

lemma read_indexed4_slot:
  "i div 2 < length payload \<Longrightarrow> read_indexed4 payload (int i) = Inr (read_slot ''indexed4'' (payload ! (i div 2)) (i mod 2))"
proof -
  assume i: "i div 2 < length payload"
  have "int i div 2 = int (i div 2)" "int i mod 2 = int (i mod 2)" by (simp_all add: zdiv_int zmod_int)
  moreover have "drop_bit 4 b AND 15 = drop_bit 4 b" for b :: byte
  proof -
    have "(15 :: byte) = mask 4" by (simp add: mask_eq_exp_minus_1)
    then show ?thesis
      by (simp only:) (rule bit_eqI, simp only: bit_and_iff bit_mask_iff bit_drop_bit_eq comp_def, auto dest: bit_imp_le_length)
  qed
  ultimately show ?thesis using i
    by (auto simp: read_indexed4_def read_slot_def pixel_shift_def pixel_mask_def Let_def)
qed

lemma read_2bpp_slot:
  "i div 4 < length payload \<Longrightarrow> read_2bpp payload (int i) = Inr (read_slot ''2bpp'' (payload ! (i div 4)) (i mod 4))"
proof -
  assume i: "i div 4 < length payload"
  have "int i div 4 = int (i div 4)" "int i mod 4 = int (i mod 4)" by (simp_all add: zdiv_int zmod_int)
  moreover have "nat (6 - int (i mod 4) * 2) = 6 - i mod 4 * 2" by linarith
  ultimately show ?thesis using i
    by (auto simp: read_2bpp_def read_slot_def pixel_shift_def pixel_mask_def Let_def)
qed

section \<open>Properties\<close>

text \<open>C33. Packing loses nothing: for both formats, packing a frame of color codes that fit the format
  succeeds, gives exactly the bytes a frame of this size needs, and unpacking returns the codes.\<close>

theorem pack_unpack_roundtrip:
  assumes "known_format fmt" "list_all (\<lambda>c. c \<le> pixel_mask fmt) codes"
    and "length codes = width * height" "width * height mod per_byte fmt = 0"
  shows "\<exists>payload. pack_codes fmt codes = Inr payload \<and> length payload = width * height div per_byte fmt \<and>
    unpack_indices payload width height fmt = Inr (map word_of_nat codes)"
proof -
  obtain bs where bs: "pack_codes fmt codes = Inr bs" "length bs = (length codes + (per_byte fmt - 1)) div per_byte fmt"
    "\<forall>i < length codes. read_slot fmt (bs ! (i div per_byte fmt)) (i mod per_byte fmt) = word_of_nat (codes ! i)"
    using pack_codes_spec [OF assms(1,2)] by blast
  have "(width * height + (per_byte fmt - 1)) div per_byte fmt = width * height div per_byte fmt"
    using assms(4) per_byte_pos [of fmt]
    by (metis add.commute add_cancel_right_left diff_less div_add1_eq div_less div_0 mod_0 mod_less mod_div_trivial zero_less_one add_0)
  then have len: "length bs = width * height div per_byte fmt" using bs(2) assms(3) by simp
  have "map (\<lambda>i. read_slot fmt (bs ! (i div per_byte fmt)) (i mod per_byte fmt)) [0..<width * height] = map word_of_nat codes"
    using bs(3) assms(3) by (intro nth_equalityI) auto
  then have "unpack_indices bs width height fmt = Inr (map word_of_nat codes)"
    using assms(1) len by (auto simp: unpack_indices_def known_format_def per_byte_def Let_def)
  then show ?thesis using bs(1) len by blast
qed

theorem pack_unpack_roundtrip_witness:
  "\<exists>payload. pack_codes ''2bpp'' [0, 1, 2, 3, 3, 2, 1, 0] = Inr payload \<and> length payload = 2 \<and>
    unpack_indices payload 4 2 ''2bpp'' = Inr [0, 1, 2, 3, 3, 2, 1, 0]"
  using pack_unpack_roundtrip [of "''2bpp''" "[0, 1, 2, 3, 3, 2, 1, 0]" 4 2]
  by (simp add: known_format_def pixel_mask_def per_byte_def)

end
