(* ===== verification/Stock_Protocol.thy ===== *)
theory Stock_Protocol
  imports Panel_Codec
begin

text \<open>
  The Stock \<^verbatim>\<open>/dataUP\<close> protocol (\<^verbatim>\<open>inktime/app/domain/photopainter/stock_protocol.py\<close>): a packed portrait
  frame is turned into the physical 800x480 picture, encoded as a bottom-up BMP and sent behind a mode
  byte. The conversion through a PIL image, used for other frame sizes, is not modelled.
\<close>

section \<open>Constants\<close>

definition STOCK_WIDTH :: nat where "STOCK_WIDTH = 800"
definition STOCK_HEIGHT :: nat where "STOCK_HEIGHT = 480"
definition STOCK_BMP_HEADER_BYTES :: nat where "STOCK_BMP_HEADER_BYTES = 54"
definition STOCK_PIXEL_BYTES :: nat where "STOCK_PIXEL_BYTES = STOCK_WIDTH * STOCK_HEIGHT * 3"
definition STOCK_BMP_BYTES :: nat where "STOCK_BMP_BYTES = STOCK_BMP_HEADER_BYTES + STOCK_PIXEL_BYTES"
definition STOCK_PAYLOAD_BYTES :: nat where "STOCK_PAYLOAD_BYTES = 1 + STOCK_BMP_BYTES"

lemmas stock_sizes = STOCK_WIDTH_def STOCK_HEIGHT_def STOCK_BMP_HEADER_BYTES_def STOCK_PIXEL_BYTES_def
  STOCK_BMP_BYTES_def STOCK_PAYLOAD_BYTES_def

type_synonym rgb888 = "byte \<times> byte \<times> byte"

definition INDEXED4_RGB :: "(string \<times> rgb888) list" where
  "INDEXED4_RGB = [(''black'', (0, 0, 0)), (''white'', (255, 255, 255)), (''green'', (0, 255, 0)), (''blue'', (0, 0, 255)),
     (''red'', (255, 0, 0)), (''yellow'', (255, 255, 0))]"

definition SAFE4_RGB :: "(string \<times> rgb888) list" where
  "SAFE4_RGB = [(''black'', (0, 0, 0)), (''white'', (255, 255, 255)), (''red'', (255, 0, 0)), (''yellow'', (255, 255, 0))]"

text \<open>The palettes of \<^verbatim>\<open>packed_to_rgb888\<close>, by color code.\<close>

definition stock_palette :: "string \<Rightarrow> byte \<Rightarrow> rgb888 option" where
  "stock_palette fmt c =
     (if fmt = ''indexed4''
      then Option.bind (map_of [(0, ''black''), (1, ''white''), (2, ''green''), (3, ''blue''), (4, ''red''), (5, ''yellow'')] c)
             (map_of INDEXED4_RGB)
      else Option.bind (map_of [(0, ''black''), (1, ''white''), (2, ''red''), (3, ''yellow'')] c) (map_of SAFE4_RGB))"

section \<open>Geometry\<close>

definition portrait_to_physical :: "int \<Rightarrow> int \<Rightarrow> bool \<Rightarrow> panel_error + int \<times> int" where
  "portrait_to_physical x y rotate180 =
     (if \<not> (0 \<le> x \<and> x < 480) \<or> \<not> (0 \<le> y \<and> y < 800) then Inl CoordinateOutOfRange
      else
        let (px, py) = (if rotate180 then (y, 479 - x) else (799 - y, x)) in
        if \<not> (0 \<le> px \<and> px < int STOCK_WIDTH) \<or> \<not> (0 \<le> py \<and> py < int STOCK_HEIGHT) then Inl AssertionFailed
        else Inr (px, py))"

section \<open>From packed frames to RGB\<close>

text \<open>\<^verbatim>\<open>output[offset:offset+3] = bytes((r, g, b))\<close>\<close>

definition write_rgb :: "nat \<Rightarrow> rgb888 \<Rightarrow> byte list \<Rightarrow> byte list" where
  "write_rgb offset q out = (let (r, g, b) = q in out[offset := r, offset + 1 := g, offset + 2 := b])"

definition read_pixel :: "string \<Rightarrow> byte list \<Rightarrow> int \<Rightarrow> panel_error + byte" where
  "read_pixel fmt = (if fmt = ''indexed4'' then read_indexed4 else read_2bpp)"

definition paint_pixel :: "string \<Rightarrow> bool \<Rightarrow> byte list \<Rightarrow> nat \<times> nat \<Rightarrow> panel_error + byte list \<Rightarrow> panel_error + byte list" where
  "paint_pixel fmt rotate180 payload xy acc =
     (case acc of
        Inl e \<Rightarrow> Inl e
      | Inr out \<Rightarrow>
         (let (x, y) = xy in
          case read_pixel fmt payload (int y * 480 + int x) of
            Inl e \<Rightarrow> Inl e
          | Inr c \<Rightarrow>
             (case stock_palette fmt c of
                None \<Rightarrow> Inl UnknownColorCode
              | Some q \<Rightarrow>
                 (case portrait_to_physical (int x) (int y) rotate180 of
                    Inl e \<Rightarrow> Inl e
                  | Inr (px, py) \<Rightarrow> Inr (write_rgb (nat ((py * int STOCK_WIDTH + px) * 3)) q out)))))"

text \<open>\<^verbatim>\<open>for y in range(800): for x in range(480)\<close>\<close>

definition frame_pixels :: "nat \<Rightarrow> nat \<Rightarrow> (nat \<times> nat) list" where
  "frame_pixels w h = concat (map (\<lambda>y. map (\<lambda>x. (x, y)) [0..<w]) [0..<h])"

definition packed_to_rgb888 :: "byte list \<Rightarrow> string \<Rightarrow> bool \<Rightarrow> panel_error + byte list" where
  "packed_to_rgb888 payload fmt rotate180 =
     (if \<not> known_format fmt then Inl UnsupportedFormat
      else if length payload \<noteq> (if fmt = ''indexed4'' then 192000 else 96000) then Inl FrameSizeMismatch
      else fold (paint_pixel fmt rotate180 payload) (frame_pixels 480 800) (Inr (replicate STOCK_PIXEL_BYTES 0)))"

section \<open>BMP\<close>

text \<open>\<^verbatim>\<open>struct.pack\<close> of an unsigned number in \<open>n\<close> bytes, low byte first.\<close>

fun le_bytes :: "nat \<Rightarrow> nat \<Rightarrow> byte list" where
  "le_bytes 0 v = []"
| "le_bytes (Suc n) v = word_of_nat (v mod 256) # le_bytes n (v div 256)"

definition bmp_stride :: "nat \<Rightarrow> nat" where
  "bmp_stride width = (width * 3 + 3) div 4 * 4"  \<comment> \<open>\<^verbatim>\<open>(raw_row + 3) & ~3\<close>\<close>

definition bmp_header :: "nat \<Rightarrow> nat \<Rightarrow> byte list" where
  "bmp_header width height =
     (let pixel_bytes = bmp_stride width * height in
      [66, 77] @ le_bytes 4 (STOCK_BMP_HEADER_BYTES + pixel_bytes) @ le_bytes 2 0 @ le_bytes 2 0 @
      le_bytes 4 STOCK_BMP_HEADER_BYTES @ le_bytes 4 40 @ le_bytes 4 width @ le_bytes 4 height @ le_bytes 2 1 @
      le_bytes 2 24 @ le_bytes 4 0 @ le_bytes 4 pixel_bytes @ le_bytes 4 2835 @ le_bytes 4 2835 @ le_bytes 4 0 @ le_bytes 4 0)"

text \<open>The loop writes into a zeroed buffer: blue, green and red of each pixel of a row, then it skips the
  padding up to the stride. The rows go from the last to the first. The state is the cursor
  \<^verbatim>\<open>output\<close> and the buffer \<^verbatim>\<open>body\<close>.\<close>

definition bmp_pixel :: "byte list \<Rightarrow> nat \<Rightarrow> nat \<Rightarrow> nat \<times> byte list \<Rightarrow> nat \<times> byte list" where
  "bmp_pixel rgb_bytes row x st =
     (let (output, body) = st; source = row + x * 3
      in (output + 3, write_rgb output (rgb_bytes ! (source + 2), rgb_bytes ! (source + 1), rgb_bytes ! source) body))"

definition bmp_line :: "byte list \<Rightarrow> nat \<Rightarrow> nat \<Rightarrow> nat \<times> byte list \<Rightarrow> nat \<times> byte list" where
  "bmp_line rgb_bytes width y st =
     (let (output, body) = fold (bmp_pixel rgb_bytes (y * (width * 3))) [0..<width] st
      in (output + (bmp_stride width - width * 3), body))"

definition bmp_body :: "byte list \<Rightarrow> nat \<Rightarrow> nat \<Rightarrow> byte list" where
  "bmp_body rgb_bytes width height =
     snd (fold (bmp_line rgb_bytes width) (rev [0..<height]) (0, replicate (bmp_stride width * height) 0))"

definition encode_bmp24 :: "byte list \<Rightarrow> int \<Rightarrow> int \<Rightarrow> panel_error + byte list" where
  "encode_bmp24 rgb_bytes width height =
     (if width \<le> 0 \<or> height \<le> 0 \<or> int (length rgb_bytes) \<noteq> width * height * 3 then Inl RgbLengthMismatch
      else if width \<ge> 2 ^ 31 \<or> height \<ge> 2 ^ 31 \<or> STOCK_BMP_HEADER_BYTES + bmp_stride (nat width) * nat height \<ge> 2 ^ 32 then Inl StructError
      else Inr (bmp_header (nat width) (nat height) @ bmp_body rgb_bytes (nat width) (nat height)))"

section \<open>The request body\<close>

definition stock_dataup_payload :: "byte list \<Rightarrow> string \<Rightarrow> bool \<Rightarrow> int \<Rightarrow> panel_error + byte list" where
  "stock_dataup_payload payload fmt rotate180 network_mode =
     (if network_mode \<noteq> 0 \<and> network_mode \<noteq> 1 then Inl BadMode
      else case packed_to_rgb888 payload fmt rotate180 of
        Inl e \<Rightarrow> Inl e
      | Inr out \<Rightarrow>
         (case encode_bmp24 out (int STOCK_WIDTH) (int STOCK_HEIGHT) of
            Inl e \<Rightarrow> Inl e
          | Inr bmp \<Rightarrow> Inr (word_of_int network_mode # bmp)))"

text \<open>\<^verbatim>\<open>packed_frame_to_stock_payload\<close> for the production frame of 480x800.\<close>

definition packed_frame_to_stock_payload :: "byte list \<Rightarrow> string \<Rightarrow> int \<Rightarrow> bool \<Rightarrow> panel_error + byte list" where
  "packed_frame_to_stock_payload payload key mode rotate180 =
     (case get_display_profile key of
        Inl e \<Rightarrow> Inl e
      | Inr p \<Rightarrow> stock_dataup_payload payload (pixel_format p) rotate180 mode)"

section \<open>Lemmas on painting\<close>

text \<open>The place of a portrait pixel in the physical frame.\<close>

definition physical :: "bool \<Rightarrow> nat \<times> nat \<Rightarrow> nat \<times> nat" where
  "physical rotate180 xy = (let (x, y) = xy in if rotate180 then (y, 479 - x) else (799 - y, x))"

lemma portrait_physical:
  assumes "x < 480" "y < 800"
  shows "portrait_to_physical (int x) (int y) rot = Inr (map_prod int int (physical rot (x, y)))"
    and "fst (physical rot (x, y)) < 800" "snd (physical rot (x, y)) < 480"
  using assms by (auto simp: portrait_to_physical_def physical_def stock_sizes)

definition rgb_offset :: "bool \<Rightarrow> nat \<times> nat \<Rightarrow> nat" where
  "rgb_offset rot xy = (let (px, py) = physical rot xy in (py * 800 + px) * 3)"

lemma physical_inj:
  assumes "x < 480" "y < 800" "x' < 480" "y' < 800" "physical rot (x, y) = physical rot (x', y')"
  shows "(x, y) = (x', y')"
  using assms by (cases rot) (auto simp: physical_def)

lemma rgb_offset_inj:
  assumes "x < 480" "y < 800" "x' < 480" "y' < 800" "rgb_offset rot (x, y) = rgb_offset rot (x', y')"
  shows "(x, y) = (x', y')"
proof -
  obtain px py qx qy where p: "physical rot (x, y) = (px, py)" "physical rot (x', y') = (qx, qy)" by (metis surj_pair)
  have b: "px < 800" "qx < 800" using portrait_physical(2) [OF assms(1,2), of rot] portrait_physical(2) [OF assms(3,4), of rot] p by auto
  have "py * 800 + px = qy * 800 + qx" using assms(5) p by (simp add: rgb_offset_def)
  then have "py = qy" "px = qx" using b by (auto dest: arg_cong [of _ _ "\<lambda>n. n div 800"] arg_cong [of _ _ "\<lambda>n. n mod 800"])
  then show ?thesis using physical_inj [OF assms(1-4), of rot] p by simp
qed

text \<open>The three bytes at an offset.\<close>

definition rgb_at :: "byte list \<Rightarrow> nat \<Rightarrow> rgb888" where
  "rgb_at out k = (out ! k, out ! (k + 1), out ! (k + 2))"

lemma rgb_at_write:
  "k + 2 < length out \<Longrightarrow> rgb_at (write_rgb k q out) k = q"
  by (simp add: rgb_at_def write_rgb_def nth_list_update split: prod.split)

lemma rgb_at_write_other:
  assumes "3 dvd k" "3 dvd m" "k \<noteq> m"
  shows "rgb_at (write_rgb k q out) m = rgb_at out m"
proof -
  obtain a where a: "k = 3 * a" using assms(1) by (rule dvdE)
  obtain b where b: "m = 3 * b" using assms(2) by (rule dvdE)
  have "a \<noteq> b" using a b assms(3) by blast
  then have far: "k + i \<noteq> m + j" if "i < 3" "j < 3" for i j using that unfolding a b by presburger
  from far [of 0 0] far [of 0 1] far [of 0 2] far [of 1 0] far [of 1 1] far [of 1 2] far [of 2 0] far [of 2 1] far [of 2 2]
  show ?thesis by (auto simp: rgb_at_def write_rgb_def nth_list_update split: prod.split)
qed

lemma length_write_rgb [simp]: "length (write_rgb k q out) = length out"
  by (simp add: write_rgb_def split: prod.split)

lemma rgb_offset_3: "3 dvd rgb_offset rot xy"
  by (simp add: rgb_offset_def split: prod.split)

lemma rgb_offset_bound: "x < 480 \<Longrightarrow> y < 800 \<Longrightarrow> rgb_offset rot (x, y) + 2 < STOCK_PIXEL_BYTES"
  using portrait_physical(2,3) [of x y rot]
  by (auto simp: rgb_offset_def stock_sizes split: prod.split)

text \<open>What one step of the loop does: a pixel that can be read and has a color is written at its place.\<close>

definition pixel_color :: "string \<Rightarrow> byte list \<Rightarrow> nat \<times> nat \<Rightarrow> rgb888 option" where
  "pixel_color fmt payload xy =
     (let (x, y) = xy in
      case read_pixel fmt payload (int y * 480 + int x) of Inl e \<Rightarrow> None | Inr c \<Rightarrow> stock_palette fmt c)"

lemma paint_pixel_step:
  assumes "x < 480" "y < 800" "pixel_color fmt payload (x, y) = Some q"
  shows "paint_pixel fmt rot payload (x, y) (Inr out) = Inr (write_rgb (rgb_offset rot (x, y)) q out)"
proof -
  obtain c where c: "read_pixel fmt payload (int y * 480 + int x) = Inr c" "stock_palette fmt c = Some q"
    using assms(3) by (auto simp: pixel_color_def split: sum.splits)
  obtain px py where p: "physical rot (x, y) = (px, py)" by fastforce
  have "portrait_to_physical (int x) (int y) rot = Inr (int px, int py)"
    using portrait_physical(1) [OF assms(1,2), of rot] p by simp
  then show ?thesis using c p by (simp add: paint_pixel_def rgb_offset_def STOCK_WIDTH_def nat_mult_distrib nat_add_distrib)
qed

lemma paint_pixels:
  assumes "set ps \<subseteq> {0..<480} \<times> {0..<800}" "distinct ps" "\<And>xy. xy \<in> set ps \<Longrightarrow> pixel_color fmt payload xy = Some (col xy)"
    and "length out = STOCK_PIXEL_BYTES"
  shows "\<exists>out'. fold (paint_pixel fmt rot payload) ps (Inr out) = Inr out' \<and> length out' = STOCK_PIXEL_BYTES \<and>
    (\<forall>xy \<in> set ps. rgb_at out' (rgb_offset rot xy) = col xy) \<and>
    (\<forall>x < 480. \<forall>y < 800. (x, y) \<notin> set ps \<longrightarrow> rgb_at out' (rgb_offset rot (x, y)) = rgb_at out (rgb_offset rot (x, y)))"
  using assms
proof (induction ps arbitrary: out)
  case (Cons xy ps)
  obtain x y where xy: "xy = (x, y)" by (cases xy)
  have b: "x < 480" "y < 800" using Cons.prems(1) xy by auto
  let ?k = "rgb_offset rot (x, y)"
  let ?w = "write_rgb ?k (col (x, y)) out"
  have step: "paint_pixel fmt rot payload xy (Inr out) = Inr ?w"
    using paint_pixel_step [OF b, of fmt payload "col (x, y)"] Cons.prems(3) [of xy] xy by simp
  have here: "rgb_at ?w ?k = col (x, y)" using rgb_at_write rgb_offset_bound [OF b, of rot] Cons.prems(4) by simp
  have others: "rgb_at ?w (rgb_offset rot (u, v)) = rgb_at out (rgb_offset rot (u, v))" if "u < 480" "v < 800" "(u, v) \<noteq> (x, y)" for u v
    using rgb_at_write_other [OF rgb_offset_3 rgb_offset_3] rgb_offset_inj [OF b that(1,2), of rot] that(3) by metis
  obtain out' where out': "fold (paint_pixel fmt rot payload) ps (Inr ?w) = Inr out'" "length out' = STOCK_PIXEL_BYTES"
    "\<forall>xy \<in> set ps. rgb_at out' (rgb_offset rot xy) = col xy"
    "\<forall>x < 480. \<forall>y < 800. (x, y) \<notin> set ps \<longrightarrow> rgb_at out' (rgb_offset rot (x, y)) = rgb_at ?w (rgb_offset rot (x, y))"
    using Cons.IH [of ?w] Cons.prems by fastforce
  have "rgb_at out' ?k = col (x, y)" using out'(4) b here Cons.prems(2) xy by auto
  then have "\<forall>p \<in> set (xy # ps). rgb_at out' (rgb_offset rot p) = col p" using out'(3) xy by simp
  moreover have "rgb_at out' (rgb_offset rot (u, v)) = rgb_at out (rgb_offset rot (u, v))"
    if "u < 480" "v < 800" "(u, v) \<notin> set (xy # ps)" for u v
    using out'(4) others [OF that(1,2)] that xy by auto
  ultimately show ?case using step out'(1,2) by (metis fold_simps(2))
qed auto

lemma set_frame_pixels: "set (frame_pixels w h) = {0..<w} \<times> {0..<h}"
  by (auto simp: frame_pixels_def)

lemma distinct_frame_pixels: "distinct (frame_pixels w h)"
proof -
  have "distinct (concat (map (\<lambda>y. map (\<lambda>x. (x, y)) [0..<w]) ys))" if "distinct ys" for ys :: "nat list"
    using that by (induction ys) (auto simp: distinct_map inj_on_def)
  then show ?thesis by (simp add: frame_pixels_def)
qed

lemma packed_to_rgb888_painted:
  assumes "known_format fmt" "length payload = (if fmt = ''indexed4'' then 192000 else 96000)"
    and "\<And>x y. x < 480 \<Longrightarrow> y < 800 \<Longrightarrow> pixel_color fmt payload (x, y) = Some (col (x, y))"
  shows "\<exists>out. packed_to_rgb888 payload fmt rot = Inr out \<and> length out = STOCK_PIXEL_BYTES \<and>
    (\<forall>x < 480. \<forall>y < 800. rgb_at out (rgb_offset rot (x, y)) = col (x, y))"
proof -
  have "pixel_color fmt payload xy = Some (col xy)" if "xy \<in> set (frame_pixels 480 800)" for xy
    using that assms(3) by (auto simp: set_frame_pixels)
  then obtain out where "fold (paint_pixel fmt rot payload) (frame_pixels 480 800) (Inr (replicate STOCK_PIXEL_BYTES 0)) = Inr out"
      "length out = STOCK_PIXEL_BYTES" "\<forall>xy \<in> set (frame_pixels 480 800). rgb_at out (rgb_offset rot xy) = col xy"
    using paint_pixels [OF _ distinct_frame_pixels, of 480 800 fmt payload col "replicate STOCK_PIXEL_BYTES 0" rot]
    by (auto simp: set_frame_pixels)
  then show ?thesis using assms(1,2) by (auto simp: packed_to_rgb888_def set_frame_pixels)
qed

section \<open>Lemmas on the bitmap\<close>

text \<open>The rows the loop leaves behind.\<close>

definition bgr :: "byte list \<Rightarrow> nat \<Rightarrow> byte list" where
  "bgr rgb_bytes s = [rgb_bytes ! (s + 2), rgb_bytes ! (s + 1), rgb_bytes ! s]"

definition bmp_row :: "byte list \<Rightarrow> nat \<Rightarrow> nat \<Rightarrow> byte list" where
  "bmp_row rgb_bytes width y =
     concat (map (\<lambda>x. bgr rgb_bytes (y * (width * 3) + x * 3)) [0..<width]) @ replicate (bmp_stride width - width * 3) 0"

lemma write_rgb_append:
  "write_rgb (length pre) (r, g, b) (pre @ replicate (3 + n) 0) = pre @ [r, g, b] @ replicate n 0"
  by (simp add: write_rgb_def list_update_append numeral_3_eq_3)

lemma fold_bmp_pixel:
  "fold (bmp_pixel rgb_bytes row) xs (length pre, pre @ replicate (3 * length xs + n) 0) =
     (let pre' = pre @ concat (map (\<lambda>x. bgr rgb_bytes (row + x * 3)) xs) in (length pre', pre' @ replicate n 0))"
proof (induction xs arbitrary: pre)
  case (Cons x xs)
  have step: "bmp_pixel rgb_bytes row x (length pre, pre @ replicate (3 * length (x # xs) + n) 0) =
      (length (pre @ bgr rgb_bytes (row + x * 3)), (pre @ bgr rgb_bytes (row + x * 3)) @ replicate (3 * length xs + n) 0)"
    using write_rgb_append [of pre _ _ _ "3 * length xs + n"] by (simp add: bmp_pixel_def bgr_def Let_def algebra_simps)
  show ?case unfolding fold_simps step Cons.IH by simp
qed simp

lemma stride_covers: "width * 3 \<le> bmp_stride width"
  unfolding bmp_stride_def by linarith

lemma length_bgr_concat: "length (concat (map (\<lambda>x. bgr rgb_bytes (f x)) xs)) = 3 * length xs"
  by (induction xs) (auto simp: bgr_def)

lemma length_bmp_row [simp]: "length (bmp_row rgb_bytes width y) = bmp_stride width"
  using stride_covers [of width] by (simp add: bmp_row_def length_bgr_concat)

lemma bmp_line_row:
  "bmp_line rgb_bytes width y (length pre, pre @ replicate (bmp_stride width + n) 0) =
     (length (pre @ bmp_row rgb_bytes width y), (pre @ bmp_row rgb_bytes width y) @ replicate n 0)"
proof -
  let ?pad = "bmp_stride width - width * 3"
  have room: "bmp_stride width + n = 3 * length [0..<width] + (?pad + n)" using stride_covers [of width] by simp
  show ?thesis
    unfolding bmp_line_def room fold_bmp_pixel by (simp add: Let_def bmp_row_def replicate_add)
qed

lemma fold_bmp_line:
  "fold (bmp_line rgb_bytes width) ys (length pre, pre @ replicate (bmp_stride width * length ys + n) 0) =
     (let pre' = pre @ concat (map (bmp_row rgb_bytes width) ys) in (length pre', pre' @ replicate n 0))"
proof (induction ys arbitrary: pre)
  case (Cons y ys)
  have room: "bmp_stride width * length (y # ys) + n = bmp_stride width + (bmp_stride width * length ys + n)" by simp
  show ?case unfolding room fold_simps bmp_line_row Cons.IH by simp
qed simp

lemma bmp_body_rows: "bmp_body rgb_bytes width height = concat (map (bmp_row rgb_bytes width) (rev [0..<height]))"
  using fold_bmp_line [of rgb_bytes width "rev [0..<height]" "[]" 0] by (simp add: bmp_body_def Let_def)

lemma concat_nth_uniform:
  assumes "\<And>x. length (f x) = k" "i < length xs" "j < k"
  shows "concat (map f xs) ! (i * k + j) = f (xs ! i) ! j"
  using assms(2)
proof (induction xs arbitrary: i)
  case (Cons x xs)
  show ?case
  proof (cases i)
    case (Suc m)
    then show ?thesis using Cons.IH [of m] Cons.prems assms(1) by (simp add: nth_append add.assoc)
  qed (use assms in \<open>simp add: nth_append\<close>)
qed simp

lemma concat_length_uniform: "(\<And>x. length (f x) = k) \<Longrightarrow> length (concat (map f xs)) = k * length xs"
  by (induction xs) simp_all

lemma length_bmp_body: "length (bmp_body rgb_bytes width height) = bmp_stride width * height"
  unfolding bmp_body_rows by (subst concat_length_uniform [where k = "bmp_stride width"]) simp_all

lemma bmp_row_nth:
  assumes "x < width" "j < 3"
  shows "bmp_row rgb_bytes width y ! (x * 3 + j) = bgr rgb_bytes (y * (width * 3) + x * 3) ! j"
proof -
  have "x * 3 + j < 3 * width" using assms by linarith
  then show ?thesis
    using concat_nth_uniform [of "\<lambda>x. bgr rgb_bytes (y * (width * 3) + x * 3)" 3 x "[0..<width]" j] assms
    by (simp add: bmp_row_def nth_append length_bgr_concat) (simp add: bgr_def)
qed

lemma bmp_body_nth:
  assumes "x < width" "y < height" "j < 3"
  shows "bmp_body rgb_bytes width height ! ((height - 1 - y) * bmp_stride width + (x * 3 + j)) =
    bgr rgb_bytes (y * (width * 3) + x * 3) ! j"
proof -
  have "x * 3 + j < bmp_stride width" using assms stride_covers [of width] by linarith
  then show ?thesis
    using concat_nth_uniform [of "bmp_row rgb_bytes width" "bmp_stride width" "height - 1 - y" "rev [0..<height]" "x * 3 + j"] assms
    by (simp add: bmp_body_rows bmp_row_nth rev_nth)
qed

lemma length_le_bytes [simp]: "length (le_bytes n v) = n"
  by (induction n v rule: le_bytes.induct) auto

lemma length_bmp_header [simp]: "length (bmp_header width height) = STOCK_BMP_HEADER_BYTES"
  by (simp add: bmp_header_def Let_def STOCK_BMP_HEADER_BYTES_def)

text \<open>Where a pixel lies in the file.\<close>

definition bmp_offset :: "nat \<Rightarrow> nat \<Rightarrow> nat \<Rightarrow> nat \<Rightarrow> nat" where
  "bmp_offset width height x y = STOCK_BMP_HEADER_BYTES + (height - 1 - y) * bmp_stride width + x * 3"

lemma bmp_file_pixel:
  assumes "x < width" "y < height"
  shows "rgb_at (bmp_header width height @ bmp_body rgb_bytes width height) (bmp_offset width height x y) =
    (let (r, g, b) = rgb_at rgb_bytes ((y * width + x) * 3) in (b, g, r))"
  using bmp_body_nth [OF assms, of 0 rgb_bytes] bmp_body_nth [OF assms, of 1 rgb_bytes] bmp_body_nth [OF assms, of 2 rgb_bytes]
  by (simp add: rgb_at_def bmp_offset_def nth_append bgr_def algebra_simps)

section \<open>Lemmas on the profiles\<close>

definition stock_profile :: "string \<Rightarrow> bool" where
  "stock_profile key = (key = ''safe_4c'' \<or> key = ''gdep073e01_6c'')"  \<comment> \<open>\<^verbatim>\<open>STOCK_SUPPORTED_PROFILES\<close>\<close>

definition stock_color :: "string \<Rightarrow> palette_color \<Rightarrow> bool" where
  "stock_color fmt c = (code c \<le> pixel_mask fmt \<and> map_of INDEXED4_RGB (color_name c) \<noteq> None \<and>
     stock_palette fmt (word_of_nat (code c)) = map_of INDEXED4_RGB (color_name c))"

lemma stock_profiles_ok:
  "list_all (\<lambda>(key, p). stock_profile key \<longrightarrow> known_format (pixel_format p) \<and> list_all (stock_color (pixel_format p)) (colors p)) DISPLAY_PROFILES"
  by code_simp

lemma stock_profile_palette:
  assumes "stock_profile key" "get_display_profile key = Inr p" "i < length (colors p)"
  shows "known_format (pixel_format p)" "code (colors p ! i) \<le> pixel_mask (pixel_format p)"
    and "stock_palette (pixel_format p) (word_of_nat (code (colors p ! i))) = map_of INDEXED4_RGB (color_name (colors p ! i))"
    and "map_of INDEXED4_RGB (color_name (colors p ! i)) \<noteq> None"
proof -
  have "(key, p) \<in> set DISPLAY_PROFILES" using assms(2) by (auto simp: get_display_profile_def split: option.splits intro: map_of_SomeD)
  then have "known_format (pixel_format p) \<and> stock_color (pixel_format p) (colors p ! i)"
    using stock_profiles_ok assms(1,3) by (auto simp: list_all_iff)
  then show "known_format (pixel_format p)" "code (colors p ! i) \<le> pixel_mask (pixel_format p)"
    "stock_palette (pixel_format p) (word_of_nat (code (colors p ! i))) = map_of INDEXED4_RGB (color_name (colors p ! i))"
    "map_of INDEXED4_RGB (color_name (colors p ! i)) \<noteq> None"
    by (simp_all add: stock_color_def)
qed

lemma read_pixel_slot:
  assumes "known_format fmt" "i div per_byte fmt < length payload"
  shows "read_pixel fmt payload (int i) = Inr (read_slot fmt (payload ! (i div per_byte fmt)) (i mod per_byte fmt))"
  using assms read_indexed4_slot [of i payload] read_2bpp_slot [of i payload]
  by (auto simp: known_format_def read_pixel_def per_byte_def)

text \<open>An encoded frame has the right size, and every pixel reads as the color of its palette entry.\<close>

lemma encoded_frame:
  assumes "stock_profile key" "get_display_profile key = Inr p" "length indexes = 384000" "list_all (\<lambda>i. i < length (colors p)) indexes"
  shows "\<exists>payload. encode_payload p indexes = Inr payload \<and> length payload = bytes_per_image p \<and>
    (\<forall>x < 480. \<forall>y < 800. pixel_color (pixel_format p) payload (x, y) =
       map_of INDEXED4_RGB (color_name (colors p ! (indexes ! (y * 480 + x)))))"
proof -
  let ?fmt = "pixel_format p"
  let ?cs = "map (\<lambda>i. code (colors p ! i)) indexes"
  note pal = stock_profile_palette [OF assms(1,2)]
  have idx: "indexes ! k < length (colors p)" if "k < 384000" for k using assms(3,4) that by (simp add: list_all_length)
  have fmt: "known_format ?fmt" using pal(1) idx [of 0] by simp
  have ok: "list_all (\<lambda>c. c \<le> pixel_mask ?fmt) ?cs" using assms(4) pal(2) by (auto simp: list_all_iff)
  obtain bs where bs: "pack_codes ?fmt ?cs = Inr bs" "length bs = (length ?cs + (per_byte ?fmt - 1)) div per_byte ?fmt"
    "\<forall>i < length ?cs. read_slot ?fmt (bs ! (i div per_byte ?fmt)) (i mod per_byte ?fmt) = word_of_nat (?cs ! i)"
    using pack_codes_spec [OF fmt ok] by blast
  have len: "length bs = bytes_per_image p"
    using bs(2) assms(3) fmt by (auto simp: bytes_per_image_def per_byte_def known_format_def)
  have "pixel_color ?fmt bs (x, y) = map_of INDEXED4_RGB (color_name (colors p ! (indexes ! (y * 480 + x))))"
    if xy: "x < 480" "y < 800" for x y
  proof -
    let ?i = "y * 480 + x"
    have i: "?i < 384000" using xy by linarith
    then have "?i div per_byte ?fmt < length bs" using len fmt by (auto simp: bytes_per_image_def per_byte_def known_format_def)
    then have "read_pixel ?fmt bs (int ?i) = Inr (read_slot ?fmt (bs ! (?i div per_byte ?fmt)) (?i mod per_byte ?fmt))"
      by (rule read_pixel_slot [OF fmt])
    also have "\<dots> = Inr (word_of_nat (code (colors p ! (indexes ! ?i))))"
      using bs(3) i assms(3) by simp
    finally have "read_pixel ?fmt bs (int ?i) = Inr (word_of_nat (code (colors p ! (indexes ! ?i))))" .
    moreover have "int y * 480 + int x = int ?i" by simp
    ultimately show ?thesis using pal(3) [OF idx [OF i]] by (simp only: pixel_color_def prod.case Let_def sum.case)
  qed
  then show ?thesis using assms(4) bs(1) len by (auto simp: encode_payload_def)
qed

section \<open>Properties\<close>

text \<open>C34. A rendered frame reaches the Stock panel unchanged: for both supported profiles, any frame of
  palette indexes is packed into exactly the bytes the profile declares, the request body has the exact
  length and mode byte, and at the place the quarter turn gives a logical pixel the bitmap holds blue,
  green and red of the pixel's palette color.\<close>

theorem frame_delivered:
  assumes "stock_profile key" "get_display_profile key = Inr p" "mode = 0 \<or> mode = 1"
    and "length indexes = 384000" "list_all (\<lambda>i. i < length (colors p)) indexes"
  shows "\<exists>payload body. encode_payload p indexes = Inr payload \<and> length payload = bytes_per_image p \<and>
    packed_frame_to_stock_payload payload key mode rotate180 = Inr body \<and>
    length body = STOCK_PAYLOAD_BYTES \<and> body ! 0 = word_of_int mode \<and>
    (\<forall>x < 480. \<forall>y < 800. \<exists>px py r g b. portrait_to_physical (int x) (int y) rotate180 = Inr (int px, int py) \<and>
       rgb_at body (1 + bmp_offset STOCK_WIDTH STOCK_HEIGHT px py) = (b, g, r) \<and>
       map_of INDEXED4_RGB (color_name (colors p ! (indexes ! (y * 480 + x)))) = Some (r, g, b))"
proof -
  let ?col = "\<lambda>(x, y). the (map_of INDEXED4_RGB (color_name (colors p ! (indexes ! (y * 480 + x)))))"
  obtain payload where pl: "encode_payload p indexes = Inr payload" "length payload = bytes_per_image p"
    "\<forall>x < 480. \<forall>y < 800. pixel_color (pixel_format p) payload (x, y) =
       map_of INDEXED4_RGB (color_name (colors p ! (indexes ! (y * 480 + x))))"
    using encoded_frame [OF assms(1,2,4,5)] by blast
  have idx: "indexes ! k < length (colors p)" if "k < 384000" for k using assms(4,5) that by (simp add: list_all_length)
  note pal = stock_profile_palette [OF assms(1,2)]
  have fmt: "known_format (pixel_format p)" using pal(1) idx [of 0] by simp
  have some: "map_of INDEXED4_RGB (color_name (colors p ! (indexes ! (y * 480 + x)))) = Some (?col (x, y))" if "x < 480" "y < 800" for x y
    using pal(4) [OF idx, of "y * 480 + x"] that by auto
  have size: "length payload = (if pixel_format p = ''indexed4'' then 192000 else 96000)"
    using pl(2) fmt by (auto simp: bytes_per_image_def known_format_def)
  have painted: "pixel_color (pixel_format p) payload (x, y) = Some (?col (x, y))" if "x < 480" "y < 800" for x y
    unfolding some [OF that, symmetric] using pl(3) that by blast
  obtain out where out: "packed_to_rgb888 payload (pixel_format p) rotate180 = Inr out" "length out = STOCK_PIXEL_BYTES"
    "\<forall>x < 480. \<forall>y < 800. rgb_at out (rgb_offset rotate180 (x, y)) = ?col (x, y)"
    using packed_to_rgb888_painted [OF fmt size, of ?col rotate180, OF painted] by blast
  let ?bmp = "bmp_header STOCK_WIDTH STOCK_HEIGHT @ bmp_body out STOCK_WIDTH STOCK_HEIGHT"
  have enc: "encode_bmp24 out (int STOCK_WIDTH) (int STOCK_HEIGHT) = Inr ?bmp"
    using out(2) by (simp add: encode_bmp24_def) (simp add: stock_sizes bmp_stride_def)
  have body: "packed_frame_to_stock_payload payload key mode rotate180 = Inr (word_of_int mode # ?bmp)"
    using assms(2,3) out(1) enc by (simp add: packed_frame_to_stock_payload_def stock_dataup_payload_def)
  have "\<exists>px py r g b. portrait_to_physical (int x) (int y) rotate180 = Inr (int px, int py) \<and>
       rgb_at (word_of_int mode # ?bmp) (1 + bmp_offset STOCK_WIDTH STOCK_HEIGHT px py) = (b, g, r) \<and>
       map_of INDEXED4_RGB (color_name (colors p ! (indexes ! (y * 480 + x)))) = Some (r, g, b)" if xy: "x < 480" "y < 800" for x y
  proof -
    obtain px py where ph: "physical rotate180 (x, y) = (px, py)" by fastforce
    obtain r g b where col: "?col (x, y) = (r, g, b)" by (cases "?col (x, y)")
    have in_range: "px < STOCK_WIDTH" "py < STOCK_HEIGHT" using portrait_physical(2,3) [OF xy, of rotate180] ph by (auto simp: stock_sizes)
    have "rgb_at out ((py * STOCK_WIDTH + px) * 3) = (r, g, b)"
      using out(3) [rule_format, OF xy] ph col by (simp add: rgb_offset_def STOCK_WIDTH_def)
    then have "rgb_at (word_of_int mode # ?bmp) (1 + bmp_offset STOCK_WIDTH STOCK_HEIGHT px py) = (b, g, r)"
      using bmp_file_pixel [OF in_range, of out] by (simp add: rgb_at_def)
    then show ?thesis using portrait_physical(1) [OF xy, of rotate180] ph some [OF xy] col by auto
  qed
  moreover have "length (word_of_int mode # ?bmp) = STOCK_PAYLOAD_BYTES"
    by (simp add: length_bmp_body) (simp add: stock_sizes bmp_stride_def)
  ultimately show ?thesis using pl(1,2) body by (intro exI [of _ payload] exI [of _ "word_of_int mode # ?bmp"]) simp
qed

theorem frame_delivered_witness:
  "\<exists>payload body. encode_payload (snd (DISPLAY_PROFILES ! 0)) (replicate 384000 2) = Inr payload \<and>
    packed_frame_to_stock_payload payload ''safe_4c'' 1 False = Inr body \<and> length body = 1152055 \<and> body ! 0 = 1 \<and>
    rgb_at body (1 + bmp_offset 800 480 799 0) = (0, 0, 255)"
proof -
  let ?p = "snd (DISPLAY_PROFILES ! 0)"
  have p: "get_display_profile ''safe_4c'' = Inr ?p" "length (colors ?p) = 4" "color_name (colors ?p ! 2) = ''red''"
    "map_of INDEXED4_RGB ''red'' = Some (255, 0, 0)" "stock_profile ''safe_4c''"
    by code_simp+
  obtain payload body where b: "encode_payload ?p (replicate 384000 2) = Inr payload"
    "packed_frame_to_stock_payload payload ''safe_4c'' 1 False = Inr body" "length body = STOCK_PAYLOAD_BYTES"
    "body ! 0 = word_of_int 1"
    and px: "\<forall>x < 480. \<forall>y < 800. \<exists>px py r g b. portrait_to_physical (int x) (int y) False = Inr (int px, int py) \<and>
       rgb_at body (1 + bmp_offset STOCK_WIDTH STOCK_HEIGHT px py) = (b, g, r) \<and>
       map_of INDEXED4_RGB (color_name (colors ?p ! (replicate 384000 2 ! (y * 480 + x)))) = Some (r, g, b)"
    using frame_delivered [OF p(5,1), of 1 "replicate 384000 2" False] p(2) by (auto simp: list_all_iff)
  have "portrait_to_physical (int 0) (int 0) False = Inr (799, 0)" by code_simp
  then have "rgb_at body (1 + bmp_offset STOCK_WIDTH STOCK_HEIGHT 799 0) = (0, 0, 255)"
    using px [rule_format, of 0 0] p(3,4) by auto
  then show ?thesis using b by (auto simp: stock_sizes)
qed

end
