(* ===== verification/Zone_Time.thy ===== *)
theory Zone_Time
  imports Prelude
begin

text \<open>
  Time zones as \<^verbatim>\<open>zoneinfo.ZoneInfo\<close> of the Python library reads them: an initial UTC offset and a
  list of transitions (the instant and the offset from then on). A wall time is a number of microseconds
  since 1970-01-01 00:00 local time; \<^verbatim>\<open>fold\<close> chooses between the two readings of a wall time around a
  transition. \<^verbatim>\<open>ZoneInfo\<close> bisects sorted lists of transitions; on such lists the scans below find the
  same entry. The rule that extends a zone beyond its last transition is a longer list here, and the
  limits of \<^verbatim>\<open>datetime\<close> (years 1 to 9999) are not modelled.
\<close>

section \<open>Zones\<close>

record zone =
  base_offset :: int
  transitions :: "(instant \<times> int) list"

fun offset_from :: "int \<Rightarrow> (instant \<times> int) list \<Rightarrow> instant \<Rightarrow> int" where
  "offset_from off [] u = off"
| "offset_from off ((t, off') # ts) u = (if u < t then off else offset_from off' ts u)"

text \<open>The lists \<^verbatim>\<open>trans_list_wall[fold]\<close>: a transition takes effect at the wall time it would have under
  the larger of the two offsets for fold 0, the smaller for fold 1.\<close>

fun wall_offset_from :: "bool \<Rightarrow> int \<Rightarrow> (instant \<times> int) list \<Rightarrow> int \<Rightarrow> int" where
  "wall_offset_from fld off [] w = off"
| "wall_offset_from fld off ((t, off') # ts) w =
     (if w < t + (if fld then min off off' else max off off') then off else wall_offset_from fld off' ts w)"

definition local_time :: "zone \<Rightarrow> instant \<Rightarrow> int" where
  "local_time z u = u + offset_from (base_offset z) (transitions z) u"

definition utc_time :: "zone \<Rightarrow> bool \<Rightarrow> int \<Rightarrow> instant" where
  "utc_time z fld w = w - wall_offset_from fld (base_offset z) (transitions z) w"

definition MINUTE :: int where "MINUTE = 60000000"
definition DAY :: int where "DAY = 86400000000"

text \<open>Dates are day numbers; 1970-01-01, day 0, was a Thursday.\<close>

definition local_date :: "zone \<Rightarrow> instant \<Rightarrow> int" where
  "local_date z u = local_time z u div DAY"

definition weekday :: "int \<Rightarrow> nat" where
  "weekday d = nat ((d + 3) mod 7)"

text \<open>Transitions lie further apart than the jumps of the clock around them. Those of the time zone
  database are hours to years apart and jump by at most a day.\<close>

fun spaced :: "int \<Rightarrow> (instant \<times> int) list \<Rightarrow> bool" where
  "spaced off [] = True"
| "spaced off [(t, off')] = True"
| "spaced off ((t, off') # (t2, off2) # ts) = (t + \<bar>off' - off\<bar> + \<bar>off2 - off'\<bar> < t2 \<and> spaced off' ((t2, off2) # ts))"

definition wf_zone :: "zone \<Rightarrow> bool" where
  "wf_zone z = spaced (base_offset z) (transitions z)"

section \<open>Wall time and instants\<close>

lemma spaced_tail: "spaced off ((t, off') # ts) \<Longrightarrow> spaced off' ts"
  by (cases ts) auto

lemma after_transition:
  assumes "spaced off ((t, off') # ts)" "t \<le> u"
  shows "t + min off off' \<le> u + offset_from off' ts u"
    and "t + \<bar>off' - off\<bar> \<le> u \<Longrightarrow> t + max off off' \<le> u + offset_from off' ts u"
  using assms
proof (induction ts arbitrary: off t off')
  case (Cons a ts)
  obtain t2 off2 where a: "a = (t2, off2)" by (cases a)
  {
    case 1
    show ?case
    proof (cases "u < t2")
      case False
      then have "t2 + min off' off2 \<le> u + offset_from off2 ts u" using Cons.IH(1) [of off' t2 off2] 1 a by auto
      then show ?thesis using 1 a False by auto
    qed (use 1 a in auto)
  next
    case 2
    show ?case
    proof (cases "u < t2")
      case False
      then have "t2 + min off' off2 \<le> u + offset_from off2 ts u" using Cons.IH(1) [of off' t2 off2] 2 a by auto
      then show ?thesis using 2 a False by auto
    qed (use 2 a in auto)
  }
qed auto

lemma wall_before:
  assumes "spaced off ((t, off') # ts)" "w < t + max off off'"
  shows "wall_offset_from True off' ts w = off'"
  using assms by (cases ts) auto

text \<open>Every instant is one of the two readings of its wall time.\<close>

lemma instant_is_reading:
  assumes "spaced off ts"
  shows "\<exists>fld. wall_offset_from fld off ts (u + offset_from off ts u) = offset_from off ts u"
  using assms
proof (induction ts arbitrary: off)
  case (Cons a ts)
  obtain t off' where a: "a = (t, off')" by (cases a)
  let ?w = "u + offset_from off' ts u"
  show ?case
  proof (cases "u < t")
    case True
    then show ?thesis using a by (auto intro!: exI [of _ False])
  next
    case False
    then have late: "t + min off off' \<le> ?w" using after_transition(1) Cons.prems a by simp
    show ?thesis
    proof (cases "?w < t + max off off'")
      case True
      have "\<not> t + \<bar>off' - off\<bar> \<le> u" using True after_transition(2) [of off t off' ts u] Cons.prems a False by auto
      then have "offset_from off' ts u = off'" using Cons.prems a False by (cases ts) auto
      then show ?thesis using late False a wall_before [of off t off' ts ?w] Cons.prems True by (auto intro!: exI [of _ True])
    next
      case False
      obtain fld where "wall_offset_from fld off' ts ?w = offset_from off' ts u"
        using Cons.IH [of off'] Cons.prems a spaced_tail by auto
      then show ?thesis using False late \<open>\<not> u < t\<close> a by (auto intro!: exI [of _ fld])
    qed
  qed
qed simp

lemma reading_after:
  assumes "spaced off ((t, off') # ts)" "t + max off off' \<le> w"
  shows "t \<le> w - wall_offset_from False off' ts w"
  using assms
proof (induction ts arbitrary: off t off')
  case (Cons a ts)
  obtain t2 off2 where a: "a = (t2, off2)" by (cases a)
  show ?case
  proof (cases "w < t2 + max off' off2")
    case False
    then have "t2 \<le> w - wall_offset_from False off2 ts w" using Cons a by auto
    then show ?thesis using Cons.prems a False by auto
  qed (use Cons.prems a in auto)
qed auto

text \<open>The first reading never falls behind the wall time.\<close>

lemma first_reading_forward:
  assumes "spaced off ts"
  shows "wall_offset_from False off ts w \<le> offset_from off ts (w - wall_offset_from False off ts w)"
  using assms
proof (induction ts arbitrary: off)
  case (Cons a ts)
  obtain t off' where a: "a = (t, off')" by (cases a)
  show ?case
  proof (cases "w < t + max off off'")
    case True
    then have "offset_from off' ts (w - off) = off'" if "t \<le> w - off" using that Cons.prems a by (cases ts) auto
    then show ?thesis using True a by auto
  next
    case False
    then show ?thesis using Cons.IH [of off'] Cons.prems a spaced_tail reading_after [of off t off' ts w] by auto
  qed
qed simp

lemma reading_cases:
  assumes "wf_zone z" "local_time z u = w"
  shows "u = utc_time z False w \<or> u = utc_time z True w"
proof -
  obtain fld where "wall_offset_from fld (base_offset z) (transitions z) w = offset_from (base_offset z) (transitions z) u"
    using instant_is_reading [of "base_offset z" "transitions z" u] assms by (auto simp: wf_zone_def local_time_def)
  then have "u = utc_time z fld w" using assms(2) by (auto simp: utc_time_def local_time_def)
  then show ?thesis by (cases fld) auto
qed

lemma utc_time_forward: "wf_zone z \<Longrightarrow> w \<le> local_time z (utc_time z False w)"
  using first_reading_forward [of "base_offset z" "transitions z" w] by (simp add: wf_zone_def local_time_def utc_time_def)

end
