(* ===== verification/Offline_Schedule.thy ===== *)
theory Offline_Schedule
  imports Zone_Time "HOL-Library.Char_ord" "HOL-Library.List_Lexorder"
begin

text \<open>
  The rules for offline display slots (\<^verbatim>\<open>inktime/app/domain/photopainter/offline_schedule.py\<close> and
  \<^verbatim>\<open>weekly_schedule.py\<close>): validation of a day's schedule, its instants in a time zone with
  daylight-saving changes, deadlines, the next network wake and the server's preparation plan. Arguments
  have the annotated types. An aware \<^verbatim>\<open>datetime\<close> is its instant; a zone name that cannot be resolved is
  \<open>None\<close>; the ISO texts of instants and dates are the instants and day numbers themselves.
\<close>

section \<open>Constants and errors\<close>

datatype schedule_error =
    ScheduleSize | GapOutOfRange | TimeFormat | DuplicateTime | GapTooSmall
  | StrategyInvalid | SyncTimeForbidden | SyncTimeMissing | ModeInvalid | PrefetchConflict
  | LeadOutOfRange | MarginOutOfRange | HourOutOfRange | ZoneInvalid | GraceOutOfRange
  | SlotNotRepresentable | DstCrossesDay | NoSyncTime

definition DELIVERY_MODES :: "string list" where
  "DELIVERY_MODES = [''legacy_online'', ''stock_compat'', ''inktime_offline_schedule'']"
definition ENHANCED_DELIVERY_MODE :: string where "ENHANCED_DELIVERY_MODE = ''inktime_offline_schedule''"
definition SYNC_STRATEGIES :: "string list" where "SYNC_STRATEGIES = [''first_display_lead'', ''fixed_daily'']"
definition MINIMUM_ALLOWED_GAP_MINUTES :: int where "MINIMUM_ALLOWED_GAP_MINUTES = 30"
definition MAXIMUM_ALLOWED_GAP_MINUTES :: int where "MAXIMUM_ALLOWED_GAP_MINUTES = 360"
definition LEGACY_MAX_OFFLINE_SLOTS :: int where "LEGACY_MAX_OFFLINE_SLOTS = 12"
definition MAX_OFFLINE_SLOTS :: int where "MAX_OFFLINE_SLOTS = 24"
definition OFFLINE_CAPABILITY_USABLE_STATES :: "string list" where
  "OFFLINE_CAPABILITY_USABLE_STATES = [''unknown_12'', ''confirmed_16'', ''confirmed_24'']"

section \<open>Device capability\<close>

definition resolve_offline_schedule_max_slots :: "json \<Rightarrow> int" where
  "resolve_offline_schedule_max_slots capabilities =
     (case dict_get capabilities ''offline_schedule_max_slots'' of
        Some (JInt v) \<Rightarrow> if v = 16 \<or> v = MAX_OFFLINE_SLOTS then v else LEGACY_MAX_OFFLINE_SLOTS
      | _ \<Rightarrow> LEGACY_MAX_OFFLINE_SLOTS)"

definition max_slots :: "int \<Rightarrow> int" where
  "max_slots n = resolve_offline_schedule_max_slots (JObj [(''offline_schedule_max_slots'', JInt n)])"

definition offline_schedule_capability_state :: "int \<Rightarrow> string" where
  "offline_schedule_capability_state n =
     (if max_slots n = 16 then ''confirmed_16''
      else if max_slots n = MAX_OFFLINE_SLOTS then ''confirmed_24'' else ''unknown_12'')"

definition offline_schedule_capability_is_usable :: "string option \<Rightarrow> bool" where
  "offline_schedule_capability_is_usable state = (str_or state [] \<in> set OFFLINE_CAPABILITY_USABLE_STATES)"

section \<open>Times of day\<close>

definition digit :: "char \<Rightarrow> int" where
  "digit c = int (of_char c) - 48"

text \<open>\<^verbatim>\<open>^(?:[01]\d|2[0-3]):[0-5]\d$\<close>\<close>

fun is_time :: "string \<Rightarrow> bool" where
  "is_time [a, b, c, d, e] =
     (c = CHR '':'' \<and> 0 \<le> digit a \<and> 0 \<le> digit b \<and> digit b \<le> 9 \<and> 0 \<le> digit d \<and> digit d \<le> 5 \<and>
      0 \<le> digit e \<and> digit e \<le> 9 \<and> (digit a \<le> 1 \<or> (digit a = 2 \<and> digit b \<le> 3)))"
| "is_time _ = False"

fun clock_minutes :: "string \<Rightarrow> int" where
  "clock_minutes [a, b, c, d, e] = (digit a * 10 + digit b) * 60 + (digit d * 10 + digit e)"
| "clock_minutes _ = 0"

definition schedule_minutes :: "string \<Rightarrow> schedule_error + int" where
  "schedule_minutes s = (if is_time s then Inr (clock_minutes s) else Inl TimeFormat)"

text \<open>\<^verbatim>\<open>f"{minutes // 60:02d}:{minutes % 60:02d}"\<close> for minutes of a day.\<close>

definition time_text :: "int \<Rightarrow> string" where
  "time_text m =
     (let c = (\<lambda>n. char_of (nat n + 48)) in
      [c (m div 60 div 10), c (m div 60 mod 10), CHR '':'', c (m mod 60 div 10), c (m mod 60 mod 10)])"

section \<open>Schedules\<close>

definition cyclic_gaps :: "int list \<Rightarrow> int list" where
  "cyclic_gaps minutes =
     map2 (\<lambda>left right. right - left) minutes (tl minutes) @
     (if length minutes > 1 then [hd minutes + 24 * 60 - last minutes] else [])"

definition validate_offline_schedule :: "string list \<Rightarrow> int \<Rightarrow> int \<Rightarrow> schedule_error + string list" where
  "validate_offline_schedule values maximum gap =
     (if \<not> (1 \<le> length values \<and> int (length values) \<le> maximum) then Inl ScheduleSize
      else if \<not> (MINIMUM_ALLOWED_GAP_MINUTES \<le> gap \<and> gap \<le> MAXIMUM_ALLOWED_GAP_MINUTES) then Inl GapOutOfRange
      else
        let normalized = map py_strip values in
        if list_ex (\<lambda>v. \<not> is_time v) normalized then Inl TimeFormat
        else if \<not> distinct normalized then Inl DuplicateTime
        else
          let ordered = sort normalized in
          if list_ex (\<lambda>g. g < gap) (cyclic_gaps (map clock_minutes ordered)) then Inl GapTooSmall
          else Inr ordered)"

definition normalize_sync_strategy :: "string \<Rightarrow> string option \<Rightarrow> schedule_error + string \<times> string option" where
  "normalize_sync_strategy sync_strategy sync_time =
     (let strat = py_strip (if sync_strategy = [] then ''first_display_lead'' else sync_strategy) in
      if strat \<notin> set SYNC_STRATEGIES then Inl StrategyInvalid
      else
        let normalized = (case sync_time of None \<Rightarrow> None | Some t \<Rightarrow> if t = [] then None else Some (py_strip t)) in
        if strat = ''first_display_lead''
        then (if normalized \<noteq> None then Inl SyncTimeForbidden else Inr (strat, None))
        else case normalized of
          None \<Rightarrow> Inl SyncTimeMissing
        | Some t \<Rightarrow> if is_time t then Inr (strat, Some t) else Inl SyncTimeMissing)"

definition normalize_delivery_contract :: "string \<Rightarrow> bool option \<Rightarrow> bool \<Rightarrow> schedule_error + string \<times> bool" where
  "normalize_delivery_contract delivery_mode prefetch explicit_prefetch =
     (let mode = py_strip delivery_mode in
      if mode \<notin> set DELIVERY_MODES then Inl ModeInvalid
      else
        let expected = (mode = ENHANCED_DELIVERY_MODE) in
        case (if explicit_prefetch then prefetch else None) of
          None \<Rightarrow> Inr (mode, expected)
        | Some p \<Rightarrow> if p \<noteq> expected then Inl PrefetchConflict else Inr (mode, expected))"

definition prefetch_slots :: "string list \<Rightarrow> int \<Rightarrow> int \<Rightarrow> schedule_error + (string \<times> string) list" where
  "prefetch_slots values lead_minutes gap =
     bind_result (validate_offline_schedule values MAX_OFFLINE_SLOTS gap) (\<lambda>schedule.
       if \<not> (0 \<le> lead_minutes \<and> lead_minutes \<le> 120) then Inl LeadOutOfRange
       else Inr (map (\<lambda>slot. let m = clock_minutes slot - lead_minutes in
                        (slot, time_text (if m < 0 then m + 24 * 60 else m))) schedule))"

section \<open>Instants of a day\<close>

text \<open>Every caller passes an \<^verbatim>\<open>HH:MM\<close> text; another text, which the code splits and reads as two numbers, is an
  error here.\<close>

definition local_slot_datetime :: "zone \<Rightarrow> int \<Rightarrow> string \<Rightarrow> schedule_error + instant" where
  "local_slot_datetime z d slot =
     bind_result (schedule_minutes slot) (\<lambda>m.
       let naive = d * DAY + m * MINUTE;
           candidates = map (\<lambda>fld. utc_time z fld naive) [False, True];
           exact = filter (\<lambda>u. local_time z u = naive) candidates;
           normalized_forward = filter (\<lambda>u. local_time z u > naive) candidates
       in if exact \<noteq> [] then Inr (Min (set exact))
          else if normalized_forward \<noteq> [] then Inr (Min (set normalized_forward))
          else Inl SlotNotRepresentable)"

text \<open>The loop of \<^verbatim>\<open>resolved_slot_datetimes\<close>; \<open>prev\<close> is \<^verbatim>\<open>result[-1]\<close>.\<close>

fun resolve_slots :: "zone \<Rightarrow> int \<Rightarrow> int \<Rightarrow> instant option \<Rightarrow> string list \<Rightarrow> schedule_error + instant list" where
  "resolve_slots z d gap prev [] = Inr []"
| "resolve_slots z d gap prev (slot # slots) =
     bind_result (local_slot_datetime z d slot) (\<lambda>u.
       let u' = (case prev of None \<Rightarrow> u | Some p \<Rightarrow> max u (p + gap * MINUTE)) in
       if local_date z u' \<noteq> d then Inl DstCrossesDay
       else bind_result (resolve_slots z d gap (Some u') slots) (\<lambda>us. Inr (u' # us)))"

definition resolved_slot_datetimes :: "zone \<Rightarrow> int \<Rightarrow> string list \<Rightarrow> int \<Rightarrow> int \<Rightarrow> schedule_error + instant list" where
  "resolved_slot_datetimes z d values gap maximum_slots =
     bind_result (validate_offline_schedule values maximum_slots gap) (resolve_slots z d gap None)"

definition slot_deadlines :: "zone \<Rightarrow> int \<Rightarrow> string list \<Rightarrow> int \<Rightarrow> int \<Rightarrow> int \<Rightarrow> schedule_error + instant list" where
  "slot_deadlines z d values grace_minutes gap maximum_slots =
     (if \<not> (0 \<le> grace_minutes \<and> grace_minutes \<le> 1440) then Inl GraceOutOfRange
      else
        bind_result (validate_offline_schedule values (max_slots maximum_slots) gap) (\<lambda>schedule.
        bind_result (resolved_slot_datetimes z d schedule gap maximum_slots) (\<lambda>starts.
        bind_result (resolved_slot_datetimes z (d + 1) schedule gap maximum_slots) (\<lambda>next_day.
          Inr (map (\<lambda>u. u + grace_minutes * MINUTE) (tl starts @ [hd next_day]))))))"

section \<open>The next network wake\<close>

text \<open>One slot of the loop: its wake time when that lies ahead, and \<open>now\<close> when the display is already inside
  the lead window and nothing was found before.\<close>

definition sync_candidate :: "instant \<Rightarrow> int \<Rightarrow> instant \<Rightarrow> instant list \<Rightarrow> instant list" where
  "sync_candidate now lead_minutes u candidates =
     (let sync_at = u - lead_minutes * MINUTE in
      if sync_at > now then candidates @ [sync_at]
      else if u > now \<and> candidates = [] then candidates @ [now]
      else candidates)"

definition sync_day :: "zone \<Rightarrow> instant \<Rightarrow> string list \<Rightarrow> int \<Rightarrow> string \<times> string option \<Rightarrow> int \<Rightarrow> int \<Rightarrow>
    instant list \<Rightarrow> int \<Rightarrow> schedule_error + instant list" where
  "sync_day z now slots lead_minutes strat gap maximum_slots candidates target =
     (case snd strat of
        Some t \<Rightarrow>
          bind_result (local_slot_datetime z target t) (\<lambda>u. Inr (if u > now then candidates @ [u] else candidates))
      | None \<Rightarrow>
          bind_result (resolved_slot_datetimes z target slots gap maximum_slots) (\<lambda>us.
            Inr (fold (sync_candidate now lead_minutes) us candidates)))"

definition next_sync_epoch :: "zone \<Rightarrow> instant \<Rightarrow> string list \<Rightarrow> int \<Rightarrow> string \<Rightarrow> string option \<Rightarrow> int \<Rightarrow> int \<Rightarrow>
    schedule_error + int" where
  "next_sync_epoch z now schedule lead_minutes sync_strategy sync_time gap maximum_slots =
     (if \<not> (0 \<le> lead_minutes \<and> lead_minutes \<le> 120) then Inl LeadOutOfRange
      else
        bind_result (normalize_sync_strategy sync_strategy sync_time) (\<lambda>strat.
        bind_result (validate_offline_schedule schedule (max_slots maximum_slots) gap) (\<lambda>slots.
        bind_result (sync_day z now slots lead_minutes strat gap maximum_slots [] (local_date z now)) (\<lambda>c0.
        bind_result (sync_day z now slots lead_minutes strat gap maximum_slots c0 (local_date z now + 1)) (\<lambda>candidates.
          if candidates = [] then Inl NoSyncTime else Inr (Min (set candidates) div 1000000))))))"

section \<open>The preparation plan\<close>

record prepare_request =
  pr_zone :: "zone option"
  pr_schedule_times :: "string list"
  pr_prefetch_lead_minutes :: int
  pr_server_margin_minutes :: int
  pr_future_prepare_hour_local :: int
  pr_sync_strategy :: string
  pr_sync_time :: "string option"
  pr_minimum_gap_minutes :: int
  pr_maximum_slots :: int
  pr_skip_target_dates :: "int list"

record prepare_plan =
  due_target_dates :: "int list"
  next_deadline :: instant

definition technical_deadline :: "prepare_request \<Rightarrow> zone \<Rightarrow> string list \<Rightarrow> string option \<Rightarrow> int \<Rightarrow> schedule_error + instant" where
  "technical_deadline r z slots sync target =
     (case sync of
        Some t \<Rightarrow> local_slot_datetime z target t
      | None \<Rightarrow>
          bind_result (resolved_slot_datetimes z target slots (pr_minimum_gap_minutes r) (pr_maximum_slots r)) (\<lambda>us.
            Inr (hd us - (pr_prefetch_lead_minutes r + pr_server_margin_minutes r) * MINUTE)))"

text \<open>\<^verbatim>\<open>any(slot_at(target, slot) > local_now for slot in slots)\<close>\<close>

definition slot_ahead :: "prepare_request \<Rightarrow> zone \<Rightarrow> string list \<Rightarrow> instant \<Rightarrow> int \<Rightarrow> schedule_error + bool" where
  "slot_ahead r z slots now target =
     bind_result (resolved_slot_datetimes z target slots (pr_minimum_gap_minutes r) (pr_maximum_slots r)) (\<lambda>us.
       Inr (list_ex (\<lambda>u. u > now) us))"

definition handoff :: "prepare_request \<Rightarrow> zone \<Rightarrow> int \<Rightarrow> schedule_error + instant" where
  "handoff r z day = local_slot_datetime z day (time_text (pr_future_prepare_hour_local r * 60))"

definition due_dates :: "prepare_request \<Rightarrow> zone \<Rightarrow> string list \<Rightarrow> string option \<Rightarrow> instant \<Rightarrow> int \<Rightarrow> schedule_error + int list" where
  "due_dates r z slots sync now today =
     bind_result
       (if today \<in> set (pr_skip_target_dates r) then Inr []
        else
          bind_result (technical_deadline r z slots sync today) (\<lambda>technical.
            if now \<ge> technical
            then bind_result (slot_ahead r z slots now today) (\<lambda>ahead. Inr (if ahead then [today] else []))
            else Inr []))
       (\<lambda>due.
          if today + 1 \<in> set (pr_skip_target_dates r) then Inr due
          else
            bind_result (handoff r z today) (\<lambda>h.
            bind_result (technical_deadline r z slots sync (today + 1)) (\<lambda>technical.
              Inr (if now \<ge> min technical h then due @ [today + 1] else due))))"

text \<open>The loop over today and the two days after it; \<open>None\<close> when it ends without a deadline.\<close>

definition deadline_today :: "prepare_request \<Rightarrow> zone \<Rightarrow> string list \<Rightarrow> string option \<Rightarrow> instant \<Rightarrow> int \<Rightarrow>
    schedule_error + instant option" where
  "deadline_today r z slots sync now target =
     bind_result (technical_deadline r z slots sync target) (\<lambda>technical.
       if now < technical then Inr (Some technical)
       else bind_result (slot_ahead r z slots now target) (\<lambda>ahead. Inr (if ahead then Some now else None)))"

definition deadline_later :: "prepare_request \<Rightarrow> zone \<Rightarrow> string list \<Rightarrow> string option \<Rightarrow> instant \<Rightarrow> int \<Rightarrow>
    schedule_error + instant option" where
  "deadline_later r z slots sync now target =
     bind_result (technical_deadline r z slots sync target) (\<lambda>technical.
     bind_result (handoff r z (target - 1)) (\<lambda>h.
       let candidate = min technical h in Inr (Some (if now \<ge> candidate then now else candidate))))"

fun deadline_loop :: "prepare_request \<Rightarrow> zone \<Rightarrow> string list \<Rightarrow> string option \<Rightarrow> instant \<Rightarrow> int \<Rightarrow> int list \<Rightarrow>
    schedule_error + instant option" where
  "deadline_loop r z slots sync now today [] = Inr None"
| "deadline_loop r z slots sync now today (i # is) =
     (if today + i \<in> set (pr_skip_target_dates r) then deadline_loop r z slots sync now today is
      else
        bind_result (if i = 0 then deadline_today r z slots sync now (today + i) else deadline_later r z slots sync now (today + i))
          (\<lambda>d. case d of Some t \<Rightarrow> Inr (Some t) | None \<Rightarrow> deadline_loop r z slots sync now today is))"

definition offline_prepare_plan :: "prepare_request \<Rightarrow> instant \<Rightarrow> schedule_error + prepare_plan" where
  "offline_prepare_plan r now =
     (if \<not> (0 \<le> pr_prefetch_lead_minutes r \<and> pr_prefetch_lead_minutes r \<le> 120) then Inl LeadOutOfRange
      else if \<not> (0 \<le> pr_server_margin_minutes r \<and> pr_server_margin_minutes r \<le> 60) then Inl MarginOutOfRange
      else if \<not> (0 \<le> pr_future_prepare_hour_local r \<and> pr_future_prepare_hour_local r \<le> 23) then Inl HourOutOfRange
      else case pr_zone r of
        None \<Rightarrow> Inl ZoneInvalid
      | Some z \<Rightarrow>
          bind_result (normalize_sync_strategy (pr_sync_strategy r) (pr_sync_time r)) (\<lambda>strat.
          bind_result (validate_offline_schedule (pr_schedule_times r) (max_slots (pr_maximum_slots r)) (pr_minimum_gap_minutes r)) (\<lambda>slots.
          bind_result (due_dates r z slots (snd strat) now (local_date z now)) (\<lambda>due.
          bind_result (deadline_loop r z slots (snd strat) now (local_date z now) [0, 1, 2]) (\<lambda>d.
            Inr \<lparr>due_target_dates = due,
                 next_deadline = (case d of Some t \<Rightarrow> t | None \<Rightarrow> now + 15 * MINUTE)\<rparr>)))))"

section \<open>Weekly schedules\<close>

record weekly_settings =
  weekly_schedule_enabled :: "json option"
  weekday_times :: "string option"
  weekend_times :: "string option"

definition WEEKDAY_TIMES :: string where "WEEKDAY_TIMES = ''08:00,18:00,20:00,22:00''"
definition WEEKEND_TIMES :: string where "WEEKEND_TIMES = ''08:00,10:00,12:00,14:00,16:00,18:00,20:00,22:00''"

fun split_commas :: "string \<Rightarrow> string list" where
  "split_commas [] = [[]]"
| "split_commas (c # cs) =
     (if c = CHR '','' then [] # split_commas cs
      else case split_commas cs of [] \<Rightarrow> [[c]] | w # ws \<Rightarrow> (c # w) # ws)"

definition weekly_times :: "weekly_settings \<Rightarrow> int \<Rightarrow> string list \<Rightarrow> schedule_error + string list" where
  "weekly_times s target fallback =
     (if \<not> py_truthy (case weekly_schedule_enabled s of None \<Rightarrow> JBool True | Some v \<Rightarrow> v) then Inr fallback
      else
        let weekend = weekday target \<ge> 5;
            v = (if weekend then (case weekend_times s of None \<Rightarrow> WEEKEND_TIMES | Some t \<Rightarrow> t)
                 else (case weekday_times s of None \<Rightarrow> WEEKDAY_TIMES | Some t \<Rightarrow> t))
        in validate_offline_schedule (split_commas v) 16 30)"

section \<open>Wall times of slots\<close>

definition wall_of :: "int \<Rightarrow> string \<Rightarrow> int" where
  "wall_of d slot = d * DAY + clock_minutes slot * MINUTE"

text \<open>The distance of two times around the clock lies between the gap and a day less the gap.\<close>

definition clock_apart :: "int \<Rightarrow> string \<Rightarrow> string \<Rightarrow> bool" where
  "clock_apart gap s t = (gap \<le> \<bar>clock_minutes s - clock_minutes t\<bar> \<and> \<bar>clock_minutes s - clock_minutes t\<bar> \<le> 1440 - gap)"

section \<open>Examples\<close>

text \<open>A zone that is five hours behind UTC and four in summer, and a preparation request in it.\<close>

definition dst_zone :: zone where
  "dst_zone = \<lparr>base_offset = - 300 * MINUTE,
     transitions = [(70 * DAY + 420 * MINUTE, - 240 * MINUTE), (300 * DAY + 360 * MINUTE, - 300 * MINUTE)]\<rparr>"

definition demo_prepare :: prepare_request where
  "demo_prepare = \<lparr>pr_zone = Some dst_zone, pr_schedule_times = [''20:00''], pr_prefetch_lead_minutes = 5,
     pr_server_margin_minutes = 5, pr_future_prepare_hour_local = 10, pr_sync_strategy = [], pr_sync_time = None,
     pr_minimum_gap_minutes = 60, pr_maximum_slots = 24, pr_skip_target_dates = []\<rparr>"

section \<open>Lemmas on times of day\<close>

lemma is_timeE:
  assumes "is_time s"
  obtains a b d e where "s = [a, b, CHR '':'', d, e]" "0 \<le> digit a" "0 \<le> digit b" "digit b \<le> 9"
    "0 \<le> digit d" "digit d \<le> 5" "0 \<le> digit e" "digit e \<le> 9" "digit a \<le> 1 \<or> (digit a = 2 \<and> digit b \<le> 3)"
  using assms by (cases s rule: is_time.cases) auto

lemma clock_minutes_range: "is_time s \<Longrightarrow> 0 \<le> clock_minutes s \<and> clock_minutes s < 1440"
  by (elim is_timeE) auto

lemma digit_le: "a \<le> b \<longleftrightarrow> digit a \<le> digit b"
  by (simp add: digit_def less_eq_char_def)

lemma digit_inj: "digit a = digit b \<longleftrightarrow> a = b"
  by (simp add: digit_def)

lemma digit_less: "a < b \<longleftrightarrow> digit a < digit b"
  using digit_le digit_inj by (metis order_less_le)

text \<open>The texts of times sort like the times.\<close>

lemma time_less: "is_time s \<Longrightarrow> is_time t \<Longrightarrow> s < t \<longleftrightarrow> clock_minutes s < clock_minutes t"
  by (elim is_timeE) (auto simp: digit_less digit_inj [symmetric])

lemma time_eq: "is_time s \<Longrightarrow> is_time t \<Longrightarrow> clock_minutes s = clock_minutes t \<longleftrightarrow> s = t"
  using time_less by (metis less_irrefl linorder_neqE)

lemma digit_char: "0 \<le> n \<Longrightarrow> n \<le> 9 \<Longrightarrow> digit (char_of (nat n + 48)) = n"
  by (simp add: digit_def of_char_of nat_less_iff)

lemma time_text_is_time:
  assumes "0 \<le> m" "m < 1440"
  shows "is_time (time_text m)" "clock_minutes (time_text m) = m"
proof -
  define h k where "h = m div 60" and "k = m mod 60"
  have hk: "0 \<le> h" "h < 24" "0 \<le> k" "k < 60" "m = h * 60 + k" using assms by (auto simp: h_def k_def)
  define a b where "a = h div 10" and "b = h mod 10"
  define d e where "d = k div 10" and "e = k mod 10"
  have ab: "h = a * 10 + b" "0 \<le> a" "0 \<le> b" "b \<le> 9" using hk by (auto simp: a_def b_def)
  then have a2: "a \<le> 1 \<or> (a = 2 \<and> b \<le> 3)" using hk(2) by presburger
  have de: "k = d * 10 + e" "0 \<le> d" "d \<le> 5" "0 \<le> e" "e \<le> 9" using hk by (auto simp: d_def e_def)
  have txt_eq: "time_text m = [char_of (nat a + 48), char_of (nat b + 48), CHR '':'', char_of (nat d + 48), char_of (nat e + 48)]"
    unfolding time_text_def Let_def h_def [symmetric] k_def [symmetric] a_def b_def d_def e_def ..
  have dig: "digit (char_of (nat a + 48)) = a" "digit (char_of (nat b + 48)) = b"
    "digit (char_of (nat d + 48)) = d" "digit (char_of (nat e + 48)) = e"
    using ab a2 de by (auto intro!: digit_char)
  show "is_time (time_text m)" unfolding txt_eq using ab a2 de by (simp add: dig)
  have "clock_minutes (time_text m) = (a * 10 + b) * 60 + (d * 10 + e)" unfolding txt_eq by (simp add: dig)
  then show "clock_minutes (time_text m) = m" using hk(5) ab(1) de(1) by simp
qed

section \<open>Lemmas on schedules\<close>

lemma successive_gaps:
  "list_all (\<lambda>g. gap \<le> g) (map2 (\<lambda>left right. right - left) ms (tl ms)) \<longleftrightarrow> successively (\<lambda>a b. gap \<le> b - a) ms"
  by (induction ms rule: induct_list012) auto

lemma sorted_wrt_first_last:
  assumes "sorted_wrt (\<lambda>a b. gap \<le> b - a) ms" "0 \<le> gap" "a \<in> set ms"
  shows "hd ms \<le> a \<and> a \<le> last (ms :: int list)"
proof -
  have "sorted ms" using assms(1,2) by (rule_tac sorted_wrt_mono_rel [of _ "\<lambda>a b. gap \<le> b - a"]) auto
  moreover obtain i where "i < length ms" "a = ms ! i" using assms(3) by (auto simp: in_set_conv_nth)
  moreover from this have "ms \<noteq> []" by auto
  ultimately show ?thesis by (simp add: hd_conv_nth last_conv_nth sorted_nth_mono)
qed

lemma cyclic_gaps_iff:
  assumes "0 \<le> gap" "sorted_wrt (<) ms" "ms \<noteq> []"
  shows "list_all (\<lambda>g. gap \<le> g) (cyclic_gaps ms) \<longleftrightarrow>
    (\<forall>a \<in> set ms. \<forall>b \<in> set ms. a \<noteq> b \<longrightarrow> gap \<le> \<bar>a - b\<bar> \<and> \<bar>a - b\<bar> \<le> 1440 - gap)" (is "?L = ?R")
proof -
  let ?far = "sorted_wrt (\<lambda>a b. gap \<le> b - a) ms"
  have trans: "transp (\<lambda>a b. gap \<le> b - a)" using assms(1) by (auto intro!: transpI)
  have L: "?L \<longleftrightarrow> ?far \<and> (length ms > 1 \<longrightarrow> gap \<le> hd ms + 1440 - last ms)"
    by (simp add: cyclic_gaps_def successive_gaps successively_conv_sorted_wrt [OF trans])
  show ?thesis
  proof
    assume ?L
    then have far: ?far and wrap: "length ms > 1 \<longrightarrow> gap \<le> hd ms + 1440 - last ms" using L by auto
    show ?R
    proof (intro ballI impI)
      fix a b assume ab: "a \<in> set ms" "b \<in> set ms" "a \<noteq> b"
      obtain i j where ij: "a = ms ! i" "b = ms ! j" "i < length ms" "j < length ms" using ab by (auto simp: in_set_conv_nth)
      then have "gap \<le> \<bar>a - b\<bar>"
        using far ab(3) sorted_wrt_nth_less [OF far, of i j] sorted_wrt_nth_less [OF far, of j i] by (cases i j rule: linorder_cases) auto
      moreover have "length ms > 1" using ij ab(3) by (cases i j rule: linorder_cases) auto
      ultimately show "gap \<le> \<bar>a - b\<bar> \<and> \<bar>a - b\<bar> \<le> 1440 - gap"
        using wrap sorted_wrt_first_last [OF far assms(1) ab(1)] sorted_wrt_first_last [OF far assms(1) ab(2)] by auto
    qed
  next
    assume R: ?R
    have ?far unfolding sorted_wrt_iff_nth_less
    proof (intro allI impI)
      fix i j assume ij: "i < j" "j < length ms"
      then have "ms ! i < ms ! j" using assms(2) by (simp add: sorted_wrt_nth_less)
      moreover have "ms ! i \<in> set ms" "ms ! j \<in> set ms" using ij by auto
      ultimately show "gap \<le> ms ! j - ms ! i" using R by fastforce
    qed
    moreover have "gap \<le> hd ms + 1440 - last ms" if "length ms > 1"
    proof -
      have "hd ms < last ms" using assms(2,3) that sorted_wrt_nth_less [OF assms(2), of 0 "length ms - 1"] by (simp add: hd_conv_nth last_conv_nth)
      moreover have "hd ms \<in> set ms" "last ms \<in> set ms" using assms(3) by auto
      ultimately show ?thesis using R by fastforce
    qed
    ultimately show ?L using L by blast
  qed
qed

lemma sorted_times:
  assumes "list_all is_time ts" "distinct ts"
  shows "sorted_wrt (<) (map clock_minutes (sort ts))"
proof -
  have "sorted_wrt (<) (sort ts)" using assms(2) by (simp add: strict_sorted_iff)
  then show ?thesis
    using assms(1) unfolding sorted_wrt_map by (rule_tac sorted_wrt_mono_rel [of _ "(<)"]) (auto simp: time_less list_all_iff)
qed

lemma apart_distinct:
  assumes "list_all is_time ts"
  shows "(\<forall>a \<in> clock_minutes ` set ts. \<forall>b \<in> clock_minutes ` set ts. a \<noteq> b \<longrightarrow> gap \<le> \<bar>a - b\<bar> \<and> \<bar>a - b\<bar> \<le> 1440 - gap) \<longleftrightarrow>
    (\<forall>s \<in> set ts. \<forall>t \<in> set ts. s \<noteq> t \<longrightarrow> clock_apart gap s t)"
proof -
  have "clock_minutes s = clock_minutes t \<longleftrightarrow> s = t" if "s \<in> set ts" "t \<in> set ts" for s t
    using assms(1) that by (auto simp: list_all_iff time_eq)
  then show ?thesis by (simp add: clock_apart_def cong: ball_cong)
qed

text \<open>Validation accepts exactly the schedules of valid size, gap and times whose times are all different
  and pairwise apart around the clock, and returns them in order.\<close>

lemma validate_offline_schedule_iff:
  "validate_offline_schedule values maximum gap = Inr ordered \<longleftrightarrow>
     1 \<le> length values \<and> int (length values) \<le> maximum \<and> 30 \<le> gap \<and> gap \<le> 360 \<and>
     list_all is_time (map py_strip values) \<and> distinct (map py_strip values) \<and>
     (\<forall>s \<in> set (map py_strip values). \<forall>t \<in> set (map py_strip values). s \<noteq> t \<longrightarrow> clock_apart gap s t) \<and>
     ordered = sort (map py_strip values)"
proof -
  let ?ts = "map py_strip values"
  define far where "far = (\<forall>s \<in> set ?ts. \<forall>t \<in> set ?ts. s \<noteq> t \<longrightarrow> clock_apart gap s t)"
  have gaps: "list_ex (\<lambda>g. g < gap) (cyclic_gaps (map clock_minutes (sort ?ts))) \<longleftrightarrow> \<not> far"
    if "values \<noteq> []" "list_all is_time ?ts" "distinct ?ts" "30 \<le> gap"
  proof -
    let ?ms = "map clock_minutes (sort ?ts)"
    have "?ms \<noteq> []" using that(1) by (metis length_0_conv length_map length_sort)
    moreover have "set ?ms = clock_minutes ` set ?ts" by simp
    ultimately have "list_all (\<lambda>g. gap \<le> g) (cyclic_gaps ?ms) \<longleftrightarrow> far"
      unfolding far_def apart_distinct [OF that(2), symmetric]
      using cyclic_gaps_iff [OF order.trans [OF _ that(4)] sorted_times [OF that(2,3)]] by (simp only:) simp
    then show ?thesis unfolding list_ex_iff list_all_iff by (metis not_le)
  qed
  have times: "list_ex (\<lambda>v. \<not> is_time v) ?ts \<longleftrightarrow> \<not> list_all is_time ?ts" by (simp add: list_ex_iff list_all_iff)
  show ?thesis
    unfolding validate_offline_schedule_def Let_def MINIMUM_ALLOWED_GAP_MINUTES_def MAXIMUM_ALLOWED_GAP_MINUTES_def
      far_def [symmetric] times
    using gaps by (cases "values = []"; cases "list_all is_time ?ts"; cases "distinct ?ts") auto
qed

lemma validate_revalidates:
  assumes "validate_offline_schedule values maximum gap = Inr schedule" "int (length values) \<le> maximum'"
  shows "validate_offline_schedule schedule maximum' gap = Inr schedule"
proof -
  note v = assms(1) [unfolded validate_offline_schedule_iff]
  have "map py_strip schedule = schedule"
  proof (rule map_idI)
    fix s assume "s \<in> set schedule"
    then have "is_time s" using v by (auto simp: list_all_iff)
    then show "py_strip s = s"
      by (elim is_timeE) (rule py_strip_no_space, auto simp: is_space_def digit_def)
  qed
  then show ?thesis unfolding validate_offline_schedule_iff using v assms(2) by (auto simp: list_all_iff sorted_sort_id)
qed

lemma schedule_facts:
  assumes "validate_offline_schedule values maximum gap = Inr schedule"
  shows "list_all is_time schedule" "schedule \<noteq> []" "length schedule = length values" "sorted_wrt (<) (map clock_minutes schedule)"
    "30 \<le> gap" "sorted_wrt (\<lambda>s t. gap \<le> clock_minutes t - clock_minutes s) schedule"
proof -
  note v = assms [unfolded validate_offline_schedule_iff]
  show times: "list_all is_time schedule" and "schedule \<noteq> []" and "length schedule = length values" and "30 \<le> gap"
    using v by (auto simp: list_all_iff simp flip: length_0_conv)
  show inc: "sorted_wrt (<) (map clock_minutes schedule)" using sorted_times v by blast
  show "sorted_wrt (\<lambda>s t. gap \<le> clock_minutes t - clock_minutes s) schedule"
  proof (rule sorted_wrt_mono_rel [of _ "\<lambda>s t. clock_minutes s < clock_minutes t"])
    show "sorted_wrt (\<lambda>s t. clock_minutes s < clock_minutes t) schedule" using inc by (simp add: sorted_wrt_map)
    fix s t assume st: "s \<in> set schedule" "t \<in> set schedule" "clock_minutes s < clock_minutes t"
    then have "s \<noteq> t" by blast
    moreover have "s \<in> set (map py_strip values)" "t \<in> set (map py_strip values)" using st v by simp_all
    ultimately have "clock_apart gap s t" using v by blast
    then show "gap \<le> clock_minutes t - clock_minutes s" using st(3) by (auto simp: clock_apart_def)
  qed
qed

section \<open>Lemmas on instants\<close>

lemma local_slot_eq:
  assumes "is_time slot"
  shows "local_slot_datetime z d slot =
    (let us = map (\<lambda>fld. utc_time z fld (wall_of d slot)) [False, True];
         exact = filter (\<lambda>u. local_time z u = wall_of d slot) us;
         forward = filter (\<lambda>u. local_time z u > wall_of d slot) us
     in if exact \<noteq> [] then Inr (Min (set exact)) else if forward \<noteq> [] then Inr (Min (set forward)) else Inl SlotNotRepresentable)"
  using assms unfolding local_slot_datetime_def schedule_minutes_def wall_of_def Let_def by (simp only: if_True bind_result_simps)

lemma local_slot_found:
  assumes "wf_zone z" "is_time slot"
  obtains t where "local_slot_datetime z d slot = Inr t" "wall_of d slot \<le> local_time z t"
    "\<And>u. local_time z u = wall_of d slot \<Longrightarrow> local_time z t = wall_of d slot \<and> t \<le> u"
proof -
  let ?w = "wall_of d slot"
  let ?us = "map (\<lambda>fld. utc_time z fld ?w) [False, True]"
  let ?exact = "filter (\<lambda>u. local_time z u = ?w) ?us"
  let ?forward = "filter (\<lambda>u. local_time z u > ?w) ?us"
  have pick: "Min (set xs) \<in> set xs" "u \<in> set xs \<Longrightarrow> Min (set xs) \<le> u" if "xs \<noteq> []" for xs :: "int list" and u
    using that by (auto intro: Min_in)
  have reading: "u \<in> set ?exact" if "local_time z u = ?w" for u using reading_cases [OF assms(1) that] that by auto
  show ?thesis
  proof (cases "?exact = []")
    case False
    then have r: "local_slot_datetime z d slot = Inr (Min (set ?exact))" unfolding local_slot_eq [OF assms(2)] Let_def by (simp only: if_True simp_thms)
    have "local_time z (Min (set ?exact)) = ?w" using pick(1) [OF False] by (simp only: set_filter mem_Collect_eq)
    then show ?thesis using that [OF r] pick(2) [OF False] reading by simp
  next
    case True
    have "utc_time z False ?w \<in> set ?forward" using utc_time_forward [OF assms(1), of ?w] True by (auto simp: filter_empty_conv order_less_le)
    then have ne: "?forward \<noteq> []" by (metis empty_iff empty_set)
    then have r: "local_slot_datetime z d slot = Inr (Min (set ?forward))" unfolding local_slot_eq [OF assms(2)] Let_def using True by (simp only: if_True if_False simp_thms)
    have "local_time z (Min (set ?forward)) > ?w" using pick(1) [OF ne] by (simp only: set_filter mem_Collect_eq)
    then show ?thesis using that [OF r] reading True by (metis empty_iff empty_set order_less_imp_le)
  qed
qed

text \<open>In a zone without transitions the slot is exact.\<close>

lemma local_slot_fixed:
  assumes "transitions z = []" "is_time slot"
  shows "local_slot_datetime z d slot = Inr (wall_of d slot - base_offset z)"
  unfolding local_slot_eq [OF assms(2)] using assms(1) by (simp add: utc_time_def local_time_def)

lemma resolve_slots_spec:
  assumes "resolve_slots z d gap prev slots = Inr us" "0 \<le> gap"
  shows "length us = length slots \<and> sorted_wrt (\<lambda>a b. a + gap * MINUTE \<le> b) us \<and> list_all (\<lambda>u. local_date z u = d) us \<and>
    list_all2 (\<lambda>slot u. \<exists>v. local_slot_datetime z d slot = Inr v \<and> v \<le> u) slots us \<and>
    (case prev of None \<Rightarrow> True | Some p \<Rightarrow> list_all (\<lambda>u. p + gap * MINUTE \<le> u) us)"
  using assms(1)
proof (induction slots arbitrary: prev us)
  case (Cons slot slots)
  obtain v u vs where v: "local_slot_datetime z d slot = Inr v" and u: "u = (case prev of None \<Rightarrow> v | Some p \<Rightarrow> max v (p + gap * MINUTE))"
    and d: "local_date z u = d" and vs: "resolve_slots z d gap (Some u) slots = Inr vs" "us = u # vs"
    using Cons.prems by (auto simp: bind_result_Inr Let_def split: if_splits)
  have g: "0 \<le> gap * MINUTE" using assms(2) by (simp add: MINUTE_def)
  have "v \<le> u" and p: "case prev of None \<Rightarrow> True | Some p \<Rightarrow> p + gap * MINUTE \<le> u" using u by (auto split: option.splits)
  with Cons.IH [OF vs(1)] v d vs(2) g show ?case by (auto simp: list_all_iff split: option.splits)
qed (auto split: option.splits)

lemma resolved_slots_spec:
  assumes "resolved_slot_datetimes z d values gap maximum = Inr us"
  obtains schedule where "validate_offline_schedule values maximum gap = Inr schedule" "length us = length schedule" "us \<noteq> []"
    "sorted_wrt (\<lambda>a b. a + gap * MINUTE \<le> b) us" "list_all (\<lambda>u. local_date z u = d) us"
    "list_all2 (\<lambda>slot u. \<exists>v. local_slot_datetime z d slot = Inr v \<and> v \<le> u) schedule us"
proof -
  obtain schedule where s: "validate_offline_schedule values maximum gap = Inr schedule" "resolve_slots z d gap None schedule = Inr us"
    using assms by (auto simp: resolved_slot_datetimes_def bind_result_Inr)
  then show ?thesis using that [OF s(1)] resolve_slots_spec [OF s(2)] schedule_facts [OF s(1)] by fastforce
qed

lemma resolve_slots_fixed:
  assumes "transitions z = []" "list_all is_time slots" "sorted_wrt (\<lambda>s t. gap \<le> clock_minutes t - clock_minutes s) slots"
    and "\<And>p s. prev = Some p \<Longrightarrow> s \<in> set slots \<Longrightarrow> p + gap * MINUTE \<le> wall_of d s - base_offset z"
  shows "resolve_slots z d gap prev slots = Inr (map (\<lambda>s. wall_of d s - base_offset z) slots)"
  using assms(2-)
proof (induction slots arbitrary: prev)
  case (Cons slot slots)
  let ?u = "wall_of d slot - base_offset z"
  have t: "is_time slot" using Cons.prems(1) by simp
  have keep: "(case prev of None \<Rightarrow> ?u | Some p \<Rightarrow> max ?u (p + gap * MINUTE)) = ?u"
    using Cons.prems(3) [of _ slot] by (auto split: option.splits)
  have "local_date z ?u = (d * DAY + clock_minutes slot * MINUTE) div DAY"
    using assms(1) by (simp add: local_date_def local_time_def wall_of_def)
  also have "\<dots> = d" using clock_minutes_range [OF t] by (simp add: DAY_def MINUTE_def)
  finally have day: "local_date z ?u = d" .
  have later: "?u + gap * MINUTE \<le> wall_of d s - base_offset z" if "s \<in> set slots" for s
  proof -
    have "gap * MINUTE \<le> (clock_minutes s - clock_minutes slot) * MINUTE"
      using Cons.prems(2) that by (intro mult_right_mono) (auto simp: MINUTE_def)
    then show ?thesis by (simp add: wall_of_def algebra_simps)
  qed
  have "resolve_slots z d gap (Some ?u) slots = Inr (map (\<lambda>s. wall_of d s - base_offset z) slots)"
  proof (rule Cons.IH)
    show "p + gap * MINUTE \<le> wall_of d s - base_offset z" if "Some ?u = Some p" "s \<in> set slots" for p s
      using later [OF that(2)] that(1) by auto
  qed (use Cons.prems in auto)
  then show ?case using keep day local_slot_fixed [OF assms(1) t] by simp
qed simp

lemma resolved_slots_fixed:
  assumes "transitions z = []" "validate_offline_schedule values maximum gap = Inr schedule"
  shows "resolved_slot_datetimes z d values gap maximum = Inr (map (\<lambda>s. wall_of d s - base_offset z) schedule)"
  using resolve_slots_fixed [OF assms(1) schedule_facts(1,6) [OF assms(2)], of None] assms(2)
  by (simp add: resolved_slot_datetimes_def)

section \<open>Lemmas on the next wake\<close>

lemma sorted_spread: "0 \<le> (g::int) \<Longrightarrow> sorted_wrt (\<lambda>a b. a + g \<le> b) us \<Longrightarrow> sorted us"
  by (erule sorted_wrt_mono_rel [rotated]) simp

lemma fold_sync_candidate:
  assumes "sorted us" "\<forall>c \<in> set cs. now \<le> c" "0 \<le> lead" "cs = [] \<or> now \<in> set cs \<or> (\<forall>u \<in> set us. now < u - lead * MINUTE)"
  shows "(\<forall>c \<in> set (fold (sync_candidate now lead) us cs). now \<le> c) \<and> set cs \<subseteq> set (fold (sync_candidate now lead) us cs) \<and>
    (\<forall>u \<in> set us. now < u \<longrightarrow> (\<exists>c \<in> set (fold (sync_candidate now lead) us cs). c \<le> max now (u - lead * MINUTE)))"
  using assms(1,2,4)
proof (induction us arbitrary: cs)
  case (Cons u us)
  let ?s = "u - lead * MINUTE"
  let ?cs = "sync_candidate now lead u cs"
  have step: "\<forall>c \<in> set ?cs. now \<le> c" "set cs \<subseteq> set ?cs"
    using Cons.prems(2) by (auto simp: sync_candidate_def Let_def)
  have next_ok: "?cs = [] \<or> now \<in> set ?cs \<or> (\<forall>v \<in> set us. now < v - lead * MINUTE)"
    using Cons.prems(1,3) by (auto simp: sync_candidate_def Let_def)
  have here: "\<exists>c \<in> set ?cs. c \<le> max now ?s" if "now < u"
    using that Cons.prems(3) by (auto simp: sync_candidate_def Let_def)
  show ?case using Cons.IH [of ?cs, OF _ step(1) next_ok] Cons.prems(1) step(2) here by (auto; blast)
qed auto

lemma fold_sync_keeps:
  "\<forall>c \<in> set cs. now \<le> c \<Longrightarrow>
     (\<forall>c \<in> set (fold (sync_candidate now lead) us cs). now \<le> c) \<and> set cs \<subseteq> set (fold (sync_candidate now lead) us cs)"
proof (induction us arbitrary: cs)
  case (Cons u us)
  have "\<forall>c \<in> set (sync_candidate now lead u cs). now \<le> c" "set cs \<subseteq> set (sync_candidate now lead u cs)"
    using Cons.prems by (auto simp: sync_candidate_def Let_def)
  then show ?case using Cons.IH [of "sync_candidate now lead u cs"] by auto
qed simp

lemma fold_sync_reaches:
  assumes "u \<in> set us" "now < u"
  shows "fold (sync_candidate now lead) us cs \<noteq> []"
  using assms(1)
proof (induction us arbitrary: cs)
  case (Cons v us)
  have grows: "cs \<noteq> [] \<Longrightarrow> fold (sync_candidate now lead) us cs \<noteq> []" for us cs
    by (induction us arbitrary: cs) (auto simp: sync_candidate_def Let_def)
  show ?case
  proof (cases "u = v")
    case True
    then have "sync_candidate now lead v cs \<noteq> []" using assms(2) by (auto simp: sync_candidate_def Let_def)
    then show ?thesis using grows by simp
  qed (use Cons in auto)
qed simp

lemma sync_day_keeps:
  assumes "sync_day z now slots lead strat gap m cs target = Inr cs'" "\<forall>c \<in> set cs. now \<le> c"
  shows "(\<forall>c \<in> set cs'. now \<le> c) \<and> set cs \<subseteq> set cs'"
  using assms fold_sync_keeps [OF assms(2), of lead]
  by (auto simp: sync_day_def bind_result_Inr split: option.splits if_splits)

lemma next_syncE:
  assumes "next_sync_epoch z now schedule lead ss st gap m = Inr e"
  obtains strat slots c0 cs where "0 \<le> lead" "lead \<le> 120" "normalize_sync_strategy ss st = Inr strat"
    "validate_offline_schedule schedule (max_slots m) gap = Inr slots"
    "sync_day z now slots lead strat gap m [] (local_date z now) = Inr c0"
    "sync_day z now slots lead strat gap m c0 (local_date z now + 1) = Inr cs" "cs \<noteq> []" "e = Min (set cs) div 1000000"
  using assms by (auto simp: next_sync_epoch_def bind_result_Inr split: if_splits)

lemma fold_sync_bound:
  assumes "0 \<le> lead" "\<forall>u \<in> set us. u \<le> b" "now \<le> b" "\<forall>c \<in> set cs. c \<le> b"
  shows "\<forall>c \<in> set (fold (sync_candidate now lead) us cs). c \<le> b"
  using assms(2,4)
proof (induction us arbitrary: cs)
  case (Cons u us)
  have "0 \<le> lead * MINUTE" using assms(1) by (simp add: MINUTE_def)
  then have "\<forall>c \<in> set (sync_candidate now lead u cs). c \<le> b"
    using Cons.prems assms(3) by (auto simp: sync_candidate_def Let_def)
  then show ?case using Cons by simp
qed simp

text \<open>A day of a zone without transitions: the slots lie inside the day.\<close>

lemma wall_of_day:
  assumes "is_time s"
  shows "d * DAY \<le> wall_of d s \<and> wall_of d s < (d + 1) * DAY"
  using clock_minutes_range [OF assms] by (simp add: wall_of_def DAY_def MINUTE_def algebra_simps)

lemma local_date_day: "local_date z u * DAY \<le> local_time z u \<and> local_time z u < (local_date z u + 1) * DAY"
  unfolding local_date_def DAY_def by presburger

lemma strategy_time: "normalize_sync_strategy ss st = Inr strat \<Longrightarrow> snd strat = Some t \<Longrightarrow> is_time t"
  by (auto simp: normalize_sync_strategy_def Let_def split: if_splits option.splits)

lemma sync_day_fixed:
  assumes "transitions z = []" "0 \<le> lead" "normalize_sync_strategy ss st = Inr strat"
    and "validate_offline_schedule slots m gap = Inr slots" "local_date z now \<le> target"
    and "\<forall>c \<in> set cs. c \<le> now + (target - local_date z now + 1) * DAY"
  shows "\<exists>cs'. sync_day z now slots lead strat gap m cs target = Inr cs' \<and>
    (\<forall>c \<in> set cs'. c \<le> now + (target - local_date z now + 1) * DAY) \<and> (local_date z now < target \<longrightarrow> cs' \<noteq> [])"
proof -
  let ?b = "now + (target - local_date z now + 1) * DAY"
  have ltime: "local_time z now = now + base_offset z" using assms(1) by (simp add: local_time_def)
  have in_day: "wall_of target s - base_offset z \<le> ?b" and ahead: "local_date z now < target \<Longrightarrow> now < wall_of target s - base_offset z"
    if "is_time s" for s
  proof -
    show "wall_of target s - base_offset z \<le> ?b"
      using wall_of_day [OF that, of target] local_date_day [of z now] ltime by (simp add: algebra_simps)
    show "now < wall_of target s - base_offset z" if "local_date z now < target"
    proof -
      have "(local_date z now + 1) * DAY \<le> target * DAY" using that by (intro mult_right_mono) (auto simp: DAY_def)
      then show ?thesis using wall_of_day [OF \<open>is_time s\<close>, of target] local_date_day [of z now] ltime by linarith
    qed
  qed
  show ?thesis
  proof (cases "snd strat")
    case (Some t)
    then show ?thesis
      using in_day ahead assms(6) strategy_time [OF assms(3) Some] local_slot_fixed [OF assms(1)] by (auto simp: sync_day_def)
  next
    case None
    let ?us = "map (\<lambda>s. wall_of target s - base_offset z) slots"
    have us: "resolved_slot_datetimes z target slots gap m = Inr ?us" by (rule resolved_slots_fixed [OF assms(1,4)])
    have times: "\<forall>s \<in> set slots. is_time s" "slots \<noteq> []" using schedule_facts(1,2) [OF assms(4)] by (auto simp: list_all_iff)
    have "now \<le> ?b" using assms(5) by (simp add: DAY_def)
    then have "\<forall>c \<in> set (fold (sync_candidate now lead) ?us cs). c \<le> ?b"
      using in_day times(1) assms(6) by (intro fold_sync_bound [OF assms(2)]) auto
    moreover have "fold (sync_candidate now lead) ?us cs \<noteq> []" if "local_date z now < target"
      using fold_sync_reaches [of "wall_of target (hd slots) - base_offset z" ?us now lead cs] ahead [OF _ that] times by simp
    ultimately show ?thesis using None us by (auto simp: sync_day_def)
  qed
qed

section \<open>Properties\<close>

text \<open>A slot is found in every zone whose transitions do not overlap, across gaps and folds of the
  clock: the call returns an instant, the local clock then shows the slot's time or a later one, and when
  the local clock shows the slot's time at all, it is the first instant at which it does.\<close>

theorem local_slot_resolved:
  assumes "wf_zone z" "is_time slot"
  shows "\<exists>t. local_slot_datetime z d slot = Inr t \<and> d * DAY + clock_minutes slot * MINUTE \<le> local_time z t \<and>
    (\<forall>u. local_time z u = d * DAY + clock_minutes slot * MINUTE \<longrightarrow>
       local_time z t = d * DAY + clock_minutes slot * MINUTE \<and> t \<le> u)"
  using local_slot_found [OF assms, of d] by (metis wall_of_def)

theorem local_slot_resolved_witness:
  "\<exists>t. local_slot_datetime dst_zone 300 ''01:30'' = Inr t \<and> local_time dst_zone t = 300 * DAY + 90 * MINUTE \<and>
    local_slot_datetime dst_zone 70 ''02:30'' = Inr (70 * DAY + 450 * MINUTE) \<and>
    local_time dst_zone (70 * DAY + 450 * MINUTE) = 70 * DAY + 210 * MINUTE"
proof -
  have wf: "wf_zone dst_zone" "is_time ''01:30''" by code_simp+
  have at: "local_time dst_zone (300 * DAY + 330 * MINUTE) = 300 * DAY + clock_minutes ''01:30'' * MINUTE"
    "clock_minutes ''01:30'' = 90"
    "local_slot_datetime dst_zone 70 ''02:30'' = Inr (70 * DAY + 450 * MINUTE)"
    "local_time dst_zone (70 * DAY + 450 * MINUTE) = 70 * DAY + 210 * MINUTE" by code_simp+
  show ?thesis using local_slot_resolved [OF wf, of 300] at by metis
qed

text \<open>C35. Validation of a schedule accepts exactly the lists of allowed size and gap whose trimmed entries
  are times of day, all different, with at least the gap between any two of them around the clock (also
  across midnight), and it returns them in the order of the day.\<close>

theorem validate_schedule_exact:
  "validate_offline_schedule values maximum gap = Inr ordered \<longleftrightarrow>
     1 \<le> length values \<and> int (length values) \<le> maximum \<and> 30 \<le> gap \<and> gap \<le> 360 \<and>
     list_all is_time (map py_strip values) \<and> distinct (map py_strip values) \<and>
     (\<forall>s \<in> set (map py_strip values). \<forall>t \<in> set (map py_strip values). s \<noteq> t \<longrightarrow>
        gap \<le> \<bar>clock_minutes s - clock_minutes t\<bar> \<and> \<bar>clock_minutes s - clock_minutes t\<bar> \<le> 1440 - gap) \<and>
     ordered = sort (map py_strip values)"
  unfolding validate_offline_schedule_iff clock_apart_def ..

theorem validate_schedule_exact_witness:
  "validate_offline_schedule ['' 20:00'', ''08:00''] 24 60 = Inr [''08:00'', ''20:00''] \<and> int (length ['' 20:00'', ''08:00'']) \<le> 24"
proof -
  have "validate_offline_schedule ['' 20:00'', ''08:00''] 24 60 = Inr [''08:00'', ''20:00'']" by code_simp
  then show ?thesis using validate_schedule_exact [of "['' 20:00'', ''08:00'']" 24 60 "[''08:00'', ''20:00'']"] by blast
qed

text \<open>The instants of a day keep every slot of the schedule: one per slot, on the day itself, never before
  the slot, and at least the gap apart, so no two displays collide when the clock changes. Without a change
  of the clock the call always succeeds with the exact times.\<close>

theorem resolved_slots_spaced:
  assumes "validate_offline_schedule values maximum gap = Inr schedule"
  shows "(\<forall>us. resolved_slot_datetimes z d values gap maximum = Inr us \<longrightarrow>
      length us = length schedule \<and> sorted_wrt (\<lambda>a b. a + gap * MINUTE \<le> b) us \<and> list_all (\<lambda>u. local_date z u = d) us \<and>
      list_all2 (\<lambda>slot u. \<exists>v. local_slot_datetime z d slot = Inr v \<and> v \<le> u) schedule us) \<and>
    (transitions z = [] \<longrightarrow>
      (\<exists>us. resolved_slot_datetimes z d values gap maximum = Inr us \<and>
        map (local_time z) us = map (\<lambda>s. d * DAY + clock_minutes s * MINUTE) schedule))"
proof (intro conjI allI impI)
  fix us assume us: "resolved_slot_datetimes z d values gap maximum = Inr us"
  show "length us = length schedule" "sorted_wrt (\<lambda>a b. a + gap * MINUTE \<le> b) us" "list_all (\<lambda>u. local_date z u = d) us"
    "list_all2 (\<lambda>slot u. \<exists>v. local_slot_datetime z d slot = Inr v \<and> v \<le> u) schedule us"
    using resolved_slots_spec [OF us] assms by auto
next
  assume fixed: "transitions z = []"
  show "\<exists>us. resolved_slot_datetimes z d values gap maximum = Inr us \<and>
      map (local_time z) us = map (\<lambda>s. d * DAY + clock_minutes s * MINUTE) schedule"
    using resolved_slots_fixed [OF fixed assms] fixed by (simp add: local_time_def wall_of_def)
qed

theorem resolved_slots_spaced_witness:
  "\<exists>us. resolved_slot_datetimes dst_zone 70 [''02:30'', ''03:10'', ''01:00''] 30 24 = Inr us \<and>
    map (local_time dst_zone) us = map (\<lambda>m. 70 * DAY + m * MINUTE) [60, 210, 240] \<and> sorted_wrt (\<lambda>a b. a + 30 * MINUTE \<le> b) us"
proof -
  have v: "validate_offline_schedule [''02:30'', ''03:10'', ''01:00''] 24 30 = Inr [''01:00'', ''02:30'', ''03:10'']" by code_simp
  have us: "resolved_slot_datetimes dst_zone 70 [''02:30'', ''03:10'', ''01:00''] 30 24 =
      Inr (map (\<lambda>m. 70 * DAY + m * MINUTE) [360, 450, 480])" by code_simp
  have "map (local_time dst_zone) (map (\<lambda>m. 70 * DAY + m * MINUTE) [360, 450, 480]) = map (\<lambda>m. 70 * DAY + m * MINUTE) [60, 210, 240]"
    by code_simp
  then show ?thesis using resolved_slots_spaced [OF v, of dst_zone 70] us by blast
qed



text \<open>C37. In a zone without clock changes a valid schedule always yields a next wake, for both strategies: it
  is not in the past and at most two days ahead.\<close>

theorem next_sync_exists:
  assumes "transitions z = []" "0 \<le> lead" "lead \<le> 120" "normalize_sync_strategy ss st = Inr strat"
    and "validate_offline_schedule schedule (max_slots m) gap = Inr slots" "int (length schedule) \<le> m"
  shows "\<exists>e. next_sync_epoch z now schedule lead ss st gap m = Inr e \<and> now div 1000000 \<le> e \<and> e \<le> (now + 2 * DAY) div 1000000"
proof -
  have v: "validate_offline_schedule slots m gap = Inr slots" by (rule validate_revalidates [OF assms(5,6)])
  let ?d = "local_date z now"
  obtain c0 where c0: "sync_day z now slots lead strat gap m [] ?d = Inr c0" "\<forall>c \<in> set c0. c \<le> now + DAY"
    using sync_day_fixed [OF assms(1,2,4) v, of now ?d "[]"] by auto
  obtain cs where cs: "sync_day z now slots lead strat gap m c0 (?d + 1) = Inr cs" "\<forall>c \<in> set cs. c \<le> now + 2 * DAY" "cs \<noteq> []"
    using sync_day_fixed [OF assms(1,2,4) v, of now "?d + 1" c0] c0(2) by (fastforce simp: DAY_def)
  have ge: "\<forall>c \<in> set cs. now \<le> c" using sync_day_keeps [OF c0(1)] sync_day_keeps [OF cs(1)] by simp
  have "now \<le> Min (set cs)" "Min (set cs) \<le> now + 2 * DAY" using ge cs(2,3) by auto
  moreover have "next_sync_epoch z now schedule lead ss st gap m = Inr (Min (set cs) div 1000000)"
    using assms(2-5) c0(1) cs(1,3) by (simp add: next_sync_epoch_def)
  ultimately show ?thesis using zdiv_mono1 [of _ _ 1000000] by simp
qed

theorem next_sync_exists_witness:
  "\<exists>e. next_sync_epoch \<lparr>base_offset = 480 * MINUTE, transitions = []\<rparr> (20 * DAY) [''08:00''] 5 ''fixed_daily'' (Some ''03:30'') 60 24 = Inr e \<and>
    20 * 86400 \<le> e \<and> e \<le> 22 * 86400"
proof -
  have strat: "normalize_sync_strategy ''fixed_daily'' (Some ''03:30'') = Inr (''fixed_daily'', Some ''03:30'')"
    and v: "validate_offline_schedule [''08:00''] (max_slots 24) 60 = Inr [''08:00'']" by code_simp+
  show ?thesis
    using next_sync_exists [OF _ _ _ strat v, of "\<lparr>base_offset = 480 * MINUTE, transitions = []\<rparr>" 5 "20 * DAY"] by (simp add: DAY_def)
qed

text \<open>Both projections of the preparation plan agree: only today and tomorrow are ever due and never a
  skipped date, the deadline is never in the past, it is now when today is due, and it is now only if a
  date is due (tomorrow not being skipped).\<close>

theorem plan_projections_agree:
  assumes "offline_prepare_plan r now = Inr p" "pr_zone r = Some z"
  defines "today \<equiv> local_date z now"
  shows "set (due_target_dates p) \<subseteq> {today, today + 1} - set (pr_skip_target_dates r) \<and> now \<le> next_deadline p \<and>
    (today \<in> set (due_target_dates p) \<longrightarrow> next_deadline p = now) \<and>
    (next_deadline p = now \<and> today + 1 \<notin> set (pr_skip_target_dates r) \<longrightarrow> due_target_dates p \<noteq> [])"
proof -
  obtain slots sync due d where due: "due_dates r z slots sync now today = Inr due"
    and d: "deadline_loop r z slots sync now today [0, 1, 2] = Inr d"
    and p: "due_target_dates p = due" "next_deadline p = (case d of Some t \<Rightarrow> t | None \<Rightarrow> now + 15 * MINUTE)"
    using assms by (auto simp: offline_prepare_plan_def bind_result_Inr simp del: deadline_loop.simps split: if_splits)
  have later: "now \<le> t" if "d = Some t" for t
    using d that by (auto simp: deadline_today_def deadline_later_def bind_result_Inr Let_def split: if_splits option.splits)
  have "set due \<subseteq> {today, today + 1} - set (pr_skip_target_dates r)"
    using due by (auto simp: due_dates_def bind_result_Inr split: if_splits)
  moreover have "d = Some now" if "today \<in> set due"
    using due d that by (auto simp: due_dates_def deadline_today_def bind_result_Inr split: if_splits option.splits)
  moreover have "due \<noteq> []" if "d = Some now" "today + 1 \<notin> set (pr_skip_target_dates r)"
    using due d that by (auto simp: due_dates_def deadline_today_def deadline_later_def bind_result_Inr Let_def split: if_splits option.splits)
  ultimately show ?thesis using p later by (auto simp: MINUTE_def split: option.splits)
qed

theorem plan_projections_agree_witness:
  "\<exists>p. offline_prepare_plan demo_prepare (20 * DAY + 960 * MINUTE) = Inr p \<and> due_target_dates p = [21] \<and>
    20 * DAY + 960 * MINUTE < next_deadline p \<and> local_date dst_zone (20 * DAY + 960 * MINUTE) = 20"
proof -
  let ?p = "\<lparr>due_target_dates = [21], next_deadline = 20 * DAY + 1490 * MINUTE\<rparr>"
  have p: "offline_prepare_plan demo_prepare (20 * DAY + 960 * MINUTE) = Inr ?p"
    and z: "pr_zone demo_prepare = Some dst_zone" "local_date dst_zone (20 * DAY + 960 * MINUTE) = 20" by code_simp+
  have "20 * DAY + 960 * MINUTE \<le> next_deadline ?p" using plan_projections_agree [OF p z(1)] by blast
  then show ?thesis using p z by (simp add: MINUTE_def)
qed

end
