(* ===== verification/Provider_Quota.thy ===== *)
theory Provider_Quota
  imports Prelude
begin

text \<open>
  The quota and circuit state of provider accounts, shared by the worker processes
  (\<^verbatim>\<open>inktime/app/repositories/provider_quota.py\<close>). Every method is one transaction and reads the clock
  once, before it; \<open>now\<close> is that reading. Seconds and floats are rationals, and the fresh UUID of a
  reservation is an argument. A run of the system is a sequence of such transactions in the order of
  their clock readings, on any number of accounts.
\<close>

section \<open>State\<close>

record quota_event =
  qe_id :: string
  qe_scope :: string
  qe_started_at :: rat
  qe_tokens :: int
  qe_lease_until :: rat

record quota_state =
  qs_scope :: string
  qs_failures :: int
  qs_circuit_until :: rat

record quota_db =
  quota_events :: "quota_event list"
  quota_states :: "quota_state list"

text \<open>The limits of a channel; 0 stands for no limit, as for \<^verbatim>\<open>None\<close>.\<close>

record channel =
  requests_per_minute :: nat
  tokens_per_minute :: int
  request_token_reserve :: int
  max_concurrency :: nat
  cooldown_seconds :: rat
  provider_timeout :: rat

record usage_report =
  tokens_reported :: bool
  input_tokens :: int
  output_tokens :: int

section \<open>Operations\<close>

definition circuit_until :: "string \<Rightarrow> quota_db \<Rightarrow> rat option" where
  "circuit_until scope d = map_option qs_circuit_until (first_row (\<lambda>s. qs_scope s = scope) (quota_states d))"

definition circuit_open :: "string \<Rightarrow> rat \<Rightarrow> quota_db \<Rightarrow> bool" where
  "circuit_open scope now d = (case circuit_until scope d of None \<Rightarrow> False | Some t \<Rightarrow> t > now)"

text \<open>The rows of the inner \<^verbatim>\<open>UNION ALL\<close>: requests of the last minute, and older ones still in flight.\<close>

definition counted_events :: "string \<Rightarrow> rat \<Rightarrow> quota_db \<Rightarrow> quota_event list" where
  "counted_events scope now d =
     filter (\<lambda>e. qe_scope e = scope \<and> qe_started_at e > now - 60) (quota_events d) @
     filter (\<lambda>e. qe_scope e = scope \<and> qe_lease_until e > now \<and> qe_started_at e \<le> now - 60) (quota_events d)"

definition allowed :: "string \<Rightarrow> channel \<Rightarrow> rat \<Rightarrow> quota_db \<Rightarrow> bool" where
  "allowed scope ch now d =
     (if circuit_open scope now d then False
      else
        let rows = counted_events scope now d in
        (requests_per_minute ch = 0 \<or> length rows < requests_per_minute ch) \<and>
        (tokens_per_minute ch = 0 \<or> sum_list (map qe_tokens rows) + request_token_reserve ch \<le> tokens_per_minute ch) \<and>
        length (filter (\<lambda>e. qe_lease_until e > now) rows) < max_concurrency ch)"

definition available :: "string \<Rightarrow> channel \<Rightarrow> rat \<Rightarrow> quota_db \<Rightarrow> bool" where
  "available scope ch now d = allowed scope ch now d"

definition retry_after :: "string \<Rightarrow> channel \<Rightarrow> rat \<Rightarrow> quota_db \<Rightarrow> rat" where
  "retry_after scope ch now d =
     (if circuit_open scope now d then max 1 (the (circuit_until scope d) - now)
      else
        let events = sort_key qe_started_at (filter (\<lambda>e. qe_scope e = scope \<and> qe_started_at e > now - 60) (quota_events d));
            rpm_full = (requests_per_minute ch \<noteq> 0 \<and> length events \<ge> requests_per_minute ch);
            tpm_full = (tokens_per_minute ch \<noteq> 0 \<and>
              sum_list (map qe_tokens events) + request_token_reserve ch \<ge> tokens_per_minute ch)
        in if events \<noteq> [] \<and> (rpm_full \<or> tpm_full) then max 1 (qe_started_at (hd events) + 60 - now) else 5)"

definition drop_dead :: "rat \<Rightarrow> quota_event list \<Rightarrow> quota_event list" where
  "drop_dead now es = filter (\<lambda>e. \<not> (qe_lease_until e \<le> now \<and> qe_started_at e \<le> now - 60)) es"

definition acquire :: "string \<Rightarrow> channel \<Rightarrow> rat \<Rightarrow> string \<Rightarrow> quota_db \<Rightarrow> string option \<times> quota_db" where
  "acquire scope ch now identifier d =
     (let d1 = d\<lparr>quota_events := drop_dead now (quota_events d)\<rparr> in
      if \<not> allowed scope ch now d1 then (None, d1)
      else
        (Some identifier,
         d1\<lparr>quota_events := quota_events d1 @
           [\<lparr>qe_id = identifier, qe_scope = scope, qe_started_at = now, qe_tokens = request_token_reserve ch,
             qe_lease_until = now + max 1 (provider_timeout ch) + 60\<rparr>]\<rparr>))"

definition cancel_reservation :: "string \<Rightarrow> string \<Rightarrow> quota_db \<Rightarrow> quota_db" where
  "cancel_reservation scope identifier d =
     d\<lparr>quota_events := filter (\<lambda>e. \<not> (qe_id e = identifier \<and> qe_scope e = scope)) (quota_events d)\<rparr>"

text \<open>\<^verbatim>\<open>INSERT OR IGNORE\<close> of the account's state.\<close>

definition ensure_state :: "string \<Rightarrow> quota_state list \<Rightarrow> quota_state list" where
  "ensure_state scope ss =
     (if row_count (\<lambda>s. qs_scope s = scope) ss = 0 then ss @ [\<lparr>qs_scope = scope, qs_failures = 0, qs_circuit_until = 0\<rparr>] else ss)"

text \<open>The failure branch: \<open>hint\<close> is the error's \<^verbatim>\<open>retry_after\<close>.\<close>

definition record_outcome :: "string \<Rightarrow> channel \<Rightarrow> rat \<Rightarrow> rat option option \<Rightarrow> int \<Rightarrow> quota_state list \<Rightarrow> quota_state list" where
  "record_outcome scope ch now err failure_threshold ss =
     (case err of
        None \<Rightarrow> update_where (\<lambda>s. qs_scope s = scope) (\<lambda>s. s\<lparr>qs_failures := 0\<rparr>) ss
      | Some hint \<Rightarrow>
         (let ss1 = update_where (\<lambda>s. qs_scope s = scope) (\<lambda>s. s\<lparr>qs_failures := qs_failures s + 1\<rparr>) ss;
              failures = (case first_row (\<lambda>s. qs_scope s = scope) ss1 of None \<Rightarrow> 0 | Some s \<Rightarrow> qs_failures s);
              wait = (case hint of None \<Rightarrow> 0 | Some w \<Rightarrow> w)
          in if failures \<ge> failure_threshold \<or> wait \<noteq> 0
             then update_where (\<lambda>s. qs_scope s = scope)
                    (\<lambda>s. s\<lparr>qs_circuit_until := max (qs_circuit_until s) (now + max wait (cooldown_seconds ch))\<rparr>) ss1
             else ss1))"

definition release :: "string \<Rightarrow> channel \<Rightarrow> rat \<Rightarrow> string \<Rightarrow> usage_report option \<Rightarrow> rat option option \<Rightarrow> int \<Rightarrow> quota_db \<Rightarrow> quota_db" where
  "release scope ch now identifier usage err failure_threshold d =
     (let tokens = (case usage of
          Some u \<Rightarrow> if tokens_reported u then input_tokens u + output_tokens u else request_token_reserve ch
        | None \<Rightarrow> request_token_reserve ch) in
      \<lparr>quota_events = update_where (\<lambda>e. qe_id e = identifier \<and> qe_scope e = scope)
          (\<lambda>e. e\<lparr>qe_lease_until := 0, qe_started_at := now, qe_tokens := tokens\<rparr>) (quota_events d),
       quota_states = record_outcome scope ch now err failure_threshold (ensure_state scope (quota_states d))\<rparr>)"

section \<open>Runs\<close>

text \<open>The state of a run is the last clock reading and the tables; \<open>conf\<close> gives the limits of an account.\<close>

inductive quota_step :: "(string \<Rightarrow> channel) \<Rightarrow> rat \<times> quota_db \<Rightarrow> rat \<times> quota_db \<Rightarrow> bool" for conf where
  acquire_step: "clock \<le> now \<Longrightarrow> quota_step conf (clock, d) (now, snd (acquire scope (conf scope) now identifier d))"
| cancel_step: "clock \<le> now \<Longrightarrow> quota_step conf (clock, d) (now, cancel_reservation scope identifier d)"
| release_step: "clock \<le> now \<Longrightarrow>
    quota_step conf (clock, d) (now, release scope (conf scope) now identifier usage err failure_threshold d)"

inductive_simps quota_step_simps: "quota_step conf s t"

definition quota_init :: "rat \<times> quota_db \<Rightarrow> bool" where
  "quota_init s = (0 \<le> fst s \<and> quota_events (snd s) = [] \<and> quota_states (snd s) = [])"

text \<open>What every account's limits promise: requests in flight, and requests counted, now and at any later
  reading of the clock.\<close>

definition in_flight :: "string \<Rightarrow> rat \<Rightarrow> quota_db \<Rightarrow> nat" where
  "in_flight scope t d = row_count (\<lambda>e. qe_scope e = scope \<and> qe_lease_until e > t) (quota_events d)"

definition quota_ok :: "(string \<Rightarrow> channel) \<Rightarrow> rat \<times> quota_db \<Rightarrow> bool" where
  "quota_ok conf s =
     (0 \<le> fst s \<and> distinct (map qs_scope (quota_states (snd s))) \<and>
      (\<forall>scope. in_flight scope (fst s) (snd s) \<le> max_concurrency (conf scope) \<and>
         (requests_per_minute (conf scope) \<noteq> 0 \<longrightarrow>
            row_count (\<lambda>e. qe_scope e = scope) (quota_events (snd s)) \<le> requests_per_minute (conf scope))))"

definition failures_of :: "string \<Rightarrow> quota_db \<Rightarrow> int" where
  "failures_of scope d = (case first_row (\<lambda>s. qs_scope s = scope) (quota_states d) of None \<Rightarrow> 0 | Some s \<Rightarrow> qs_failures s)"

definition demo_channel :: channel where
  "demo_channel = \<lparr>requests_per_minute = 3, tokens_per_minute = 0, request_token_reserve = 9200, max_concurrency = 1,
     cooldown_seconds = 300, provider_timeout = 120\<rparr>"

definition demo_quota :: quota_db where
  "demo_quota = snd (acquire ''acct'' demo_channel 100 ''r1'' \<lparr>quota_events = [], quota_states = []\<rparr>)"

section \<open>Lemmas\<close>

lemma row_count_split:
  "row_count (\<lambda>e. p e \<and> q e) es + row_count (\<lambda>e. p e \<and> r e \<and> \<not> q e) es = row_count (\<lambda>e. p e \<and> (q e \<or> r e)) es"
  by (induction es) auto

lemma counted_events_live:
  "length (counted_events scope now d) =
     row_count (\<lambda>e. qe_scope e = scope \<and> (qe_started_at e > now - 60 \<or> qe_lease_until e > now)) (quota_events d)"
  using row_count_split [of "\<lambda>e. qe_scope e = scope" "\<lambda>e. qe_started_at e > now - 60" "quota_events d" "\<lambda>e. qe_lease_until e > now"]
  by (simp add: counted_events_def row_count_def not_less)

lemma counted_in_flight:
  "length (filter (\<lambda>e. qe_lease_until e > now) (counted_events scope now d)) = in_flight scope now d"
proof -
  have "row_count (\<lambda>e. qe_lease_until e > now \<and> qe_scope e = scope \<and> qe_started_at e > now - 60) es +
      row_count (\<lambda>e. qe_lease_until e > now \<and> qe_scope e = scope \<and> qe_lease_until e > now \<and> qe_started_at e \<le> now - 60) es =
      row_count (\<lambda>e. qe_scope e = scope \<and> qe_lease_until e > now) es" for es :: "quota_event list"
    by (induction es) (auto simp: not_less)
  then show ?thesis by (simp add: counted_events_def in_flight_def row_count_def conj_commute)
qed

lemma in_flight_later: "t \<le> u \<Longrightarrow> in_flight scope u d \<le> in_flight scope t d"
  unfolding in_flight_def by (rule row_count_mono) auto

text \<open>After the dead rows are gone, every row of the account is counted.\<close>

lemma drop_dead_counted:
  "length (counted_events scope now (d\<lparr>quota_events := drop_dead now es\<rparr>)) = row_count (\<lambda>e. qe_scope e = scope) (drop_dead now es)"
  by (simp add: counted_events_live) (rule row_count_cong, auto simp: drop_dead_def)

lemma drop_dead_less: "row_count p (drop_dead now es) \<le> row_count p es"
  by (induction es) (auto simp: drop_dead_def)

lemma in_flight_drop_dead: "in_flight scope t (d\<lparr>quota_events := drop_dead now (quota_events d)\<rparr>) \<le> in_flight scope t d"
  by (simp add: in_flight_def drop_dead_less)

lemma acquire_cases:
  obtains (refused) "acquire scope ch now i d = (None, d\<lparr>quota_events := drop_dead now (quota_events d)\<rparr>)"
    "\<not> allowed scope ch now (d\<lparr>quota_events := drop_dead now (quota_events d)\<rparr>)"
  | (granted) "fst (acquire scope ch now i d) = Some i"
    "quota_events (snd (acquire scope ch now i d)) = drop_dead now (quota_events d) @
       [\<lparr>qe_id = i, qe_scope = scope, qe_started_at = now, qe_tokens = request_token_reserve ch,
         qe_lease_until = now + max 1 (provider_timeout ch) + 60\<rparr>]"
    "quota_states (snd (acquire scope ch now i d)) = quota_states d"
    "allowed scope ch now (d\<lparr>quota_events := drop_dead now (quota_events d)\<rparr>)"
  by (cases "allowed scope ch now (d\<lparr>quota_events := drop_dead now (quota_events d)\<rparr>)") (auto simp: acquire_def Let_def)

lemma acquire_limits:
  assumes "in_flight s clock d \<le> max_concurrency (conf s)" "clock \<le> now"
    and "requests_per_minute (conf s) \<noteq> 0 \<Longrightarrow> row_count (\<lambda>e. qe_scope e = s) (quota_events d) \<le> requests_per_minute (conf s)"
  shows "in_flight s now (snd (acquire scope (conf scope) now i d)) \<le> max_concurrency (conf s)"
    and "requests_per_minute (conf s) \<noteq> 0 \<Longrightarrow>
      row_count (\<lambda>e. qe_scope e = s) (quota_events (snd (acquire scope (conf scope) now i d))) \<le> requests_per_minute (conf s)"
proof -
  let ?d = "d\<lparr>quota_events := drop_dead now (quota_events d)\<rparr>"
  have before: "in_flight s now ?d \<le> max_concurrency (conf s)"
    using in_flight_drop_dead [of s now now d] in_flight_later [OF assms(2), of s d] assms(1) by linarith
  have rows: "requests_per_minute (conf s) \<noteq> 0 \<Longrightarrow> row_count (\<lambda>e. qe_scope e = s) (drop_dead now (quota_events d)) \<le> requests_per_minute (conf s)"
    using drop_dead_less [of "\<lambda>e. qe_scope e = s" now "quota_events d"] assms(3) by linarith
  show "in_flight s now (snd (acquire scope (conf scope) now i d)) \<le> max_concurrency (conf s)"
    by (rule acquire_cases [of scope "conf scope" now i d])
       (use before in \<open>auto simp: in_flight_def row_count_append allowed_def counted_in_flight Let_def split: if_splits\<close>)
  show "row_count (\<lambda>e. qe_scope e = s) (quota_events (snd (acquire scope (conf scope) now i d))) \<le> requests_per_minute (conf s)"
    if "requests_per_minute (conf s) \<noteq> 0"
    by (rule acquire_cases [of scope "conf scope" now i d])
       (use rows [OF that] that in \<open>auto simp: row_count_append allowed_def drop_dead_counted Let_def split: if_splits\<close>)
qed

lemma cancel_limits:
  "row_count p (quota_events (cancel_reservation scope i d)) \<le> row_count p (quota_events d)"
  by (simp add: cancel_reservation_def row_count_def) (metis (no_types, lifting) filter_filter length_filter_le filter_cong conj_commute)

lemma release_limits:
  assumes "0 \<le> t"
  shows "in_flight s t (release scope ch now i usage err k d) \<le> in_flight s t d"
    and "row_count (\<lambda>e. qe_scope e = s) (quota_events (release scope ch now i usage err k d)) = row_count (\<lambda>e. qe_scope e = s) (quota_events d)"
  using assms
  by (auto simp: in_flight_def release_def Let_def row_count_update_where intro!: row_count_mono row_count_cong split: if_splits)

lemma scopes_record_outcome: "map qs_scope (record_outcome scope ch now err k ss) = map qs_scope ss"
  by (auto simp: record_outcome_def Let_def map_update_where split: option.split)

lemma scopes_ensure_state: "distinct (map qs_scope ss) \<Longrightarrow> distinct (map qs_scope (ensure_state scope ss))"
  by (auto simp: ensure_state_def row_count_zero_iff)

lemma quota_ok_step:
  assumes "quota_ok conf s" "quota_step conf s t"
  shows "quota_ok conf t"
  using assms(2)
proof cases
  case (acquire_step clock now d scope i)
  have "quota_states (snd (acquire scope (conf scope) now i d)) = quota_states d"
    by (rule acquire_cases [of scope "conf scope" now i d]) auto
  then show ?thesis using assms(1) acquire_step acquire_limits [of _ clock d conf now scope i] by (simp add: quota_ok_def)
next
  case (cancel_step clock now d scope i)
  have "in_flight u now (cancel_reservation scope i d) \<le> in_flight u clock d" for u
    using cancel_limits in_flight_later [OF cancel_step(3), of u d] unfolding in_flight_def by (meson order_trans)
  then show ?thesis using assms(1) cancel_step cancel_limits
    by (simp add: quota_ok_def) (metis (no_types, lifting) cancel_reservation_def order_trans quota_db.select_convs(2) quota_db.simps(4) quota_db.surjective quota_db.update_convs(1))
next
  case (release_step clock now d scope i usage err k)
  have "distinct (map qs_scope (quota_states (release scope (conf scope) now i usage err k d)))"
    using assms(1) release_step by (simp add: release_def Let_def scopes_record_outcome scopes_ensure_state quota_ok_def)
  moreover have "in_flight u now (release scope (conf scope) now i usage err k d) \<le> in_flight u clock d" for u
    using in_flight_later [OF release_step(3), of u d] release_limits(1) [of now u scope "conf scope" now i usage err k d] assms(1) release_step
    by (simp add: quota_ok_def)
  ultimately show ?thesis using assms(1) release_step release_limits(2) [OF order.refl [of 0]] by (simp add: quota_ok_def) (meson order_trans)
qed

interpretation quota: invariant_system quota_init "quota_step conf" "quota_ok conf" for conf
proof
  show "quota_ok conf s" if "quota_init s" for s using that by (simp add: quota_init_def quota_ok_def in_flight_def)
  show "quota_ok conf t" if "quota_ok conf s" "quota_step conf s t" for s t using that by (rule quota_ok_step)
qed

section \<open>Lemmas on the circuit\<close>

lemma first_row_ensure:
  "first_row (\<lambda>s. qs_scope s = scope) (ensure_state u ss) =
     (case first_row (\<lambda>s. qs_scope s = scope) ss of
        Some r \<Rightarrow> Some r
      | None \<Rightarrow> if u = scope then Some \<lparr>qs_scope = scope, qs_failures = 0, qs_circuit_until = 0\<rparr> else None)"
proof (cases "row_count (\<lambda>s. qs_scope s = u) ss = 0")
  case True
  then show ?thesis by (simp add: ensure_state_def first_row_append) (simp add: first_row_def split: option.split)
next
  case False
  then have "first_row (\<lambda>s. qs_scope s = u) ss \<noteq> None" by (auto simp: first_row_None row_count_zero_iff)
  then show ?thesis using False by (auto simp: ensure_state_def split: option.split)
qed

text \<open>A transaction never closes a circuit early.\<close>

lemma record_outcome_circuit:
  "first_row (\<lambda>s. qs_scope s = scope) ss = Some r \<Longrightarrow>
   \<exists>r'. first_row (\<lambda>s. qs_scope s = scope) (record_outcome u ch now err k ss) = Some r' \<and> qs_circuit_until r \<le> qs_circuit_until r'"
  by (simp add: record_outcome_def first_row_update Let_def split: option.split)

lemma circuit_open_step:
  assumes "quota_step conf s s'" "circuit_open scope t (snd s)"
  shows "circuit_open scope t (snd s')"
  using assms(1)
proof cases
  case (acquire_step clock now d u i)
  have "quota_states (snd (acquire u (conf u) now i d)) = quota_states d" by (rule acquire_cases [of u "conf u" now i d]) auto
  then show ?thesis using assms(2) acquire_step by (simp add: circuit_open_def circuit_until_def)
next
  case (cancel_step clock now d u i)
  then show ?thesis using assms(2) by (simp add: circuit_open_def circuit_until_def cancel_reservation_def)
next
  case (release_step clock now d u i usage err k)
  obtain r where r: "first_row (\<lambda>s. qs_scope s = scope) (quota_states d) = Some r" "t < qs_circuit_until r"
    using assms(2) release_step by (auto simp: circuit_open_def circuit_until_def split: option.splits)
  have "first_row (\<lambda>s. qs_scope s = scope) (ensure_state u (quota_states d)) = Some r" using r(1) by (simp add: first_row_ensure)
  then obtain r' where "first_row (\<lambda>s. qs_scope s = scope) (quota_states (snd s')) = Some r'" "qs_circuit_until r \<le> qs_circuit_until r'"
    using record_outcome_circuit release_step by (fastforce simp: release_def Let_def)
  then show ?thesis using r(2) by (simp add: circuit_open_def circuit_until_def)
qed

lemma circuit_open_steps: "(quota_step conf)\<^sup>*\<^sup>* s s' \<Longrightarrow> circuit_open scope t (snd s) \<Longrightarrow> circuit_open scope t (snd s')"
  by (induction rule: rtranclp_induct) (auto intro: circuit_open_step)

lemma release_opens:
  assumes "failures_of scope d + 1 \<ge> k \<or> (hint \<noteq> None \<and> hint \<noteq> Some 0)"
  shows "\<exists>u. circuit_until scope (release scope ch now i usage (Some hint) k d) = Some u \<and>
    now + max (case hint of None \<Rightarrow> 0 | Some w \<Rightarrow> w) (cooldown_seconds ch) \<le> u"
proof -
  let ?first = "first_row (\<lambda>s. qs_scope s = scope)"
  obtain r where r: "?first (ensure_state scope (quota_states d)) = Some r" "qs_failures r = failures_of scope d"
    by (cases "?first (quota_states d)") (simp_all add: first_row_ensure failures_of_def)
  have "qs_scope r = scope" using first_row_Some [OF r(1)] by simp
  then show ?thesis using assms r
    by (cases hint) (auto simp: circuit_until_def release_def record_outcome_def first_row_update Let_def)
qed

section \<open>Properties\<close>

text \<open>C38. In every run of worker processes that share an account, at most \<^verbatim>\<open>max_concurrency\<close> requests hold a
  live lease and at most \<^verbatim>\<open>requests_per_minute\<close> requests count as recent or in flight, whatever the
  interleaving of reservations, releases and cancellations, and whichever leases ran out.\<close>

theorem quota_limits_hold:
  assumes "quota_init s" "(quota_step conf)\<^sup>*\<^sup>* s (now, d)"
  shows "in_flight scope now d \<le> max_concurrency (conf scope) \<and>
    (requests_per_minute (conf scope) \<noteq> 0 \<longrightarrow> length (counted_events scope now d) \<le> requests_per_minute (conf scope))"
proof -
  have ok: "quota_ok conf (now, d)" by (rule quota.reachable_inv [OF assms])
  have "length (counted_events scope now d) \<le> row_count (\<lambda>e. qe_scope e = scope) (quota_events d)"
    unfolding counted_events_live by (rule row_count_mono) simp
  then show ?thesis using ok by (simp add: quota_ok_def) (meson order_trans)
qed

theorem quota_limits_hold_witness:
  "in_flight ''acct'' 100 demo_quota \<le> 1 \<and> length (counted_events ''acct'' 100 demo_quota) \<le> 3 \<and>
    fst (acquire ''acct'' demo_channel 100 ''r2'' demo_quota) = None"
proof -
  let ?s = "(0, \<lparr>quota_events = [], quota_states = []\<rparr>) :: rat \<times> quota_db"
  have init: "quota_init ?s" by (simp add: quota_init_def)
  have "quota_step (\<lambda>_. demo_channel) ?s (100, demo_quota)" unfolding demo_quota_def by (rule quota_step.acquire_step) simp
  then have run: "(quota_step (\<lambda>_. demo_channel))\<^sup>*\<^sup>* ?s (100, demo_quota)" by (rule r_into_rtranclp)
  have "fst (acquire ''acct'' demo_channel 100 ''r2'' demo_quota) = None" by code_simp
  then show ?thesis using quota_limits_hold [OF init run, of "''acct''"] by (simp add: demo_channel_def)
qed

text \<open>After the failure that trips an account's circuit, no process can reserve a request on it until the
  cool-down, or the longer wait the provider asked for, has passed, whatever other transactions run in
  between; a process that asks how long to wait is told at least the rest of that time.\<close>

theorem open_circuit_blocks:
  assumes "failures_of scope d + 1 \<ge> k \<or> (hint \<noteq> None \<and> hint \<noteq> Some 0)"
    and "(quota_step conf)\<^sup>*\<^sup>* (now, release scope ch now i usage (Some hint) k d) (clock, d')"
    and "t < now + max (case hint of None \<Rightarrow> 0 | Some w \<Rightarrow> w) (cooldown_seconds ch)"
  shows "fst (acquire scope (conf scope) t j d') = None \<and> \<not> available scope (conf scope) t d' \<and>
    retry_after scope (conf scope) t d' \<ge> now + max (case hint of None \<Rightarrow> 0 | Some w \<Rightarrow> w) (cooldown_seconds ch) - t"
proof -
  let ?until = "now + max (case hint of None \<Rightarrow> 0 | Some w \<Rightarrow> w) (cooldown_seconds ch)"
  have later: "circuit_open scope u d'" if "u < ?until" for u
  proof (rule circuit_open_steps [OF assms(2), of scope u, simplified])
    show "circuit_open scope u (release scope ch now i usage (Some hint) k d)"
      using release_opens [OF assms(1), of ch now i usage] that by (auto simp: circuit_open_def)
  qed
  have op: "circuit_open scope t d'" using later assms(3) by simp
  obtain u where u: "circuit_until scope d' = Some u" "t < u" using op by (auto simp: circuit_open_def split: option.splits)
  have "?until \<le> u"
  proof (rule ccontr)
    assume "\<not> ?until \<le> u"
    then show False using later [of u] u(1) by (simp add: circuit_open_def)
  qed
  then have "retry_after scope (conf scope) t d' \<ge> ?until - t" using op u by (simp add: retry_after_def)
  moreover have "\<not> allowed scope (conf scope) t (d'\<lparr>quota_events := es\<rparr>)" for es
    using op by (simp add: allowed_def circuit_open_def circuit_until_def)
  ultimately show ?thesis using op by (simp add: acquire_def available_def allowed_def Let_def)
qed

theorem open_circuit_blocks_witness:
  "fst (acquire ''acct'' demo_channel 399 ''r2'' (release ''acct'' demo_channel 101 ''r1'' None (Some None) 1 demo_quota)) = None \<and>
    retry_after ''acct'' demo_channel 399 (release ''acct'' demo_channel 101 ''r1'' None (Some None) 1 demo_quota) \<ge> 2"
  using open_circuit_blocks [of 1 "''acct''" demo_quota None "\<lambda>_. demo_channel" 101 demo_channel "''r1''" None 101
      "release ''acct'' demo_channel 101 ''r1'' None (Some None) 1 demo_quota" 399 "''r2''"]
  by (simp add: demo_channel_def failures_of_def demo_quota_def acquire_def Let_def first_row_def)

end
