(* ===== verification/Billable_Operations.thy ===== *)
theory Billable_Operations
  imports Job_Repository
begin

text \<open>
  Paid model requests (\<^verbatim>\<open>inktime/app/repositories/billable_operations.py\<close>): an operation is recorded
  before a request is sent and outlives the worker that sent it. A started operation whose outcome is
  unknown blocks every other request for the same photo content until it is settled, and a stored response
  is handed out again instead of paying twice. The tables are those the methods read: operations, the
  cache reservations, the complete results, the seasonal tasks and the batch tables with the columns of
  \<^verbatim>\<open>paid_batch_item_sql\<close> (\<^verbatim>\<open>analysis_reservations.py\<close>); jobs, items and photos are those of the queue. A
  stored response is a JSON tree; its conversion to and from \<^verbatim>\<open>ProviderResponse\<close> keeps every field. The fresh
  UUID and the clock reading are arguments.
\<close>

section \<open>State\<close>

datatype op_state = OStarted | OResponse | OCompleted | ONotSent | OApproved

record operation =
  o_id :: string
  o_content_sha256 :: string
  o_request_fingerprint :: string
  o_state :: op_state
  o_response_json :: "json option"
  o_resolution_note :: "string option"
  o_created_at :: instant
  o_updated_at :: instant
  o_request_signature :: "string option"

record cache_reservation =
  cache_key :: string
  c_status :: string
  c_lease_until :: instant

record paid_batch = analysis_batch +
  submitted_at :: "instant option"

record paid_batch_item = analysis_batch_item +
  raw_response_json :: "string option"
  pbi_request_id :: "string option"
  pbi_status :: string

record paid_db =
  billable_operations :: "operation list"
  ai_cache_reservations :: "cache_reservation list"
  model_analysis_results :: "string list"  \<comment> \<open>content hashes\<close>
  seasonal_analysis_tasks :: "(string option \<times> string) list"  \<comment> \<open>job id, content hash\<close>
  paid_batches :: "paid_batch list"
  paid_batch_items :: "paid_batch_item list"
  queue :: db

text \<open>The argument \<^verbatim>\<open>context\<close> of \<^verbatim>\<open>begin\<close> and its JSON text.\<close>

record op_context =
  ctx_job_id :: "string option"
  ctx_request_signature :: "string option"
  ctx_text :: string

datatype paid_error =
    RequestConflict | Unreconciled | SeasonalAlreadyProcessed | BatchOwnsContent | MalformedJobSettings
  | ResponseMissing | DuplicateOperation | ReasonMissing | NothingToApprove

section \<open>Ownership by batches\<close>

definition paid_batch_item_evidence :: "paid_batch_item \<Rightarrow> paid_batch \<Rightarrow> bool" where
  "paid_batch_item_evidence bi b =
     (remote_batch_id b \<noteq> None \<or>
      (submitted_at b \<noteq> None \<and> abandon_confirmed_at b = None \<and>
       coalesce_text (remote_status b) \<notin> {''failed'', ''expired'', ''cancelled'', ''abandoned''}) \<or>
      raw_response_json bi \<noteq> None \<or> pbi_request_id bi \<noteq> None \<or> pbi_status bi \<in> {''success'', ''imported''})"

definition batch_content_owner :: "string \<Rightarrow> paid_db \<Rightarrow> bool" where
  "batch_content_owner content d =
     ((\<exists>bi \<in> set (paid_batch_items d). \<exists>b \<in> set (paid_batches d).
         b_id b = bi_batch_id bi \<and> content_sha256 bi = Some content \<and>
         (held_batch (analysis_batch.truncate b) \<or> paid_batch_item_evidence bi b)) \<or>
      (\<exists>i \<in> set (job_items (queue d)). \<exists>j \<in> set (jobs (queue d)). \<exists>p \<in> set (photos (queue d)).
         j_id j = i_job_id i \<and> photo_id i = Some (p_id p) \<and> sha256 p = Some content \<and> kind j = ''analysis_batch'' \<and>
         open_item (i_status i) \<and> reserving_job_status (j_status j)))"

definition assert_no_batch_content_owner :: "string \<Rightarrow> paid_db \<Rightarrow> paid_error + unit" where
  "assert_no_batch_content_owner content d = (if batch_content_owner content d then Inl BatchOwnsContent else Inr ())"

section \<open>Operations\<close>

text \<open>\<^verbatim>\<open>ORDER BY created_at DESC LIMIT 1\<close>, by the index on fingerprint and time.\<close>

definition newest_op :: "(operation \<Rightarrow> bool) \<Rightarrow> operation list \<Rightarrow> operation option" where
  "newest_op p rows = (let rs = sort_key o_created_at (filter p rows) in if rs = [] then None else Some (last rs))"

definition answered :: "string \<Rightarrow> bool \<Rightarrow> operation \<Rightarrow> bool" where
  "answered request_fp reuse_completed r =
     (o_request_fingerprint r = request_fp \<and> (o_state r = OResponse \<or> (reuse_completed \<and> o_state r = OCompleted)))"

definition unsettled :: "string \<Rightarrow> operation \<Rightarrow> bool" where
  "unsettled content r = (o_content_sha256 r = content \<and> o_state r = OStarted)"

definition check_retry :: "string \<Rightarrow> string \<Rightarrow> bool \<Rightarrow> instant \<Rightarrow> paid_db \<Rightarrow> paid_error + bool" where
  "check_retry content request_fp reuse_completed now d =
     (if \<exists>r \<in> set (billable_operations d). unsettled content r \<and>
           (case first_row (\<lambda>c. cache_key c = o_request_fingerprint r) (ai_cache_reservations d) of
              None \<Rightarrow> True
            | Some c \<Rightarrow> c_status c \<noteq> ''reserved'' \<or> c_lease_until c \<le> now)
      then Inl Unreconciled
      else
        let saved = (\<exists>r \<in> set (billable_operations d). answered request_fp reuse_completed r) in
        if saved then Inr True
        else bind_result (assert_no_batch_content_owner content d) (\<lambda>_. Inr False))"

text \<open>\<^verbatim>\<open>json_extract(settings_json, '$.key')\<close>: \<open>None\<close> when the text is not JSON, which raises.\<close>

fun json_extract :: "string \<Rightarrow> json_text \<Rightarrow> json option" where
  "json_extract k Malformed = None"
| "json_extract k (Encoded (JObj kvs)) = Some (case map_of kvs k of None \<Rightarrow> JNull | Some v \<Rightarrow> v)"
| "json_extract k (Encoded v) = Some JNull"

fun equals_one :: "json \<Rightarrow> bool" where
  "equals_one (JBool b) = b"
| "equals_one (JInt n) = (n = 1)"
| "equals_one (JFloat q) = (q = 1)"
| "equals_one _ = False"

definition ctx_job :: "op_context option \<Rightarrow> paid_db \<Rightarrow> job option" where
  "ctx_job ctx d =
     (case Option.bind ctx ctx_job_id of None \<Rightarrow> None | Some i \<Rightarrow> first_row (\<lambda>j. j_id j = i) (jobs (queue d)))"

text \<open>The guards between the saved response and the insertion: backfill jobs, seasonal tasks, batches.\<close>

definition backfill_guard :: "string \<Rightarrow> op_context option \<Rightarrow> paid_db \<Rightarrow> paid_error + unit" where
  "backfill_guard content ctx d =
     (case ctx_job ctx d of
        None \<Rightarrow> Inr ()
      | Some j \<Rightarrow>
         (case json_extract ''missing_analysis_backfill'' (settings_json j) of
            None \<Rightarrow> Inl MalformedJobSettings
          | Some v \<Rightarrow> if equals_one v \<and> content \<in> set (model_analysis_results d) then Inl SeasonalAlreadyProcessed else Inr ()))"

definition seasonal_guard :: "string \<Rightarrow> op_context option \<Rightarrow> paid_db \<Rightarrow> paid_error + unit" where
  "seasonal_guard content ctx d =
     (case ctx_job ctx d of
        None \<Rightarrow> Inr ()
      | Some j \<Rightarrow>
         (if (Some (j_id j), content) \<notin> set (seasonal_analysis_tasks d) then Inr ()
          else case json_extract ''seasonal_retry_task_id'' (settings_json j) of
            None \<Rightarrow> Inl MalformedJobSettings
          | Some v \<Rightarrow>
             if \<not> force_recompute j \<and> \<not> extracted_truthy v \<and>
                (\<exists>r \<in> set (billable_operations d). o_content_sha256 r = content \<and> o_state r \<in> {OResponse, OCompleted})
             then Inl SeasonalAlreadyProcessed else Inr ()))"

definition request_conflict :: "string \<Rightarrow> string \<Rightarrow> op_context option \<Rightarrow> paid_db \<Rightarrow> bool" where
  "request_conflict content request_fp ctx d =
     (case newest_op (\<lambda>r. o_request_fingerprint r = request_fp) (billable_operations d) of
        None \<Rightarrow> False
      | Some prior \<Rightarrow>
          o_content_sha256 prior \<noteq> content \<or>
          (let sig = Option.bind ctx ctx_request_signature in
           truthy_text sig \<and> o_request_signature prior \<noteq> sig))"

definition new_operation :: "string \<Rightarrow> string \<Rightarrow> string \<Rightarrow> op_context option \<Rightarrow> instant \<Rightarrow> operation" where
  "new_operation operation_id content request_fp ctx now =
     \<lparr>o_id = operation_id, o_content_sha256 = content, o_request_fingerprint = request_fp, o_state = OStarted,
      o_response_json = None, o_resolution_note = map_option ctx_text ctx, o_created_at = now, o_updated_at = now,
      o_request_signature = Option.bind ctx ctx_request_signature\<rparr>"

definition begin_operation :: "string \<Rightarrow> string \<Rightarrow> bool \<Rightarrow> op_context option \<Rightarrow> string \<Rightarrow> instant \<Rightarrow> paid_db \<Rightarrow>
    paid_error + (string \<times> json option) \<times> paid_db" where
  "begin_operation content request_fp reuse_completed ctx operation_id now d =
     (if request_conflict content request_fp ctx d then Inl RequestConflict
      else if \<exists>r \<in> set (billable_operations d). unsettled content r then Inl Unreconciled
      else case newest_op (answered request_fp reuse_completed) (billable_operations d) of
        Some saved \<Rightarrow>
          (case o_response_json saved of None \<Rightarrow> Inl ResponseMissing | Some r \<Rightarrow> Inr ((o_id saved, Some r), d))
      | None \<Rightarrow>
          bind_result (backfill_guard content ctx d) (\<lambda>_.
          bind_result (seasonal_guard content ctx d) (\<lambda>_.
          bind_result (assert_no_batch_content_owner content d) (\<lambda>_.
            if \<exists>r \<in> set (billable_operations d). o_id r = operation_id then Inl DuplicateOperation
            else Inr ((operation_id, None),
              d\<lparr>billable_operations := billable_operations d @ [new_operation operation_id content request_fp ctx now]\<rparr>)))))"

definition upd_operations :: "(operation \<Rightarrow> bool) \<Rightarrow> (operation \<Rightarrow> operation) \<Rightarrow> paid_db \<Rightarrow> paid_db" where
  "upd_operations p f d = d\<lparr>billable_operations := update_where p f (billable_operations d)\<rparr>"

definition save_response :: "string \<Rightarrow> json \<Rightarrow> instant \<Rightarrow> paid_db \<Rightarrow> paid_db" where
  "save_response operation_id response now =
     upd_operations (\<lambda>r. o_id r = operation_id)
       (\<lambda>r. r\<lparr>o_state := OResponse, o_response_json := Some response, o_updated_at := now\<rparr>)"

definition is_completed :: "string \<Rightarrow> paid_db \<Rightarrow> bool" where
  "is_completed operation_id d =
     (case first_row (\<lambda>r. o_id r = operation_id) (billable_operations d) of None \<Rightarrow> False | Some r \<Rightarrow> o_state r = OCompleted)"

definition finish :: "string \<Rightarrow> bool \<Rightarrow> instant \<Rightarrow> paid_db \<Rightarrow> paid_db" where
  "finish operation_id not_sent now =
     upd_operations (\<lambda>r. o_id r = operation_id)
       (\<lambda>r. r\<lparr>o_state := if not_sent then ONotSent else OCompleted, o_updated_at := now\<rparr>)"

definition REJECTED_NOTE :: string where
  "REJECTED_NOTE = ''OpenAI definitive HTTP rejection; model execution was not accepted''"

definition finish_rejected :: "string \<Rightarrow> instant \<Rightarrow> paid_db \<Rightarrow> paid_db" where
  "finish_rejected operation_id now =
     upd_operations (\<lambda>r. o_id r = operation_id \<and> o_state r = OStarted)
       (\<lambda>r. r\<lparr>o_state := ONotSent, o_resolution_note := Some REJECTED_NOTE, o_updated_at := now\<rparr>)"

definition approve_resend :: "string \<Rightarrow> string \<Rightarrow> instant \<Rightarrow> paid_db \<Rightarrow> paid_error + paid_db" where
  "approve_resend operation_id reason now d =
     (if py_strip reason = [] then Inl ReasonMissing
      else
        let p = (\<lambda>r. o_id r = operation_id \<and> o_state r \<in> {OStarted, OResponse});
            note_of = (\<lambda>r. (case o_resolution_note r of None \<Rightarrow> [] | Some n \<Rightarrow> n @ [CHR 10]) @ take 2000 (py_strip reason))
        in if row_count p (billable_operations d) \<noteq> 1 then Inl NothingToApprove
           else Inr (upd_operations p (\<lambda>r. r\<lparr>o_state := OApproved, o_resolution_note := Some (note_of r), o_updated_at := now\<rparr>) d))"

section \<open>Runs\<close>

text \<open>One transaction of any process; the label is the operation it settles, if it settles one. A transaction
  that raises changes nothing.\<close>

inductive paid_step :: "string option \<Rightarrow> paid_db \<Rightarrow> paid_db \<Rightarrow> bool" where
  begin_step: "begin_operation c fp reuse ctx i now d = Inr (x, d') \<Longrightarrow> paid_step None d d'"
| save_step: "paid_step (Some i) d (save_response i r now d)"
| finish_step: "paid_step (Some i) d (finish i not_sent now d)"
| reject_step: "paid_step (Some i) d (finish_rejected i now d)"
| approve_step: "approve_resend i reason now d = Inr d' \<Longrightarrow> paid_step (Some i) d d'"

definition other_step :: "string \<Rightarrow> paid_db \<Rightarrow> paid_db \<Rightarrow> bool" where
  "other_step i d d' = (\<exists>l. l \<noteq> Some i \<and> paid_step l d d')"

definition ops_ok :: "paid_db \<Rightarrow> bool" where
  "ops_ok d = (distinct (map o_id (billable_operations d)) \<and>
     (\<forall>c. row_count (unsettled c) (billable_operations d) \<le> 1))"

section \<open>Examples\<close>

definition demo_paid :: paid_db where
  "demo_paid =
     \<lparr>billable_operations = [], ai_cache_reservations = [], model_analysis_results = [], seasonal_analysis_tasks = [],
      paid_batches = [], paid_batch_items = [],
      queue = \<lparr>photos = [], photo_analysis = [], jobs = [], job_items = [], job_events = [], job_errors = [],
        analysis_batches = [], analysis_batch_items = [], settings = [], openai_pause_kind = None, backfill_enabled = False,
        backfill_pause_reason = None, backfill_tasks = [], api_usage_jobs = [], usage_archive_jobs = []\<rparr>\<rparr>"

definition demo_sent :: paid_db where
  "demo_sent = demo_paid\<lparr>billable_operations := [new_operation ''op1'' ''sha-a'' ''fp-1'' None 10]\<rparr>"

section \<open>Lemmas\<close>

lemma insort_key_snoc: "f a \<le> f x \<Longrightarrow> insort_key f a (ys @ [x]) = insort_key f a ys @ [x]"
  by (induction ys) auto

lemma sort_key_snoc: "\<forall>y \<in> set ys. f y \<le> f x \<Longrightarrow> sort_key f (ys @ [x]) = sort_key f ys @ [x]"
proof (induction ys)
  case (Cons a ys)
  then show ?case using insort_key_snoc [of f a x "sort_key f ys"] by simp
qed simp

lemma newest_op_snoc:
  assumes "p x" "\<forall>r \<in> set rows. o_created_at r \<le> o_created_at x"
  shows "newest_op p (rows @ [x]) = Some x"
  using assms sort_key_snoc [of "filter p rows" o_created_at x] by (simp add: newest_op_def)

lemma begin_blocked:
  assumes "r \<in> set (billable_operations d)" "unsettled c r"
  shows "begin_operation c fp reuse ctx i now d = Inl RequestConflict \<or> begin_operation c fp reuse ctx i now d = Inl Unreconciled"
  using assms by (auto simp: begin_operation_def)

lemma begin_cases:
  assumes "begin_operation c fp reuse ctx i now d = Inr (x, d')"
  obtains (again) "d' = d"
  | (inserted) "x = (i, None)" "\<not> request_conflict c fp ctx d" "\<forall>r \<in> set (billable_operations d). \<not> unsettled c r \<and> o_id r \<noteq> i"
    "d' = d\<lparr>billable_operations := billable_operations d @ [new_operation i c fp ctx now]\<rparr>"
    "newest_op (answered fp reuse) (billable_operations d) = None"
  using assms by (auto simp: begin_operation_def bind_result_Inr split: if_splits option.splits)

lemma in_update_kept: "r \<in> set rows \<Longrightarrow> \<not> p r \<Longrightarrow> r \<in> set (update_where p f rows)"
  by (force simp: set_update_where)

text \<open>A step that does not settle an operation keeps its row.\<close>

lemma operation_kept:
  assumes "paid_step l d d'" "l \<noteq> Some (o_id r)" "r \<in> set (billable_operations d)"
  shows "r \<in> set (billable_operations d')"
  using assms
proof cases
  case (begin_step c fp reuse ctx i now x)
  then show ?thesis using assms(3) by (elim begin_cases) auto
qed (use assms in \<open>auto simp: save_response_def finish_def finish_rejected_def approve_resend_def upd_operations_def Let_def
       intro!: in_update_kept split: if_splits\<close>)

lemma operation_kept_steps: "(other_step (o_id r))\<^sup>*\<^sup>* d d' \<Longrightarrow> r \<in> set (billable_operations d) \<Longrightarrow> r \<in> set (billable_operations d')"
  by (induction rule: rtranclp_induct) (auto simp: other_step_def intro: operation_kept)

text \<open>Settling never starts an operation.\<close>

lemma unsettled_update:
  assumes "\<And>r. o_id (f r) = o_id r" "\<And>r. o_state (f r) \<noteq> OStarted" "ops_ok d"
  shows "ops_ok (upd_operations p f d)"
proof -
  have "row_count (unsettled c) (update_where p f (billable_operations d)) \<le> row_count (unsettled c) (billable_operations d)" for c
    unfolding row_count_update_where using assms(2) by (intro row_count_mono) (auto simp: unsettled_def split: if_splits)
  then show ?thesis using assms(1,3) by (auto simp: ops_ok_def upd_operations_def map_update_where intro: order_trans)
qed

lemma ops_ok_step:
  assumes "paid_step l d d'" "ops_ok d"
  shows "ops_ok d'"
  using assms(1)
proof cases
  case (begin_step c fp reuse ctx i now x)
  from begin_step(2) show ?thesis
  proof (cases rule: begin_cases)
    case inserted
    then have none: "row_count (unsettled c) (billable_operations d) = 0" "i \<notin> o_id ` set (billable_operations d)"
      by (auto simp: row_count_zero_iff)
    have "row_count (unsettled u) (billable_operations d') \<le> 1" for u
      using inserted none(1) assms(2) by (cases "u = c") (auto simp: row_count_append ops_ok_def unsettled_def new_operation_def)
    then show ?thesis using inserted none(2) assms(2) by (auto simp: ops_ok_def new_operation_def)
  qed (use assms(2) in auto)
next
  case (approve_step i reason now)
  then show ?thesis using assms(2) by (auto simp: approve_resend_def Let_def intro!: unsettled_update split: if_splits)
qed (use assms(2) in \<open>auto simp: save_response_def finish_def finish_rejected_def intro!: unsettled_update\<close>)

interpretation paid: invariant_system "\<lambda>d. billable_operations d = []" "\<lambda>d d'. \<exists>l. paid_step l d d'" ops_ok
proof
  show "ops_ok d" if "billable_operations d = []" for d using that by (simp add: ops_ok_def)
  show "ops_ok d'" if "ops_ok d" "\<exists>l. paid_step l d d'" for d d' using that ops_ok_step by blast
qed

section \<open>Properties\<close>

text \<open>C39. A crash never authorises a second payment: once an operation for a photo's content was started,
  at most one such operation exists, and until it is itself settled every further request for the same
  content is refused, whatever other transactions run in between and whichever job, model or fingerprint
  the request is for.\<close>

theorem started_operation_blocks:
  assumes "billable_operations d0 = []" "(\<lambda>d d'. \<exists>l. paid_step l d d')\<^sup>*\<^sup>* d0 d"
    and "r \<in> set (billable_operations d)" "o_content_sha256 r = content" "o_state r = OStarted"
    and "(other_step (o_id r))\<^sup>*\<^sup>* d d'"
  shows "row_count (unsettled content) (billable_operations d') = 1 \<and>
    (begin_operation content fp reuse ctx i now d' = Inl Unreconciled \<or> begin_operation content fp reuse ctx i now d' = Inl RequestConflict)"
proof -
  have kept: "r \<in> set (billable_operations d')" by (rule operation_kept_steps [OF assms(6,3)])
  have un: "unsettled content r" using assms(4,5) by (simp add: unsettled_def)
  have "(\<lambda>d d'. \<exists>l. paid_step l d d')\<^sup>*\<^sup>* d d'"
    using assms(6) by (rule rtranclp_mono [THEN predicate2D, rotated]) (auto simp: other_step_def)
  then have "ops_ok d'" using paid.reachable_inv [OF assms(1,2)] paid.inv_steps by blast
  then have "row_count (unsettled content) (billable_operations d') \<le> 1" by (simp add: ops_ok_def)
  moreover have "0 < row_count (unsettled content) (billable_operations d')" using kept un by (auto simp: row_count_pos_iff)
  ultimately have "row_count (unsettled content) (billable_operations d') = 1" by linarith
  then show ?thesis using begin_blocked [OF kept un] by blast
qed

theorem started_operation_blocks_witness:
  "row_count (unsettled ''sha-a'') (billable_operations demo_sent) = 1 \<and>
    (begin_operation ''sha-a'' ''fp-2'' False None ''op2'' 20 demo_sent = Inl Unreconciled \<or>
     begin_operation ''sha-a'' ''fp-2'' False None ''op2'' 20 demo_sent = Inl RequestConflict)"
proof -
  have "begin_operation ''sha-a'' ''fp-1'' False None ''op1'' 10 demo_paid = Inr ((''op1'', None), demo_sent)"
    by (simp add: begin_operation_def demo_paid_def demo_sent_def request_conflict_def newest_op_def backfill_guard_def seasonal_guard_def
        ctx_job_def assert_no_batch_content_owner_def batch_content_owner_def)
  then have "paid_step None demo_paid demo_sent" by (rule paid_step.begin_step)
  then have run: "(\<lambda>d d'. \<exists>l. paid_step l d d')\<^sup>*\<^sup>* demo_paid demo_sent" by blast
  let ?r = "new_operation ''op1'' ''sha-a'' ''fp-1'' None 10"
  have r: "?r \<in> set (billable_operations demo_sent)" "o_content_sha256 ?r = ''sha-a''" "o_state ?r = OStarted"
    by (simp_all add: demo_sent_def new_operation_def)
  show ?thesis using started_operation_blocks [OF _ run r rtranclp.rtrancl_refl] by (simp add: demo_paid_def)
qed

text \<open>A paid response is handed out again, not paid for twice: after an operation was begun and its
  response stored, beginning the same request returns the operation and that response and changes
  nothing, so no second request is sent.\<close>

theorem paid_response_reused:
  assumes "begin_operation content fp reuse ctx i now d = Inr ((i, None), d1)"
    and "\<forall>r \<in> set (billable_operations d). o_created_at r \<le> now"
  shows "begin_operation content fp reuse' ctx j now' (save_response i response t d1) =
    Inr ((i, Some response), save_response i response t d1)"
proof -
  let ?rows = "billable_operations d"
  let ?x = "(new_operation i content fp ctx now)\<lparr>o_state := OResponse, o_response_json := Some response, o_updated_at := t\<rparr>"
  let ?d = "save_response i response t d1"
  have ins: "\<forall>r \<in> set ?rows. \<not> unsettled content r \<and> o_id r \<noteq> i"
    "d1 = d\<lparr>billable_operations := ?rows @ [new_operation i content fp ctx now]\<rparr>"
    using assms(1) by (auto simp: begin_operation_def bind_result_Inr split: if_splits option.splits)
  have rows: "billable_operations ?d = ?rows @ [?x]"
  proof -
    have "update_where (\<lambda>r. o_id r = i) f ?rows = ?rows" for f using ins(1) by (auto simp: update_where_def intro: map_idI)
    then show ?thesis using ins(2) by (simp add: save_response_def upd_operations_def) (simp add: update_where_def new_operation_def)
  qed
  have newest: "newest_op q (billable_operations ?d) = Some ?x" if "q ?x" for q
    unfolding rows using assms(2) that by (intro newest_op_snoc) (auto simp: new_operation_def)
  have "newest_op (\<lambda>r. o_request_fingerprint r = fp) (billable_operations ?d) = Some ?x"
    by (rule newest) (simp add: new_operation_def)
  then have "\<not> request_conflict content fp ctx ?d"
    unfolding request_conflict_def by (simp add: new_operation_def Let_def)
  moreover have "\<not> (\<exists>r \<in> set (billable_operations ?d). unsettled content r)"
    unfolding rows using ins(1) by (auto simp: unsettled_def)
  moreover have "newest_op (answered fp reuse') (billable_operations ?d) = Some ?x"
    by (rule newest) (simp add: answered_def new_operation_def)
  ultimately show ?thesis by (simp add: begin_operation_def) (simp add: new_operation_def)
qed

theorem paid_response_reused_witness:
  "begin_operation ''sha-a'' ''fp-1'' False None ''op2'' 30 (save_response ''op1'' (JStr ''ok'') 20 demo_sent) =
    Inr ((''op1'', Some (JStr ''ok'')), save_response ''op1'' (JStr ''ok'') 20 demo_sent)"
proof -
  have "begin_operation ''sha-a'' ''fp-1'' False None ''op1'' 10 demo_paid = Inr ((''op1'', None), demo_sent)"
    by (simp add: begin_operation_def demo_paid_def demo_sent_def request_conflict_def newest_op_def backfill_guard_def seasonal_guard_def
        ctx_job_def assert_no_batch_content_owner_def batch_content_owner_def)
  then show ?thesis by (rule paid_response_reused) (simp add: demo_paid_def)
qed

end
