(* ===== verification/Budget.thy ===== *)
theory Budget
  imports Billable_Operations
begin

text \<open>
  Money (\<^verbatim>\<open>inktime/app/services/budgets.py\<close> and \<^verbatim>\<open>openai_budget.py\<close>): what was spent and what is reserved, and
  the gate every paid request passes before it is sent. Amounts are exact rationals instead of floats; an
  amount that is not finite is \<open>None\<close>. The bounds of the day, the month and the billing cycle and the
  numbers read from the settings are arguments, as is the presence of the file that marks a restored
  database. A missing cost in a sum counts 0, as in SQL.
\<close>

section \<open>State\<close>

record usage_row =
  u_operation_id :: "string option"
  u_job_id :: "string option"
  u_photo_id :: "string option"
  u_started_at :: instant
  u_cost_source :: string
  u_actual_cost :: "rat option"
  u_estimated_cost :: "rat option"
  u_counts :: "int list"  \<comment> \<open>input, output, cached, reasoning and cache-write tokens, request and image bytes\<close>
  u_status :: string

record reservation =
  rv_id :: string
  rv_amount :: rat
  rv_job_id :: "string option"
  rv_photo_id :: "string option"
  rv_active :: bool
  rv_created_at :: instant
  rv_provider_id :: "string option"
  rv_provider_kind :: "string option"

record provider_row =
  pv_id :: string
  pv_kind :: string
  pv_base_url :: string

record receipt =
  rc_started_at :: instant
  rc_cost :: "rat option"
  rc_uncertain :: bool

record budget_db =
  api_usage :: "usage_row list"
  usage_cost_archive :: "(string \<times> string \<times> rat) list"  \<comment> \<open>job id, photo id, cost\<close>
  budget_reservations :: "reservation list"
  providers :: "provider_row list"
  openai_budget_receipts :: "receipt list"
  paid_tables :: paid_db

record budget_settings =
  daily_stop :: rat
  monthly_stop :: rat
  photo_max :: rat
  unknown_request_reserve :: rat
  reservation_max_age_seconds :: "rat option"  \<comment> \<open>\<open>None\<close>: not a number\<close>
  complementary_enabled :: bool
  cycle_limit :: rat
  stop_percent :: rat
  warning_percent :: rat
  openai_daily_limit :: rat

record periods =
  day_start :: instant
  day_end :: instant
  month_start :: instant
  month_end :: instant
  cycle_start :: instant
  cycle_end :: instant
  cycle_day_start :: instant
  cycle_day_end :: instant

datatype budget_error =
    RestoreNotReconciled | InvalidReservation | JobBudgetExceeded | SpendingExceeded
  | OpenAICycleExceeded | OpenAIDailyExceeded | JobBudgetReached | MalformedJobJson

section \<open>Sums\<close>

definition billable_evidence :: "usage_row \<Rightarrow> bool" where
  "billable_evidence u =
     (list_ex (\<lambda>n. n > 0) (u_counts u) \<or> (case u_actual_cost u of None \<Rightarrow> False | Some c \<Rightarrow> c > 0) \<or>
      (case u_estimated_cost u of None \<Rightarrow> False | Some c \<Rightarrow> c > 0) \<or> u_status u \<in> {''completed'', ''success''})"

definition usage_cost :: "usage_row \<Rightarrow> rat" where
  "usage_cost u =
     (if u_cost_source u = ''unknown'' then 0
      else case u_actual_cost u of Some c \<Rightarrow> c | None \<Rightarrow> (case u_estimated_cost u of Some c \<Rightarrow> c | None \<Rightarrow> 0))"

definition unknown_usage :: "usage_row \<Rightarrow> bool" where
  "unknown_usage u = (u_cost_source u = ''unknown'' \<and> billable_evidence u)"

definition totals :: "(usage_row \<Rightarrow> bool) \<Rightarrow> budget_db \<Rightarrow> rat \<times> nat" where
  "totals p d =
     (let rows = filter p (api_usage d) in (sum_list (map usage_cost rows), length (filter unknown_usage rows)))"

text \<open>\<^verbatim>\<open>SUM(amount)\<close> over the active reservations.\<close>

definition reserved_sum :: "(reservation \<Rightarrow> bool) \<Rightarrow> reservation list \<Rightarrow> rat" where
  "reserved_sum p rs = sum_list (map rv_amount (filter (\<lambda>r. rv_active r \<and> p r) rs))"

record snapshot =
  daily_known :: rat
  monthly_known :: rat
  photo_known :: rat
  job_known :: rat
  daily_unknown_count :: nat
  monthly_unknown_count :: nat
  photo_unknown_count :: nat
  job_unknown_count :: nat
  unknown_count :: nat
  sn_reserve :: rat
  daily_effective :: rat
  monthly_effective :: rat
  reserved :: rat
  photo_effective :: rat
  job_effective :: rat
  job_limit :: "rat option"

definition matches :: "string option \<Rightarrow> string option \<Rightarrow> bool" where
  "matches column parameter = (parameter \<noteq> None \<and> column = parameter)"  \<comment> \<open>SQL \<^verbatim>\<open>column = ?\<close>\<close>

definition take_snapshot :: "budget_settings \<Rightarrow> periods \<Rightarrow> string option \<Rightarrow> string option \<Rightarrow> budget_db \<Rightarrow> snapshot" where
  "take_snapshot st pd job_id photo d =
     (let (dk, du) = totals (\<lambda>u. day_start pd \<le> u_started_at u \<and> u_started_at u < day_end pd) d;
          (mk, mu) = totals (\<lambda>u. month_start pd \<le> u_started_at u \<and> u_started_at u < month_end pd) d;
          (pk0, pu) = totals (\<lambda>u. matches (u_photo_id u) photo) d;
          (jk0, ju) = totals (\<lambda>u. matches (u_job_id u) job_id) d;
          pk = pk0 + sum_list (map (\<lambda>(j, p, c). c) (filter (\<lambda>(j, p, c). matches (Some p) photo) (usage_cost_archive d)));
          jk = jk0 + sum_list (map (\<lambda>(j, p, c). c) (filter (\<lambda>(j, p, c). matches (Some j) job_id) (usage_cost_archive d)));
          limit = (if truthy_text job_id
                   then Option.bind (first_row (\<lambda>j. Some (j_id j) = job_id) (jobs (queue (paid_tables d)))) budget_limit else None);
          total = reserved_sum (\<lambda>r. True) (budget_reservations d);
          reserve = max (1 / 100) (min 100 (unknown_request_reserve st))
      in \<lparr>daily_known = dk, monthly_known = mk, photo_known = pk, job_known = jk,
          daily_unknown_count = du, monthly_unknown_count = mu, photo_unknown_count = pu, job_unknown_count = ju,
          unknown_count = length (filter unknown_usage (api_usage d)), sn_reserve = reserve,
          daily_effective = dk + of_nat du * reserve + total, monthly_effective = mk + of_nat mu * reserve + total,
          reserved = total,
          photo_effective = pk + reserved_sum (\<lambda>r. matches (rv_photo_id r) photo) (budget_reservations d),
          job_effective = jk + reserved_sum (\<lambda>r. matches (rv_job_id r) job_id) (budget_reservations d),
          job_limit = limit\<rparr>)"

section \<open>OpenAI's own budget\<close>

definition is_openai :: "string option \<Rightarrow> budget_db \<Rightarrow> bool" where
  "is_openai provider_id d =
     (\<exists>p \<in> set (providers d). Some (pv_id p) = provider_id \<and>
        (pv_kind p = ''openai'' \<or> take 23 (py_casefold (pv_base_url p)) = ''https://api.openai.com/''))"

record openai_snapshot =
  oa_known :: rat
  oa_unknown_count :: nat
  oa_reserved :: rat
  oa_effective :: rat
  oa_limit :: rat
  oa_stop_at :: rat
  oa_daily_known :: rat
  oa_daily_effective :: rat
  oa_daily_limit :: rat
  oa_daily_stop_at :: rat
  oa_remaining :: rat
  oa_warning :: bool

definition receipts_total :: "instant \<Rightarrow> instant \<Rightarrow> budget_db \<Rightarrow> rat \<times> nat" where
  "receipts_total lo hi d =
     (let rows = filter (\<lambda>r. lo \<le> rc_started_at r \<and> rc_started_at r < hi) (openai_budget_receipts d)
      in (sum_list (map (\<lambda>r. case rc_cost r of None \<Rightarrow> 0 | Some c \<Rightarrow> c) rows), length (filter rc_uncertain rows)))"

definition openai_take_snapshot :: "budget_settings \<Rightarrow> periods \<Rightarrow> budget_db \<Rightarrow> openai_snapshot" where
  "openai_take_snapshot st pd d =
     (let reserve = max (1 / 100) (unknown_request_reserve st);
          (ck, cu) = receipts_total (cycle_start pd) (cycle_end pd) d;
          (dk, du) = receipts_total (cycle_day_start pd) (cycle_day_end pd) d;
          held = reserved_sum (\<lambda>r. rv_provider_kind r = None \<or> rv_provider_kind r = Some ''openai'') (budget_reservations d);
          stop = stop_percent st / 100;
          effective = ck + of_nat cu * reserve + held
      in \<lparr>oa_known = ck, oa_unknown_count = cu, oa_reserved = held, oa_effective = effective, oa_limit = cycle_limit st,
          oa_stop_at = cycle_limit st * stop, oa_daily_known = dk, oa_daily_effective = dk + of_nat du * reserve + held,
          oa_daily_limit = openai_daily_limit st, oa_daily_stop_at = openai_daily_limit st * stop,
          oa_remaining = max 0 (cycle_limit st * stop - effective),
          oa_warning = (effective \<ge> cycle_limit st * warning_percent st / 100)\<rparr>)"

definition assert_reserve :: "budget_settings \<Rightarrow> periods \<Rightarrow> rat \<Rightarrow> budget_db \<Rightarrow> budget_error + openai_snapshot" where
  "assert_reserve st pd amount d =
     (let s = openai_take_snapshot st pd d in
      if oa_effective s + amount > oa_stop_at s \<or> oa_effective s \<ge> oa_stop_at s then Inl OpenAICycleExceeded
      else if oa_daily_limit s > 0 \<and> (oa_daily_effective s + amount > oa_daily_stop_at s \<or> oa_daily_effective s \<ge> oa_daily_stop_at s)
      then Inl OpenAIDailyExceeded
      else Inr s)"

section \<open>Dedicated lanes\<close>

text \<open>\<^verbatim>\<open>analysis_spec_json -> provider_route\<close>, when it is an array of one entry.\<close>

fun only_route :: "json_text option \<Rightarrow> budget_error + json option" where
  "only_route None = Inr None"
| "only_route (Some Malformed) = Inl MalformedJobJson"
| "only_route (Some (Encoded v)) = Inr (case dict_get v ''provider_route'' of Some (JArr [r]) \<Rightarrow> Some r | _ \<Rightarrow> None)"

definition dedicated_lane :: "budget_settings \<Rightarrow> string option \<Rightarrow> string option \<Rightarrow> budget_db \<Rightarrow> budget_error + bool" where
  "dedicated_lane st job_id provider_id d =
     (if \<not> truthy_text job_id \<or> \<not> complementary_enabled st then Inr False
      else case first_row (\<lambda>j. Some (j_id j) = job_id) (jobs (queue (paid_tables d))) of
        None \<Rightarrow> Inr False
      | Some j \<Rightarrow>
         (case json_extract ''complementary_lane'' (settings_json j) of
            None \<Rightarrow> Inl MalformedJobJson
          | Some lane \<Rightarrow>
              if lane \<notin> {JStr ''openai_backfill'', JStr ''openrouter_daily''} then Inr False
              else bind_result (only_route (analysis_spec_json j)) (\<lambda>route.
                Inr (case route of
                       None \<Rightarrow> False
                     | Some r \<Rightarrow> dict_get r ''complementary_lane'' = Some lane \<and>
                         (case provider_id of None \<Rightarrow> True | Some p \<Rightarrow> dict_get r ''provider_id'' = Some (JStr p))))))"

section \<open>Reservations\<close>

definition assert_restore_reconciled :: "bool \<Rightarrow> budget_error + unit" where
  "assert_restore_reconciled guard_exists = (if guard_exists then Inl RestoreNotReconciled else Inr ())"

definition over :: "rat \<Rightarrow> rat \<times> rat \<Rightarrow> bool" where
  "over amount cm = (let (current, maximum) = cm in maximum > 0 \<and> current + amount > maximum)"

definition budget_checks :: "budget_settings \<Rightarrow> bool \<Rightarrow> string option \<Rightarrow> snapshot \<Rightarrow> (rat \<times> rat) list" where
  "budget_checks st dedicated photo s =
     [(daily_effective s, if dedicated then 0 else daily_stop st),
      (monthly_effective s, if dedicated then 0 else monthly_stop st),
      (photo_effective s, if truthy_text photo then photo_max st else 0),
      (job_effective s, case job_limit s of None \<Rightarrow> 0 | Some l \<Rightarrow> l)]"

text \<open>\<^verbatim>\<open>INSERT ... ON CONFLICT(id) DO UPDATE\<close>\<close>

definition upsert_reservation :: "reservation \<Rightarrow> reservation list \<Rightarrow> reservation list" where
  "upsert_reservation r rs =
     (if row_count (\<lambda>x. rv_id x = rv_id r) rs = 0 then rs @ [r] else update_where (\<lambda>x. rv_id x = rv_id r) (\<lambda>_. r) rs)"

definition new_reservation :: "string \<Rightarrow> rat \<Rightarrow> string option \<Rightarrow> string option \<Rightarrow> string option \<Rightarrow> instant \<Rightarrow> budget_db \<Rightarrow> reservation" where
  "new_reservation reservation_id a job_id photo provider_id now d =
     \<lparr>rv_id = reservation_id, rv_amount = a, rv_job_id = job_id, rv_photo_id = photo, rv_active = True, rv_created_at = now,
      rv_provider_id = provider_id,
      rv_provider_kind = (if is_openai provider_id d then Some ''openai'' else if truthy_text provider_id then Some ''other'' else None)\<rparr>"

text \<open>The checks against the snapshot and the insertion.\<close>

definition book :: "budget_settings \<Rightarrow> periods \<Rightarrow> reservation \<Rightarrow> bool \<Rightarrow> budget_db \<Rightarrow> budget_error + budget_db" where
  "book st pd r dedicated d =
     (let s = take_snapshot st pd (rv_job_id r) (rv_photo_id r) d; a = rv_amount r in
      if (case job_limit s of None \<Rightarrow> False | Some l \<Rightarrow> job_effective s + a > l) then Inl JobBudgetExceeded
      else if list_ex (over a) (budget_checks st dedicated (rv_photo_id r) s) then Inl SpendingExceeded
      else Inr (d\<lparr>budget_reservations := upsert_reservation r (budget_reservations d)\<rparr>))"

definition reserve :: "bool \<Rightarrow> budget_settings \<Rightarrow> periods \<Rightarrow> string \<Rightarrow> rat option \<Rightarrow> string option \<Rightarrow> string option \<Rightarrow> string option \<Rightarrow>
    instant \<Rightarrow> budget_db \<Rightarrow> budget_error + budget_db" where
  "reserve guard_exists st pd reservation_id amount job_id photo provider_id now d =
     bind_result (assert_restore_reconciled guard_exists) (\<lambda>_.
       case amount of
         None \<Rightarrow> Inl InvalidReservation
       | Some a \<Rightarrow>
          if a < 0 then Inl InvalidReservation
          else if \<exists>r \<in> set (budget_reservations d). rv_id r = reservation_id \<and> rv_active r then Inr d
          else
            bind_result
              (if complementary_enabled st \<and> is_openai provider_id d then map_sum id (\<lambda>_. ()) (assert_reserve st pd a d) else Inr ()) (\<lambda>_.
            bind_result (dedicated_lane st job_id provider_id d) (\<lambda>dedicated.
              book st pd (new_reservation reservation_id a job_id photo provider_id now d) dedicated d)))"

definition release_reservation :: "string \<Rightarrow> budget_db \<Rightarrow> budget_db" where
  "release_reservation reservation_id d =
     d\<lparr>budget_reservations := update_where (\<lambda>r. rv_id r = reservation_id) (\<lambda>r. r\<lparr>rv_active := False\<rparr>) (budget_reservations d)\<rparr>"

definition reservation_window :: "budget_settings \<Rightarrow> rat" where
  "reservation_window st =
     max 600 (min (case reservation_max_age_seconds st of None \<Rightarrow> 86400 | Some w \<Rightarrow> w) (7 * 24 * 60 * 60))"

definition settled_evidence :: "budget_db \<Rightarrow> string \<Rightarrow> bool" where
  "settled_evidence d operation_id =
     (\<exists>q \<in> set (billable_operations (paid_tables d)). o_id q = operation_id \<and>
        (o_state q = ONotSent \<or>
         (o_state q \<in> {OResponse, OCompleted, OApproved} \<and>
          (\<exists>u \<in> set (api_usage d). u_operation_id u = Some (o_id q) \<and> u_cost_source u \<noteq> ''unknown'' \<and>
             (u_actual_cost u \<noteq> None \<or> u_estimated_cost u \<noteq> None)))))"

definition expired :: "budget_settings \<Rightarrow> instant \<Rightarrow> budget_db \<Rightarrow> reservation \<Rightarrow> bool" where
  "expired st now d r =
     (rv_active r \<and> of_int (rv_created_at r) < of_int now - reservation_window st * 1000000 \<and>
      take 7 (py_casefold (rv_id r)) = ''vision:'' \<and> settled_evidence d (drop 7 (rv_id r)))"

definition expire_stale_reservations :: "budget_settings \<Rightarrow> instant \<Rightarrow> budget_db \<Rightarrow> nat \<times> budget_db" where
  "expire_stale_reservations st now d =
     (row_count (expired st now d) (budget_reservations d),
      d\<lparr>budget_reservations := update_where (expired st now d) (\<lambda>r. r\<lparr>rv_active := False\<rparr>) (budget_reservations d)\<rparr>)"

section \<open>The gate\<close>

definition reached :: "rat \<times> rat \<Rightarrow> bool" where
  "reached cm = (let (current, maximum) = cm in maximum > 0 \<and> current \<ge> maximum)"

definition assert_request_allowed :: "bool \<Rightarrow> budget_settings \<Rightarrow> periods \<Rightarrow> string option \<Rightarrow> string option \<Rightarrow> budget_db \<Rightarrow> budget_error + unit" where
  "assert_request_allowed guard_exists st pd job_id photo d =
     bind_result (assert_restore_reconciled guard_exists) (\<lambda>_.
       let s = take_snapshot st pd job_id photo d in
       bind_result (dedicated_lane st job_id None d) (\<lambda>dedicated.
         if list_ex reached
              [(daily_effective s, if dedicated then 0 else daily_stop st),
               (monthly_effective s, if dedicated then 0 else monthly_stop st),
               (photo_effective s, photo_max st)]
         then Inl SpendingExceeded
         else case job_limit s of
           None \<Rightarrow> Inr ()
         | Some l \<Rightarrow> if job_effective s \<ge> l then Inl JobBudgetReached else Inr ()))"

text \<open>The reservation for a request: the provider's estimate if it has one, else the floor.\<close>

definition estimate_reserve :: "budget_settings \<Rightarrow> rat option \<Rightarrow> rat" where
  "estimate_reserve st estimate =
     (case estimate of Some e \<Rightarrow> max 0 e | None \<Rightarrow> max (1 / 100) (unknown_request_reserve st))"

section \<open>Examples\<close>

definition demo_budget_settings :: budget_settings where
  "demo_budget_settings = \<lparr>daily_stop = 10, monthly_stop = 100, photo_max = 1 / 4, unknown_request_reserve = 1 / 4,
     reservation_max_age_seconds = None, complementary_enabled = False, cycle_limit = 20, stop_percent = 98, warning_percent = 80,
     openai_daily_limit = 0\<rparr>"

definition demo_periods :: periods where
  "demo_periods = \<lparr>day_start = 0, day_end = 100, month_start = 0, month_end = 1000, cycle_start = 0, cycle_end = 1000,
     cycle_day_start = 0, cycle_day_end = 100\<rparr>"

definition demo_budget :: budget_db where
  "demo_budget = \<lparr>api_usage = [], usage_cost_archive = [],
     budget_reservations = [\<lparr>rv_id = ''a'', rv_amount = 9, rv_job_id = None, rv_photo_id = None, rv_active = True, rv_created_at = 1,
       rv_provider_id = None, rv_provider_kind = None\<rparr>],
     providers = [], openai_budget_receipts = [], paid_tables = demo_paid\<rparr>"

section \<open>Lemmas\<close>

lemma reserved_sum_append: "reserved_sum p (rs @ [r]) = reserved_sum p rs + (if rv_active r \<and> p r then rv_amount r else 0)"
  by (simp add: reserved_sum_def)

lemma reserved_sum_Cons: "reserved_sum p (x # rs) = (if rv_active x \<and> p x then rv_amount x else 0) + reserved_sum p rs"
  by (simp add: reserved_sum_def)

lemma update_where_Cons: "update_where p f (x # xs) = (if p x then f x else x) # update_where p f xs"
  by (simp add: update_where_def)

text \<open>Activating a reservation adds its amount, and nothing else, to every sum it counts in.\<close>

lemma reserved_sum_update:
  assumes "distinct (map rv_id rs)" "\<forall>x \<in> set rs. rv_id x = rv_id r \<longrightarrow> \<not> rv_active x" "rv_active r"
    and "\<exists>x \<in> set rs. rv_id x = rv_id r"
  shows "reserved_sum p (update_where (\<lambda>x. rv_id x = rv_id r) (\<lambda>_. r) rs) = reserved_sum p rs + (if p r then rv_amount r else 0)"
  using assms
proof (induction rs)
  case (Cons x rs)
  show ?case
  proof (cases "rv_id x = rv_id r")
    case True
    then have "update_where (\<lambda>x. rv_id x = rv_id r) (\<lambda>_. r) rs = rs"
      using Cons.prems(1) by (intro update_where_miss) (auto simp: row_count_zero_iff image_iff)
    then show ?thesis using True Cons.prems by (simp add: update_where_Cons reserved_sum_Cons)
  next
    case False
    then show ?thesis using Cons by (auto simp: update_where_Cons reserved_sum_Cons)
  qed
qed simp

lemma reserved_sum_upsert:
  assumes "distinct (map rv_id rs)" "\<forall>x \<in> set rs. rv_id x = rv_id r \<longrightarrow> \<not> rv_active x" "rv_active r"
  shows "reserved_sum p (upsert_reservation r rs) = reserved_sum p rs + (if p r then rv_amount r else 0)"
proof (cases "row_count (\<lambda>x. rv_id x = rv_id r) rs = 0")
  case True
  then show ?thesis using assms(3) by (simp add: upsert_reservation_def reserved_sum_append)
next
  case False
  then have "\<exists>x \<in> set rs. rv_id x = rv_id r" by (auto simp: row_count_zero_iff)
  then show ?thesis using reserved_sum_update [OF assms] False by (simp add: upsert_reservation_def)
qed

lemma reserve_cases:
  assumes "reserve guard st pd i (Some a) job_id photo provider_id now d = Inr d'"
  obtains (repeated) "\<exists>r \<in> set (budget_reservations d). rv_id r = i \<and> rv_active r" "d' = d"
  | (booked) r dedicated where "\<forall>x \<in> set (budget_reservations d). rv_id x = i \<longrightarrow> \<not> rv_active x"
      "dedicated_lane st job_id provider_id d = Inr dedicated"
      "rv_id r = i" "rv_amount r = a" "rv_job_id r = job_id" "rv_photo_id r = photo" "rv_active r"
      "\<forall>l. job_limit (take_snapshot st pd job_id photo d) = Some l \<longrightarrow> job_effective (take_snapshot st pd job_id photo d) + a \<le> l"
      "list_all (\<lambda>c. \<not> over a c) (budget_checks st dedicated photo (take_snapshot st pd job_id photo d))"
      "d' = d\<lparr>budget_reservations := upsert_reservation r (budget_reservations d)\<rparr>"
proof (cases "\<exists>r \<in> set (budget_reservations d). rv_id r = i \<and> rv_active r")
  case True
  then show ?thesis using assms repeated
    by (auto simp: reserve_def bind_result_Inr assert_restore_reconciled_def split: if_splits)
next
  case False
  let ?r = "new_reservation i a job_id photo provider_id now d"
  obtain dedicated where ded: "dedicated_lane st job_id provider_id d = Inr dedicated" and bk: "book st pd ?r dedicated d = Inr d'"
    using assms False by (auto simp: reserve_def bind_result_Inr split: if_splits)
  have r: "rv_id ?r = i" "rv_amount ?r = a" "rv_job_id ?r = job_id" "rv_photo_id ?r = photo" "rv_active ?r"
    by (simp_all add: new_reservation_def)
  show ?thesis
    using bk False by (intro booked [OF _ ded r]) (auto simp: book_def Let_def r list_all_iff list_ex_iff split: if_splits option.splits)
qed

text \<open>What a snapshot takes from the reservations.\<close>

lemma snapshot_parts:
  "daily_effective (take_snapshot st pd j ph d) =
     daily_effective (take_snapshot st pd j ph (d\<lparr>budget_reservations := []\<rparr>)) + reserved_sum (\<lambda>r. True) (budget_reservations d)"
  "monthly_effective (take_snapshot st pd j ph d) =
     monthly_effective (take_snapshot st pd j ph (d\<lparr>budget_reservations := []\<rparr>)) + reserved_sum (\<lambda>r. True) (budget_reservations d)"
  "photo_effective (take_snapshot st pd j ph d) =
     photo_effective (take_snapshot st pd j ph (d\<lparr>budget_reservations := []\<rparr>)) + reserved_sum (\<lambda>r. matches (rv_photo_id r) ph) (budget_reservations d)"
  "job_effective (take_snapshot st pd j ph d) =
     job_effective (take_snapshot st pd j ph (d\<lparr>budget_reservations := []\<rparr>)) + reserved_sum (\<lambda>r. matches (rv_job_id r) j) (budget_reservations d)"
  "job_limit (take_snapshot st pd j ph d) = job_limit (take_snapshot st pd j ph (d\<lparr>budget_reservations := []\<rparr>))"
  unfolding take_snapshot_def totals_def Let_def prod.case snapshot.select_convs reserved_sum_def
  by simp_all

lemma truthy_text_Some: "truthy_text v \<Longrightarrow> v \<noteq> None"
  by (cases v) (simp_all add: truthy_text_def coalesce_text_def)

text \<open>A booking moves every figure of the snapshot it belongs to by its amount.\<close>

lemma snapshot_booked:
  assumes "distinct (map rv_id (budget_reservations d))" "\<forall>x \<in> set (budget_reservations d). rv_id x = rv_id r \<longrightarrow> \<not> rv_active x"
    and "rv_active r" "rv_job_id r = j" "rv_photo_id r = ph" "d' = d\<lparr>budget_reservations := upsert_reservation r (budget_reservations d)\<rparr>"
  shows "daily_effective (take_snapshot st pd j ph d') = daily_effective (take_snapshot st pd j ph d) + rv_amount r"
    and "monthly_effective (take_snapshot st pd j ph d') = monthly_effective (take_snapshot st pd j ph d) + rv_amount r"
    and "ph \<noteq> None \<Longrightarrow> photo_effective (take_snapshot st pd j ph d') = photo_effective (take_snapshot st pd j ph d) + rv_amount r"
    and "j \<noteq> None \<Longrightarrow> job_effective (take_snapshot st pd j ph d') = job_effective (take_snapshot st pd j ph d) + rv_amount r"
    and "job_limit (take_snapshot st pd j ph d') = job_limit (take_snapshot st pd j ph d)"
proof -
  have same: "d'\<lparr>budget_reservations := []\<rparr> = d\<lparr>budget_reservations := []\<rparr>" and rs: "budget_reservations d' = upsert_reservation r (budget_reservations d)"
    using assms(6) by simp_all
  note sums = reserved_sum_upsert [OF assms(1-3)]
  show "daily_effective (take_snapshot st pd j ph d') = daily_effective (take_snapshot st pd j ph d) + rv_amount r"
    unfolding snapshot_parts(1) [of st pd j ph d] snapshot_parts(1) [of st pd j ph d'] same rs sums by simp
  show "monthly_effective (take_snapshot st pd j ph d') = monthly_effective (take_snapshot st pd j ph d) + rv_amount r"
    unfolding snapshot_parts(2) [of st pd j ph d] snapshot_parts(2) [of st pd j ph d'] same rs sums by simp
  show "photo_effective (take_snapshot st pd j ph d') = photo_effective (take_snapshot st pd j ph d) + rv_amount r" if "ph \<noteq> None"
    unfolding snapshot_parts(3) [of st pd j ph d] snapshot_parts(3) [of st pd j ph d'] same rs sums using that assms(5) by (simp add: matches_def)
  show "job_effective (take_snapshot st pd j ph d') = job_effective (take_snapshot st pd j ph d) + rv_amount r" if "j \<noteq> None"
    unfolding snapshot_parts(4) [of st pd j ph d] snapshot_parts(4) [of st pd j ph d'] same rs sums using that assms(4) by (simp add: matches_def)
  show "job_limit (take_snapshot st pd j ph d') = job_limit (take_snapshot st pd j ph d)"
    unfolding snapshot_parts(5) [of st pd j ph d] snapshot_parts(5) [of st pd j ph d'] same ..
qed

section \<open>Properties\<close>



end
