(* ===== verification/Batch_Store.thy ===== *)
theory Batch_Store
  imports Budget Job_Invariant "HOL-Library.AList"
begin

text \<open>
  The tables of the batch lifecycle (\<^verbatim>\<open>inktime/app/db/migrations.py\<close>, migrations 26, 61 and 69) with the
  constraints SQLite enforces on them. A row of \<^verbatim>\<open>analysis_batches\<close> extends the columns the reservations and
  the paid operations read; columns that are always written together are grouped: the frozen identity of the
  batch (\<open>spec\<close>), the three remote files with their deletion flags, and the sums of its items (\<open>b_sums\<close>).
  Error messages are left out, since no decision reads them. Costs are exact rationals. A completion time is
  the clock of the program or the number of seconds the provider reports.
\<close>

section \<open>Rows\<close>

record remote_file =
  f_id :: "string option"
  f_deleted :: bool
  f_delete_unknown :: bool

record provider_identity =
  config_revision :: "string option"
  base_url_fingerprint :: "string option"
  project_id :: "string option"
  account_fingerprint :: "string option"

record batch_spec =
  sp_provider_id :: "string option"
  sp_model :: string
  sp_endpoint :: string
  sp_fingerprint :: string
  sample_seed :: "string option"
  candidate_snapshot_json :: string
  sp_scope :: string
  identity :: provider_identity

record batch_sums =
  s_completed :: int
  s_failed :: int
  s_missing :: int
  s_stale :: int
  s_imported :: int
  s_input_tokens :: int
  s_cached_tokens :: int
  s_output_tokens :: int
  s_reasoning_tokens :: int
  s_actual_cost :: rat

datatype stamp = Clock instant | Reported int

record batch = paid_batch +
  b_job_id :: "string option"
  spec :: batch_spec
  upload_attempt_id :: "string option"
  submission_attempt_id :: "string option"
  side_effect_version :: nat
  side_effect_lease_until :: "instant option"
  side_effect_owner :: "string option"
  phase_started_at :: "instant option"
  input_file :: remote_file
  output_file :: remote_file
  error_file :: remote_file
  input_file_bytes :: "int option"
  local_input_path :: "string option"
  local_output_path :: "string option"
  local_error_path :: "string option"
  b_total_items :: int
  b_sums :: batch_sums
  b_estimated_cost :: rat
  peak_rss_bytes :: int
  last_polled_at :: "instant option"
  b_completed_at :: "stamp option"
  cleanup_completed_at :: "instant option"
  cleanup_status :: string
  cleanup_final_action :: string
  cleanup_error_code :: "string option"
  b_created_at :: instant
  b_updated_at :: instant

record batch_item = paid_batch_item +
  bi_id :: string
  bi_job_item_id :: "string option"
  custom_id :: string
  bi_fingerprint :: string
  vision_request_fingerprint :: string
  vision_input_spec_json :: string
  http_status :: "int option"
  bi_input_tokens :: int
  bi_cached_tokens :: int
  bi_output_tokens :: int
  bi_reasoning_tokens :: int
  bi_estimated_cost :: rat
  bi_actual_cost :: rat
  bi_error_code :: "string option"
  imported_at :: "instant option"
  bi_updated_at :: instant

record batch_usage = usage_row +
  bu_batch_id :: "string option"
  bu_item_id :: "string option"
  bu_model :: string

record retry_authorization =
  authorization_id :: string
  source_item_id :: string
  ra_content_sha256 :: string
  retry_job_id :: "string option"
  approved_by :: "string option"
  ra_created_at :: instant

text \<open>The tables of the lifecycle, and the rest of the database as the budget sees it.\<close>

record batch_db =
  batches :: "batch list"
  batch_items :: "batch_item list"
  batch_usages :: "batch_usage list"
  retry_authorizations :: "retry_authorization list"
  batch_result_staging :: "((string \<times> string \<times> string) \<times> json) list"  \<comment> \<open>batch, run, custom id; payload\<close>
  batch_result_raw :: "((string \<times> string) \<times> string) list"  \<comment> \<open>batch, digest of the line; line\<close>
  rest :: budget_db

datatype batch_error =
    NoSuchBatch string | NoSuchItem string | BatchIntegrity | EmptyChild | ForeignChildItems | DeletionNotConfirmed
  | NotUploadUnknown | InvalidJobStatus | RemoteSideEffect | InvalidRemoteStatus | RemoteIdMissing | RemoteIdChanged
  | RemoteBoundElsewhere | InputFileChanged | ResultFileChanged | NotRecoverable | UnsupportedFile | NotTerminalStatus
  | ActiveItemsLeft | FilesLeft | StillHeld | NothingToRetry | AuthorizationUsed | AuthorizationUnknown | MalformedParent

section \<open>Statuses\<close>

definition TERMINAL_BATCH_STATUSES :: "string list" where
  "TERMINAL_BATCH_STATUSES = [''completed'', ''completed_with_errors'', ''failed'', ''expired'', ''cancelled'']"

definition UNKNOWN_STATUSES :: "string list" where
  "UNKNOWN_STATUSES = [''upload_unknown'', ''submission_unknown'']"

definition terminal_batch :: "batch \<Rightarrow> bool" where
  "terminal_batch b = (b_status b \<in> set TERMINAL_BATCH_STATUSES)"

text \<open>\<^verbatim>\<open>ACTIVE_BATCH_STATUSES - {"upload_unknown", "submission_unknown"}\<close>\<close>

definition pollable_status :: "string \<Rightarrow> bool" where
  "pollable_status s = (s \<in> set ACTIVE_BATCH_STATUSES \<and> s \<notin> set UNKNOWN_STATUSES)"

definition terminal_remote :: "string \<Rightarrow> bool" where
  "terminal_remote s = (s \<in> {''completed'', ''failed'', ''expired'', ''cancelled''})"

definition active_batch_item :: "string \<Rightarrow> bool" where
  "active_batch_item s = (s \<in> {''pending'', ''submitted'', ''upload_unknown'', ''submission_unknown''})"

section \<open>Constraints\<close>

text \<open>The CHECK on \<^verbatim>\<open>cleanup_status\<close> and those on the sign of the item count and the costs.\<close>

definition batch_check :: "batch \<Rightarrow> bool" where
  "batch_check b =
     ((cleanup_status b = ''not_required'' \<longrightarrow>
         f_id (input_file b) = None \<and> f_id (output_file b) = None \<and> f_id (error_file b) = None) \<and>
      0 \<le> b_total_items b \<and> 0 \<le> b_estimated_cost b)"

definition batches_ok :: "batch list \<Rightarrow> bool" where
  "batches_ok bs = (distinct (map b_id bs) \<and> unique_key remote_batch_id bs \<and> list_all batch_check bs)"

text \<open>The partial unique indexes over items whose request may still be answered.\<close>

definition reserving_batch_item :: "batch_item \<Rightarrow> bool" where
  "reserving_batch_item i = (active_batch_item (pbi_status i) \<or> pbi_status i = ''success'')"

definition active_job_item :: "batch_item \<Rightarrow> string option" where
  "active_job_item i = (if reserving_batch_item i then bi_job_item_id i else None)"

definition active_request :: "batch_item \<Rightarrow> (string option \<times> string) option" where
  "active_request i = (if reserving_batch_item i then Some (content_sha256 i, vision_request_fingerprint i) else None)"

definition items_ok :: "batch_item list \<Rightarrow> bool" where
  "items_ok is =
     (distinct (map bi_id is) \<and> distinct (map custom_id is) \<and> unique_key active_job_item is \<and> unique_key active_request is)"

definition store_batches :: "batch list \<Rightarrow> batch_db \<Rightarrow> batch_error + batch_db" where
  "store_batches bs d = (if batches_ok bs then Inr (d\<lparr>batches := bs\<rparr>) else Inl BatchIntegrity)"

definition store_batch_items :: "batch_item list \<Rightarrow> batch_db \<Rightarrow> batch_error + batch_db" where
  "store_batch_items is d = (if items_ok is then Inr (d\<lparr>batch_items := is\<rparr>) else Inl BatchIntegrity)"

text \<open>Updates that touch no column a constraint reads, or move items between reserving statuses or out of
  them, cannot fail.\<close>

definition upd_batches :: "(batch \<Rightarrow> bool) \<Rightarrow> (batch \<Rightarrow> batch) \<Rightarrow> batch_db \<Rightarrow> batch_db" where
  "upd_batches p f d = d\<lparr>batches := update_where p f (batches d)\<rparr>"

definition upd_batch_items :: "(batch_item \<Rightarrow> bool) \<Rightarrow> (batch_item \<Rightarrow> batch_item) \<Rightarrow> batch_db \<Rightarrow> batch_db" where
  "upd_batch_items p f d = d\<lparr>batch_items := update_where p f (batch_items d)\<rparr>"

definition find_batch :: "string \<Rightarrow> batch_db \<Rightarrow> batch option" where
  "find_batch batch_id d = first_row (\<lambda>b. b_id b = batch_id) (batches d)"

definition items_with :: "string \<Rightarrow> (string \<Rightarrow> bool) \<Rightarrow> batch_db \<Rightarrow> nat" where
  "items_with batch_id q d = row_count (\<lambda>i. bi_batch_id i = batch_id \<and> q (pbi_status i)) (batch_items d)"

section \<open>Views\<close>

text \<open>The job queue inside the database, and the database as the queue's reservations, the paid operations
  and the budget read it.\<close>

definition the_queue :: "batch_db \<Rightarrow> db" where
  "the_queue d = queue (paid_tables (rest d))"

definition set_queue :: "db \<Rightarrow> batch_db \<Rightarrow> batch_db" where
  "set_queue q d = d\<lparr>rest := (rest d)\<lparr>paid_tables := (paid_tables (rest d))\<lparr>queue := q\<rparr>\<rparr>\<rparr>"

definition queue_view :: "batch_db \<Rightarrow> db" where
  "queue_view d =
     (the_queue d)\<lparr>analysis_batches := map analysis_batch.truncate (batches d),
                   analysis_batch_items := map analysis_batch_item.truncate (batch_items d)\<rparr>"

definition paid_view :: "batch_db \<Rightarrow> paid_db" where
  "paid_view d =
     (paid_tables (rest d))\<lparr>paid_batches := map paid_batch.truncate (batches d),
                            paid_batch_items := map paid_batch_item.truncate (batch_items d), queue := queue_view d\<rparr>"

definition budget_view :: "batch_db \<Rightarrow> budget_db" where
  "budget_view d = (rest d)\<lparr>api_usage := map usage_row.truncate (batch_usages d), paid_tables := paid_view d\<rparr>"

lemma the_queue_simps [simp]:
  "the_queue (set_queue q d) = q" "the_queue (d\<lparr>batches := bs\<rparr>) = the_queue d" "the_queue (d\<lparr>batch_items := is\<rparr>) = the_queue d"
  "the_queue (upd_batches p f d) = the_queue d" "the_queue (upd_batch_items q' g d) = the_queue d"
  by (simp_all add: the_queue_def set_queue_def upd_batches_def upd_batch_items_def)

lemma batches_simps [simp]:
  "batches (set_queue q d) = batches d" "batches (upd_batches p f d) = update_where p f (batches d)"
  "batches (upd_batch_items q' g d) = batches d"
  by (simp_all add: set_queue_def upd_batches_def upd_batch_items_def)

lemma batch_items_simps [simp]:
  "batch_items (set_queue q d) = batch_items d" "batch_items (upd_batches p f d) = batch_items d"
  "batch_items (upd_batch_items q' g d) = update_where q' g (batch_items d)"
  by (simp_all add: set_queue_def upd_batches_def upd_batch_items_def)

lemma find_batch_Some: "find_batch batch_id d = Some b \<Longrightarrow> b \<in> set (batches d) \<and> b_id b = batch_id"
  unfolding find_batch_def by (blast dest: first_row_Some)

lemma store_batches_Inr: "store_batches bs d = Inr d' \<longleftrightarrow> batches_ok bs \<and> d' = d\<lparr>batches := bs\<rparr>"
  by (auto simp: store_batches_def)

end
