(* ===== verification/Batch_Repository.thy ===== *)
theory Batch_Repository
  imports Batch_Store
begin

text \<open>
  \<^verbatim>\<open>AnalysisBatchRepository\<close> (\<^verbatim>\<open>inktime/app/repositories/analysis_batches.py\<close>), one definition per method. A method is one transaction: its result is an
  error, which leaves the database as it was, or the value and the new database. The clock reading, the fresh
  identifiers and the lease end are arguments. The provider's answer is a record with the fields of its
  documented Batch object; a field that is missing or null is \<open>None\<close>. \<^verbatim>\<open>update_batch\<close> and \<^verbatim>\<open>update_item\<close> take the
  assignment of columns as a function on rows.
\<close>

section \<open>Costs\<close>

text \<open>Items of a batch joined with their usage rows: the cost is known when its source is.\<close>

definition known_cost :: "batch_usage option \<Rightarrow> rat option" where
  "known_cost u =
     (case u of None \<Rightarrow> None
      | Some r \<Rightarrow> if u_cost_source r = ''estimated'' \<or> u_cost_source r = ''provider_reported''
                  then (case u_actual_cost r of Some c \<Rightarrow> Some c | None \<Rightarrow> u_estimated_cost r) else None)"

definition usage_rows :: "batch_item \<Rightarrow> batch_db \<Rightarrow> batch_usage option list" where
  "usage_rows i d =
     (case filter (\<lambda>u. bu_item_id u = Some (bi_id i)) (batch_usages d) of [] \<Rightarrow> [None] | us \<Rightarrow> map Some us)"

definition cost_rows :: "string \<Rightarrow> batch_db \<Rightarrow> (string \<times> rat option) list" where
  "cost_rows batch_id d =
     concat (map (\<lambda>i. map (\<lambda>u. (bi_id i, known_cost u)) (usage_rows i d))
       (filter (\<lambda>i. bi_batch_id i = batch_id) (batch_items d)))"

record cost_summary =
  cs_items :: "(string \<times> rat option) list"
  cs_known :: rat
  cs_unknown :: nat
  cs_complete :: bool

definition cost_summary :: "string \<Rightarrow> batch_db \<Rightarrow> cost_summary" where
  "cost_summary batch_id d =
     (let rows = cost_rows batch_id d; unknown = length (filter (\<lambda>r. snd r = None) rows) in
      \<lparr>cs_items = fold (\<lambda>r. AList.update (fst r) (snd r)) rows [],
       cs_known = sum_list (map (\<lambda>r. case snd r of Some c \<Rightarrow> c | None \<Rightarrow> 0) rows),
       cs_unknown = unknown, cs_complete = (rows \<noteq> [] \<and> unknown = 0)\<rparr>)"

definition unresolved_item :: "string \<Rightarrow> bool" where
  "unresolved_item s = (active_batch_item s \<or> s = ''missing'' \<or> s = ''retry_pending'')"

definition settleable :: "string option \<Rightarrow> string option \<Rightarrow> string option \<Rightarrow> batch_db \<Rightarrow> batch \<Rightarrow> bool" where
  "settleable batch_id provider_id model d b =
     (terminal_batch b \<and> (batch_id = None \<or> batch_id = Some (b_id b)) \<and>
      (provider_id = None \<or> provider_id = sp_provider_id (spec b)) \<and>
      (case model of None \<Rightarrow> True
       | Some m \<Rightarrow> list_ex (\<lambda>u. bu_batch_id u = Some (b_id b) \<and> bu_model u = m) (batch_usages d)) \<and>
      coalesce_text (remote_status b) \<notin> set UNKNOWN_STATUSES)"

definition reservation_of :: "string \<Rightarrow> reservation \<Rightarrow> bool" where
  "reservation_of batch_id r = (rv_id r = ''batch:'' @ batch_id \<and> rv_active r)"

definition settle_one :: "batch \<Rightarrow> nat \<times> batch_db \<Rightarrow> nat \<times> batch_db" where
  "settle_one b acc =
     (let (released, d) = acc;
          s = cost_summary (b_id b) d;
          d1 = upd_batch_items (\<lambda>i. map_of (cs_items s) (bi_id i) \<noteq> None \<and> the (map_of (cs_items s) (bi_id i)) \<noteq> None)
                 (\<lambda>i. i\<lparr>bi_actual_cost := the (the (map_of (cs_items s) (bi_id i)))\<rparr>) d;
          d2 = upd_batches (\<lambda>x. b_id x = b_id b) (\<lambda>x. x\<lparr>b_sums := (b_sums x)\<lparr>s_actual_cost := cs_known s\<rparr>\<rparr>) d1;
          p = reservation_of (b_id b); rs = budget_reservations (rest d2)
      in if \<not> cs_complete s \<or> int (length (cs_items s)) \<noteq> b_total_items b \<or> items_with (b_id b) unresolved_item d2 \<noteq> 0 \<or>
            truthy_text (reconciliation_error_code b)
         then (released, d2)
         else (released + row_count p rs,
               d2\<lparr>rest := (rest d2)\<lparr>budget_reservations := update_where p (\<lambda>r. r\<lparr>rv_active := False\<rparr>) rs\<rparr>\<rparr>))"

definition settle_terminal_costs :: "string option \<Rightarrow> string option \<Rightarrow> string option \<Rightarrow> batch_db \<Rightarrow> nat \<times> batch_db" where
  "settle_terminal_costs batch_id provider_id model d =
     fold settle_one (filter (settleable batch_id provider_id model d) (batches d)) (0, d)"

section \<open>Creation\<close>

record new_batch =
  nb_id :: string
  nb_job_id :: "string option"
  nb_spec :: batch_spec
  nb_status :: "string option"
  nb_estimated_cost :: rat

record new_batch_item =
  ni_id :: string
  ni_job_item_id :: "string option"
  ni_photo_id :: "string option"
  ni_custom_id :: string
  ni_content_sha256 :: string
  ni_fingerprint :: string
  ni_vision_request_fingerprint :: string
  ni_vision_input_spec_json :: string
  ni_status :: "string option"
  ni_estimated_cost :: rat

definition no_file :: remote_file where
  "no_file = \<lparr>f_id = None, f_deleted = False, f_delete_unknown = False\<rparr>"

definition zero_sums :: batch_sums where
  "zero_sums = \<lparr>s_completed = 0, s_failed = 0, s_missing = 0, s_stale = 0, s_imported = 0, s_input_tokens = 0,
     s_cached_tokens = 0, s_output_tokens = 0, s_reasoning_tokens = 0, s_actual_cost = 0\<rparr>"

text \<open>A row with the columns an \<^verbatim>\<open>INSERT\<close> gives and the defaults of the others.\<close>

definition fresh_batch :: "string \<Rightarrow> string option \<Rightarrow> batch_spec \<Rightarrow> string \<Rightarrow> int \<Rightarrow> rat \<Rightarrow> instant \<Rightarrow> batch" where
  "fresh_batch batch_id job_id sp status count cost now =
     \<lparr>b_id = batch_id, b_status = status, abandon_confirmed_at = None, last_error_code = None,
      reconciliation_error_code = None, remote_status = None, remote_batch_id = None, submitted_at = None,
      b_job_id = job_id, spec = sp, upload_attempt_id = None, submission_attempt_id = None, side_effect_version = 0,
      side_effect_lease_until = None, side_effect_owner = None, phase_started_at = None, input_file = no_file,
      output_file = no_file, error_file = no_file, input_file_bytes = None, local_input_path = None,
      local_output_path = None, local_error_path = None, b_total_items = count, b_sums = zero_sums,
      b_estimated_cost = cost, peak_rss_bytes = 0, last_polled_at = None, b_completed_at = None,
      cleanup_completed_at = None, cleanup_status = ''pending'', cleanup_final_action = ''none'',
      cleanup_error_code = None, b_created_at = now, b_updated_at = now\<rparr>"

definition fresh_batch_item :: "string \<Rightarrow> instant \<Rightarrow> new_batch_item \<Rightarrow> batch_item" where
  "fresh_batch_item batch_id now n =
     \<lparr>bi_batch_id = batch_id, bi_photo_id = ni_photo_id n, content_sha256 = Some (ni_content_sha256 n),
      raw_response_json = None, pbi_request_id = None,
      pbi_status = (case ni_status n of None \<Rightarrow> ''pending'' | Some s \<Rightarrow> s), bi_id = ni_id n,
      bi_job_item_id = ni_job_item_id n, custom_id = ni_custom_id n, bi_fingerprint = ni_fingerprint n,
      vision_request_fingerprint = ni_vision_request_fingerprint n,
      vision_input_spec_json = ni_vision_input_spec_json n, http_status = None, bi_input_tokens = 0,
      bi_cached_tokens = 0, bi_output_tokens = 0, bi_reasoning_tokens = 0, bi_estimated_cost = ni_estimated_cost n,
      bi_actual_cost = 0, bi_error_code = None, imported_at = None, bi_updated_at = now\<rparr>"

text \<open>The foreign keys of the inserted rows.\<close>

definition refers :: "'a option \<Rightarrow> 'a list \<Rightarrow> bool" where
  "refers key keys = (case key of None \<Rightarrow> True | Some k \<Rightarrow> k \<in> set keys)"

definition batch_refers :: "batch \<Rightarrow> batch_db \<Rightarrow> bool" where
  "batch_refers b d =
     (refers (b_job_id b) (map j_id (jobs (the_queue d))) \<and>
      refers (sp_provider_id (spec b)) (map pv_id (providers (rest d))))"

definition item_refers :: "batch_db \<Rightarrow> batch_item \<Rightarrow> bool" where
  "item_refers d i =
     (refers (bi_job_item_id i) (map i_id (job_items (the_queue d))) \<and>
      refers (bi_photo_id i) (map p_id (photos (the_queue d))))"

definition create_with_items :: "new_batch \<Rightarrow> new_batch_item list \<Rightarrow> instant \<Rightarrow> batch_db \<Rightarrow> batch_error + (nat \<times> batch_db)" where
  "create_with_items n ns now d =
     (let b = fresh_batch (nb_id n) (nb_job_id n) (nb_spec n) (case nb_status n of None \<Rightarrow> ''preparing'' | Some s \<Rightarrow> s)
                (int (length ns)) (nb_estimated_cost n) now;
          is = map (fresh_batch_item (nb_id n) now) ns
      in if \<not> batch_refers b d \<or> \<not> list_all (item_refers d) is then Inl BatchIntegrity
         else bind_result (store_batches (batches d @ [b]) d) (\<lambda>d1.
              bind_result (store_batch_items (batch_items d1 @ is) d1) (\<lambda>d2. Inr (length ns, d2))))"

definition share :: "rat \<Rightarrow> int \<Rightarrow> int \<Rightarrow> rat" where
  "share cost part whole = cost * of_int part / of_int (max 1 (if whole = 0 then 1 else whole))"

definition create_child_batch :: "string \<Rightarrow> string \<Rightarrow> string list \<Rightarrow> string \<Rightarrow> int \<Rightarrow> int \<Rightarrow> int option \<Rightarrow> instant \<Rightarrow> batch_db \<Rightarrow>
    batch_error + (nat \<times> batch_db)" where
  "create_child_batch parent_id child_id selected path count rss bytes now d =
     (if selected = [] then Inl EmptyChild
      else case find_batch parent_id d of
        None \<Rightarrow> Inl (NoSuchBatch parent_id)
      | Some parent \<Rightarrow>
          if row_count (\<lambda>i. bi_batch_id i = parent_id \<and> bi_id i \<in> set selected) (batch_items d) \<noteq> length selected
          then Inl ForeignChildItems
          else
            let n = int (length selected); whole = b_total_items parent; cost = b_estimated_cost parent;
                child = (fresh_batch child_id (b_job_id parent) (spec parent) ''preparing'' count (share cost count whole) now)
                          \<lparr>local_input_path := Some path, peak_rss_bytes := rss, input_file_bytes := bytes\<rparr>
            in bind_result (store_batches (batches d @ [child]) d) (\<lambda>d1.
                 let d2 = upd_batch_items (\<lambda>i. bi_id i \<in> set selected)
                            (\<lambda>i. i\<lparr>bi_batch_id := child_id, bi_updated_at := now\<rparr>) d1
                 in bind_result (store_batches (update_where (\<lambda>b. b_id b = parent_id)
                      (\<lambda>b. b\<lparr>b_total_items := whole - n, b_estimated_cost := share cost (whole - n) whole,
                             b_updated_at := now\<rparr>) (batches d2)) d2) (\<lambda>d3. Inr (length selected, d3))))"

section \<open>Reading\<close>

text \<open>\<^verbatim>\<open>ORDER BY created_at DESC,id DESC LIMIT ?\<close>\<close>

definition list_batches :: "string list \<Rightarrow> int \<Rightarrow> batch_db \<Rightarrow> batch list" where
  "list_batches statuses limit d =
     take (nat (clamp 1 500 limit)) (rev (sort_key (\<lambda>b. (b_created_at b, b_id b))
       (filter (\<lambda>b. statuses = [] \<or> b_status b \<in> set statuses) (batches d))))"

definition claim_free :: "instant \<Rightarrow> batch \<Rightarrow> bool" where
  "claim_free now b = (case side_effect_lease_until b of None \<Rightarrow> True | Some t \<Rightarrow> t \<le> now)"

definition due_since :: "batch \<Rightarrow> instant" where
  "due_since b =
     (case last_polled_at b of Some t \<Rightarrow> t | None \<Rightarrow> (case phase_started_at b of Some t \<Rightarrow> t | None \<Rightarrow> b_updated_at b))"

definition list_pollable_due :: "int \<Rightarrow> instant \<Rightarrow> batch_db \<Rightarrow> batch list" where
  "list_pollable_due limit now d =
     take (nat (clamp 1 500 limit)) (sort_key (\<lambda>b. (due_since b, b_id b))
       (filter (\<lambda>b. pollable_status (b_status b) \<and> claim_free now b) (batches d)))"

definition list_operator_holds :: "int \<Rightarrow> batch_db \<Rightarrow> batch list" where
  "list_operator_holds limit d = list_batches UNKNOWN_STATUSES limit d"

definition list_for_job :: "string \<Rightarrow> int \<Rightarrow> batch_db \<Rightarrow> batch list" where
  "list_for_job job_id limit d =
     take (nat (clamp 1 5000 limit)) (sort_key (\<lambda>b. (b_created_at b, b_id b))
       (filter (\<lambda>b. b_job_id b = Some job_id) (batches d)))"

definition items_of_batch :: "string \<Rightarrow> string list \<Rightarrow> batch_db \<Rightarrow> batch_item list" where
  "items_of_batch batch_id statuses d =
     sort_key bi_id (filter (\<lambda>i. bi_batch_id i = batch_id \<and> (statuses = [] \<or> pbi_status i \<in> set statuses)) (batch_items d))"

definition item_by_custom_id :: "string \<Rightarrow> batch_db \<Rightarrow> batch_item option" where
  "item_by_custom_id cid d = first_row (\<lambda>i. custom_id i = cid) (batch_items d)"

definition counts :: "string \<Rightarrow> batch_db \<Rightarrow> string \<Rightarrow> nat" where
  "counts batch_id d status = items_with batch_id (\<lambda>s. s = status) d"

section \<open>Plain updates\<close>

definition update_batch :: "string \<Rightarrow> (batch \<Rightarrow> batch) \<Rightarrow> instant \<Rightarrow> batch_db \<Rightarrow> batch_error + batch_db" where
  "update_batch batch_id f now d =
     bind_result (store_batches (update_where (\<lambda>b. b_id b = batch_id) (\<lambda>b. (f b)\<lparr>b_updated_at := now\<rparr>) (batches d)) d) (\<lambda>d1.
       if row_count (\<lambda>b. b_id b = batch_id) (batches d) \<noteq> 1 then Inl (NoSuchBatch batch_id) else Inr d1)"

definition update_item :: "string \<Rightarrow> (batch_item \<Rightarrow> batch_item) \<Rightarrow> instant \<Rightarrow> batch_db \<Rightarrow> batch_error + batch_db" where
  "update_item item_id f now d =
     bind_result (store_batch_items (update_where (\<lambda>i. bi_id i = item_id) (\<lambda>i. (f i)\<lparr>bi_updated_at := now\<rparr>) (batch_items d)) d) (\<lambda>d1.
       if row_count (\<lambda>i. bi_id i = item_id) (batch_items d) \<noteq> 1 then Inl (NoSuchItem item_id) else Inr d1)"

definition hold_prepared_for_credit :: "string \<Rightarrow> string \<Rightarrow> instant \<Rightarrow> batch_db \<Rightarrow> batch_db" where
  "hold_prepared_for_credit job_id code now d =
     upd_batches (\<lambda>b. b_job_id b = Some job_id \<and> b_status b = ''preparing'' \<and> f_id (input_file b) = None \<and> remote_batch_id b = None)
       (\<lambda>b. b\<lparr>last_error_code := Some code, b_updated_at := now\<rparr>) d"

section \<open>Claims of side effects\<close>

definition claimed :: "string \<Rightarrow> instant \<Rightarrow> instant \<Rightarrow> batch \<Rightarrow> batch" where
  "claimed owner until now b =
     b\<lparr>side_effect_owner := Some owner, side_effect_lease_until := Some until,
       side_effect_version := side_effect_version b + 1, b_updated_at := now\<rparr>"

definition unclaimed :: "instant \<Rightarrow> batch \<Rightarrow> batch" where
  "unclaimed now b =
     b\<lparr>side_effect_owner := None, side_effect_lease_until := None,
       side_effect_version := side_effect_version b + 1, b_updated_at := now\<rparr>"

text \<open>\<^verbatim>\<open>UPDATE ... WHERE p\<close> and \<^verbatim>\<open>bool(cursor.rowcount)\<close>\<close>

definition cas :: "(batch \<Rightarrow> bool) \<Rightarrow> (batch \<Rightarrow> batch) \<Rightarrow> batch_db \<Rightarrow> bool \<times> batch_db" where
  "cas p f d = (row_count p (batches d) \<noteq> 0, upd_batches p f d)"

definition claim_poll :: "string \<Rightarrow> string \<Rightarrow> instant \<Rightarrow> nat \<Rightarrow> instant \<Rightarrow> batch_db \<Rightarrow> bool \<times> batch_db" where
  "claim_poll batch_id owner until expected now d =
     cas (\<lambda>b. b_id b = batch_id \<and> pollable_status (b_status b) \<and> side_effect_version b = expected \<and> claim_free now b)
       (\<lambda>b. (claimed owner until now b)\<lparr>last_polled_at := Some now\<rparr>) d"

definition release_side_effect_claim :: "string \<Rightarrow> string \<Rightarrow> instant \<Rightarrow> batch_db \<Rightarrow> bool \<times> batch_db" where
  "release_side_effect_claim batch_id owner now d =
     cas (\<lambda>b. b_id b = batch_id \<and> side_effect_owner b = Some owner) (unclaimed now) d"

definition claim_upload :: "string \<Rightarrow> string \<Rightarrow> string \<Rightarrow> instant \<Rightarrow> instant \<Rightarrow> batch_db \<Rightarrow> bool \<times> batch_db" where
  "claim_upload batch_id owner attempt until now d =
     cas (\<lambda>b. b_id b = batch_id \<and> b_status b = ''preparing'' \<and> f_id (input_file b) = None \<and> claim_free now b)
       (\<lambda>b. (claimed owner until now b)\<lparr>b_status := ''uploading'', upload_attempt_id := Some attempt,
              phase_started_at := Some now, last_error_code := None\<rparr>) d"

definition uploading_by :: "string \<Rightarrow> string \<Rightarrow> string \<Rightarrow> batch \<Rightarrow> bool" where
  "uploading_by batch_id attempt owner b =
     (b_id b = batch_id \<and> b_status b = ''uploading'' \<and> upload_attempt_id b = Some attempt \<and> side_effect_owner b = Some owner)"

definition complete_upload :: "string \<Rightarrow> string \<Rightarrow> string \<Rightarrow> string \<Rightarrow> int option \<Rightarrow> instant \<Rightarrow> batch_db \<Rightarrow>
    batch_error + (bool \<times> batch_db)" where
  "complete_upload batch_id attempt owner file bytes now d =
     (let p = uploading_by batch_id attempt owner in
      bind_result (store_batches (update_where p
        (\<lambda>b. (unclaimed now b)\<lparr>input_file := (input_file b)\<lparr>f_id := Some file\<rparr>, input_file_bytes := bytes,
               b_status := ''uploaded'', phase_started_at := Some now\<rparr>) (batches d)) d) (\<lambda>d1.
      Inr (row_count p (batches d) \<noteq> 0, d1)))"

definition mark_upload_unknown :: "string \<Rightarrow> string \<Rightarrow> string \<Rightarrow> string \<Rightarrow> instant \<Rightarrow> batch_db \<Rightarrow> bool \<times> batch_db" where
  "mark_upload_unknown batch_id attempt owner code now d =
     (let (won, d1) = cas (uploading_by batch_id attempt owner)
            (\<lambda>b. (unclaimed now b)\<lparr>b_status := ''upload_unknown'', remote_status := Some ''upload_unknown'',
                   cleanup_status := ''pending'', reconciliation_error_code := Some code, b_completed_at := None,
                   phase_started_at := Some now\<rparr>) d
      in (won, if won
               then upd_batch_items (\<lambda>i. bi_batch_id i = batch_id \<and> pbi_status i = ''pending'')
                      (\<lambda>i. i\<lparr>pbi_status := ''upload_unknown'', bi_error_code := Some code, bi_updated_at := now\<rparr>) d1
               else d1))"

definition claim_submission :: "string \<Rightarrow> string \<Rightarrow> string \<Rightarrow> instant \<Rightarrow> instant \<Rightarrow> batch_db \<Rightarrow> bool \<times> batch_db" where
  "claim_submission batch_id owner attempt until now d =
     cas (\<lambda>b. b_id b = batch_id \<and> b_status b = ''uploaded'' \<and> f_id (input_file b) \<noteq> None \<and> claim_free now b)
       (\<lambda>b. (claimed owner until now b)\<lparr>b_status := ''submitting'', submission_attempt_id := Some attempt,
              phase_started_at := Some now, submitted_at := coalesce (submitted_at b) (Some now), last_error_code := None\<rparr>) d"

definition claim_cancel :: "string \<Rightarrow> string \<Rightarrow> instant \<Rightarrow> instant \<Rightarrow> batch_db \<Rightarrow> bool \<times> batch_db" where
  "claim_cancel batch_id owner until now d =
     cas (\<lambda>b. b_id b = batch_id \<and> remote_batch_id b \<noteq> None \<and>
              b_status b \<in> {''validating'', ''in_progress'', ''finalizing'', ''cancelling''} \<and> claim_free now b)
       (\<lambda>b. (claimed owner until now b)\<lparr>b_status := ''cancelling'', phase_started_at := Some now\<rparr>) d"

section \<open>Answers of the provider\<close>

record remote_batch =
  r_id :: "string option"
  r_remote_batch_id :: "string option"
  r_status :: "string option"
  r_input_file_id :: "string option"
  r_output_file_id :: "string option"
  r_error_file_id :: "string option"
  r_completed_at :: "int option"
  r_expired_at :: "int option"
  r_cancelled_at :: "int option"
  r_counts :: "(string \<times> int option) list"
  r_errors :: bool

definition REMOTE_STATUSES :: "string list" where
  "REMOTE_STATUSES =
     [''validating'', ''in_progress'', ''finalizing'', ''completed'', ''failed'', ''expired'', ''cancelling'', ''cancelled'']"

definition or_text :: "string option \<Rightarrow> string option \<Rightarrow> string option" where
  "or_text a b = (if truthy_text a then a else b)"

definition remote_key :: "remote_batch \<Rightarrow> string" where
  "remote_key r = str_or (or_text (r_id r) (r_remote_batch_id r)) []"

definition truthy_int :: "int option \<Rightarrow> bool" where
  "truthy_int n = (n \<noteq> None \<and> n \<noteq> Some 0)"

text \<open>\<^verbatim>\<open>remote.get("completed_at") or remote.get("expired_at") or remote.get("cancelled_at")\<close>\<close>

definition remote_end :: "remote_batch \<Rightarrow> stamp option" where
  "remote_end r =
     map_option Reported (if truthy_int (r_completed_at r) then r_completed_at r
       else if truthy_int (r_expired_at r) then r_expired_at r else r_cancelled_at r)"

definition remote_end_or_now :: "remote_batch \<Rightarrow> instant \<Rightarrow> stamp" where
  "remote_end_or_now r now = (case remote_end r of Some (Reported n) \<Rightarrow> if n = 0 then Clock now else Reported n | _ \<Rightarrow> Clock now)"

text \<open>\<^verbatim>\<open>remote_value is not None and local not in (None, "", remote_value)\<close>\<close>

definition file_conflict :: "string option \<Rightarrow> string option \<Rightarrow> bool" where
  "file_conflict local remote = (remote \<noteq> None \<and> local \<noteq> None \<and> local \<noteq> Some [] \<and> local \<noteq> remote)"

definition results_conflict :: "remote_batch \<Rightarrow> batch \<Rightarrow> bool" where
  "results_conflict r b =
     (file_conflict (f_id (output_file b)) (r_output_file_id r) \<or> file_conflict (f_id (error_file b)) (r_error_file_id r))"

definition set_file :: "string option \<Rightarrow> remote_file \<Rightarrow> remote_file" where
  "set_file remote f = (if remote = None then f else f\<lparr>f_id := remote\<rparr>)"

definition set_results :: "remote_batch \<Rightarrow> batch \<Rightarrow> batch" where
  "set_results r b =
     b\<lparr>output_file := set_file (r_output_file_id r) (output_file b), error_file := set_file (r_error_file_id r) (error_file b)\<rparr>"

definition count_key :: "string \<Rightarrow> remote_batch \<Rightarrow> int option" where
  "count_key k r = (case map_of (r_counts r) k of None \<Rightarrow> None | Some None \<Rightarrow> Some 0 | Some (Some n) \<Rightarrow> Some n)"

definition bound_elsewhere :: "string \<Rightarrow> string \<Rightarrow> batch_db \<Rightarrow> bool" where
  "bound_elsewhere rid batch_id d = list_ex (\<lambda>b. remote_batch_id b = Some rid \<and> b_id b \<noteq> batch_id) (batches d)"

definition local_status_of :: "string \<Rightarrow> string" where
  "local_status_of remote = (if terminal_remote remote then ''import_pending'' else remote)"

definition submitting_by :: "string \<Rightarrow> string \<Rightarrow> string \<Rightarrow> batch \<Rightarrow> bool" where
  "submitting_by batch_id attempt owner b =
     (b_id b = batch_id \<and> b_status b = ''submitting'' \<and> submission_attempt_id b = Some attempt \<and> side_effect_owner b = Some owner)"

definition mark_items_submitted :: "string \<Rightarrow> instant \<Rightarrow> batch_db \<Rightarrow> batch_db" where
  "mark_items_submitted batch_id now d =
     upd_batch_items (\<lambda>i. bi_batch_id i = batch_id \<and> (pbi_status i = ''pending'' \<or> pbi_status i = ''submission_unknown''))
       (\<lambda>i. i\<lparr>pbi_status := ''submitted'', bi_error_code := None, bi_updated_at := now\<rparr>) d"

definition bind_submitted :: "remote_batch \<Rightarrow> string \<Rightarrow> string \<Rightarrow> instant \<Rightarrow> batch \<Rightarrow> batch" where
  "bind_submitted r rid rs now b =
     (set_results r (unclaimed now b))\<lparr>remote_batch_id := Some rid, b_status := local_status_of rs, remote_status := Some rs,
        last_error_code := None, reconciliation_error_code := None, last_polled_at := Some now, phase_started_at := Some now,
        b_completed_at := (if terminal_remote rs then Some (remote_end_or_now r now) else b_completed_at b)\<rparr>"

definition complete_submission :: "string \<Rightarrow> string \<Rightarrow> string \<Rightarrow> remote_batch \<Rightarrow> instant \<Rightarrow> batch_db \<Rightarrow>
    batch_error + (string option \<times> batch_db)" where
  "complete_submission batch_id attempt owner r now d =
     (let rid = remote_key r; rs = str_or (r_status r) ''validating''; p = submitting_by batch_id attempt owner in
      if rid = [] then Inl RemoteIdMissing
      else if rs \<notin> set REMOTE_STATUSES then Inl InvalidRemoteStatus
      else case find_batch batch_id d of
        None \<Rightarrow> Inl (NoSuchBatch batch_id)
      | Some b \<Rightarrow>
          if b_status b \<noteq> ''submitting'' \<or> coalesce_text (submission_attempt_id b) \<noteq> attempt then Inr (None, d)
          else if coalesce_text (side_effect_owner b) \<noteq> owner then Inr (None, d)
          else if file_conflict (remote_batch_id b) (Some rid) then Inl RemoteIdChanged
          else if bound_elsewhere rid batch_id d then Inl RemoteBoundElsewhere
          else if r_input_file_id r \<noteq> None \<and> coalesce_text (r_input_file_id r) \<noteq> coalesce_text (f_id (input_file b))
          then Inl InputFileChanged
          else if results_conflict r b then Inl ResultFileChanged
          else bind_result (store_batches (update_where p (bind_submitted r rid rs now) (batches d)) d) (\<lambda>d1.
            if row_count p (batches d) \<noteq> 1 then Inr (None, d1)
            else Inr (Some (local_status_of rs), mark_items_submitted batch_id now d1)))"

definition mark_submission_unknown :: "string \<Rightarrow> string \<Rightarrow> string \<Rightarrow> string \<Rightarrow> instant \<Rightarrow> batch_db \<Rightarrow> bool \<times> batch_db" where
  "mark_submission_unknown batch_id attempt owner code now d =
     (let (won, d1) = cas (submitting_by batch_id attempt owner)
            (\<lambda>b. (unclaimed now b)\<lparr>b_status := ''submission_unknown'', remote_status := Some ''submission_unknown'',
                   reconciliation_error_code := Some code, b_completed_at := None, phase_started_at := Some now\<rparr>) d
      in (won, if won
               then upd_batch_items (\<lambda>i. bi_batch_id i = batch_id \<and> (pbi_status i = ''pending'' \<or> pbi_status i = ''submitted''))
                      (\<lambda>i. i\<lparr>pbi_status := ''submission_unknown'', bi_error_code := Some code, bi_updated_at := now\<rparr>) d1
               else d1))"

definition recover_uploaded_file :: "string \<Rightarrow> string \<Rightarrow> int option \<Rightarrow> instant \<Rightarrow> batch_db \<Rightarrow> bool \<times> batch_db" where
  "recover_uploaded_file batch_id file bytes now d =
     (let (won, d1) = cas (\<lambda>b. b_id b = batch_id \<and> b_status b = ''upload_unknown'' \<and> remote_batch_id b = None)
            (\<lambda>b. (unclaimed now b)\<lparr>input_file := (input_file b)\<lparr>f_id := Some file\<rparr>,
                   input_file_bytes := coalesce bytes (input_file_bytes b), b_status := ''uploaded'',
                   cleanup_status := ''pending'', cleanup_error_code := None, last_error_code := None,
                   reconciliation_error_code := None, phase_started_at := Some now\<rparr>) d
      in (won, if won
               then upd_batch_items (\<lambda>i. bi_batch_id i = batch_id \<and> pbi_status i = ''upload_unknown'')
                      (\<lambda>i. i\<lparr>pbi_status := ''pending'', bi_error_code := None, bi_updated_at := now\<rparr>) d1
               else d1))"

section \<open>Finalization\<close>

definition item_totals :: "string \<Rightarrow> batch_db \<Rightarrow> batch_sums" where
  "item_totals batch_id d =
     (let is = filter (\<lambda>i. bi_batch_id i = batch_id) (batch_items d); n = (\<lambda>q. int (items_with batch_id q d)) in
      \<lparr>s_completed = n (\<lambda>s. s = ''imported''),
       s_failed = n (\<lambda>s. s \<in> {''failed'', ''schema_invalid'', ''duplicate_custom_id'', ''unexpected_custom_id''}),
       s_missing = n (\<lambda>s. s = ''missing'' \<or> s = ''retry_pending''), s_stale = n (\<lambda>s. s = ''stale''),
       s_imported = n (\<lambda>s. s = ''imported''),
       s_input_tokens = sum_list (map bi_input_tokens is), s_cached_tokens = sum_list (map bi_cached_tokens is),
       s_output_tokens = sum_list (map bi_output_tokens is), s_reasoning_tokens = sum_list (map bi_reasoning_tokens is),
       s_actual_cost = sum_list (map bi_actual_cost is)\<rparr>)"

definition closes_items :: "string \<Rightarrow> bool" where
  "closes_items status = (status \<in> {''failed'', ''cancelled'', ''expired''})"

definition close_items :: "string \<Rightarrow> string \<Rightarrow> string option \<Rightarrow> instant \<Rightarrow> batch_db \<Rightarrow> batch_db" where
  "close_items batch_id status code now d =
     (if closes_items status
      then upd_batch_items (\<lambda>i. bi_batch_id i = batch_id \<and> active_batch_item (pbi_status i))
             (\<lambda>i. i\<lparr>pbi_status := status, bi_error_code := coalesce code (bi_error_code i), bi_updated_at := now\<rparr>) d
      else d)"

text \<open>The items of the parent job whose batch item was closed by a failure.\<close>

definition job_items_in :: "string list \<Rightarrow> (string \<Rightarrow> bool) \<Rightarrow> batch_db \<Rightarrow> string list" where
  "job_items_in batch_ids q d =
     List.map_filter bi_job_item_id (filter (\<lambda>i. bi_batch_id i \<in> set batch_ids \<and> q (pbi_status i)) (batch_items d))"

definition close_job_items :: "string \<Rightarrow> string \<Rightarrow> string option \<Rightarrow> instant \<Rightarrow> batch_db \<Rightarrow> batch_db" where
  "close_job_items batch_id status code now d =
     (if closes_items status
      then set_queue (upd_items (\<lambda>i. i_id i \<in> set (job_items_in [batch_id] closes_items d) \<and> open_item (i_status i))
             (\<lambda>i. i\<lparr>i_status := (if status = ''cancelled'' then ICancelled else IFailed), completed_at := Some now,
                    error_code := coalesce code (error_code i), lease_until := None\<rparr>) (the_queue d)) d
      else d)"

definition pending_batches :: "string \<Rightarrow> batch_db \<Rightarrow> nat" where
  "pending_batches job_id d = row_count (\<lambda>b. b_job_id b = Some job_id \<and> \<not> terminal_batch b) (batches d)"

text \<open>The parent job: its counters are taken from its items, and once no batch of it is open it gets a final
  status, unless it was cancelled.\<close>

definition settle_job :: "string \<Rightarrow> job_status \<Rightarrow> instant \<Rightarrow> batch_db \<Rightarrow> batch_db" where
  "settle_job job_id status now d =
     (let q = the_queue d; n = (\<lambda>s. items_of job_id (\<lambda>x. x = s) q); open_left = pending_batches job_id d \<noteq> 0 in
      set_queue (upd_jobs (\<lambda>j. j_id j = job_id \<and> j_status j \<noteq> Cancelled)
        (\<lambda>j. j\<lparr>j_status := (if open_left then j_status j else status),
               j_completed_at := (if open_left then j_completed_at j else Some now),
               completed_items := n ICompleted, failed_items := n IFailed, heartbeat_at := Some now\<rparr>) q) d)"

definition siblings_status :: "string \<Rightarrow> batch_db \<Rightarrow> job_status" where
  "siblings_status job_id d =
     (let ss = map b_status (filter (\<lambda>b. b_job_id b = Some job_id) (batches d)) in
      if ss \<noteq> [] \<and> list_all (\<lambda>s. s = ''cancelled'') ss then Cancelled
      else if ss \<noteq> [] \<and> list_all (\<lambda>s. s = ''failed'') ss then Failed
      else if ss \<noteq> [] \<and> list_all (\<lambda>s. s = ''completed'') ss then Completed
      else CompletedWithErrors)"

definition finalized :: "string \<Rightarrow> batch_sums \<Rightarrow> string option \<Rightarrow> string option \<Rightarrow> string option \<Rightarrow> instant \<Rightarrow> batch \<Rightarrow> batch" where
  "finalized status tots action cleanup code now b =
     (unclaimed now b)\<lparr>b_status := status, b_sums := tots,
        cleanup_final_action := (case action of Some a \<Rightarrow> a | None \<Rightarrow> str_or (Some (cleanup_final_action b)) ''none''),
        b_completed_at := Some (Clock now),
        cleanup_status := (case cleanup of Some c \<Rightarrow> c | None \<Rightarrow> cleanup_status b),
        cleanup_completed_at := (if cleanup = None then cleanup_completed_at b else Some now),
        last_error_code := coalesce code (last_error_code b)\<rparr>"

definition settle_parent :: "string \<Rightarrow> string \<Rightarrow> string \<Rightarrow> string option \<Rightarrow> instant \<Rightarrow> batch_db \<Rightarrow> batch_db" where
  "settle_parent batch_id job_id status code now d =
     (if job_id = [] then d
      else let d1 = close_job_items batch_id status code now d
           in settle_job job_id (siblings_status job_id d1) now d1)"

definition finalize_batch_locked :: "string \<Rightarrow> string \<Rightarrow> string option \<Rightarrow> string option \<Rightarrow> string option \<Rightarrow> instant \<Rightarrow> batch_db \<Rightarrow>
    batch_error + (string \<times> batch_db)" where
  "finalize_batch_locked batch_id status action cleanup code now d =
     (if status \<notin> set TERMINAL_BATCH_STATUSES then Inl NotTerminalStatus
      else case find_batch batch_id d of
        None \<Rightarrow> Inl (NoSuchBatch batch_id)
      | Some b \<Rightarrow>
          if terminal_batch b then Inr (b_status b, d)
          else
            let d1 = close_items batch_id status code now d in
            if items_with batch_id active_batch_item d1 \<noteq> 0 then Inl ActiveItemsLeft
            else bind_result (store_batches (update_where (\<lambda>b. b_id b = batch_id)
                   (finalized status (item_totals batch_id d1) action cleanup code now) (batches d1)) d1) (\<lambda>d2.
                 Inr (status, settle_parent batch_id (coalesce_text (b_job_id b)) status code now d2)))"

definition finalize_batch_result :: "string \<Rightarrow> string \<Rightarrow> string option \<Rightarrow> string option \<Rightarrow> string option \<Rightarrow> instant \<Rightarrow> batch_db \<Rightarrow>
    batch_error + (string \<times> batch_db)" where
  "finalize_batch_result = finalize_batch_locked"

definition truthy_file :: "remote_file \<Rightarrow> bool" where
  "truthy_file f = truthy_text (f_id f)"

definition remote_files :: "batch \<Rightarrow> remote_file list" where
  "remote_files b = [input_file b, output_file b, error_file b]"

definition has_files :: "batch \<Rightarrow> bool" where
  "has_files b = list_ex truthy_file (remote_files b)"

definition unresolved_files :: "batch \<Rightarrow> bool" where
  "unresolved_files b = list_ex (\<lambda>f. truthy_file f \<and> \<not> f_deleted f) (remote_files b)"

definition finalize_cleanup :: "string \<Rightarrow> instant \<Rightarrow> batch_db \<Rightarrow> batch_error + (string \<times> batch_db)" where
  "finalize_cleanup batch_id now d =
     (case find_batch batch_id d of
        None \<Rightarrow> Inl (NoSuchBatch batch_id)
      | Some b \<Rightarrow>
          if unresolved_files b then Inl FilesLeft
          else if terminal_batch b then Inr (b_status b, d)
          else
            let action = str_or (Some (cleanup_final_action b)) ''none'';
                finish = (\<lambda>target code. finalize_batch_locked batch_id target (Some action)
                            (Some (if has_files b then ''completed'' else ''not_required'')) (Some code) now d)
            in if action = ''cancel'' then finish ''cancelled'' ''cancelled''
               else if action = ''abandon'' then finish ''failed'' ''abandoned''
               else if action = ''fail'' then finish ''failed'' ''failed''
               else Inr (b_status b, d))"

definition abandon_unknown_upload :: "string \<Rightarrow> bool \<Rightarrow> instant \<Rightarrow> batch_db \<Rightarrow> batch_error + (bool \<times> batch_db)" where
  "abandon_unknown_upload batch_id confirmed now d =
     (if \<not> confirmed then Inl DeletionNotConfirmed
      else case find_batch batch_id d of
        None \<Rightarrow> Inl (NoSuchBatch batch_id)
      | Some b \<Rightarrow>
          if b_status b \<noteq> ''upload_unknown'' then Inl NotUploadUnknown
          else
            let d1 = upd_batches (\<lambda>b. b_id b = batch_id \<and> b_status b = ''upload_unknown'')
                       (\<lambda>b. b\<lparr>remote_status := Some ''abandoned'', abandon_confirmed_at := Some now,
                              input_file := (input_file b)\<lparr>f_deleted := True\<rparr>, b_updated_at := now\<rparr>) d
            in map_sum id (\<lambda>r. (True, snd r))
                 (finalize_batch_locked batch_id ''failed'' (Some ''abandon'') (Some ''completed'') (Some ''abandoned'') now d1))"

definition side_effects :: "batch \<Rightarrow> bool" where
  "side_effects b = (has_files b \<or> truthy_text (remote_batch_id b))"

definition failed_locally :: "string \<Rightarrow> instant \<Rightarrow> batch \<Rightarrow> batch" where
  "failed_locally code now b =
     (unclaimed now b)\<lparr>b_status := ''failed'', remote_status := Some ''failed'', cleanup_status := ''not_required'',
        cleanup_completed_at := Some now, b_completed_at := Some (Clock now),
        b_sums := (b_sums b)\<lparr>s_failed := b_total_items b, s_missing := 0, s_stale := 0, s_imported := 0\<rparr>,
        cleanup_final_action := ''fail'', last_error_code := Some code\<rparr>"

definition local_targets :: "batch \<Rightarrow> bool \<Rightarrow> batch_db \<Rightarrow> batch list" where
  "local_targets b with_siblings d =
     (if with_siblings \<and> coalesce_text (b_job_id b) \<noteq> [] then filter (\<lambda>x. b_job_id x = b_job_id b) (batches d) else [b])"

definition local_row :: "string list \<Rightarrow> batch \<Rightarrow> bool" where
  "local_row ids b = (b_id b \<in> set ids \<and> remote_batch_id b = None \<and> f_id (input_file b) = None)"

definition fail_local_items :: "string list \<Rightarrow> string \<Rightarrow> instant \<Rightarrow> batch_db \<Rightarrow> batch_db" where
  "fail_local_items ids code now d =
     upd_batch_items (\<lambda>i. bi_batch_id i \<in> set ids \<and> pbi_status i \<notin> {''imported'', ''failed'', ''cancelled''})
       (\<lambda>i. i\<lparr>pbi_status := ''failed'', bi_error_code := Some code, bi_updated_at := now\<rparr>) d"

definition fail_local_job :: "string \<Rightarrow> string list \<Rightarrow> string \<Rightarrow> job_status \<Rightarrow> instant \<Rightarrow> batch_db \<Rightarrow> batch_db" where
  "fail_local_job job_id ids code status now d =
     (if job_id = [] then d
      else settle_job job_id status now (set_queue (upd_items
             (\<lambda>i. i_id i \<in> set (job_items_in ids (\<lambda>_. True) d) \<and> \<not> closed_item (i_status i))
             (\<lambda>i. i\<lparr>i_status := IFailed, completed_at := Some now, error_code := Some code, lease_until := None\<rparr>)
             (the_queue d)) d))"

definition fail_local_batch :: "string \<Rightarrow> string \<Rightarrow> job_status \<Rightarrow> bool \<Rightarrow> instant \<Rightarrow> batch_db \<Rightarrow> batch_error + (bool \<times> batch_db)" where
  "fail_local_batch batch_id code status with_siblings now d =
     (if status \<noteq> Failed \<and> status \<noteq> CompletedWithErrors then Inl InvalidJobStatus
      else case find_batch batch_id d of
        None \<Rightarrow> Inl (NoSuchBatch batch_id)
      | Some b \<Rightarrow>
          let targets = local_targets b with_siblings d; ids = map b_id targets in
          if list_ex side_effects targets then Inl RemoteSideEffect
          else bind_result (store_batches (update_where (local_row ids) (failed_locally code now) (batches d)) d) (\<lambda>d1.
               if row_count (local_row ids) (batches d) \<noteq> length ids then Inr (False, d1)
               else Inr (True, fail_local_job (coalesce_text (b_job_id b)) ids code status now (fail_local_items ids code now d1))))"

section \<open>Polling\<close>

definition remote_rank :: "string \<Rightarrow> nat option" where
  "remote_rank = map_of [(''validating'', 10), (''in_progress'', 20), (''finalizing'', 30), (''cancelling'', 35),
     (''completed'', 40), (''failed'', 40), (''expired'', 40), (''cancelled'', 40)]"

definition outranked :: "string \<Rightarrow> string \<Rightarrow> bool" where
  "outranked current new = (case (remote_rank current, remote_rank new) of (Some m, Some n) \<Rightarrow> n < m | _ \<Rightarrow> False)"

text \<open>A poll answer is stale when the claim it belongs to is gone or the batch is already further.\<close>

definition stale_answer :: "string \<Rightarrow> nat \<Rightarrow> string option \<Rightarrow> batch \<Rightarrow> bool" where
  "stale_answer status expected owner b =
     (let current = coalesce_text (remote_status b) in
      side_effect_version b \<noteq> expected \<or>
      (owner \<noteq> None \<and> coalesce_text (side_effect_owner b) \<noteq> coalesce_text owner) \<or>
      b_status b \<in> {''import_pending'', ''importing'', ''cleanup_pending''} \<or> terminal_batch b \<or>
      outranked current status \<or> (terminal_remote current \<and> status \<noteq> current) \<or>
      (b_status b = ''cancelling'' \<and> status \<in> {''validating'', ''in_progress'', ''finalizing''}))"

definition grow_count :: "string \<Rightarrow> remote_batch \<Rightarrow> int \<Rightarrow> int" where
  "grow_count k r n = (case count_key k r of None \<Rightarrow> n | Some m \<Rightarrow> max n m)"

definition falsy_stamp :: "stamp option \<Rightarrow> bool" where
  "falsy_stamp t = (t = None \<or> t = Some (Reported 0))"

definition apply_remote :: "remote_batch \<Rightarrow> string \<Rightarrow> instant \<Rightarrow> batch \<Rightarrow> batch" where
  "apply_remote r status now b =
     (set_results r (unclaimed now b))\<lparr>b_status := local_status_of status, last_polled_at := Some now, remote_status := Some status,
        b_completed_at := (if terminal_remote status \<and> falsy_stamp (b_completed_at b) then Some (remote_end_or_now r now) else b_completed_at b),
        remote_batch_id := coalesce (r_remote_batch_id r) (remote_batch_id b),
        input_file := (if truthy_file (input_file b) then input_file b else set_file (r_input_file_id r) (input_file b)),
        b_total_items := grow_count ''total'' r (b_total_items b),
        b_sums := (b_sums b)\<lparr>s_completed := grow_count ''completed'' r (s_completed (b_sums b)),
                         s_failed := grow_count ''failed'' r (s_failed (b_sums b))\<rparr>,
        last_error_code := (if r_errors r then Some ''remote_validation_error'' else last_error_code b)\<rparr>"

definition set_status_from_remote :: "string \<Rightarrow> remote_batch \<Rightarrow> nat option \<Rightarrow> string option \<Rightarrow> instant \<Rightarrow> batch_db \<Rightarrow>
    batch_error + (string \<times> batch_db)" where
  "set_status_from_remote batch_id r expected owner now d =
     (let status = py_strip (coalesce_text (r_status r)) in
      if status \<notin> set REMOTE_STATUSES then Inl InvalidRemoteStatus
      else case find_batch batch_id d of
        None \<Rightarrow> Inl (NoSuchBatch batch_id)
      | Some b \<Rightarrow>
          if stale_answer status (case expected of None \<Rightarrow> side_effect_version b | Some v \<Rightarrow> v) owner b
          then Inr (''ignored_stale'', d)
          else if file_conflict (remote_batch_id b) (or_text (r_id r) (r_remote_batch_id r)) then Inl RemoteIdChanged
          else if file_conflict (f_id (input_file b)) (r_input_file_id r) then Inl InputFileChanged
          else if results_conflict r b then Inl ResultFileChanged
          else bind_result (store_batches (update_where (\<lambda>x. b_id x = batch_id \<and> side_effect_version x = side_effect_version b)
                 (apply_remote r status now) (batches d)) d) (\<lambda>d1.
               Inr (local_status_of status, mark_items_submitted batch_id now d1)))"

definition rebound :: "remote_batch \<Rightarrow> string \<Rightarrow> string \<Rightarrow> instant \<Rightarrow> batch \<Rightarrow> batch" where
  "rebound r rid status now b =
     (set_results r (unclaimed now b))\<lparr>remote_batch_id := Some rid, b_status := local_status_of status, remote_status := Some status,
        last_error_code := None, reconciliation_error_code := None, phase_started_at := Some now, last_polled_at := Some now,
        b_completed_at := (if terminal_remote status then remote_end r else None),
        b_total_items := (case count_key ''total'' r of None \<Rightarrow> b_total_items b | Some n \<Rightarrow> max 0 n)\<rparr>"

definition bindable_status :: "string \<Rightarrow> bool" where
  "bindable_status s = (s \<in> {''import_pending'', ''validating'', ''in_progress'', ''finalizing'', ''cancelling''})"

definition recoverable :: "batch \<Rightarrow> bool" where
  "recoverable b = (b_status b \<in> {''submission_unknown'', ''submitting'', ''validating''})"

definition bind_recovered_remote :: "string \<Rightarrow> remote_batch \<Rightarrow> instant \<Rightarrow> batch_db \<Rightarrow> batch_error + (string \<times> batch_db)" where
  "bind_recovered_remote batch_id r now d =
     (let rid = remote_key r; status = coalesce_text (r_status r) in
      if rid = [] then Inl RemoteIdMissing
      else if \<not> bindable_status (local_status_of status) then Inl InvalidRemoteStatus
      else case find_batch batch_id d of
        None \<Rightarrow> Inl (NoSuchBatch batch_id)
      | Some b \<Rightarrow>
          if \<not> recoverable b then Inl NotRecoverable
          else if bound_elsewhere rid batch_id d then Inl RemoteBoundElsewhere
          else if file_conflict (remote_batch_id b) (Some rid) then Inl RemoteIdChanged
          else if results_conflict r b then Inl ResultFileChanged
          else bind_result (store_batches (update_where (\<lambda>x. b_id x = batch_id) (rebound r rid status now) (batches d)) d) (\<lambda>d1.
               Inr (local_status_of status,
                    upd_batch_items (\<lambda>i. bi_batch_id i = batch_id \<and>
                                       pbi_status i \<in> {''pending'', ''upload_unknown'', ''submission_unknown''})
                      (\<lambda>i. i\<lparr>pbi_status := ''submitted'', bi_error_code := None, bi_updated_at := now\<rparr>) d1)))"

section \<open>Cleanup of remote files\<close>

definition file_of :: "string \<Rightarrow> batch \<Rightarrow> remote_file option" where
  "file_of fk b =
     (if fk = ''input'' then Some (input_file b) else if fk = ''output'' then Some (output_file b)
      else if fk = ''error'' then Some (error_file b) else None)"

definition put_file :: "string \<Rightarrow> (remote_file \<Rightarrow> remote_file) \<Rightarrow> batch \<Rightarrow> batch" where
  "put_file fk g b =
     (if fk = ''input'' then b\<lparr>input_file := g (input_file b)\<rparr>
      else if fk = ''output'' then b\<lparr>output_file := g (output_file b)\<rparr>
      else if fk = ''error'' then b\<lparr>error_file := g (error_file b)\<rparr> else b)"

definition file_kinds :: "string list" where
  "file_kinds = [''input'', ''output'', ''error'']"

definition mark_file_deleted :: "string \<Rightarrow> string \<Rightarrow> instant \<Rightarrow> batch_db \<Rightarrow> batch_error + batch_db" where
  "mark_file_deleted batch_id fk now d =
     (if fk \<notin> set file_kinds then Inl UnsupportedFile
      else if row_count (\<lambda>b. b_id b = batch_id) (batches d) \<noteq> 1 then Inl (NoSuchBatch batch_id)
      else Inr (upd_batches (\<lambda>b. b_id b = batch_id)
             (\<lambda>b. (put_file fk (\<lambda>f. f\<lparr>f_deleted := True\<rparr>) b)\<lparr>b_updated_at := now\<rparr>) d))"

definition file_left :: "string \<Rightarrow> batch \<Rightarrow> bool" where
  "file_left fk b = (case file_of fk b of None \<Rightarrow> False | Some f \<Rightarrow> f_id f \<noteq> None \<and> \<not> f_deleted f)"

definition claim_cleanup_file :: "string \<Rightarrow> string \<Rightarrow> string \<Rightarrow> instant \<Rightarrow> instant \<Rightarrow> batch_db \<Rightarrow>
    batch_error + ((string \<times> bool) option \<times> batch_db)" where
  "claim_cleanup_file batch_id fk owner until now d =
     (if fk \<notin> set file_kinds then Inl UnsupportedFile
      else case first_row (\<lambda>b. b_id b = batch_id \<and> file_left fk b) (batches d) of
        None \<Rightarrow> Inr (None, d)
      | Some before \<Rightarrow>
          let p = (\<lambda>b. b_id b = batch_id \<and> file_left fk b \<and> claim_free now b) in
          if row_count p (batches d) \<noteq> 1 then Inr (None, d)
          else Inr (map_option (\<lambda>f. (coalesce_text (f_id f), f_delete_unknown f)) (file_of fk before),
                    upd_batches p (\<lambda>b. put_file fk (\<lambda>f. f\<lparr>f_delete_unknown := True\<rparr>) (claimed owner until now b)) d))"

definition complete_cleanup_file :: "string \<Rightarrow> string \<Rightarrow> string \<Rightarrow> instant \<Rightarrow> batch_db \<Rightarrow> batch_error + (bool \<times> batch_db)" where
  "complete_cleanup_file batch_id fk owner now d =
     (if fk \<notin> set file_kinds then Inl UnsupportedFile
      else Inr (cas (\<lambda>b. b_id b = batch_id \<and> side_effect_owner b = Some owner)
             (\<lambda>b. put_file fk (\<lambda>f. f\<lparr>f_deleted := True, f_delete_unknown := False\<rparr>) (unclaimed now b)) d))"

definition fail_cleanup_file :: "string \<Rightarrow> string \<Rightarrow> string \<Rightarrow> instant \<Rightarrow> batch_db \<Rightarrow> bool \<times> batch_db" where
  "fail_cleanup_file batch_id owner code now d =
     cas (\<lambda>b. b_id b = batch_id \<and> side_effect_owner b = Some owner)
       (\<lambda>b. (unclaimed now b)\<lparr>cleanup_error_code := Some code\<rparr>) d"

end
