(* ===== verification/Batch_Lifecycle.thy ===== *)
theory Batch_Lifecycle
  imports Batch_Repository Job_Properties
begin

text \<open>
  The batch tables as a transition system: one rule per method of \<^verbatim>\<open>AnalysisBatchRepository\<close> and one for every
  step of the job queue on its part of the database. Reachable states are well formed: the unique indexes and
  checks hold, a terminal batch has no item that is still waiting, and the queue's invariant is kept although
  batches write to jobs and items.
\<close>

section \<open>The invariant\<close>

text \<open>Identifiers of remote objects are never empty text.\<close>

definition named_ids :: "batch \<Rightarrow> bool" where
  "named_ids b =
     (remote_batch_id b \<noteq> Some [] \<and> f_id (input_file b) \<noteq> Some [] \<and> f_id (output_file b) \<noteq> Some [] \<and> f_id (error_file b) \<noteq> Some [])"

definition terminal_settled :: "batch_db \<Rightarrow> bool" where
  "terminal_settled d = (\<forall>b \<in> set (batches d). terminal_batch b \<longrightarrow> items_with (b_id b) active_batch_item d = 0)"

definition wf_batches :: "batch_db \<Rightarrow> bool" where
  "wf_batches d =
     (batches_ok (batches d) \<and> items_ok (batch_items d) \<and> bi_batch_id ` set (batch_items d) \<subseteq> b_id ` set (batches d) \<and>
      list_all named_ids (batches d) \<and> terminal_settled d \<and> wf_db (the_queue d))"

text \<open>The provider's documented Batch object has no field \<^verbatim>\<open>remote_batch_id\<close> and no empty identifier.\<close>

definition documented :: "remote_batch \<Rightarrow> bool" where
  "documented r =
     (r_remote_batch_id r = None \<and> r_id r \<noteq> Some [] \<and> r_input_file_id r \<noteq> Some [] \<and> r_output_file_id r \<noteq> Some [] \<and>
      r_error_file_id r \<noteq> Some [])"

section \<open>Steps\<close>

inductive batch_step :: "batch_db \<Rightarrow> batch_db \<Rightarrow> bool" where
  create: "nb_status n = None \<Longrightarrow> list_all (\<lambda>x. ni_status x = None) ns \<Longrightarrow> create_with_items n ns now d = Inr (k, d') \<Longrightarrow> batch_step d d'"
| split_off: "create_child_batch parent child ids path count rss bytes now d = Inr (k, d') \<Longrightarrow> batch_step d d'"
| hold: "batch_step d (hold_prepared_for_credit job_id code now d)"
| poll: "batch_step d (snd (claim_poll x owner until v now d))"
| release: "batch_step d (snd (release_side_effect_claim x owner now d))"
| upload: "batch_step d (snd (claim_upload x owner attempt until now d))"
| uploaded: "file \<noteq> [] \<Longrightarrow> complete_upload x attempt owner file bytes now d = Inr (b, d') \<Longrightarrow> batch_step d d'"
| upload_lost: "batch_step d (snd (mark_upload_unknown x attempt owner code now d))"
| submit: "batch_step d (snd (claim_submission x owner attempt until now d))"
| submitted: "documented r \<Longrightarrow> complete_submission x attempt owner r now d = Inr (s, d') \<Longrightarrow> batch_step d d'"
| submission_lost: "batch_step d (snd (mark_submission_unknown x attempt owner code now d))"
| cancel: "batch_step d (snd (claim_cancel x owner until now d))"
| recover_file: "file \<noteq> [] \<Longrightarrow> batch_step d (snd (recover_uploaded_file x file bytes now d))"
| recover_batch: "documented r \<Longrightarrow> bind_recovered_remote x r now d = Inr (t, d') \<Longrightarrow> batch_step d d'"
| answer: "documented r \<Longrightarrow> set_status_from_remote x r expected wo now d = Inr (t, d') \<Longrightarrow> batch_step d d'"
| abandon: "abandon_unknown_upload x c now d = Inr (b, d') \<Longrightarrow> batch_step d d'"
| fail_local: "fail_local_batch x code st sib now d = Inr (b, d') \<Longrightarrow> batch_step d d'"
| file_gone: "mark_file_deleted x fk now d = Inr d' \<Longrightarrow> batch_step d d'"
| cleanup: "claim_cleanup_file x fk owner until now d = Inr (o', d') \<Longrightarrow> batch_step d d'"
| cleaned: "complete_cleanup_file x fk owner now d = Inr (b, d') \<Longrightarrow> batch_step d d'"
| not_cleaned: "batch_step d (snd (fail_cleanup_file x owner code now d))"
| finalize: "finalize_batch_result x st action cl c now d = Inr (t, d') \<Longrightarrow> batch_step d d'"
| finalize_files: "finalize_cleanup x now d = Inr (t, d') \<Longrightarrow> batch_step d d'"
| settle: "batch_step d (snd (settle_terminal_costs x' pv' m' d))"
| queue: "repo_step (the_queue d) q \<Longrightarrow> batch_step d (set_queue q d)"

definition initial_batches :: "batch_db \<Rightarrow> bool" where
  "initial_batches d = (batches d = [] \<and> batch_items d = [] \<and> initial_db (the_queue d))"

section \<open>Preservation by updates\<close>

named_theorems batch_ops

lemma items_with_batches [simp]:
  "items_with x q (d\<lparr>batches := bs\<rparr>) = items_with x q d" "items_with x q (upd_batches p f d) = items_with x q d"
  "items_with x q (set_queue k d) = items_with x q d"
  by (simp_all add: items_with_def)

definition keeps_batch :: "(batch \<Rightarrow> batch) \<Rightarrow> bool" where
  "keeps_batch f =
     (\<forall>b. b_id (f b) = b_id b \<and> remote_batch_id (f b) = remote_batch_id b \<and> (batch_check b \<longrightarrow> batch_check (f b)) \<and>
          (named_ids b \<longrightarrow> named_ids (f b)) \<and> (terminal_batch (f b) \<longrightarrow> terminal_batch b))"

definition keeps_item :: "(batch_item \<Rightarrow> batch_item) \<Rightarrow> bool" where
  "keeps_item g =
     (\<forall>i. bi_id (g i) = bi_id i \<and> custom_id (g i) = custom_id i \<and> bi_job_item_id (g i) = bi_job_item_id i \<and>
          content_sha256 (g i) = content_sha256 i \<and> vision_request_fingerprint (g i) = vision_request_fingerprint i)"

lemma batches_ok_update:
  assumes "batches_ok bs" "keeps_batch f" shows "batches_ok (update_where p f bs)"
proof -
  have "map b_id (update_where p f bs) = map b_id bs"
    using assms(2) by (simp add: map_update_where keeps_batch_def)
  moreover have "unique_key remote_batch_id (update_where p f bs)"
    using assms by (intro unique_key_update) (auto simp: keeps_batch_def batches_ok_def)
  ultimately show ?thesis
    using assms by (auto simp: batches_ok_def keeps_batch_def list_all_iff set_update_where)
qed

lemma items_ok_update:
  assumes "items_ok is" "keeps_item g" "\<And>i. i \<in> set is \<Longrightarrow> q i \<Longrightarrow> reserving_batch_item (g i) \<Longrightarrow> reserving_batch_item i"
  shows "items_ok (update_where q g is)"
proof -
  have "map bi_id (update_where q g is) = map bi_id is" "map custom_id (update_where q g is) = map custom_id is"
    using assms(2) by (simp_all add: map_update_where keeps_item_def)
  moreover have "unique_key active_job_item (update_where q g is)"
    using assms by (intro unique_key_update) (auto simp: keeps_item_def items_ok_def active_job_item_def)
  moreover have "unique_key active_request (update_where q g is)"
    using assms by (intro unique_key_update) (auto simp: keeps_item_def items_ok_def active_request_def)
  ultimately show ?thesis using assms(1) by (simp add: items_ok_def)
qed

lemma wf_upd_batches:
  assumes "wf_batches d" "keeps_batch f" shows "wf_batches (upd_batches p f d)"
proof -
  have ids: "b_id ` set (update_where p f (batches d)) = b_id ` set (batches d)"
    using assms(2) by (metis keeps_batch_def map_update_where set_map)
  have "terminal_settled (upd_batches p f d)"
    using assms by (auto simp: wf_batches_def terminal_settled_def set_update_where keeps_batch_def)
  moreover have "list_all named_ids (update_where p f (batches d))"
    using assms by (auto simp: wf_batches_def list_all_iff set_update_where keeps_batch_def)
  ultimately show ?thesis
    using assms ids batches_ok_update by (simp add: wf_batches_def)
qed

lemma active_reserving: "active_batch_item (pbi_status i) \<Longrightarrow> reserving_batch_item i"
  by (simp add: reserving_batch_item_def)

text \<open>Items may stay in their batch or move to one that is not terminal, and no item starts to wait again.\<close>

lemma wf_upd_batch_items:
  assumes "wf_batches d" "keeps_item g"
    and "\<And>i. i \<in> set (batch_items d) \<Longrightarrow> q i \<Longrightarrow>
           bi_batch_id (g i) = bi_batch_id i \<and> (reserving_batch_item (g i) \<longrightarrow> reserving_batch_item i) \<and>
           (active_batch_item (pbi_status (g i)) \<longrightarrow> active_batch_item (pbi_status i))"
  shows "wf_batches (upd_batch_items q g d)"
proof -
  have le: "items_with x active_batch_item (upd_batch_items q g d) \<le> items_with x active_batch_item d" for x
    unfolding items_with_def batch_items_simps row_count_update_where
    using assms(3) by (intro row_count_mono) (auto split: if_splits)
  have "items_with (b_id b) active_batch_item (upd_batch_items q g d) = 0"
    if "b \<in> set (batches d)" "terminal_batch b" for b
    using that assms(1) le [of "b_id b"] unfolding wf_batches_def terminal_settled_def by (metis le_zero_eq)
  then have "terminal_settled (upd_batch_items q g d)"
    by (simp add: terminal_settled_def)
  moreover have "items_ok (update_where q g (batch_items d))"
    using assms by (intro items_ok_update) (auto simp: wf_batches_def)
  moreover have "bi_batch_id ` set (update_where q g (batch_items d)) \<subseteq> b_id ` set (batches d)"
    using assms(1,3) by (auto simp: wf_batches_def set_update_where)
  ultimately show ?thesis using assms(1) by (simp add: wf_batches_def)
qed

lemma wf_store_batches:
  assumes "wf_batches d" "store_batches (update_where p f (batches d)) d = Inr d'"
    and "\<And>b. b \<in> set (batches d) \<Longrightarrow> p b \<Longrightarrow>
           b_id (f b) = b_id b \<and> named_ids (f b) \<and>
           (terminal_batch (f b) \<longrightarrow> terminal_batch b \<or> items_with (b_id b) active_batch_item d = 0)"
  shows "wf_batches d'"
proof -
  have d': "d' = d\<lparr>batches := update_where p f (batches d)\<rparr>" "batches_ok (update_where p f (batches d))"
    using assms(2) by (auto simp: store_batches_Inr)
  have old: "items_with (b_id b) active_batch_item d = 0" if "b \<in> set (batches d)" "terminal_batch b" for b
    using assms(1) that by (simp add: wf_batches_def terminal_settled_def)
  have "items_with (b_id (f b)) active_batch_item d = 0" if "b \<in> set (batches d)" "p b" "terminal_batch (f b)" for b
    using assms(3) [OF that(1,2)] old [OF that(1)] that(3) by auto
  then have "terminal_settled d'"
    using old unfolding d'(1) by (auto simp: terminal_settled_def set_update_where)
  moreover have "b_id ` set (batches d) \<subseteq> b_id ` set (batches d')"
    using key_image_update [of "batches d" p b_id f "\<lambda>_. True"] assms(3) unfolding d'(1) by simp
  moreover have "list_all named_ids (batches d')"
    using assms(1,3) unfolding d'(1) by (auto simp: wf_batches_def list_all_iff set_update_where)
  ultimately show ?thesis using assms(1) d' by (simp add: wf_batches_def) blast
qed

lemma wf_set_queue: "wf_batches d \<Longrightarrow> wf_db q \<Longrightarrow> wf_batches (set_queue q d)"
  by (simp add: wf_batches_def terminal_settled_def)

section \<open>Preservation by the methods\<close>

lemmas row_defs = claimed_def unclaimed_def named_ids_def terminal_batch_def TERMINAL_BATCH_STATUSES_def

lemmas item_defs = keeps_item_def reserving_batch_item_def active_batch_item_def

lemma keeps_claims:
  "keeps_batch (claimed owner until now)" "keeps_batch (unclaimed now)"
  "keeps_batch (\<lambda>b. (claimed owner until now b)\<lparr>last_polled_at := Some now\<rparr>)"
  "keeps_batch (\<lambda>b. (claimed owner until now b)\<lparr>b_status := ''uploading'', upload_attempt_id := Some attempt,
              phase_started_at := Some now, last_error_code := None\<rparr>)"
  "keeps_batch (\<lambda>b. (claimed owner until now b)\<lparr>b_status := ''submitting'', submission_attempt_id := Some attempt,
              phase_started_at := Some now, submitted_at := coalesce (submitted_at b) (Some now), last_error_code := None\<rparr>)"
  "keeps_batch (\<lambda>b. (claimed owner until now b)\<lparr>b_status := ''cancelling'', phase_started_at := Some now\<rparr>)"
  "keeps_batch (\<lambda>b. (unclaimed now b)\<lparr>cleanup_error_code := Some code\<rparr>)"
  "keeps_batch (\<lambda>b. b\<lparr>last_error_code := Some code, b_updated_at := now\<rparr>)"
  by (simp_all add: keeps_batch_def row_defs batch_check_def)

lemma keeps_unknown:
  "keeps_batch (\<lambda>b. (unclaimed now b)\<lparr>b_status := ''upload_unknown'', remote_status := Some ''upload_unknown'',
     cleanup_status := ''pending'', reconciliation_error_code := Some code, b_completed_at := None, phase_started_at := Some now\<rparr>)"
  "keeps_batch (\<lambda>b. (unclaimed now b)\<lparr>b_status := ''submission_unknown'', remote_status := Some ''submission_unknown'',
     reconciliation_error_code := Some code, b_completed_at := None, phase_started_at := Some now\<rparr>)"
  by (simp_all add: keeps_batch_def row_defs batch_check_def)

lemma put_file_keeps [simp]:
  "b_id (put_file fk g b) = b_id b" "b_status (put_file fk g b) = b_status b" "remote_batch_id (put_file fk g b) = remote_batch_id b"
  "cleanup_status (put_file fk g b) = cleanup_status b" "b_total_items (put_file fk g b) = b_total_items b"
  "b_estimated_cost (put_file fk g b) = b_estimated_cost b" "b_job_id (put_file fk g b) = b_job_id b" "spec (put_file fk g b) = spec b"
  "side_effect_version (put_file fk g b) = side_effect_version b" "submitted_at (put_file fk g b) = submitted_at b"
  by (simp_all add: put_file_def)

lemma put_file_ids:
  assumes "\<And>f. f_id (g f) = f_id f"
  shows "f_id (input_file (put_file fk g b)) = f_id (input_file b)" "f_id (output_file (put_file fk g b)) = f_id (output_file b)"
    "f_id (error_file (put_file fk g b)) = f_id (error_file b)"
  using assms by (simp_all add: put_file_def)

lemma keeps_put_file: "(\<And>f. f_id (g f) = f_id f) \<Longrightarrow> keeps_batch h \<Longrightarrow> keeps_batch (\<lambda>b. put_file fk g (h b))"
  unfolding keeps_batch_def batch_check_def named_ids_def terminal_batch_def by (simp only: put_file_keeps put_file_ids) blast

lemma wf_cas: "wf_batches d \<Longrightarrow> keeps_batch f \<Longrightarrow> wf_batches (snd (cas p f d))"
  by (simp add: cas_def wf_upd_batches)

lemma wf_claims:
  assumes "wf_batches d"
  shows "wf_batches (snd (claim_poll x owner until v now d))" "wf_batches (snd (release_side_effect_claim x owner now d))"
    "wf_batches (snd (claim_upload x owner attempt until now d))" "wf_batches (snd (claim_submission x owner attempt until now d))"
    "wf_batches (snd (claim_cancel x owner until now d))" "wf_batches (snd (fail_cleanup_file x owner code now d))"
    "wf_batches (hold_prepared_for_credit job_id code now d)"
  unfolding claim_poll_def release_side_effect_claim_def claim_upload_def claim_submission_def claim_cancel_def
    fail_cleanup_file_def hold_prepared_for_credit_def
  by (intro wf_cas wf_upd_batches assms keeps_claims)+

lemma wf_complete_upload:
  assumes "wf_batches d" "file \<noteq> []" "complete_upload x attempt owner file bytes now d = Inr (b, d')"
  shows "wf_batches d'"
proof (rule wf_store_batches [OF assms(1)])
  show "store_batches (update_where (uploading_by x attempt owner)
        (\<lambda>b. (unclaimed now b)\<lparr>input_file := (input_file b)\<lparr>f_id := Some file\<rparr>, input_file_bytes := bytes,
               b_status := ''uploaded'', phase_started_at := Some now\<rparr>) (batches d)) d = Inr d'"
    using assms(3) by (auto simp: complete_upload_def Let_def bind_result_Inr)
qed (use assms(1,2) in \<open>auto simp: row_defs wf_batches_def list_all_iff\<close>)

lemma wf_mark_unknown:
  assumes "wf_batches d"
  shows "wf_batches (snd (mark_upload_unknown x attempt owner code now d))"
    "wf_batches (snd (mark_submission_unknown x attempt owner code now d))"
  unfolding mark_upload_unknown_def mark_submission_unknown_def cas_def Let_def prod.case snd_conv
  by (auto intro!: wf_upd_batch_items wf_upd_batches assms keeps_unknown simp: item_defs)

lemma wf_mark_items_submitted: "wf_batches d \<Longrightarrow> wf_batches (mark_items_submitted x now d)"
  unfolding mark_items_submitted_def by (rule wf_upd_batch_items) (auto simp: item_defs)

lemma wf_recover_uploaded_file:
  assumes "wf_batches d" "file \<noteq> []" shows "wf_batches (snd (recover_uploaded_file x file bytes now d))"
proof -
  have "keeps_batch (\<lambda>b. (unclaimed now b)\<lparr>input_file := (input_file b)\<lparr>f_id := Some file\<rparr>,
          input_file_bytes := coalesce bytes (input_file_bytes b), b_status := ''uploaded'',
          cleanup_status := ''pending'', cleanup_error_code := None, last_error_code := None,
          reconciliation_error_code := None, phase_started_at := Some now\<rparr>)"
    using assms(2) by (simp add: keeps_batch_def row_defs batch_check_def)
  then show ?thesis
    unfolding recover_uploaded_file_def cas_def Let_def prod.case snd_conv
    by (auto intro!: wf_upd_batch_items wf_upd_batches assms simp: item_defs)
qed

lemma named_set_results: "documented r \<Longrightarrow> named_ids b \<Longrightarrow> named_ids (set_results r b)"
  by (auto simp: documented_def named_ids_def set_results_def set_file_def)

lemma set_results_keeps [simp]:
  "b_id (set_results r b) = b_id b" "b_status (set_results r b) = b_status b" "remote_batch_id (set_results r b) = remote_batch_id b"
  "input_file (set_results r b) = input_file b" "b_job_id (set_results r b) = b_job_id b" "spec (set_results r b) = spec b"
  "side_effect_version (set_results r b) = side_effect_version b" "submitted_at (set_results r b) = submitted_at b"
  by (simp_all add: set_results_def)

lemma local_status_not_terminal: "local_status_of s \<in> set TERMINAL_BATCH_STATUSES \<Longrightarrow> s = ''completed_with_errors''"
  by (auto simp: local_status_of_def terminal_remote_def TERMINAL_BATCH_STATUSES_def split: if_splits)

lemma remote_status_local: "s \<in> set REMOTE_STATUSES \<Longrightarrow> local_status_of s \<notin> set TERMINAL_BATCH_STATUSES"
  using local_status_not_terminal by (fastforce simp: REMOTE_STATUSES_def)

lemma named_unclaimed: "named_ids (unclaimed now b) = named_ids b"
  by (simp add: unclaimed_def named_ids_def)

lemma wf_named: "wf_batches d \<Longrightarrow> b \<in> set (batches d) \<Longrightarrow> named_ids b"
  by (simp add: wf_batches_def list_all_iff)

lemma bind_submitted_row:
  assumes "documented r" "rid \<noteq> []" "rs \<in> set REMOTE_STATUSES" "named_ids b"
  shows "b_id (bind_submitted r rid rs now b) = b_id b \<and> named_ids (bind_submitted r rid rs now b) \<and>
         \<not> terminal_batch (bind_submitted r rid rs now b)"
proof -
  have "named_ids (set_results r (unclaimed now b))" using assms named_set_results named_unclaimed by blast
  then have "named_ids (bind_submitted r rid rs now b)" using assms(2) by (simp add: bind_submitted_def named_ids_def)
  then show ?thesis using remote_status_local [OF assms(3)] by (simp add: bind_submitted_def terminal_batch_def unclaimed_def)
qed

lemma complete_submission_cases:
  assumes "complete_submission x attempt owner r now d = Inr (s, d')"
  obtains "d' = d" "s = None"
  | d1 where "store_batches (update_where (submitting_by x attempt owner)
        (bind_submitted r (remote_key r) (str_or (r_status r) ''validating'') now) (batches d)) d = Inr d1"
      "remote_key r \<noteq> []" "str_or (r_status r) ''validating'' \<in> set REMOTE_STATUSES"
      "\<And>b. b \<in> set (batches d) \<Longrightarrow> submitting_by x attempt owner b \<Longrightarrow> find_batch x d = Some b \<Longrightarrow>
             \<not> file_conflict (remote_batch_id b) (Some (remote_key r))"
      "s = None \<and> d' = d1 \<or> d' = mark_items_submitted x now d1 \<and> s = Some (local_status_of (str_or (r_status r) ''validating''))"
  using assms unfolding complete_submission_def Let_def
  by (auto simp: bind_result_Inr split: if_splits option.splits)

lemma wf_complete_submission:
  assumes "wf_batches d" "documented r" "complete_submission x attempt owner r now d = Inr (s, d')"
  shows "wf_batches d'"
  using assms(3)
proof (cases rule: complete_submission_cases)
  case (2 d1)
  have "wf_batches d1"
    using bind_submitted_row [OF assms(2) 2(2,3)] wf_named [OF assms(1)] by (intro wf_store_batches [OF assms(1) 2(1)]) blast
  then show ?thesis using 2(5) wf_mark_items_submitted by blast
qed (use assms(1) in simp)

lemma rebound_row:
  assumes "documented r" "rid \<noteq> []" "named_ids b"
    "bindable_status (local_status_of st)"
  shows "b_id (rebound r rid st now b) = b_id b \<and> named_ids (rebound r rid st now b) \<and> \<not> terminal_batch (rebound r rid st now b)"
proof -
  have "named_ids (set_results r (unclaimed now b))" using assms named_set_results named_unclaimed by blast
  then have "named_ids (rebound r rid st now b)" using assms(2) by (simp add: rebound_def named_ids_def)
  then show ?thesis using assms(4) by (auto simp: rebound_def bindable_status_def terminal_batch_def TERMINAL_BATCH_STATUSES_def unclaimed_def)
qed

lemma bind_recovered_cases:
  assumes "bind_recovered_remote x r now d = Inr (t, d')"
  obtains d1 where "store_batches (update_where (\<lambda>b. b_id b = x) (rebound r (remote_key r) (coalesce_text (r_status r)) now) (batches d)) d = Inr d1"
    "remote_key r \<noteq> []"
    "bindable_status (local_status_of (coalesce_text (r_status r)))"
    "\<And>b. find_batch x d = Some b \<Longrightarrow> recoverable b \<and> \<not> file_conflict (remote_batch_id b) (Some (remote_key r))"
    "find_batch x d \<noteq> None"
    "d' = upd_batch_items (\<lambda>i. bi_batch_id i = x \<and> pbi_status i \<in> {''pending'', ''upload_unknown'', ''submission_unknown''})
                      (\<lambda>i. i\<lparr>pbi_status := ''submitted'', bi_error_code := None, bi_updated_at := now\<rparr>) d1"
  using assms unfolding bind_recovered_remote_def Let_def
  by (auto simp: bind_result_Inr split: if_splits option.splits)

lemma wf_bind_recovered_remote:
  assumes "wf_batches d" "documented r" "bind_recovered_remote x r now d = Inr (t, d')"
  shows "wf_batches d'"
  using assms(3)
proof (cases rule: bind_recovered_cases)
  case (1 d1)
  have "wf_batches d1"
    using rebound_row [OF assms(2) 1(2) _ 1(3)] wf_named [OF assms(1)] by (intro wf_store_batches [OF assms(1) 1(1)]) blast
  then show ?thesis unfolding 1(6) by (rule wf_upd_batch_items) (auto simp: item_defs)
qed

lemma named_set_file: "remote \<noteq> Some [] \<Longrightarrow> f_id f \<noteq> Some [] \<Longrightarrow> f_id (set_file remote f) \<noteq> Some []"
  by (simp add: set_file_def)

lemma apply_remote_row:
  assumes "documented r" "st \<in> set REMOTE_STATUSES" "named_ids b"
  shows "b_id (apply_remote r st now b) = b_id b \<and> named_ids (apply_remote r st now b) \<and> \<not> terminal_batch (apply_remote r st now b)"
proof -
  have "named_ids (set_results r (unclaimed now b))" using assms named_set_results named_unclaimed by blast
  moreover have "f_id (if truthy_file (input_file b) then input_file b else set_file (r_input_file_id r) (input_file b)) \<noteq> Some []"
    using assms(1,3) named_set_file by (simp add: documented_def named_ids_def)
  ultimately have "named_ids (apply_remote r st now b)"
    using assms(1,3) by (simp add: apply_remote_def named_ids_def documented_def coalesce_def)
  then show ?thesis using remote_status_local [OF assms(2)] by (simp add: apply_remote_def terminal_batch_def unclaimed_def)
qed

lemma set_status_cases:
  assumes "set_status_from_remote x r expected wo now d = Inr (t, d')"
  obtains "d' = d" "t = ''ignored_stale''"
  | b d1 where "find_batch x d = Some b"
      "\<not> stale_answer (py_strip (coalesce_text (r_status r))) (case expected of None \<Rightarrow> side_effect_version b | Some v \<Rightarrow> v) wo b"
      "store_batches (update_where (\<lambda>y. b_id y = x \<and> side_effect_version y = side_effect_version b)
         (apply_remote r (py_strip (coalesce_text (r_status r))) now) (batches d)) d = Inr d1"
      "py_strip (coalesce_text (r_status r)) \<in> set REMOTE_STATUSES" "d' = mark_items_submitted x now d1"
      "t = local_status_of (py_strip (coalesce_text (r_status r)))"
  using assms unfolding set_status_from_remote_def Let_def
  by (auto simp: bind_result_Inr split: if_splits option.splits)

lemma wf_set_status_from_remote:
  assumes "wf_batches d" "documented r" "set_status_from_remote x r expected wo now d = Inr (t, d')"
  shows "wf_batches d'"
  using assms(3)
proof (cases rule: set_status_cases)
  case (2 b d1)
  have "wf_batches d1"
    using apply_remote_row [OF assms(2) 2(4)] wf_named [OF assms(1)] by (intro wf_store_batches [OF assms(1) 2(3)]) blast
  then show ?thesis using 2(5) wf_mark_items_submitted by blast
qed (use assms(1) in simp)

lemma wf_cleanup_ops:
  assumes "wf_batches d"
  shows "mark_file_deleted x fk now d = Inr d' \<Longrightarrow> wf_batches d'"
    "claim_cleanup_file x fk owner until now d = Inr (o', d') \<Longrightarrow> wf_batches d'"
    "complete_cleanup_file x fk owner now d = Inr (b, d') \<Longrightarrow> wf_batches d'"
proof -
  have "keeps_batch (\<lambda>b. (put_file fk (\<lambda>f. f\<lparr>f_deleted := True\<rparr>) b)\<lparr>b_updated_at := now\<rparr>)"
    using keeps_put_file [of "\<lambda>f. f\<lparr>f_deleted := True\<rparr>" "\<lambda>b. b" fk]
    by (simp add: keeps_batch_def batch_check_def named_ids_def terminal_batch_def)
  then show "mark_file_deleted x fk now d = Inr d' \<Longrightarrow> wf_batches d'"
    using wf_upd_batches [OF assms] by (auto simp: mark_file_deleted_def split: if_splits)
  have "keeps_batch (\<lambda>b. put_file fk (\<lambda>f. f\<lparr>f_delete_unknown := True\<rparr>) (claimed owner until now b))"
    by (intro keeps_put_file keeps_claims) simp
  then show "claim_cleanup_file x fk owner until now d = Inr (o', d') \<Longrightarrow> wf_batches d'"
    using wf_upd_batches [OF assms] assms by (auto simp: claim_cleanup_file_def Let_def split: if_splits option.splits)
  have "keeps_batch (\<lambda>b. put_file fk (\<lambda>f. f\<lparr>f_deleted := True, f_delete_unknown := False\<rparr>) (unclaimed now b))"
    by (intro keeps_put_file keeps_claims) simp
  then show "complete_cleanup_file x fk owner now d = Inr (b, d') \<Longrightarrow> wf_batches d'"
    using wf_upd_batches [OF assms] by (auto simp: complete_cleanup_file_def cas_def split: if_splits)
qed

lemma wf_batches_frame:
  "batches d' = batches d \<Longrightarrow> batch_items d' = batch_items d \<Longrightarrow> the_queue d' = the_queue d \<Longrightarrow> wf_batches d' = wf_batches d"
  by (simp add: wf_batches_def terminal_settled_def items_with_def)

text \<open>New batches bring their own items; all other batches keep theirs.\<close>

lemma wf_create_with_items:
  assumes "wf_batches d" "nb_status n = None" "list_all (\<lambda>x. ni_status x = None) ns" "create_with_items n ns now d = Inr (k, d')"
  shows "wf_batches d'"
proof -
  let ?b = "fresh_batch (nb_id n) (nb_job_id n) (nb_spec n) ''preparing'' (int (length ns)) (nb_estimated_cost n) now"
  let ?is = "map (fresh_batch_item (nb_id n) now) ns"
  have d': "d' = d\<lparr>batches := batches d @ [?b], batch_items := batch_items d @ ?is\<rparr>"
    and ok: "batches_ok (batches d @ [?b])" "items_ok (batch_items d @ ?is)"
    using assms(2,4) by (auto simp: create_with_items_def Let_def bind_result_Inr store_batches_def store_batch_items_def split: if_splits)
  have b: "b_id ?b = nb_id n" "\<not> terminal_batch ?b" "named_ids ?b"
    by (simp_all add: fresh_batch_def terminal_batch_def TERMINAL_BATCH_STATUSES_def named_ids_def no_file_def)
  have new: "b_id c \<noteq> nb_id n" if "c \<in> set (batches d)" for c
    using ok(1) that b(1) unfolding batches_ok_def by (auto simp: image_iff)
  have none: "row_count (\<lambda>i. bi_batch_id i = y \<and> active_batch_item (pbi_status i)) ?is = 0" if "y \<noteq> nb_id n" for y
    using that by (auto simp: row_count_zero_iff fresh_batch_item_def)
  have "terminal_settled d'"
    using assms(1) b new none
    by (auto simp: terminal_settled_def d' items_with_def row_count_append wf_batches_def)
  moreover have "bi_batch_id ` set (batch_items d') \<subseteq> b_id ` set (batches d')"
    using assms(1) b(1) by (auto simp: d' wf_batches_def fresh_batch_item_def)
  ultimately show ?thesis using assms(1) ok b(3) by (simp add: wf_batches_def d')
qed

lemma create_child_cases:
  assumes "create_child_batch parent child ids path count rss bytes now d = Inr (k, d')"
  obtains pb cb d1 d2 where "find_batch parent d = Some pb" "k = length ids" "ids \<noteq> []"
    "row_count (\<lambda>i. bi_batch_id i = parent \<and> bi_id i \<in> set ids) (batch_items d) = length ids"
    "cb = (fresh_batch child (b_job_id pb) (spec pb) ''preparing'' count (share (b_estimated_cost pb) count (b_total_items pb)) now)
            \<lparr>local_input_path := Some path, peak_rss_bytes := rss, input_file_bytes := bytes\<rparr>"
    "store_batches (batches d @ [cb]) d = Inr d1"
    "d2 = upd_batch_items (\<lambda>i. bi_id i \<in> set ids) (\<lambda>i. i\<lparr>bi_batch_id := child, bi_updated_at := now\<rparr>) d1"
    "store_batches (update_where (\<lambda>b. b_id b = parent)
       (\<lambda>b. b\<lparr>b_total_items := b_total_items pb - int (length ids),
              b_estimated_cost := share (b_estimated_cost pb) (b_total_items pb - int (length ids)) (b_total_items pb),
              b_updated_at := now\<rparr>) (batches d2)) d2 = Inr d'"
  using assms unfolding create_child_batch_def Let_def
  by (auto simp: bind_result_Inr split: if_splits option.splits)

lemma wf_create_child_batch:
  assumes "wf_batches d" "create_child_batch parent child ids path count rss bytes now d = Inr (k, d')"
  shows "wf_batches d'"
  using assms(2)
proof (cases rule: create_child_cases)
  case (1 pb cb d1 d2)
  have cb: "b_id cb = child" "\<not> terminal_batch cb" "named_ids cb"
    by (simp_all add: 1(5) fresh_batch_def terminal_batch_def TERMINAL_BATCH_STATUSES_def named_ids_def no_file_def)
  have d1: "d1 = d\<lparr>batches := batches d @ [cb]\<rparr>" and ok: "batches_ok (batches d @ [cb])"
    using 1(6) by (auto simp: store_batches_Inr)
  have new: "b_id c \<noteq> child" if "c \<in> set (batches d)" for c
    using ok that cb(1) unfolding batches_ok_def by (auto simp: image_iff)
  have items: "batch_items d2 = update_where (\<lambda>i. bi_id i \<in> set ids) (\<lambda>i. i\<lparr>bi_batch_id := child, bi_updated_at := now\<rparr>) (batch_items d)"
    and bs: "batches d2 = batches d @ [cb]" and q: "the_queue d2 = the_queue d"
    by (simp_all add: 1(7) d1)
  have le: "items_with y active_batch_item d2 \<le> items_with y active_batch_item d" if "y \<noteq> child" for y
    unfolding items_with_def items row_count_update_where using that by (intro row_count_mono) (auto split: if_splits)
  have "items_with (b_id b) active_batch_item d2 = 0" if "b \<in> set (batches d)" "terminal_batch b" for b
    using that assms(1) le [OF new [OF that(1)]] by (auto simp: wf_batches_def terminal_settled_def)
  then have "terminal_settled d2" using cb(2) by (auto simp: terminal_settled_def bs)
  moreover have "items_ok (batch_items d2)"
    unfolding items using assms(1) by (intro items_ok_update) (auto simp: wf_batches_def item_defs)
  moreover have "bi_batch_id ` set (batch_items d2) \<subseteq> b_id ` set (batches d2)"
    using assms(1) cb(1) by (auto simp: items bs set_update_where wf_batches_def)
  ultimately have "wf_batches d2" using assms(1) ok cb(3) by (simp add: wf_batches_def bs q)
  then show ?thesis
  proof (rule wf_store_batches [OF _ 1(8)])
    fix b assume "b \<in> set (batches d2)"
    then have "named_ids b" using assms(1) cb(3) wf_named by (auto simp: bs)
    then show "b_id (b\<lparr>b_total_items := b_total_items pb - int (length ids),
              b_estimated_cost := share (b_estimated_cost pb) (b_total_items pb - int (length ids)) (b_total_items pb),
              b_updated_at := now\<rparr>) = b_id b \<and>
          named_ids (b\<lparr>b_total_items := b_total_items pb - int (length ids),
              b_estimated_cost := share (b_estimated_cost pb) (b_total_items pb - int (length ids)) (b_total_items pb),
              b_updated_at := now\<rparr>) \<and>
          (terminal_batch (b\<lparr>b_total_items := b_total_items pb - int (length ids),
              b_estimated_cost := share (b_estimated_cost pb) (b_total_items pb - int (length ids)) (b_total_items pb),
              b_updated_at := now\<rparr>) \<longrightarrow> terminal_batch b \<or> items_with (b_id b) active_batch_item d2 = 0)"
      by (simp add: named_ids_def terminal_batch_def)
  qed
qed

text \<open>Settling costs writes money columns only.\<close>

lemma wf_settle_one: "wf_batches (snd acc) \<Longrightarrow> wf_batches (snd (settle_one b acc))"
proof -
  assume a: "wf_batches (snd acc)"
  obtain n d where acc: "acc = (n, d)" by (cases acc)
  let ?s = "cost_summary (b_id b) d"
  let ?d1 = "upd_batch_items (\<lambda>i. map_of (cs_items ?s) (bi_id i) \<noteq> None \<and> the (map_of (cs_items ?s) (bi_id i)) \<noteq> None)
               (\<lambda>i. i\<lparr>bi_actual_cost := the (the (map_of (cs_items ?s) (bi_id i)))\<rparr>) d"
  let ?d2 = "upd_batches (\<lambda>x. b_id x = b_id b) (\<lambda>x. x\<lparr>b_sums := (b_sums x)\<lparr>s_actual_cost := cs_known ?s\<rparr>\<rparr>) ?d1"
  have "wf_batches ?d1" using a acc by (intro wf_upd_batch_items) (auto simp: item_defs)
  then have w: "wf_batches ?d2"
    by (rule wf_upd_batches) (simp add: keeps_batch_def named_ids_def terminal_batch_def batch_check_def)
  have "batches (snd (settle_one b acc)) = batches ?d2" "batch_items (snd (settle_one b acc)) = batch_items ?d2"
    "the_queue (snd (settle_one b acc)) = the_queue ?d2"
    by (simp_all add: settle_one_def acc Let_def the_queue_def)
  then show ?thesis using w wf_batches_frame by blast
qed

lemma wf_settle: "wf_batches d \<Longrightarrow> wf_batches (snd (settle_terminal_costs x pv m d))"
proof -
  have "wf_batches (snd acc) \<Longrightarrow> wf_batches (snd (fold settle_one bs acc))" for bs acc
    by (induction bs arbitrary: acc) (simp_all add: wf_settle_one)
  then show "wf_batches d \<Longrightarrow> wf_batches (snd (settle_terminal_costs x pv m d))"
    by (simp add: settle_terminal_costs_def)
qed

section \<open>Finalization\<close>

lemma wf_settle_job:
  assumes "wf_batches d" "\<not> active_status status" shows "wf_batches (settle_job job_id status now d)"
proof -
  have q: "wf_db (the_queue d)" using assms(1) by (simp add: wf_batches_def)
  have "wf_db (upd_jobs (\<lambda>j. j_id j = job_id \<and> j_status j \<noteq> Cancelled)
        (\<lambda>j. j\<lparr>j_status := (if open_left then j_status j else status), j_completed_at := (if open_left then j_completed_at j else Some now),
               completed_items := items_of job_id (\<lambda>x. x = ICompleted) (the_queue d),
               failed_items := items_of job_id (\<lambda>x. x = IFailed) (the_queue d), heartbeat_at := Some now\<rparr>) (the_queue d))" for open_left
    using q assms(2) by (intro wf_upd_jobs) (auto simp: keeps_job_def active_dedupe_def)
  then show ?thesis unfolding settle_job_def Let_def by (intro wf_set_queue assms(1))
qed

lemma wf_close_queue_items:
  assumes "wf_batches d" "st = IFailed \<or> st = ICancelled" "\<And>i. p i \<Longrightarrow> \<not> closed_item (i_status i)"
  shows "wf_batches (set_queue (upd_items p (\<lambda>i. i\<lparr>i_status := st, completed_at := Some now, error_code := code i, lease_until := None\<rparr>) (the_queue d)) d)"
proof -
  have "wf_db (upd_items p (\<lambda>i. i\<lparr>i_status := st, completed_at := Some now, error_code := code i, lease_until := None\<rparr>) (the_queue d))"
  proof (rule wf_upd_items)
    fix i assume "p i"
    then have "\<not> closed_item (i_status i)" by (rule assms(3))
    then show "(i_status (i\<lparr>i_status := st, completed_at := Some now, error_code := code i, lease_until := None\<rparr>) = ICompleted) = (i_status i = ICompleted) \<and>
        (i_status i = IFailed \<longrightarrow> i_status (i\<lparr>i_status := st, completed_at := Some now, error_code := code i, lease_until := None\<rparr>) = IFailed)"
      using assms(2) by (auto simp: closed_item_def)
  qed (use assms(1,2) in \<open>auto simp: wf_batches_def keeps_ids_def running_ok_def\<close>)
  then show ?thesis by (intro wf_set_queue assms(1))
qed

lemma wf_close_items: "wf_batches d \<Longrightarrow> wf_batches (close_items x status code now d)"
  unfolding close_items_def
  by (auto intro!: wf_upd_batch_items simp: item_defs closes_items_def)

lemma wf_close_job_items: "wf_batches d \<Longrightarrow> wf_batches (close_job_items x status code now d)"
  unfolding close_job_items_def
  by (auto intro!: wf_close_queue_items simp: open_item_def closed_item_def)

lemma siblings_status_final: "\<not> active_status (siblings_status job_id d)"
  by (auto simp: siblings_status_def Let_def active_status_def)

lemma wf_settle_parent: "wf_batches d \<Longrightarrow> wf_batches (settle_parent x job_id status code now d)"
  unfolding settle_parent_def Let_def by (simp add: wf_settle_job wf_close_job_items siblings_status_final)

lemma finalize_cases:
  assumes "finalize_batch_locked x status action cl code now d = Inr (t, d')"
  obtains b where "find_batch x d = Some b" "terminal_batch b" "t = b_status b" "d' = d"
  | b d1 d2 where "find_batch x d = Some b" "\<not> terminal_batch b" "t = status" "status \<in> set TERMINAL_BATCH_STATUSES"
      "d1 = close_items x status code now d" "items_with x active_batch_item d1 = 0"
      "store_batches (update_where (\<lambda>b. b_id b = x) (finalized status (item_totals x d1) action cl code now) (batches d1)) d1 = Inr d2"
      "d' = settle_parent x (coalesce_text (b_job_id b)) status code now d2"
  using assms unfolding finalize_batch_locked_def Let_def
  by (auto simp: bind_result_Inr split: if_splits option.splits)

lemma finalized_row:
  "b_id (finalized status tots action cl code now b) = b_id b" "named_ids (finalized status tots action cl code now b) = named_ids b"
  "b_status (finalized status tots action cl code now b) = status"
  by (simp_all add: finalized_def unclaimed_def named_ids_def)

lemma wf_finalize_locked:
  assumes "wf_batches d" "finalize_batch_locked x status action cl code now d = Inr (t, d')"
  shows "wf_batches d'"
  using assms(2)
proof (cases rule: finalize_cases)
  case (2 b d1 d2)
  have d1: "wf_batches d1" using wf_close_items assms(1) 2(5) by blast
  have "wf_batches d2"
    using 2(6) wf_named [OF d1] by (intro wf_store_batches [OF d1 2(7)]) (auto simp: finalized_row)
  then show ?thesis unfolding 2(8) by (rule wf_settle_parent)
qed (use assms(1) in simp)

lemma wf_finalize_cleanup:
  assumes "wf_batches d" "finalize_cleanup x now d = Inr (t, d')" shows "wf_batches d'"
  using assms(2) wf_finalize_locked [OF assms(1)] assms(1)
  by (auto simp: finalize_cleanup_def Let_def split: if_splits option.splits)

lemma wf_abandon:
  assumes "wf_batches d" "abandon_unknown_upload x c now d = Inr (b, d')" shows "wf_batches d'"
proof -
  let ?d1 = "upd_batches (\<lambda>b. b_id b = x \<and> b_status b = ''upload_unknown'')
               (\<lambda>b. b\<lparr>remote_status := Some ''abandoned'', abandon_confirmed_at := Some now,
                      input_file := (input_file b)\<lparr>f_deleted := True\<rparr>, b_updated_at := now\<rparr>) d"
  have "wf_batches ?d1"
    using assms(1) by (rule wf_upd_batches) (simp add: keeps_batch_def named_ids_def terminal_batch_def batch_check_def)
  moreover obtain t where "finalize_batch_locked x ''failed'' (Some ''abandon'') (Some ''completed'') (Some ''abandoned'') now ?d1 = Inr (t, d')"
    using assms(2) unfolding abandon_unknown_upload_def Let_def
    by (cases "finalize_batch_locked x ''failed'' (Some ''abandon'') (Some ''completed'') (Some ''abandoned'') now ?d1")
      (auto split: if_splits option.splits)
  ultimately show ?thesis by (rule wf_finalize_locked)
qed

section \<open>Local failure\<close>

lemma fail_local_cases:
  assumes "fail_local_batch x code status sib now d = Inr (r, d')"
  obtains b ids d1 where "find_batch x d = Some b" "status = Failed \<or> status = CompletedWithErrors"
    "ids = map b_id (local_targets b sib d)" "\<not> list_ex side_effects (local_targets b sib d)"
    "store_batches (update_where (local_row ids) (failed_locally code now) (batches d)) d = Inr d1"
    "if row_count (local_row ids) (batches d) \<noteq> length ids then \<not> r \<and> d' = d1
     else r \<and> d' = fail_local_job (coalesce_text (b_job_id b)) ids code status now (fail_local_items ids code now d1)"
  using assms unfolding fail_local_batch_def Let_def
  by (auto simp: bind_result_Inr split: if_splits option.splits)

lemma local_targets_mem: "b \<in> set (batches d) \<Longrightarrow> t \<in> set (local_targets b sib d) \<Longrightarrow> t \<in> set (batches d)"
  by (auto simp: local_targets_def split: if_splits)

lemma distinct_local_targets: "batches_ok (batches d) \<Longrightarrow> distinct (map b_id (local_targets b sib d))"
  by (auto simp: local_targets_def batches_ok_def intro: distinct_map_filter)

text \<open>Every target is a row without remote objects, so all of them are written.\<close>

lemma local_rows_counted:
  assumes "wf_batches d" "b \<in> set (batches d)" "\<not> list_ex side_effects (local_targets b sib d)"
  shows "row_count (local_row (map b_id (local_targets b sib d))) (batches d) = length (local_targets b sib d)"
proof -
  let ?T = "local_targets b sib d"
  have ids: "distinct (map b_id (batches d))" using assms(1) by (simp add: wf_batches_def batches_ok_def)
  have dT: "distinct (map b_id ?T)" using assms(1) distinct_local_targets by (simp add: wf_batches_def)
  have row: "local_row (map b_id ?T) t \<longleftrightarrow> t \<in> set ?T" if t: "t \<in> set (batches d)" for t
  proof
    assume "local_row (map b_id ?T) t"
    then obtain u where "u \<in> set ?T" "b_id u = b_id t" by (auto simp: local_row_def)
    then show "t \<in> set ?T" using key_inj [OF ids] local_targets_mem [OF assms(2)] t by metis
  next
    assume u: "t \<in> set ?T"
    then have "\<not> side_effects t" using assms(3) by (simp add: list_ex_iff)
    moreover have "named_ids t" using wf_named [OF assms(1) t] .
    ultimately show "local_row (map b_id ?T) t" using u
      by (auto simp: local_row_def side_effects_def has_files_def remote_files_def truthy_file_def truthy_text_def named_ids_def
          coalesce_text_def split: option.splits)
  qed
  have "row_count (local_row (map b_id ?T)) (batches d) = card (set ?T)"
  proof -
    have "distinct (filter (local_row (map b_id ?T)) (batches d))" using ids by (simp add: distinct_map)
    moreover have "set (filter (local_row (map b_id ?T)) (batches d)) = set ?T"
      using row local_targets_mem [OF assms(2)] by auto
    ultimately show ?thesis unfolding row_count_def by (metis distinct_card)
  qed
  then show ?thesis using dT by (simp add: distinct_card distinct_map)
qed

lemma failed_locally_row:
  "b_id (failed_locally code now b) = b_id b" "named_ids (failed_locally code now b) = named_ids b"
  "b_status (failed_locally code now b) = ''failed''" "terminal_batch (failed_locally code now b)"
  by (simp_all add: failed_locally_def unclaimed_def named_ids_def terminal_batch_def TERMINAL_BATCH_STATUSES_def)

lemma wf_fail_local_job:
  assumes "wf_batches d" "status = Failed \<or> status = CompletedWithErrors" shows "wf_batches (fail_local_job job_id ids code status now d)"
proof -
  have "\<not> active_status status" using assms(2) by (auto simp: active_status_def)
  then show ?thesis
    unfolding fail_local_job_def using assms(1) by (auto intro!: wf_settle_job wf_close_queue_items)
qed

lemma active_after_fail:
  assumes "i \<in> set (batch_items (fail_local_items ids code now d))" "bi_batch_id i \<in> set ids" shows "\<not> active_batch_item (pbi_status i)"
  using assms by (auto simp: fail_local_items_def set_update_where active_batch_item_def split: if_splits)

lemma wf_fail_local_batch:
  assumes "wf_batches d" "fail_local_batch x code status sib now d = Inr (r, d')" shows "r \<and> wf_batches d'"
  using assms(2)
proof (cases rule: fail_local_cases)
  case (1 b ids d1)
  have b: "b \<in> set (batches d)" using 1(1) find_batch_Some by blast
  have r: r and d': "d' = fail_local_job (coalesce_text (b_job_id b)) ids code status now (fail_local_items ids code now d1)"
    using 1(6) local_rows_counted [OF assms(1) b 1(4)] by (auto simp: 1(3))
  have d1: "d1 = d\<lparr>batches := update_where (local_row ids) (failed_locally code now) (batches d)\<rparr>"
    and ok: "batches_ok (update_where (local_row ids) (failed_locally code now) (batches d))"
    using 1(5) by (auto simp: store_batches_Inr)
  let ?e = "fail_local_items ids code now d1"
  have items: "batch_items ?e = batch_items (fail_local_items ids code now d)" by (simp add: fail_local_items_def d1)
  have frame: "batches (fail_local_items ids code now d) = batches d" by (simp add: fail_local_items_def)
  have w: "wf_batches (fail_local_items ids code now d)"
    unfolding fail_local_items_def using assms(1) by (rule wf_upd_batch_items) (auto simp: item_defs)
  have "wf_batches ?e"
  proof -
    have "items_with (b_id c) active_batch_item ?e = 0" if "c \<in> set (batches ?e)" "terminal_batch c" for c
    proof (cases "b_id c \<in> set ids")
      case True
      then show ?thesis using active_after_fail [of _ ids code now d1] by (auto simp: items_with_def row_count_zero_iff)
    next
      case False
      then have "c \<in> set (batches d)"
        using that(1) by (auto simp: fail_local_items_def d1 set_update_where local_row_def failed_locally_row)
      then have "items_with (b_id c) active_batch_item (fail_local_items ids code now d) = 0"
        using w that(2) frame by (simp add: wf_batches_def terminal_settled_def)
      then show ?thesis by (simp add: items_with_def items)
    qed
    moreover have "b_id ` set (batches ?e) = b_id ` set (batches d)"
      by (simp add: fail_local_items_def d1) (metis map_update_where failed_locally_row(1) set_map)
    moreover have "list_all named_ids (batches ?e)"
      using wf_named [OF assms(1)] by (auto simp: list_all_iff fail_local_items_def d1 set_update_where failed_locally_row)
    ultimately show ?thesis
      using w ok unfolding wf_batches_def terminal_settled_def items
      by (simp add: fail_local_items_def d1)
  qed
  then show ?thesis using r wf_fail_local_job [OF _ 1(2)] by (simp add: d')
qed

section \<open>Reachable states\<close>

lemma wf_batch_initial: "initial_batches d \<Longrightarrow> wf_batches d"
  using wf_initial by (simp add: initial_batches_def wf_batches_def batches_ok_def items_ok_def unique_key_def terminal_settled_def)

lemma wf_batch_step: "batch_step d d' \<Longrightarrow> wf_batches d \<Longrightarrow> wf_batches d'"
proof (induction rule: batch_step.induct)
  case (queue d q)
  then show ?case using wf_repo_step wf_set_queue by (simp add: wf_batches_def)
next
  case (finalize x st action cl c now d t d')
  then show ?case using wf_finalize_locked by (simp add: finalize_batch_result_def)
qed (blast intro: wf_create_with_items wf_create_child_batch wf_claims wf_complete_upload wf_mark_unknown
  wf_complete_submission wf_recover_uploaded_file wf_bind_recovered_remote wf_set_status_from_remote wf_abandon
  wf_cleanup_ops wf_finalize_cleanup wf_settle dest: wf_fail_local_batch)+

interpretation batch: invariant_system initial_batches batch_step wf_batches
  by unfold_locales (auto intro: wf_batch_initial wf_batch_step)

end
