(* ===== verification/Batch_History.thy ===== *)
theory Batch_History
  imports Batch_Lifecycle
begin

text \<open>
  What the steps of the batch lifecycle never take back: the identity of a batch and of its remote counterpart,
  the version of its side effects, the time it was submitted, and the fact that it was submitted or ended. A
  batch that was submitted never returns to a status from which it could be submitted again, so no batch is
  sent to the provider twice.
\<close>

section \<open>Rows that follow one another\<close>

text \<open>Statuses before the paid request: only from these can a batch be submitted.\<close>

definition unsubmitted :: "batch \<Rightarrow> bool" where
  "unsubmitted b = (b_status b \<in> {''preparing'', ''uploading'', ''upload_unknown'', ''uploaded''})"

definition follows :: "batch \<Rightarrow> batch \<Rightarrow> bool" where
  "follows b b' =
     (b_id b' = b_id b \<and> b_job_id b' = b_job_id b \<and> spec b' = spec b \<and>
      (remote_batch_id b \<noteq> None \<longrightarrow> remote_batch_id b' = remote_batch_id b) \<and>
      side_effect_version b \<le> side_effect_version b' \<and> (submitted_at b \<noteq> None \<longrightarrow> submitted_at b' = submitted_at b) \<and>
      (unsubmitted b' \<longrightarrow> unsubmitted b) \<and> (terminal_batch b \<longrightarrow> terminal_batch b'))"

definition history :: "batch_db \<Rightarrow> batch_db \<Rightarrow> bool" where
  "history d d' = (\<forall>b \<in> set (batches d). \<exists>b' \<in> set (batches d'). follows b b')"

lemma follows_refl [simp]: "follows b b"
  by (simp add: follows_def)

lemma follows_trans: "follows a b \<Longrightarrow> follows b c \<Longrightarrow> follows a c"
  by (auto simp: follows_def)

lemma history_refl [simp]: "history d d"
  unfolding history_def by (meson follows_refl)

lemma history_trans: "history d e \<Longrightarrow> history e f \<Longrightarrow> history d f"
  unfolding history_def by (meson follows_trans)

lemma history_frame: "batches d' = batches d \<Longrightarrow> history d d'"
  unfolding history_def by (metis follows_refl)

lemma history_append: "batches d' = batches d @ bs \<Longrightarrow> history d d'"
  unfolding history_def by (metis follows_refl UnCI set_append)

lemma history_update:
  assumes "batches d' = update_where p f (batches d)" "\<And>b. b \<in> set (batches d) \<Longrightarrow> p b \<Longrightarrow> follows b (f b)"
  shows "history d d'"
  unfolding history_def
proof
  fix b assume b: "b \<in> set (batches d)"
  then have "(if p b then f b else b) \<in> set (batches d')" using in_update_where [OF b, of p f] assms(1) by simp
  moreover have "follows b (if p b then f b else b)" using assms(2) b by simp
  ultimately show "\<exists>b' \<in> set (batches d'). follows b b'" by blast
qed

section \<open>What only grows\<close>

lemma find_batch_unique:
  assumes "wf_batches d" "find_batch x d = Some b" "c \<in> set (batches d)" "b_id c = x" shows "c = b"
  using assms find_batch_Some [OF assms(2)] key_inj [of b_id "batches d" c b] by (auto simp: wf_batches_def batches_ok_def)

lemma history_upd:
  assumes "\<And>b. b \<in> set (batches d) \<Longrightarrow> p b \<Longrightarrow> follows b (f b)" shows "history d (upd_batches p f d)"
  by (rule history_update [of _ p f]) (simp_all add: assms)

lemma history_cas:
  assumes "\<And>b. b \<in> set (batches d) \<Longrightarrow> p b \<Longrightarrow> follows b (f b)" shows "history d (snd (cas p f d))"
  by (rule history_update [of _ p f]) (simp_all add: cas_def assms)

lemma history_claims:
  "history d (snd (claim_poll x owner until v now d))" "history d (snd (release_side_effect_claim x owner now d))"
  "history d (snd (claim_upload x owner attempt until now d))" "history d (snd (claim_submission x owner attempt until now d))"
  "history d (snd (claim_cancel x owner until now d))" "history d (snd (fail_cleanup_file x owner code now d))"
  unfolding claim_poll_def release_side_effect_claim_def claim_upload_def claim_submission_def claim_cancel_def fail_cleanup_file_def
  by (rule history_cas, auto simp: follows_def row_defs unsubmitted_def coalesce_def)+

lemma history_hold: "history d (hold_prepared_for_credit job_id code now d)"
  unfolding hold_prepared_for_credit_def
  by (rule history_upd) (auto simp: follows_def row_defs unsubmitted_def)

lemma history_unknown:
  "history d (snd (mark_upload_unknown x attempt owner code now d))"
  "history d (snd (mark_submission_unknown x attempt owner code now d))"
  "history d (snd (recover_uploaded_file x file bytes now d))"
proof -
  show "history d (snd (mark_upload_unknown x attempt owner code now d))"
    by (rule history_update [of _ "uploading_by x attempt owner"
        "\<lambda>b. (unclaimed now b)\<lparr>b_status := ''upload_unknown'', remote_status := Some ''upload_unknown'',
           cleanup_status := ''pending'', reconciliation_error_code := Some code, b_completed_at := None, phase_started_at := Some now\<rparr>"])
      (auto simp: mark_upload_unknown_def cas_def Let_def follows_def row_defs unsubmitted_def uploading_by_def)
  show "history d (snd (mark_submission_unknown x attempt owner code now d))"
    by (rule history_update [of _ "submitting_by x attempt owner"
        "\<lambda>b. (unclaimed now b)\<lparr>b_status := ''submission_unknown'', remote_status := Some ''submission_unknown'',
           reconciliation_error_code := Some code, b_completed_at := None, phase_started_at := Some now\<rparr>"])
      (auto simp: mark_submission_unknown_def cas_def Let_def follows_def row_defs unsubmitted_def submitting_by_def)
  show "history d (snd (recover_uploaded_file x file bytes now d))"
    by (rule history_update [of _ "\<lambda>b. b_id b = x \<and> b_status b = ''upload_unknown'' \<and> remote_batch_id b = None"
        "\<lambda>b. (unclaimed now b)\<lparr>input_file := (input_file b)\<lparr>f_id := Some file\<rparr>,
           input_file_bytes := coalesce bytes (input_file_bytes b), b_status := ''uploaded'',
           cleanup_status := ''pending'', cleanup_error_code := None, last_error_code := None,
           reconciliation_error_code := None, phase_started_at := Some now\<rparr>"])
      (auto simp: recover_uploaded_file_def cas_def Let_def follows_def row_defs unsubmitted_def)
qed

lemma history_complete_upload:
  assumes "complete_upload x attempt owner file bytes now d = Inr (b, d')" shows "history d d'"
  by (rule history_update [of _ "uploading_by x attempt owner"
      "\<lambda>b. (unclaimed now b)\<lparr>input_file := (input_file b)\<lparr>f_id := Some file\<rparr>, input_file_bytes := bytes,
         b_status := ''uploaded'', phase_started_at := Some now\<rparr>"])
    (use assms in \<open>auto simp: complete_upload_def Let_def bind_result_Inr store_batches_Inr follows_def row_defs unsubmitted_def uploading_by_def\<close>)

lemma remote_status_submitted: "s \<in> set REMOTE_STATUSES \<Longrightarrow> local_status_of s \<notin> {''preparing'', ''uploading'', ''upload_unknown'', ''uploaded''}"
  by (auto simp: REMOTE_STATUSES_def local_status_of_def terminal_remote_def)

lemma follows_bind_submitted:
  assumes "submitting_by x attempt owner b" "named_ids b" "\<not> file_conflict (remote_batch_id b) (Some rid)" "rs \<in> set REMOTE_STATUSES"
  shows "follows b (bind_submitted r rid rs now b)"
  using assms(1-3) remote_status_submitted [OF assms(4)]
  by (auto simp: follows_def bind_submitted_def unclaimed_def unsubmitted_def submitting_by_def terminal_batch_def
      TERMINAL_BATCH_STATUSES_def file_conflict_def named_ids_def)

lemma history_complete_submission:
  assumes "wf_batches d" "documented r" "complete_submission x attempt owner r now d = Inr (s, d')" shows "history d d'"
  using assms(3)
proof (cases rule: complete_submission_cases)
  case (2 d1)
  have found: "find_batch x d = Some b" if "b \<in> set (batches d)" "submitting_by x attempt owner b" for b
    using that assms(1) first_row_key [of b_id "batches d" b x]
    by (auto simp: find_batch_def submitting_by_def wf_batches_def batches_ok_def)
  have "batches d' = batches d1" using 2(5) by (auto simp: mark_items_submitted_def)
  then have "batches d' = update_where (submitting_by x attempt owner)
        (bind_submitted r (remote_key r) (str_or (r_status r) ''validating'') now) (batches d)"
    using 2(1) by (auto simp: store_batches_Inr)
  then show ?thesis
    by (rule history_update) (use 2(3,4) found follows_bind_submitted wf_named [OF assms(1)] in blast)
qed simp

lemma follows_rebound:
  assumes "recoverable b" "named_ids b" "\<not> file_conflict (remote_batch_id b) (Some rid)" "bindable_status (local_status_of st)"
  shows "follows b (rebound r rid st now b)"
  using assms
  by (auto simp: follows_def rebound_def unclaimed_def unsubmitted_def recoverable_def bindable_status_def terminal_batch_def
      TERMINAL_BATCH_STATUSES_def file_conflict_def named_ids_def)

lemma history_bind_recovered:
  assumes "wf_batches d" "bind_recovered_remote x r now d = Inr (t, d')" shows "history d d'"
  using assms(2)
proof (cases rule: bind_recovered_cases)
  case (1 d1)
  then obtain b where b: "find_batch x d = Some b" by blast
  have "batches d' = update_where (\<lambda>b. b_id b = x) (rebound r (remote_key r) (coalesce_text (r_status r)) now) (batches d)"
    using 1(1,6) by (auto simp: store_batches_Inr)
  then show ?thesis
  proof (rule history_update)
    fix c assume "c \<in> set (batches d)" "b_id c = x"
    moreover from this have "c = b" using find_batch_unique [OF assms(1) b] by blast
    ultimately show "follows c (rebound r (remote_key r) (coalesce_text (r_status r)) now c)"
      using 1(3,4) b follows_rebound wf_named [OF assms(1)] by blast
  qed
qed

lemma follows_apply_remote:
  assumes "documented r" "st \<in> set REMOTE_STATUSES" "\<not> terminal_batch b" shows "follows b (apply_remote r st now b)"
  using assms(1,3) remote_status_submitted [OF assms(2)]
  by (auto simp: follows_def apply_remote_def unclaimed_def unsubmitted_def documented_def coalesce_def)

lemma history_set_status:
  assumes "wf_batches d" "documented r" "set_status_from_remote x r expected wo now d = Inr (t, d')" shows "history d d'"
  using assms(3)
proof (cases rule: set_status_cases)
  case (2 b d1)
  have "\<not> terminal_batch b" using 2(2) by (auto simp: stale_answer_def Let_def)
  moreover have "batches d' = update_where (\<lambda>y. b_id y = x \<and> side_effect_version y = side_effect_version b)
         (apply_remote r (py_strip (coalesce_text (r_status r))) now) (batches d)"
    using 2(3,5) by (auto simp: store_batches_Inr mark_items_submitted_def)
  ultimately show ?thesis
    using find_batch_unique [OF assms(1) 2(1)] follows_apply_remote [OF assms(2) 2(4)] by (elim history_update) auto
qed simp

lemma history_mono: "history d d1 \<Longrightarrow> batches d' = batches d1 \<Longrightarrow> history d d'"
  by (simp add: history_def)

lemma batches_settle_parent [simp]: "batches (settle_parent x job_id status code now d) = batches d"
  by (simp add: settle_parent_def settle_job_def close_job_items_def Let_def)

lemma batches_fail_local [simp]:
  "batches (fail_local_job job_id ids code status now d) = batches d" "batches (fail_local_items ids code now d) = batches d"
  by (simp_all add: fail_local_job_def fail_local_items_def settle_job_def Let_def)

lemma follows_finalized:
  assumes "\<not> terminal_batch b" "status \<in> set TERMINAL_BATCH_STATUSES" shows "follows b (finalized status tots action cl code now b)"
  using assms
  by (auto simp: follows_def finalized_def unclaimed_def unsubmitted_def terminal_batch_def TERMINAL_BATCH_STATUSES_def)

lemma history_finalize:
  assumes "wf_batches d" "finalize_batch_locked x status action cl code now d = Inr (t, d')" shows "history d d'"
  using assms(2)
proof (cases rule: finalize_cases)
  case (2 b d1 d2)
  have "batches d' = update_where (\<lambda>b. b_id b = x) (finalized status (item_totals x d1) action cl code now) (batches d)"
    using 2(5,7,8) by (auto simp: store_batches_Inr close_items_def)
  then show ?thesis
  proof (rule history_update)
    fix c assume "c \<in> set (batches d)" "b_id c = x"
    then have "c = b" using find_batch_unique [OF assms(1) 2(1)] by blast
    then show "follows c (finalized status (item_totals x d1) action cl code now c)" using follows_finalized 2(2,4) by blast
  qed
qed simp

lemma history_finalize_cleanup:
  assumes "wf_batches d" "finalize_cleanup x now d = Inr (t, d')" shows "history d d'"
  using assms(2) history_finalize [OF assms(1)]
  by (auto simp: finalize_cleanup_def Let_def split: if_splits option.splits)

lemma history_abandon:
  assumes "wf_batches d" "abandon_unknown_upload x c now d = Inr (r, d')" shows "history d d'"
proof -
  let ?d1 = "upd_batches (\<lambda>b. b_id b = x \<and> b_status b = ''upload_unknown'')
               (\<lambda>b. b\<lparr>remote_status := Some ''abandoned'', abandon_confirmed_at := Some now,
                      input_file := (input_file b)\<lparr>f_deleted := True\<rparr>, b_updated_at := now\<rparr>) d"
  have "wf_batches ?d1"
    using assms(1) by (rule wf_upd_batches) (simp add: keeps_batch_def named_ids_def terminal_batch_def batch_check_def)
  moreover obtain t where "finalize_batch_locked x ''failed'' (Some ''abandon'') (Some ''completed'') (Some ''abandoned'') now ?d1 = Inr (t, d')"
    using assms(2) unfolding abandon_unknown_upload_def Let_def
    by (cases "finalize_batch_locked x ''failed'' (Some ''abandon'') (Some ''completed'') (Some ''abandoned'') now ?d1")
      (auto split: if_splits option.splits)
  ultimately have "history ?d1 d'" by (rule history_finalize)
  moreover have "history d ?d1" by (rule history_upd) (simp add: follows_def unsubmitted_def terminal_batch_def)
  ultimately show ?thesis using history_trans by blast
qed

lemma follows_failed_locally: "remote_batch_id b = None \<Longrightarrow> follows b (failed_locally code now b)"
  by (simp add: follows_def failed_locally_def unclaimed_def unsubmitted_def terminal_batch_def TERMINAL_BATCH_STATUSES_def)

lemma history_fail_local:
  assumes "wf_batches d" "fail_local_batch x code status sib now d = Inr (r, d')" shows "history d d'"
  using assms(2)
proof (cases rule: fail_local_cases)
  case (1 b ids d1)
  have "batches d' = batches d1" using 1(6) by (auto split: if_splits)
  then have "batches d' = update_where (local_row ids) (failed_locally code now) (batches d)"
    using 1(5) by (auto simp: store_batches_Inr)
  then show ?thesis by (rule history_update) (auto simp: local_row_def intro: follows_failed_locally)
qed

lemma follows_put_file:
  "follows b (put_file fk g (claimed owner until now b))" "follows b (put_file fk g (unclaimed now b))"
  "follows b ((put_file fk g b)\<lparr>b_updated_at := now\<rparr>)"
  by (simp_all add: follows_def claimed_def unclaimed_def unsubmitted_def terminal_batch_def)

lemma history_cleanup_ops:
  "mark_file_deleted x fk now d = Inr d' \<Longrightarrow> history d d'"
  "claim_cleanup_file x fk owner until now d = Inr (o', d') \<Longrightarrow> history d d'"
  "complete_cleanup_file x fk owner now d = Inr (r, d') \<Longrightarrow> history d d'"
  by (auto simp: mark_file_deleted_def claim_cleanup_file_def complete_cleanup_file_def cas_def Let_def
      intro!: history_upd follows_put_file split: if_splits option.splits)

lemma history_create: "create_with_items n ns now d = Inr (k, d') \<Longrightarrow> history d d'"
  by (auto simp: create_with_items_def Let_def bind_result_Inr store_batches_def store_batch_items_def
      intro: history_append split: if_splits)

lemma history_create_child:
  assumes "create_child_batch parent child ids path count rss bytes now d = Inr (k, d')" shows "history d d'"
  using assms
proof (cases rule: create_child_cases)
  case (1 pb cb d1 d2)
  have "batches d2 = batches d @ [cb]" using 1(6,7) by (auto simp: store_batches_Inr)
  then have "history d d2" by (rule history_append)
  moreover have "batches d' = update_where (\<lambda>b. b_id b = parent)
       (\<lambda>b. b\<lparr>b_total_items := b_total_items pb - int (length ids),
              b_estimated_cost := share (b_estimated_cost pb) (b_total_items pb - int (length ids)) (b_total_items pb),
              b_updated_at := now\<rparr>) (batches d2)"
    using 1(8) by (auto simp: store_batches_Inr)
  then have "history d2 d'" by (rule history_update) (simp add: follows_def unsubmitted_def terminal_batch_def)
  ultimately show ?thesis using history_trans by blast
qed

lemma history_settle_one: "history (snd acc) (snd (settle_one b acc))"
proof (cases acc)
  case (Pair n d)
  have "batches (snd (settle_one b acc)) = update_where (\<lambda>x. b_id x = b_id b)
      (\<lambda>x. x\<lparr>b_sums := (b_sums x)\<lparr>s_actual_cost := cs_known (cost_summary (b_id b) d)\<rparr>\<rparr>) (batches d)"
    by (simp add: settle_one_def Pair Let_def)
  then show ?thesis unfolding Pair snd_conv
    by (rule history_update) (simp add: follows_def unsubmitted_def terminal_batch_def)
qed

lemma history_settle: "history d (snd (settle_terminal_costs x pv m d))"
proof -
  have "history (snd acc) (snd (fold settle_one bs acc))" for bs acc
  proof (induction bs arbitrary: acc)
    case (Cons b bs)
    show ?case using Cons.IH [of "settle_one b acc"] history_settle_one [of acc b] history_trans by auto
  qed simp
  then show ?thesis unfolding settle_terminal_costs_def by (metis snd_conv)
qed

lemma history_step: "batch_step d d' \<Longrightarrow> wf_batches d \<Longrightarrow> history d d'"
proof (induction rule: batch_step.induct)
  case (queue d q)
  then show ?case by (intro history_frame) simp
next
  case (finalize x st action cl c now d t d')
  then show ?case using history_finalize by (simp add: finalize_batch_result_def)
qed (blast intro: history_create history_create_child history_claims history_hold history_complete_upload history_unknown
  history_complete_submission history_bind_recovered history_set_status history_abandon history_fail_local
  history_cleanup_ops history_finalize_cleanup history_settle)+

lemma history_steps: "batch_step\<^sup>*\<^sup>* d d' \<Longrightarrow> wf_batches d \<Longrightarrow> history d d'"
proof (induction rule: rtranclp_induct)
  case (step e f)
  then show ?case using history_step batch.inv_steps history_trans by blast
qed simp

end
