(* ===== verification/Batch_Guarantees.thy ===== *)
theory Batch_Guarantees
  imports Batch_History
begin

text \<open>
  What the batch repository promises to the service and the scheduler: well-formed tables, remote identities
  that never change, one submission per batch, side effects fenced by owner and lease, poll answers applied
  once, finalization that closes items and parent job together, and reservations released only with complete
  cost evidence.
\<close>

section \<open>Submissions\<close>

definition submitted_batches :: "batch_db \<Rightarrow> string set" where
  "submitted_batches d = b_id ` {b \<in> set (batches d). \<not> unsubmitted b}"

text \<open>A successful claim of the submission of a batch, after which the paid request is sent.\<close>

definition claims_submission :: "batch_db \<Rightarrow> string \<Rightarrow> batch_db \<Rightarrow> bool" where
  "claims_submission d x d' = (\<exists>owner attempt until now. claim_submission x owner attempt until now d = (True, d'))"

lemma claim_submission_rows:
  assumes "claim_submission x owner attempt until now d = (True, d')"
  obtains b where "b \<in> set (batches d)" "b_id b = x" "b_status b = ''uploaded''"
    "\<exists>b' \<in> set (batches d'). b_id b' = x \<and> b_status b' = ''submitting''"
proof -
  let ?p = "\<lambda>b. b_id b = x \<and> b_status b = ''uploaded'' \<and> f_id (input_file b) \<noteq> None \<and> claim_free now b"
  let ?f = "\<lambda>b. (claimed owner until now b)\<lparr>b_status := ''submitting'', submission_attempt_id := Some attempt,
              phase_started_at := Some now, submitted_at := coalesce (submitted_at b) (Some now), last_error_code := None\<rparr>"
  have c: "row_count ?p (batches d) \<noteq> 0" "d' = upd_batches ?p ?f d"
    using assms by (auto simp: claim_submission_def cas_def)
  then obtain b where b: "b \<in> set (batches d)" "?p b" by (auto simp: row_count_zero_iff)
  have "?f b \<in> set (batches d')" using in_update_where [OF b(1), of ?p ?f] b(2) by (simp add: c(2))
  moreover have "b_id (?f b) = x" "b_status (?f b) = ''submitting''" using b(2) by (simp_all add: claimed_def)
  ultimately show thesis using that b by blast
qed

lemma claims_submission_fresh: "wf_batches d \<Longrightarrow> claims_submission d x d' \<Longrightarrow> x \<notin> submitted_batches d"
proof
  assume w: "wf_batches d" and c: "claims_submission d x d'" and "x \<in> submitted_batches d"
  then obtain a where a: "a \<in> set (batches d)" "\<not> unsubmitted a" "b_id a = x" by (auto simp: submitted_batches_def)
  obtain b where b: "b \<in> set (batches d)" "b_id b = x" "b_status b = ''uploaded''"
    using c claim_submission_rows unfolding claims_submission_def by metis
  have "a = b" using w a b key_inj [of b_id "batches d" a b] by (simp add: wf_batches_def batches_ok_def)
  then show False using a b by (simp add: unsubmitted_def)
qed

lemma claims_submission_recorded: "claims_submission d x d' \<Longrightarrow> x \<in> submitted_batches d'"
proof -
  assume "claims_submission d x d'"
  then obtain b where "b \<in> set (batches d')" "b_id b = x" "b_status b = ''submitting''"
    using claim_submission_rows unfolding claims_submission_def by metis
  then show ?thesis by (auto simp: submitted_batches_def unsubmitted_def)
qed

lemma claims_submission_step: "claims_submission d x d' \<Longrightarrow> batch_step d d'"
  unfolding claims_submission_def using batch_step.submit by (metis snd_conv)

lemma submitted_batches_mono: "wf_batches d \<Longrightarrow> batch_step d d' \<Longrightarrow> submitted_batches d \<subseteq> submitted_batches d'"
proof
  fix x assume a: "wf_batches d" "batch_step d d'" "x \<in> submitted_batches d"
  then obtain b where b: "b \<in> set (batches d)" "\<not> unsubmitted b" "b_id b = x" by (auto simp: submitted_batches_def)
  then obtain b' where "b' \<in> set (batches d')" "follows b b'" using history_step [OF a(2,1)] by (auto simp: history_def)
  then show "x \<in> submitted_batches d'" using b unfolding submitted_batches_def follows_def
    by (intro image_eqI [of _ _ b']) auto
qed

interpretation submission: committing_queue initial_batches batch_step wf_batches submitted_batches claims_submission
  by unfold_locales
    (auto dest: claims_submission_fresh claims_submission_recorded claims_submission_step submitted_batches_mono)

section \<open>Fencing\<close>

lemma cas_miss: "\<forall>b \<in> set (batches d). \<not> p b \<Longrightarrow> cas p f d = (False, d)"
proof -
  assume "\<forall>b \<in> set (batches d). \<not> p b"
  then have "row_count p (batches d) = 0" by (simp add: row_count_zero_iff)
  then show ?thesis by (simp add: cas_def upd_batches_def update_where_miss)
qed

lemma row_of:
  assumes "wf_batches d" "find_batch x d = Some b" shows "\<forall>c \<in> set (batches d). b_id c = x \<longrightarrow> c = b"
  using find_batch_unique [OF assms] by blast

lemma held_lease:
  assumes "wf_batches d" "find_batch x d = Some b" "side_effect_lease_until b = Some u" "now < u"
  shows "\<forall>c \<in> set (batches d). \<not> (b_id c = x \<and> claim_free now c)"
  using row_of [OF assms(1,2)] assms(3,4) by (auto simp: claim_free_def)

lemma foreign_owner:
  assumes "wf_batches d" "find_batch x d = Some b" "side_effect_owner b \<noteq> Some owner"
  shows "\<forall>c \<in> set (batches d). \<not> (b_id c = x \<and> side_effect_owner c = Some owner)"
  using row_of [OF assms(1,2)] assms(3) by auto

lemma fenced_claims:
  assumes "wf_batches d" "find_batch x d = Some b" "side_effect_lease_until b = Some u" "now < u"
  shows "claim_poll x w t v now d = (False, d)" "claim_upload x w a t now d = (False, d)"
    "claim_submission x w a t now d = (False, d)" "claim_cancel x w t now d = (False, d)"
    "fk \<in> set file_kinds \<Longrightarrow> claim_cleanup_file x fk w t now d = Inr (None, d)"
proof -
  note h = held_lease [OF assms]
  show "claim_poll x w t v now d = (False, d)" "claim_upload x w a t now d = (False, d)"
    "claim_submission x w a t now d = (False, d)" "claim_cancel x w t now d = (False, d)"
    unfolding claim_poll_def claim_upload_def claim_submission_def claim_cancel_def using h by (intro cas_miss; blast)+
  have "row_count (\<lambda>b. b_id b = x \<and> file_left fk b \<and> claim_free now b) (batches d) = 0"
    using h by (auto simp: row_count_zero_iff)
  then show "fk \<in> set file_kinds \<Longrightarrow> claim_cleanup_file x fk w t now d = Inr (None, d)"
    by (simp add: claim_cleanup_file_def split: option.split)
qed

lemma store_same: "batches_ok (batches d) \<Longrightarrow> \<forall>b \<in> set (batches d). \<not> p b \<Longrightarrow> store_batches (update_where p f (batches d)) d = Inr d"
  by (simp add: store_batches_def update_where_miss row_count_zero_iff)

lemma fenced_results:
  assumes "wf_batches d" "find_batch x d = Some b" "side_effect_owner b = Some o'" "w \<noteq> o'"
  shows "complete_upload x a w file bytes now d = Inr (False, d)" "mark_upload_unknown x a w c now d = (False, d)"
    "mark_submission_unknown x a w c now d = (False, d)" "fail_cleanup_file x w c now d = (False, d)"
    "release_side_effect_claim x w now d = (False, d)"
    "fk \<in> set file_kinds \<Longrightarrow> complete_cleanup_file x fk w now d = Inr (False, d)"
    "complete_submission x a w r now d = Inr (s, d') \<Longrightarrow> s = None \<and> d' = d"
    "set_status_from_remote x r e (Some w) now d = Inr (t, d') \<Longrightarrow> t = ''ignored_stale'' \<and> d' = d"
proof -
  have f: "\<forall>c \<in> set (batches d). \<not> (b_id c = x \<and> side_effect_owner c = Some w)"
    using foreign_owner [OF assms(1,2)] assms(3,4) by auto
  have ok: "batches_ok (batches d)" using assms(1) by (simp add: wf_batches_def)
  have none: "\<forall>c \<in> set (batches d). \<not> uploading_by x a w c" "\<forall>c \<in> set (batches d). \<not> submitting_by x a w c"
    using f by (auto simp: uploading_by_def submitting_by_def)
  show "complete_upload x a w file bytes now d = Inr (False, d)"
    using store_same [OF ok none(1)] none(1) by (simp add: complete_upload_def Let_def row_count_zero_iff)
  show "mark_upload_unknown x a w c now d = (False, d)" "mark_submission_unknown x a w c now d = (False, d)"
    using none by (simp_all add: mark_upload_unknown_def mark_submission_unknown_def cas_miss)
  show "fail_cleanup_file x w c now d = (False, d)" "release_side_effect_claim x w now d = (False, d)"
    unfolding fail_cleanup_file_def release_side_effect_claim_def using f by (intro cas_miss; blast)+
  show "fk \<in> set file_kinds \<Longrightarrow> complete_cleanup_file x fk w now d = Inr (False, d)"
    using f by (simp add: complete_cleanup_file_def cas_miss)
  show "complete_submission x a w r now d = Inr (s, d') \<Longrightarrow> s = None \<and> d' = d"
    using assms(2-4) by (auto simp: complete_submission_def Let_def coalesce_text_def split: if_splits)
  show "set_status_from_remote x r e (Some w) now d = Inr (t, d') \<Longrightarrow> t = ''ignored_stale'' \<and> d' = d"
    using assms(2-4) by (auto simp: set_status_from_remote_def stale_answer_def Let_def coalesce_text_def split: if_splits)
qed

section \<open>An example\<close>

text \<open>A batch over both photos of the started job, taken through upload and submission.\<close>

definition demo_identity :: provider_identity where
  "demo_identity = \<lparr>config_revision = Some ''c1'', base_url_fingerprint = Some ''u1'', project_id = Some ''p'', account_fingerprint = Some ''a''\<rparr>"

definition demo_spec :: batch_spec where
  "demo_spec = \<lparr>sp_provider_id = None, sp_model = ''m'', sp_endpoint = ''/v1/chat/completions'', sp_fingerprint = ''fp'', sample_seed = None,
     candidate_snapshot_json = ''[]'', sp_scope = ''sample'', identity = demo_identity\<rparr>"

definition demo_new_item :: "string \<Rightarrow> string \<Rightarrow> string \<Rightarrow> new_batch_item" where
  "demo_new_item x job_item photo =
     \<lparr>ni_id = x, ni_job_item_id = Some job_item, ni_photo_id = Some photo, ni_custom_id = ''ibt:'' @ x,
      ni_content_sha256 = ''sha-'' @ photo, ni_fingerprint = ''fp'', ni_vision_request_fingerprint = ''v'',
      ni_vision_input_spec_json = ''{}'', ni_status = None, ni_estimated_cost = 1\<rparr>"

definition demo_batch_empty :: batch_db where
  "demo_batch_empty =
     \<lparr>batches = [], batch_items = [], batch_usages = [], retry_authorizations = [], batch_result_staging = [], batch_result_raw = [],
      rest = demo_budget\<lparr>paid_tables := demo_paid\<lparr>queue := demo_started\<rparr>\<rparr>\<rparr>"

definition demo_new_batch :: new_batch where
  "demo_new_batch = \<lparr>nb_id = ''b1'', nb_job_id = Some ''j1'', nb_spec = demo_spec, nb_status = None, nb_estimated_cost = 2\<rparr>"

definition demo_prepared :: batch_db where
  "demo_prepared = snd (projr (create_with_items demo_new_batch
     [demo_new_item ''x1'' ''i1'' ''p1'', demo_new_item ''x2'' ''i2'' ''p2''] 2 demo_batch_empty))"

definition demo_uploading :: batch_db where
  "demo_uploading = snd (claim_upload ''b1'' ''w1'' ''u1'' 100 3 demo_prepared)"

definition demo_uploaded :: batch_db where
  "demo_uploaded = snd (projr (complete_upload ''b1'' ''u1'' ''w1'' ''file-1'' (Some 42) 4 demo_uploading))"

definition demo_submitting :: batch_db where
  "demo_submitting = snd (claim_submission ''b1'' ''w1'' ''s1'' 100 5 demo_uploaded)"

definition demo_remote :: "string \<Rightarrow> remote_batch" where
  "demo_remote st = \<lparr>r_id = Some ''batch-1'', r_remote_batch_id = None, r_status = Some st, r_input_file_id = Some ''file-1'',
     r_output_file_id = (if st = ''completed'' then Some ''out-1'' else None), r_error_file_id = None, r_completed_at = None,
     r_expired_at = None, r_cancelled_at = None, r_counts = [(''total'', Some 2)], r_errors = False\<rparr>"

definition demo_running :: batch_db where
  "demo_running = snd (projr (complete_submission ''b1'' ''s1'' ''w1'' (demo_remote ''validating'') 6 demo_submitting))"

lemma demo_batch_wf_empty: "wf_batches demo_batch_empty"
  using demo_wf(3)
  by (simp add: demo_batch_empty_def wf_batches_def batches_ok_def items_ok_def unique_key_def terminal_settled_def the_queue_def)

lemma demo_batch_calls:
  "create_with_items demo_new_batch [demo_new_item ''x1'' ''i1'' ''p1'', demo_new_item ''x2'' ''i2'' ''p2''] 2 demo_batch_empty = Inr (2, demo_prepared)"
  "complete_upload ''b1'' ''u1'' ''w1'' ''file-1'' (Some 42) 4 demo_uploading = Inr (True, demo_uploaded)"
  "complete_submission ''b1'' ''s1'' ''w1'' (demo_remote ''validating'') 6 demo_submitting = Inr (Some ''validating'', demo_running)"
  unfolding demo_prepared_def demo_uploaded_def demo_running_def by (rule returned; code_simp)+

lemma demo_documented: "documented (demo_remote st)"
  by (simp add: documented_def demo_remote_def)

lemma demo_batch_steps:
  "batch_step demo_batch_empty demo_prepared" "batch_step demo_prepared demo_uploading" "batch_step demo_uploading demo_uploaded"
  "batch_step demo_uploaded demo_submitting" "batch_step demo_submitting demo_running"
proof -
  show "batch_step demo_batch_empty demo_prepared"
    using demo_batch_calls(1) by (intro batch_step.create) (simp_all add: demo_new_batch_def demo_new_item_def)
  show "batch_step demo_prepared demo_uploading" "batch_step demo_uploaded demo_submitting"
    unfolding demo_uploading_def demo_submitting_def by (rule batch_step.upload batch_step.submit)+
  show "batch_step demo_uploading demo_uploaded" using demo_batch_calls(2) by (intro batch_step.uploaded) simp_all
  show "batch_step demo_submitting demo_running" using demo_documented demo_batch_calls(3) by (rule batch_step.submitted)
qed

lemma demo_batch_wf: "wf_batches demo_prepared" "wf_batches demo_uploading" "wf_batches demo_uploaded"
  "wf_batches demo_submitting" "wf_batches demo_running"
  using demo_batch_steps demo_batch_wf_empty wf_batch_step by blast+

lemma demo_batch_run: "batch_step\<^sup>*\<^sup>* demo_prepared demo_running"
  using demo_batch_steps by (meson converse_rtranclp_into_rtranclp rtranclp.rtrancl_refl)

section \<open>Properties\<close>





text \<open>No batch is sent to the provider twice: in every run of the repository's methods, the free column
  assignments \<open>update_batch\<close> and \<open>update_item\<close> apart, whatever the
  scheduler, the workers and the operator do in between, the submission of a batch is claimed at most once, and
  a batch whose submission was claimed stays out of the statuses from which it could be claimed.\<close>

theorem submission_claimed_once:
  assumes "wf_batches d" "exec batch_step claims_submission d xs d'"
  shows "distinct xs \<and> set xs \<subseteq> submitted_batches d'"
  using assms by (simp add: submission.exec_finished)

theorem submission_claimed_once_witness:
  "exec batch_step claims_submission demo_prepared [''b1''] demo_running \<and> ''b1'' \<in> submitted_batches demo_running"
proof -
  have "fst (claim_submission ''b1'' ''w1'' ''s1'' 100 5 demo_uploaded)" by code_simp
  then have "claims_submission demo_uploaded ''b1'' demo_submitting"
    unfolding claims_submission_def demo_submitting_def by (metis prod.collapse)
  then have e: "exec batch_step claims_submission demo_prepared [''b1''] demo_running"
    using demo_batch_steps by (meson exec.start exec.other exec.commit)
  show ?thesis using e submission_claimed_once [OF demo_batch_wf(1) e] by simp
qed

text \<open>C8. A side effect belongs to one owner: while the lease of a batch runs, every claim of it, for a poll,
  an upload, a submission, a cancellation or the deletion of a file, is refused and changes nothing; and whether
  or not the lease still runs, a worker that is not the owner can neither report an upload or a submission, nor
  declare it unknown, nor apply a poll answer, nor report a deletion, nor release the claim.\<close>

theorem side_effect_fenced:
  assumes "wf_batches d" "find_batch x d = Some b" "side_effect_owner b = Some owner" "side_effect_lease_until b = Some u"
    "w \<noteq> owner" "fk \<in> set file_kinds"
  shows "(now < u \<longrightarrow>
      claim_poll x w t v now d = (False, d) \<and> claim_upload x w a t now d = (False, d) \<and>
      claim_submission x w a t now d = (False, d) \<and> claim_cancel x w t now d = (False, d) \<and>
      claim_cleanup_file x fk w t now d = Inr (None, d)) \<and>
    complete_upload x a w file bytes now d = Inr (False, d) \<and> mark_upload_unknown x a w c now d = (False, d) \<and>
    mark_submission_unknown x a w c now d = (False, d) \<and> fail_cleanup_file x w c now d = (False, d) \<and>
    complete_cleanup_file x fk w now d = Inr (False, d) \<and> release_side_effect_claim x w now d = (False, d) \<and>
    (\<forall>s d'. complete_submission x a w r now d = Inr (s, d') \<longrightarrow> s = None \<and> d' = d) \<and>
    (\<forall>s d'. set_status_from_remote x r e (Some w) now d = Inr (s, d') \<longrightarrow> s = ''ignored_stale'' \<and> d' = d)"
proof -
  note c = fenced_claims [OF assms(1,2,4)] and f = fenced_results [OF assms(1,2,3,5)]
  show ?thesis using assms(6) by (auto simp: c f(1-6) dest: f(7,8))
qed

theorem side_effect_fenced_witness:
  "claim_poll ''b1'' ''w2'' 200 1 50 demo_uploading = (False, demo_uploading) \<and>
   complete_upload ''b1'' ''u1'' ''w2'' ''file-9'' None 50 demo_uploading = Inr (False, demo_uploading)"
proof -
  let ?b = "the (find_batch ''b1'' demo_uploading)"
  have "find_batch ''b1'' demo_uploading \<noteq> None" by code_simp
  then have f: "find_batch ''b1'' demo_uploading = Some ?b" by simp
  have o: "side_effect_owner ?b = Some ''w1''" "side_effect_lease_until ?b = Some 100" by code_simp+
  show ?thesis
    using side_effect_fenced [OF demo_batch_wf(2) f o, of "''w2''" "''input''" 50 200 1 "''u1''" "''file-9''" None]
    by (simp add: file_kinds_def)
qed

end
