(* ===== verification/Batch_Ledgers.thy ===== *)
theory Batch_Ledgers
  imports Batch_Guarantees
begin

text \<open>
  The two ledgers beside the batch tables: the receipts of result files
  (\<^verbatim>\<open>inktime/app/repositories/batch_result_staging.py\<close>), a mapping from custom ids to parsed results that belongs to
  one import run, and the authorizations of retries (\<^verbatim>\<open>batch_retry_authorizations.py\<close>). The digest of a line is an
  argument, as are the fresh token and the clock.
\<close>

section \<open>A keyed store\<close>

text \<open>What an import relies on of its mapping of results: the contract of a Python mapping.\<close>

locale keyed_store =
  fixes get :: "'k \<Rightarrow> 's \<Rightarrow> 'v option"
    and put :: "'k \<Rightarrow> 'v \<Rightarrow> 's \<Rightarrow> 's"
    and del :: "'k \<Rightarrow> 's \<Rightarrow> 's"
    and keys :: "'s \<Rightarrow> 'k list"
  assumes get_put: "get k (put k' v s) = (if k = k' then Some v else get k s)"
    and get_del: "get k (del k' s) = (if k = k' then None else get k s)"
    and keys_get: "set (keys s) = {k. get k s \<noteq> None}"
    and keys_distinct: "distinct (keys s)"
begin

text \<open>Entries are entered one by one; an entry under a key that is taken is replaced by its collision.\<close>

lemma collect_keys: "set (keys (fold (\<lambda>(k, v, w) s. put k (if get k s = None then v else w) s) xs s)) = set (keys s) \<union> fst ` set xs"
proof (induction xs arbitrary: s)
  case (Cons x xs)
  obtain k v w where x: "x = (k, v, w)" by (cases x) auto
  have "set (keys (put k u s)) = insert k (set (keys s))" for u by (auto simp: keys_get get_put)
  then show ?case using Cons.IH [of "put k (if get k s = None then v else w) s"] by (simp add: x)
qed simp

lemma collect_absent:
  "k \<notin> fst ` set xs \<Longrightarrow> get k (fold (\<lambda>(k, v, w) s. put k (if get k s = None then v else w) s) xs s) = get k s"
  by (induction xs arbitrary: s) (auto simp: get_put)

lemma collect_once:
  assumes "filter (\<lambda>x. fst x = k) xs = [(k, v, w)]" "get k s = None"
  shows "get k (fold (\<lambda>(k, v, w) s. put k (if get k s = None then v else w) s) xs s) = Some v"
  using assms
proof (induction xs arbitrary: s)
  case (Cons x xs)
  obtain k' v' w' where x: "x = (k', v', w')" by (cases x) auto
  show ?case
  proof (cases "k' = k")
    case True
    then have "filter (\<lambda>x. fst x = k) xs = []" "v' = v" "w' = w" using Cons.prems by (auto simp: x)
    then have "k \<notin> fst ` set xs" by (auto simp: filter_empty_conv)
    then show ?thesis using collect_absent [of k xs] Cons.prems(2) True \<open>v' = v\<close> by (simp add: x get_put)
  next
    case False
    then show ?thesis using Cons by (simp add: x get_put)
  qed
qed simp

lemma collect_taken:
  assumes "get k s \<noteq> None" "filter (\<lambda>x. fst x = k) xs = ys @ [(k, v, w)]"
  shows "get k (fold (\<lambda>(k, v, w) s. put k (if get k s = None then v else w) s) xs s) = Some w"
  using assms
proof (induction xs arbitrary: s ys)
  case (Cons x xs)
  obtain k' v' w' where x: "x = (k', v', w')" by (cases x) auto
  let ?s = "put k' (if get k' s = None then v' else w') s"
  have taken: "get k ?s \<noteq> None" using Cons.prems(1) by (simp add: get_put)
  show ?case
  proof (cases "k' = k \<and> ys = []")
    case True
    then have "filter (\<lambda>x. fst x = k) xs = []" "w' = w" using Cons.prems(2) by (auto simp: x)
    then have "k \<notin> fst ` set xs" by (auto simp: filter_empty_conv)
    then show ?thesis using collect_absent [of k xs ?s] Cons.prems(1) True \<open>w' = w\<close> by (auto simp: x get_put)
  next
    case False
    then obtain zs where "filter (\<lambda>x. fst x = k) xs = zs @ [(k, v, w)]"
      using Cons.prems(2) by (cases ys) (auto simp: x split: if_splits)
    from Cons.IH [OF taken this] show ?thesis by (simp add: x)
  qed
qed simp

lemma collect_again:
  assumes "filter (\<lambda>x. fst x = k) xs = y # ys @ [(k, v, w)]"
  shows "get k (fold (\<lambda>(k, v, w) s. put k (if get k s = None then v else w) s) xs s) = Some w"
proof (cases "get k s")
  case (Some u)
  then show ?thesis using assms collect_taken [of k s xs "y # ys"] by simp
next
  case None
  obtain as bs where xs: "xs = as @ y # bs" "fst y = k" "\<forall>a \<in> set as. fst a \<noteq> k" "filter (\<lambda>x. fst x = k) bs = ys @ [(k, v, w)]"
    using assms by (auto simp: filter_eq_Cons_iff)
  obtain v' w' where y: "y = (k, v', w')" using xs(2) by (cases y) auto
  let ?f = "\<lambda>(k, v, w) s. put k (if get k s = None then v else w) s"
  let ?s = "?f y (fold ?f as s)"
  have "get k ?s \<noteq> None" by (simp add: y get_put)
  from collect_taken [OF this xs(4)] show ?thesis by (simp add: xs(1))
qed

end

section \<open>Staged results\<close>

definition save_raw :: "(string \<Rightarrow> string) \<Rightarrow> string \<Rightarrow> string \<Rightarrow> batch_db \<Rightarrow> batch_db" where
  "save_raw digest batch_id line d =
     (if (batch_id, digest line) \<in> set (map fst (batch_result_raw d)) then d
      else d\<lparr>batch_result_raw := batch_result_raw d @ [((batch_id, digest line), line)]\<rparr>)"

definition staged_get :: "string \<Rightarrow> string \<Rightarrow> string \<Rightarrow> batch_db \<Rightarrow> json option" where
  "staged_get batch_id run_id key d = map_of (batch_result_staging d) (batch_id, run_id, key)"

definition staged_contains :: "string \<Rightarrow> string \<Rightarrow> string \<Rightarrow> batch_db \<Rightarrow> bool" where
  "staged_contains batch_id run_id key d = ((batch_id, run_id, key) \<in> set (map fst (batch_result_staging d)))"

text \<open>\<^verbatim>\<open>INSERT OR REPLACE\<close> deletes the row with the same key and appends the new one.\<close>

definition staged_set :: "string \<Rightarrow> string \<Rightarrow> string \<Rightarrow> json \<Rightarrow> batch_db \<Rightarrow> batch_db" where
  "staged_set batch_id run_id key payload d =
     d\<lparr>batch_result_staging :=
         filter (\<lambda>r. fst r \<noteq> (batch_id, run_id, key)) (batch_result_staging d) @ [((batch_id, run_id, key), payload)]\<rparr>"

definition staged_del :: "string \<Rightarrow> string \<Rightarrow> string \<Rightarrow> batch_db \<Rightarrow> batch_db" where
  "staged_del batch_id run_id key d =
     d\<lparr>batch_result_staging := filter (\<lambda>r. fst r \<noteq> (batch_id, run_id, key)) (batch_result_staging d)\<rparr>"

definition of_run :: "string \<Rightarrow> string \<Rightarrow> (string \<times> string \<times> string) \<times> json \<Rightarrow> bool" where
  "of_run batch_id run_id r = (fst (fst r) = batch_id \<and> fst (snd (fst r)) = run_id)"

text \<open>\<^verbatim>\<open>ORDER BY custom_id\<close>; the primary key makes the list of keys duplicate-free.\<close>

definition staged_keys :: "string \<Rightarrow> string \<Rightarrow> batch_db \<Rightarrow> string list" where
  "staged_keys batch_id run_id d =
     sort_key (map (of_char :: char \<Rightarrow> nat)) (remdups (map (snd \<circ> snd \<circ> fst) (filter (of_run batch_id run_id) (batch_result_staging d)) :: string list))"

definition staged_len :: "string \<Rightarrow> string \<Rightarrow> batch_db \<Rightarrow> nat" where
  "staged_len batch_id run_id d = row_count (of_run batch_id run_id) (batch_result_staging d)"

definition staged_close :: "string \<Rightarrow> string \<Rightarrow> batch_db \<Rightarrow> batch_db" where
  "staged_close batch_id run_id d = d\<lparr>batch_result_staging := filter (\<lambda>r. \<not> of_run batch_id run_id r) (batch_result_staging d)\<rparr>"

lemma map_of_without: "map_of (filter (\<lambda>y. fst y \<noteq> a) rows) c = (if c = a then None else map_of rows c)"
  by (induction rows) auto

lemma staged_get_set: "staged_get x r k (staged_set x r k' v d) = (if k = k' then Some v else staged_get x r k d)"
  by (auto simp: staged_get_def staged_set_def map_of_without map_add_def split: option.split)

lemma staged_get_del: "staged_get x r k (staged_del x r k' d) = (if k = k' then None else staged_get x r k d)"
  by (simp add: staged_get_def staged_del_def map_of_without)

lemma staged_keys_get: "set (staged_keys x r d) = {k. staged_get x r k d \<noteq> None}"
proof -
  have "k \<in> set (staged_keys x r d) \<longleftrightarrow> staged_get x r k d \<noteq> None" for k
    by (force simp: staged_keys_def staged_get_def map_of_eq_None_iff of_run_def image_iff)
  then show ?thesis by blast
qed

interpretation staged: keyed_store "staged_get x r" "staged_set x r" "staged_del x r" "staged_keys x r" for x r
  by unfold_locales (simp_all only: staged_get_set staged_get_del staged_keys_get, simp_all add: staged_keys_def)

section \<open>Retry authorizations\<close>

text \<open>Items whose failure may be sent again.\<close>

definition retryable_item :: "string \<Rightarrow> bool" where
  "retryable_item s =
     (s \<in> {''failed'', ''missing'', ''retry_pending'', ''schema_invalid'', ''duplicate_custom_id'', ''unexpected_custom_id''})"

definition batch_held :: "batch \<Rightarrow> bool" where
  "batch_held b = held_batch (analysis_batch.truncate b)"

definition paid_evidence :: "batch_item \<Rightarrow> batch \<Rightarrow> bool" where
  "paid_evidence i b = paid_batch_item_evidence (paid_batch_item.truncate i) (paid_batch.truncate b)"

definition valid_batch_retry :: "batch_item \<Rightarrow> batch \<Rightarrow> bool" where
  "valid_batch_retry i b =
     (retryable_item (pbi_status i) \<and> terminal_batch b \<and> terminal_remote (coalesce_text (remote_status b)) \<and> \<not> batch_held b)"

definition retry_candidate :: "string \<Rightarrow> batch_item \<Rightarrow> bool" where
  "retry_candidate batch_id i =
     (bi_batch_id i = batch_id \<and> bi_photo_id i \<noteq> None \<and> retryable_item (pbi_status i) \<and>
      coalesce_text (bi_error_code i) \<noteq> ''submission_unknown'')"

definition auth_key :: "retry_authorization \<Rightarrow> string \<times> string" where
  "auth_key r = (authorization_id r, source_item_id r)"

definition insert_or_ignore :: "retry_authorization \<Rightarrow> retry_authorization list \<Rightarrow> retry_authorization list" where
  "insert_or_ignore r rows = (if auth_key r \<in> set (map auth_key rows) then rows else rows @ [r])"

definition authorization :: "string \<Rightarrow> string option \<Rightarrow> instant \<Rightarrow> string \<Rightarrow> string \<Rightarrow> retry_authorization" where
  "authorization token approved now source content =
     \<lparr>authorization_id = token, source_item_id = source, ra_content_sha256 = content, retry_job_id = None,
      approved_by = approved, ra_created_at = now\<rparr>"

definition first_occurrences :: "'a list \<Rightarrow> 'a list" where
  "first_occurrences xs = rev (remdups (rev xs))"

text \<open>\<^verbatim>\<open>INSERT ... SELECT\<close> of the ancestors: earlier approvals that led to the job of this batch, for the same content.\<close>

definition ancestors :: "string option \<Rightarrow> string \<Rightarrow> retry_authorization list \<Rightarrow> retry_authorization list" where
  "ancestors job_id token rows =
     filter (\<lambda>a. job_id \<noteq> None \<and> retry_job_id a = job_id \<and>
                list_ex (\<lambda>s. authorization_id s = token \<and> ra_content_sha256 s = ra_content_sha256 a) rows) rows"

definition failed_rows :: "string \<Rightarrow> string \<Rightarrow> string option \<Rightarrow> instant \<Rightarrow> batch_db \<Rightarrow> retry_authorization list" where
  "failed_rows batch_id token approved now d =
     map (\<lambda>i. authorization token approved now (bi_id i) (coalesce_text (content_sha256 i)))
       (filter (retry_candidate batch_id) (batch_items d))"

definition carry_ancestors :: "string option \<Rightarrow> string \<Rightarrow> string option \<Rightarrow> instant \<Rightarrow> retry_authorization list \<Rightarrow> retry_authorization list" where
  "carry_ancestors job_id token approved now rows =
     fold (\<lambda>a. insert_or_ignore (authorization token approved now (source_item_id a) (ra_content_sha256 a)))
       (ancestors job_id token rows) rows"

definition create_authorization :: "string \<Rightarrow> string \<Rightarrow> string option \<Rightarrow> instant \<Rightarrow> batch_db \<Rightarrow>
    batch_error + ((string \<times> string list) \<times> batch_db)" where
  "create_authorization batch_id token approved now d =
     (case find_batch batch_id d of
        None \<Rightarrow> Inl (NoSuchBatch batch_id)
      | Some b \<Rightarrow>
          if batch_held b then Inl StillHeld
          else if failed_rows batch_id token approved now d = [] then Inl NothingToRetry
          else if list_ex (\<lambda>i. retry_candidate batch_id i \<and> content_sha256 i = None) (batch_items d) \<or>
                  \<not> distinct (map auth_key (retry_authorizations d @ failed_rows batch_id token approved now d))
          then Inl BatchIntegrity
          else Inr ((token, first_occurrences (map (coalesce_text \<circ> bi_photo_id) (filter (retry_candidate batch_id) (batch_items d)))),
                    d\<lparr>retry_authorizations :=
                        carry_ancestors (b_job_id b) token approved now (retry_authorizations d @ failed_rows batch_id token approved now d)\<rparr>))"

definition bind_authorization :: "string \<Rightarrow> string \<Rightarrow> batch_db \<Rightarrow> batch_error + batch_db" where
  "bind_authorization token job_id d =
     (let rows = retry_authorizations d in
      if list_ex (\<lambda>r. authorization_id r = token \<and> retry_job_id r \<noteq> None \<and> retry_job_id r \<noteq> Some job_id) rows
      then Inl AuthorizationUsed
      else if row_count (\<lambda>r. authorization_id r = token) rows = 0 then Inl AuthorizationUnknown
      else if \<not> refers (Some job_id) (map j_id (jobs (the_queue d))) then Inl BatchIntegrity
      else Inr (d\<lparr>retry_authorizations := update_where (\<lambda>r. authorization_id r = token) (\<lambda>r. r\<lparr>retry_job_id := Some job_id\<rparr>) rows\<rparr>))"

text \<open>The ancestors only add rows of the new token, for contents it already covers.\<close>

lemma carried_rows:
  fixes as :: "retry_authorization list"
  assumes "\<forall>a \<in> set as. ra_content_sha256 a \<in> C"
  shows "\<exists>extra. fold (\<lambda>a. insert_or_ignore (authorization token who now (source_item_id a) (ra_content_sha256 a))) as rows = rows @ extra \<and>
    (\<forall>r \<in> set extra. authorization_id r = token \<and> retry_job_id r = None \<and> ra_content_sha256 r \<in> C)"
  using assms
proof (induction as arbitrary: rows)
  case (Cons a as)
  define f where "f = (\<lambda>a :: retry_authorization. insert_or_ignore (authorization token who now (source_item_id a) (ra_content_sha256 a)))"
  let ?r = "authorization token who now (source_item_id a) (ra_content_sha256 a)"
  obtain extra where e: "fold f as (f a rows) = f a rows @ extra"
    "\<forall>r \<in> set extra. authorization_id r = token \<and> retry_job_id r = None \<and> ra_content_sha256 r \<in> C"
    using Cons.IH [of "f a rows"] Cons.prems unfolding f_def by auto
  have "f a rows = rows \<or> f a rows = rows @ [?r]" by (simp add: f_def insert_or_ignore_def)
  then have "\<exists>extra. fold f (a # as) rows = rows @ extra \<and>
    (\<forall>r \<in> set extra. authorization_id r = token \<and> retry_job_id r = None \<and> ra_content_sha256 r \<in> C)"
  proof
    assume "f a rows = rows"
    then show ?thesis using e by auto
  next
    assume r: "f a rows = rows @ [?r]"
    have "ra_content_sha256 a \<in> C" using Cons.prems by simp
    then show ?thesis using e r by (intro exI [of _ "?r # extra"]) (simp add: authorization_def)
  qed
  then show ?case unfolding f_def .
qed simp

lemma authorized_rows:
  assumes "create_authorization x token who now d = Inr ((t, ps), d')" "\<forall>r \<in> set (retry_authorizations d). authorization_id r \<noteq> token"
  obtains new where "retry_authorizations d' = retry_authorizations d @ new" "new \<noteq> []" "the_queue d' = the_queue d"
    "\<forall>r \<in> set new. authorization_id r = token \<and> retry_job_id r = None \<and>
      (\<exists>i \<in> set (batch_items d). retry_candidate x i \<and> content_sha256 i = Some (ra_content_sha256 r))"
    "\<forall>i \<in> set (batch_items d). retry_candidate x i \<longrightarrow> (\<exists>r \<in> set new. source_item_id r = bi_id i \<and> content_sha256 i = Some (ra_content_sha256 r))"
proof -
  let ?rows = "failed_rows x token who now d"
  let ?all = "retry_authorizations d @ ?rows"
  let ?C = "{c. \<exists>i \<in> set (batch_items d). retry_candidate x i \<and> content_sha256 i = Some c}"
  obtain b where b: "find_batch x d = Some b" and ne: "?rows \<noteq> []"
    and some: "\<not> list_ex (\<lambda>i. retry_candidate x i \<and> content_sha256 i = None) (batch_items d)"
    and d': "d' = d\<lparr>retry_authorizations := carry_ancestors (b_job_id b) token who now ?all\<rparr>"
    using assms(1) unfolding create_authorization_def by (auto split: option.splits if_splits)
  have row: "authorization_id r = token \<and> retry_job_id r = None \<and> ra_content_sha256 r \<in> ?C" if m: "r \<in> set ?rows" for r
  proof -
    obtain i where i: "i \<in> set (batch_items d)" "retry_candidate x i" "r = authorization token who now (bi_id i) (coalesce_text (content_sha256 i))"
      using m by (auto simp: failed_rows_def)
    then have "content_sha256 i = Some (coalesce_text (content_sha256 i))" using some by (auto simp: list_ex_iff coalesce_text_def)
    then show ?thesis using i by (auto simp: authorization_def)
  qed
  have "\<forall>a \<in> set (ancestors (b_job_id b) token ?all). ra_content_sha256 a \<in> ?C"
  proof
    fix a assume "a \<in> set (ancestors (b_job_id b) token ?all)"
    then obtain s where s: "s \<in> set ?all" "authorization_id s = token" "ra_content_sha256 s = ra_content_sha256 a"
      unfolding ancestors_def set_filter list_ex_iff by blast
    then have "s \<in> set ?rows" using assms(2) by auto
    from row [OF this] have "ra_content_sha256 s \<in> ?C" by (elim conjE)
    then show "ra_content_sha256 a \<in> ?C" unfolding s(3) .
  qed
  from carried_rows [OF this, of token who now ?all] obtain extra where
    e: "retry_authorizations d' = ?all @ extra" "\<forall>r \<in> set extra. authorization_id r = token \<and> retry_job_id r = None \<and> ra_content_sha256 r \<in> ?C"
    unfolding d' carry_ancestors_def by auto
  have "\<exists>r \<in> set (?rows @ extra). source_item_id r = bi_id i \<and> content_sha256 i = Some (ra_content_sha256 r)"
    if i: "i \<in> set (batch_items d)" "retry_candidate x i" for i
  proof -
    have "authorization token who now (bi_id i) (coalesce_text (content_sha256 i)) \<in> set (?rows @ extra)" using i by (auto simp: failed_rows_def)
    moreover have "content_sha256 i = Some (coalesce_text (content_sha256 i))" using some i by (auto simp: list_ex_iff coalesce_text_def)
    ultimately show ?thesis
      by (intro bexI [of _ "authorization token who now (bi_id i) (coalesce_text (content_sha256 i))"]) (simp_all add: authorization_def)
  qed
  moreover have "retry_authorizations d' = retry_authorizations d @ (?rows @ extra)" "?rows @ extra \<noteq> []" "the_queue d' = the_queue d"
    using e(1) ne by (simp_all add: d' the_queue_def)
  moreover have "\<forall>r \<in> set (?rows @ extra). authorization_id r = token \<and> retry_job_id r = None \<and>
      (\<exists>i \<in> set (batch_items d). retry_candidate x i \<and> content_sha256 i = Some (ra_content_sha256 r))"
    using e(2) row by (simp add: ball_Un)
  ultimately show thesis using that [of "?rows @ extra"] by blast
qed

lemma bound_token:
  assumes "refers (Some j) (map j_id (jobs (the_queue e)))" "\<forall>r \<in> set (retry_authorizations e). authorization_id r = token \<longrightarrow> retry_job_id r = Some j"
    "\<exists>r \<in> set (retry_authorizations e). authorization_id r = token"
  shows "bind_authorization token k e = (if k = j then Inr e else Inl AuthorizationUsed)"
proof (cases "k = j")
  case True
  have "r\<lparr>retry_job_id := Some j\<rparr> = r" if "r \<in> set (retry_authorizations e)" "authorization_id r = token" for r
  proof -
    have "retry_job_id r = Some j" using assms(2) that by blast
    then show ?thesis by (cases r) simp
  qed
  then have "update_where (\<lambda>r. authorization_id r = token) (\<lambda>r. r\<lparr>retry_job_id := Some j\<rparr>) (retry_authorizations e) = retry_authorizations e"
    unfolding update_where_def by (intro map_idI) auto
  moreover have "\<not> list_ex (\<lambda>r. authorization_id r = token \<and> retry_job_id r \<noteq> None \<and> retry_job_id r \<noteq> Some j) (retry_authorizations e)"
    using assms(2) by (auto simp: list_ex_iff)
  moreover have "row_count (\<lambda>r. authorization_id r = token) (retry_authorizations e) \<noteq> 0" using assms(3) by (auto simp: row_count_zero_iff)
  ultimately show ?thesis using True assms(1) by (simp add: bind_authorization_def Let_def)
next
  case False
  then have "list_ex (\<lambda>r. authorization_id r = token \<and> retry_job_id r \<noteq> None \<and> retry_job_id r \<noteq> Some k) (retry_authorizations e)"
    using assms(2,3) by (force simp: list_ex_iff)
  then show ?thesis using False by (simp add: bind_authorization_def Let_def)
qed

text \<open>A retry authorization covers only what the operator approved: after it is created for a batch and bound
  to a job, it covers every failed item of the batch and only contents of such items, all its rows carry that
  job, every other authorization is untouched, and it cannot be used again: binding it to the same job changes
  nothing, binding it to any other job is refused.\<close>

theorem retry_authorization_scoped:
  assumes "create_authorization x token who now d = Inr ((t, ps), d')" "\<forall>r \<in> set (retry_authorizations d). authorization_id r \<noteq> token"
    "bind_authorization token j d' = Inr e"
  shows "filter (\<lambda>r. authorization_id r \<noteq> token) (retry_authorizations e) = retry_authorizations d \<and>
    (\<forall>r \<in> set (retry_authorizations e). authorization_id r = token \<longrightarrow> retry_job_id r = Some j \<and>
       (\<exists>i \<in> set (batch_items d). retry_candidate x i \<and> content_sha256 i = Some (ra_content_sha256 r))) \<and>
    (\<forall>i \<in> set (batch_items d). retry_candidate x i \<longrightarrow>
       (\<exists>r \<in> set (retry_authorizations e). authorization_id r = token \<and> source_item_id r = bi_id i)) \<and>
    (\<forall>k. bind_authorization token k e = (if k = j then Inr e else Inl AuthorizationUsed))"
proof -
  obtain new where new: "retry_authorizations d' = retry_authorizations d @ new" "new \<noteq> []" "the_queue d' = the_queue d"
    "\<forall>r \<in> set new. authorization_id r = token \<and> retry_job_id r = None \<and>
      (\<exists>i \<in> set (batch_items d). retry_candidate x i \<and> content_sha256 i = Some (ra_content_sha256 r))"
    "\<forall>i \<in> set (batch_items d). retry_candidate x i \<longrightarrow> (\<exists>r \<in> set new. source_item_id r = bi_id i \<and> content_sha256 i = Some (ra_content_sha256 r))"
    by (rule authorized_rows [OF assms(1,2)])
  let ?b = "\<lambda>r. r\<lparr>retry_job_id := Some j\<rparr>"
  have ref: "refers (Some j) (map j_id (jobs (the_queue d')))" and
    e0: "e = d'\<lparr>retry_authorizations := update_where (\<lambda>r. authorization_id r = token) ?b (retry_authorizations d')\<rparr>"
    using assms(3) by (auto simp: bind_authorization_def Let_def split: if_splits)
  have old: "update_where (\<lambda>r. authorization_id r = token) ?b (retry_authorizations d) = retry_authorizations d"
    using assms(2) by (intro update_where_miss) (simp add: row_count_zero_iff)
  have upd: "update_where (\<lambda>r. authorization_id r = token) ?b new = map ?b new"
    using new(4) by (simp add: update_where_def)
  have e: "retry_authorizations e = retry_authorizations d @ map ?b new" "the_queue e = the_queue d'"
    using old upd by (simp_all add: e0 new(1) update_where_def the_queue_def)
  have used: "\<exists>r \<in> set (retry_authorizations e). authorization_id r = token" using new(2,4) by (cases new) (auto simp: e(1))
  have only: "\<forall>r \<in> set (retry_authorizations e). authorization_id r = token \<longrightarrow> retry_job_id r = Some j"
    using assms(2) by (auto simp: e(1))
  have "bind_authorization token k e = (if k = j then Inr e else Inl AuthorizationUsed)" for k
    using ref only used by (intro bound_token) (simp_all add: e(2))
  moreover have "filter (\<lambda>r. authorization_id r \<noteq> token) (retry_authorizations e) = retry_authorizations d"
    using assms(2) new(4) by (simp add: e(1) filter_empty_conv)
  moreover have "\<exists>i \<in> set (batch_items d). retry_candidate x i \<and> content_sha256 i = Some (ra_content_sha256 r)"
    if r: "r \<in> set (retry_authorizations e)" "authorization_id r = token" for r
  proof -
    obtain q where "q \<in> set new" "r = ?b q" using r assms(2) by (auto simp: e(1))
    then show ?thesis using new(4) by auto
  qed
  moreover have "\<exists>r \<in> set (retry_authorizations e). authorization_id r = token \<and> source_item_id r = bi_id i"
    if i: "i \<in> set (batch_items d)" "retry_candidate x i" for i
  proof -
    obtain q where q: "q \<in> set new" "source_item_id q = bi_id i" using new(5) i by blast
    then show ?thesis using new(4) by (intro bexI [of _ "?b q"]) (simp_all add: e(1))
  qed
  ultimately show ?thesis using only by blast
qed

definition demo_failed_batch :: batch_db where
  "demo_failed_batch = snd (projr (fail_local_batch ''b1'' ''BATCH-INPUT-001'' Failed False 3 demo_prepared))"

theorem retry_authorization_scoped_witness:
  "\<exists>ps d' e. create_authorization ''b1'' ''t1'' (Some ''u1'') 4 demo_failed_batch = Inr ((''t1'', ps), d') \<and>
     bind_authorization ''t1'' ''j1'' d' = Inr e \<and> bind_authorization ''t1'' ''j2'' e = Inl AuthorizationUsed"
proof -
  let ?c = "create_authorization ''b1'' ''t1'' (Some ''u1'') 4 demo_failed_batch"
  let ?e = "bind_authorization ''t1'' ''j1'' (snd (projr ?c))"
  have c: "?c = Inr ((''t1'', snd (fst (projr ?c))), snd (projr ?c))" by (rule returned; code_simp)
  have "\<not> isl ?e" by code_simp
  then have e: "?e = Inr (projr ?e)" by (simp add: sum.exhaust_sel)
  have n: "\<forall>r \<in> set (retry_authorizations demo_failed_batch). authorization_id r \<noteq> ''t1''" by code_simp
  have "''j2'' \<noteq> ''j1''" by simp
  then show ?thesis using retry_authorization_scoped [OF c n e] c e by metis
qed

end
