(* ===== verification/Execution_Mode.thy ===== *)
theory Execution_Mode
  imports Prelude
begin

text \<open>
  The execution mode of analysis (\<^verbatim>\<open>inktime/app/domain/analysis/execution_mode.py\<close>): which of the retired and new
  settings decides, and which modes permit paid requests. A missing setting is \<open>None\<close>; the setting
  \<^verbatim>\<open>analysis.prefilter_enabled\<close> is read as a JSON value.
\<close>

record mode_settings =
  mode_setting :: "string option"
  ai_mode :: "string option"
  prefilter_enabled :: "json option"

definition EXECUTION_MODES :: "string list" where
  "EXECUTION_MODES = [''disabled'', ''local_only'', ''local_with_manual_ai'', ''automatic_ai'', ''seasonal_ai'']"

definition legacy_execution_mode :: "string option \<Rightarrow> bool \<Rightarrow> string" where
  "legacy_execution_mode mode local_processing_enabled =
     (let value = str_or mode ''off'' in
      if value = ''on_demand'' then ''local_with_manual_ai''
      else if value \<in> {''top_candidates'', ''eligible'', ''full_library''} then ''automatic_ai''
      else if local_processing_enabled then ''local_only'' else ''disabled'')"

definition execution_mode :: "mode_settings \<Rightarrow> string" where
  "execution_mode s =
     (case mode_setting s of
        Some value \<Rightarrow>
          if value \<in> set EXECUTION_MODES then value
          else legacy_execution_mode (ai_mode s) (case prefilter_enabled s of None \<Rightarrow> True | Some v \<Rightarrow> py_truthy v)
      | None \<Rightarrow> legacy_execution_mode (ai_mode s) (case prefilter_enabled s of None \<Rightarrow> True | Some v \<Rightarrow> py_truthy v))"

definition permits_automatic_ai :: "string \<Rightarrow> bool" where
  "permits_automatic_ai mode = (mode \<in> {''automatic_ai'', ''seasonal_ai''})"

definition permits_manual_ai :: "string \<Rightarrow> bool" where
  "permits_manual_ai mode = (mode \<in> {''local_with_manual_ai'', ''automatic_ai'', ''seasonal_ai''})"

lemma execution_mode_known: "execution_mode s \<in> set EXECUTION_MODES"
  by (auto simp: execution_mode_def legacy_execution_mode_def Let_def EXECUTION_MODES_def split: option.split)

lemma automatic_permits_manual: "permits_automatic_ai m \<Longrightarrow> permits_manual_ai m"
  by (auto simp: permits_automatic_ai_def permits_manual_ai_def)

text \<open>A configured key alone never makes an installation pay: without an explicit choice, old or new, no mode
  that permits paid requests results.\<close>

lemma no_choice_no_payment:
  "mode_setting s = None \<Longrightarrow> ai_mode s = None \<or> ai_mode s = Some ''off'' \<Longrightarrow> \<not> permits_manual_ai (execution_mode s)"
  by (auto simp: execution_mode_def legacy_execution_mode_def str_or_def permits_manual_ai_def Let_def)

end
