(* ===== verification/Batch_Submission.thy ===== *)
theory Batch_Submission
  imports Batch_Ledgers Execution_Mode
begin

text \<open>
  The submission of a prepared batch: \<^verbatim>\<open>_assert_submission_allowed\<close> and \<^verbatim>\<open>_submit_one\<close> of
  \<^verbatim>\<open>inktime/app/services/batch_analysis.py\<close>, with its exception handler. A call of \<^verbatim>\<open>_submit_one\<close> is a process that
  moves from one transaction or remote request to the next, so that several calls, the scheduler and the
  operator can interleave between any two of them. What a step learns from outside (clock, fresh identifiers,
  settings, the size of the input file, the answers of the provider) is its argument. The writes of one branch
  of the exception handler are one step. The pause callback of the complementary lane is not modelled.
\<close>

section \<open>Admission\<close>

definition paid_single_hold :: "string \<Rightarrow> batch_db \<Rightarrow> bool" where
  "paid_single_hold batch_id d =
     list_ex (\<lambda>i. bi_batch_id i = batch_id \<and>
        list_ex (\<lambda>q. content_sha256 i = Some (o_content_sha256 q) \<and> o_state q \<in> {OStarted, OResponse, OCompleted})
          (billable_operations (paid_tables (rest d)))) (batch_items d)"

definition retry_approved :: "batch \<Rightarrow> batch_item \<Rightarrow> string \<Rightarrow> batch_db \<Rightarrow> bool" where
  "retry_approved current held content d =
     list_ex (\<lambda>r. b_job_id current \<noteq> None \<and> retry_job_id r = b_job_id current \<and> source_item_id r = bi_id held \<and>
                  ra_content_sha256 r = content) (retry_authorizations d)"

definition other_batch_hold :: "string \<Rightarrow> batch_db \<Rightarrow> bool" where
  "other_batch_hold batch_id d =
     list_ex (\<lambda>i. bi_batch_id i = batch_id \<and>
       list_ex (\<lambda>r. content_sha256 i \<noteq> None \<and> content_sha256 r = content_sha256 i \<and> bi_batch_id r \<noteq> batch_id \<and>
         list_ex (\<lambda>b. b_id b = bi_batch_id r \<and>
           list_ex (\<lambda>c. b_id c = batch_id \<and>
              (batch_held b \<or>
               (paid_evidence r b \<and>
                (\<not> retry_approved c r (coalesce_text (content_sha256 i)) d \<or> \<not> valid_batch_retry r b)))) (batches d))
           (batches d)) (batch_items d)) (batch_items d)"

definition uploadable :: "batch_item \<Rightarrow> photo \<Rightarrow> bool" where
  "uploadable i p =
     (\<not> never_upload p \<and> lifecycle_status p = ''active'' \<and> eligible p \<and>
      exclusion_status p \<in> {''eligible'', ''manually_restored''} \<and>
      (case content_sha256 i of None \<Rightarrow> True | Some c \<Rightarrow> coalesce_text (sha256 p) = c))"

definition blocked_photo :: "string \<Rightarrow> batch_db \<Rightarrow> bool" where
  "blocked_photo batch_id d =
     list_ex (\<lambda>i. bi_batch_id i = batch_id \<and>
        \<not> list_ex (\<lambda>p. bi_photo_id i = Some (p_id p) \<and> uploadable i p) (photos (the_queue d))) (batch_items d)"

definition stopped_status :: "job_status \<Rightarrow> bool" where
  "stopped_status s = (s \<in> {Cancelled, Paused, Pausing, Failed, BudgetExceeded})"

definition parent_stopped :: "string \<Rightarrow> batch_db \<Rightarrow> bool" where
  "parent_stopped batch_id d =
     (case find_batch batch_id d of
        None \<Rightarrow> False
      | Some b \<Rightarrow> truthy_text (b_job_id b) \<and>
          (case find_job (coalesce_text (b_job_id b)) (the_queue d) of None \<Rightarrow> True | Some j \<Rightarrow> stopped_status (j_status j)))"

text \<open>The code of the error raised, or \<open>None\<close>. The guard is the marker file that a restored database leaves.\<close>

definition assert_submission_allowed :: "mode_settings \<Rightarrow> bool \<Rightarrow> string \<Rightarrow> batch_db \<Rightarrow> string option" where
  "assert_submission_allowed modes guard_exists batch_id d =
     (if \<not> permits_manual_ai (execution_mode modes) then Some ''BATCH-EXECUTION-MODE''
      else if isl (assert_restore_reconciled guard_exists) then Some ''BUDGET-002''
      else if paid_single_hold batch_id d then Some ''BATCH-PAID-OPERATION-HOLD''
      else if other_batch_hold batch_id d then Some ''BATCH-PAID-OPERATION-HOLD''
      else if blocked_photo batch_id d \<or> parent_stopped batch_id d then Some ''BATCH-INPUT-002''
      else None)"

section \<open>The process\<close>

record failure =
  fl_code :: string
  fl_ambiguous :: bool

datatype phase =
    Admit | Check | Choose | ClaimUpload | OpenInput | CheckUpload | Upload | RecordUpload string | Reload
  | ClaimSubmission | Reserve | CheckCreate | Create | RecordBatch remote_batch
  | Release failure | Handle failure "batch option" | Finished "failure option"

record submitter =
  s_batch :: string
  s_endpoint :: "string option"  \<comment> \<open>\<^verbatim>\<open>plan.get("batch_endpoint")\<close>\<close>
  s_owner :: string
  s_upload :: "string option"
  s_submission :: "string option"
  s_input_bytes :: int
  s_remote_created :: bool
  s_has_provider :: bool
  s_phase :: phase

record outside =
  o_now :: instant
  o_fresh :: string
  o_timeout :: "int option"  \<comment> \<open>seconds; \<open>None\<close>: the provider cannot be read\<close>
  o_modes :: mode_settings
  o_guard :: bool
  o_budget :: budget_settings
  o_periods :: periods
  o_input_size :: "int option"  \<comment> \<open>\<open>None\<close>: no such file\<close>
  o_provider :: "failure option"  \<comment> \<open>why the provider could not be built\<close>
  o_estimate :: "rat option"
  o_upload :: "failure + string option"
  o_create :: "failure + remote_batch"
  o_digest :: "string \<Rightarrow> string"

definition new_submitter :: "string \<Rightarrow> string option \<Rightarrow> string \<Rightarrow> submitter" where
  "new_submitter batch_id endpoint owner =
     \<lparr>s_batch = batch_id, s_endpoint = endpoint, s_owner = owner, s_upload = None, s_submission = None, s_input_bytes = 0,
      s_remote_created = False, s_has_provider = False, s_phase = Admit\<rparr>"

definition raise_code :: "string \<Rightarrow> failure" where
  "raise_code code = \<lparr>fl_code = code, fl_ambiguous = False\<rparr>"

definition SUBMIT_ERROR :: string where "SUBMIT_ERROR = ''BATCH-SUBMIT-001''"

definition submission_lease :: "outside \<Rightarrow> instant" where
  "submission_lease w =
     (let timeout = (case o_timeout w of None \<Rightarrow> 120 | Some t \<Rightarrow> if t = 0 then 120 else t) in
      o_now w + max 900 (timeout * 3 + 120) * 1000000)"

definition budget_code :: "budget_error \<Rightarrow> string" where
  "budget_code e =
     (case e of
        RestoreNotReconciled \<Rightarrow> ''BUDGET-002'' | JobBudgetExceeded \<Rightarrow> ''BUDGET-002'' | SpendingExceeded \<Rightarrow> ''BUDGET-002''
      | OpenAICycleExceeded \<Rightarrow> ''BUDGET-OPENAI-CYCLE'' | OpenAIDailyExceeded \<Rightarrow> ''BUDGET-OPENAI-DAILY''
      | JobBudgetReached \<Rightarrow> ''BUDGET-001'' | InvalidReservation \<Rightarrow> SUBMIT_ERROR | MalformedJobJson \<Rightarrow> SUBMIT_ERROR)"

definition batch_reservation :: "string \<Rightarrow> string" where
  "batch_reservation batch_id = ''batch:'' @ batch_id"

definition set_reservations :: "reservation list \<Rightarrow> batch_db \<Rightarrow> batch_db" where
  "set_reservations rs d = d\<lparr>rest := (rest d)\<lparr>budget_reservations := rs\<rparr>\<rparr>"

text \<open>The reservation of the estimated cost of all items of the batch.\<close>

definition reserve_batch :: "outside \<Rightarrow> batch \<Rightarrow> batch_db \<Rightarrow> budget_error + batch_db" where
  "reserve_batch w b d =
     map_sum id (\<lambda>bd. set_reservations (budget_reservations bd) d)
       (reserve (o_guard w) (o_budget w) (o_periods w) (batch_reservation (b_id b))
          (Some (estimate_reserve (o_budget w) (o_estimate w) * of_nat (items_with (b_id b) (\<lambda>_. True) d)))
          (if truthy_text (b_job_id b) then b_job_id b else None) None (sp_provider_id (spec b)) (o_now w) (budget_view d))"

definition release_batch :: "string \<Rightarrow> batch_db \<Rightarrow> batch_db" where
  "release_batch batch_id d = d\<lparr>rest := release_reservation (batch_reservation batch_id) (rest d)\<rparr>"

section \<open>The exception handler\<close>

text \<open>\<^verbatim>\<open>json.loads(parent["settings_json"]).get("complementary_lane") == "openai_backfill"\<close>; \<open>None\<close> raises.\<close>

fun automatic_lane :: "json_text \<Rightarrow> bool option" where
  "automatic_lane Malformed = None"
| "automatic_lane (Encoded v) = map_option (\<lambda>x. x = JStr ''openai_backfill'') (dict_get v ''complementary_lane'')"

definition credit_code :: "string \<Rightarrow> bool" where
  "credit_code code = (code = ''API_CREDIT_EXHAUSTED'' \<or> starts_with ''BUDGET-OPENAI-'' code)"

definition hold_for_credit :: "string \<Rightarrow> string \<Rightarrow> string \<Rightarrow> string \<Rightarrow> instant \<Rightarrow> batch_db \<Rightarrow> batch_error + batch_db" where
  "hold_for_credit batch_id owner parent code now d =
     bind_result (update_batch batch_id (\<lambda>b. b\<lparr>b_status := ''preparing'', last_error_code := Some code, phase_started_at := Some now\<rparr>) now d) (\<lambda>d1.
       let d2 = snd (release_side_effect_claim batch_id owner now d1);
           d3 = set_queue (snd (request_pause parent now (the_queue d2))) d2
       in Inr (hold_prepared_for_credit parent code now d3))"

definition retry_later :: "(string \<Rightarrow> string) \<Rightarrow> string option \<Rightarrow> string \<Rightarrow> instant \<Rightarrow> batch_item \<Rightarrow> batch_db \<Rightarrow> batch_error + batch_db" where
  "retry_later digest job_id code now i d =
     (if pbi_status i \<noteq> ''pending'' \<and> pbi_status i \<noteq> ''submitted'' then Inr d
      else bind_result (update_item (bi_id i) (\<lambda>x. x\<lparr>pbi_status := ''retry_pending'', bi_error_code := Some code\<rparr>) now d) (\<lambda>d1.
        Inr (if truthy_text (bi_job_item_id i)
             then set_queue (snd (fail_batch_item digest (coalesce_text job_id) (coalesce_text (bi_job_item_id i)) code now (the_queue d1))) d1
             else d1)))"

fun fold_result :: "('a \<Rightarrow> 's \<Rightarrow> 'e + 's) \<Rightarrow> 'a list \<Rightarrow> 's \<Rightarrow> 'e + 's" where
  "fold_result f [] s = Inr s"
| "fold_result f (x # xs) s = bind_result (f x s) (fold_result f xs)"

definition keep_for_cleanup :: "(string \<Rightarrow> string) \<Rightarrow> string \<Rightarrow> string \<Rightarrow> string option \<Rightarrow> string \<Rightarrow> instant \<Rightarrow> batch_db \<Rightarrow> batch_error + batch_db" where
  "keep_for_cleanup digest batch_id owner job_id code now d =
     bind_result (update_batch batch_id (\<lambda>b. b\<lparr>b_status := ''cleanup_pending'', remote_status := Some ''failed'', cleanup_status := ''pending'',
         last_error_code := Some code, phase_started_at := Some now\<rparr>) now d) (\<lambda>d1.
     bind_result (fold_result (retry_later digest job_id code now) (items_of_batch batch_id [] d1) d1) (\<lambda>d2.
       Inr (snd (release_side_effect_claim batch_id owner now d2))))"

definition pause_for_credit :: "string \<Rightarrow> string \<Rightarrow> instant \<Rightarrow> batch_db \<Rightarrow> batch_db" where
  "pause_for_credit parent code now d =
     (let d1 = set_queue (snd (request_pause parent now (the_queue d))) d;
          d2 = hold_prepared_for_credit parent ''API_CREDIT_EXHAUSTED'' now d1
      in set_queue (add_event parent ''provider_credit_pause'' now (the_queue d2)) d2)"

definition is_ambiguous :: "failure \<Rightarrow> bool" where
  "is_ambiguous e = (fl_ambiguous e \<or> fl_code e = ''BATCH-SUBMISSION-UNKNOWN'' \<or> fl_code e = ''BATCH-UPLOAD-UNKNOWN'')"

definition upload_unknown :: "failure \<Rightarrow> batch option \<Rightarrow> bool" where
  "upload_unknown e current =
     (fl_code e = ''BATCH-UPLOAD-UNKNOWN'' \<or>
      (is_ambiguous e \<and> (case current of None \<Rightarrow> False | Some b \<Rightarrow> b_status b = ''uploading'')))"

definition current_job :: "batch option \<Rightarrow> batch_db \<Rightarrow> job option" where
  "current_job current d =
     (case current of None \<Rightarrow> None
      | Some b \<Rightarrow> if truthy_text (b_job_id b) then find_job (coalesce_text (b_job_id b)) (the_queue d) else None)"

text \<open>Whether the handler keeps the prepared batch for a later billing period.\<close>

definition credit_hold :: "submitter \<Rightarrow> failure \<Rightarrow> batch option \<Rightarrow> batch_db \<Rightarrow> bool" where
  "credit_hold p e current d =
     (case current_job current d of
        None \<Rightarrow> False
      | Some j \<Rightarrow> automatic_lane (settings_json j) = Some True \<and> \<not> is_ambiguous e \<and> \<not> s_remote_created p \<and> credit_code (fl_code e))"

text \<open>A losing claimant does not touch the batch.\<close>

definition lost_claim :: "submitter \<Rightarrow> failure \<Rightarrow> bool" where
  "lost_claim p e =
     (fl_code e = ''BATCH-ALREADY-CLAIMED'' \<or> (fl_code e = ''BATCH-CLAIM-STALE'' \<and> \<not> s_remote_created p))"

definition record_submit_failure :: "outside \<Rightarrow> submitter \<Rightarrow> failure \<Rightarrow> batch option \<Rightarrow> batch_db \<Rightarrow> batch_error + batch_db" where
  "record_submit_failure w p e current d =
     (let x = s_batch p; owner = s_owner p; code = fl_code e; now = o_now w in
      if s_remote_created p \<and> s_submission p \<noteq> None
      then Inr (snd (mark_submission_unknown x (the (s_submission p)) owner ''submission_persist_unknown'' now d))
      else if is_ambiguous e \<and> upload_unknown e current \<and> s_upload p \<noteq> None
      then Inr (snd (mark_upload_unknown x (the (s_upload p)) owner ''upload_unknown'' now d))
      else if is_ambiguous e \<and> s_submission p \<noteq> None
      then Inr (snd (mark_submission_unknown x (the (s_submission p)) owner ''submission_unknown'' now d))
      else case current of
        None \<Rightarrow> map_sum id snd (fail_local_batch x code Failed False now d)
      | Some b \<Rightarrow>
          if truthy_file (input_file b) then keep_for_cleanup (o_digest w) x owner (b_job_id b) code now d
          else map_sum id snd (fail_local_batch x code Failed False now d))"

definition handle :: "outside \<Rightarrow> submitter \<Rightarrow> failure \<Rightarrow> batch option \<Rightarrow> batch_db \<Rightarrow> batch_error + batch_db" where
  "handle w p e current d =
     (case current_job current d of
        Some j \<Rightarrow>
          if automatic_lane (settings_json j) = None then Inl MalformedParent
          else if credit_hold p e current d then hold_for_credit (s_batch p) (s_owner p) (j_id j) (fl_code e) (o_now w) d
          else if lost_claim p e then Inr d
          else bind_result (record_submit_failure w p e current d) (\<lambda>d1.
            Inr (if fl_code e = ''API_CREDIT_EXHAUSTED'' then pause_for_credit (j_id j) (fl_code e) (o_now w) d1 else d1))
      | None \<Rightarrow>
          if lost_claim p e then Inr d
          else bind_result (record_submit_failure w p e current d) (\<lambda>d1.
            Inr (case current of
                   Some b \<Rightarrow> if fl_code e = ''API_CREDIT_EXHAUSTED'' \<and> truthy_text (b_job_id b)
                             then pause_for_credit (coalesce_text (b_job_id b)) (fl_code e) (o_now w) d1 else d1
                 | None \<Rightarrow> d1)))"

section \<open>Steps\<close>

definition goto :: "phase \<Rightarrow> submitter \<Rightarrow> submitter" where
  "goto ph p = p\<lparr>s_phase := ph\<rparr>"

definition fail_with :: "string \<Rightarrow> submitter \<Rightarrow> submitter" where
  "fail_with code p = goto (Release (raise_code code)) p"

definition check_then :: "phase \<Rightarrow> outside \<Rightarrow> submitter \<Rightarrow> batch_db \<Rightarrow> submitter" where
  "check_then next_phase w p d =
     (case assert_submission_allowed (o_modes w) (o_guard w) (s_batch p) d of
        None \<Rightarrow> goto next_phase p | Some code \<Rightarrow> fail_with code p)"

definition admit :: "submitter \<Rightarrow> batch_db \<Rightarrow> submitter" where
  "admit p d =
     (case find_batch (s_batch p) d of
        None \<Rightarrow> goto (Finished (Some (raise_code SUBMIT_ERROR))) p
      | Some b \<Rightarrow>
          if s_endpoint p = Some ''/v1/responses'' \<and> truthy_text (b_job_id b) \<and>
             (case current_job (Some b) d of None \<Rightarrow> False | Some j \<Rightarrow> stopped_status (j_status j))
          then goto (Finished (Some (raise_code ''BATCH-JOB-PAUSED''))) p
          else if b_status b \<in> set UNKNOWN_STATUSES then goto (Finished (Some (raise_code ''BATCH-UNKNOWN-HOLD''))) p
          else goto Check p)"

definition choose_route :: "submitter \<Rightarrow> batch_db \<Rightarrow> submitter" where
  "choose_route p d =
     (case find_batch (s_batch p) d of
        None \<Rightarrow> fail_with SUBMIT_ERROR p
      | Some b \<Rightarrow> goto (if truthy_file (input_file b) then Reload else ClaimUpload) p)"

definition open_input :: "outside \<Rightarrow> submitter \<Rightarrow> batch_db \<Rightarrow> submitter" where
  "open_input w p d =
     (case find_batch (s_batch p) d of
        None \<Rightarrow> fail_with SUBMIT_ERROR p
      | Some b \<Rightarrow>
          (case o_input_size w of
             None \<Rightarrow> fail_with ''BATCH-INPUT-002'' p
           | Some n \<Rightarrow>
               (case o_provider w of
                  Some e \<Rightarrow> goto (Release e) p
                | None \<Rightarrow> goto CheckUpload (p\<lparr>s_input_bytes := n, s_has_provider := True\<rparr>))))"

definition upload_answered :: "outside \<Rightarrow> submitter \<Rightarrow> submitter" where
  "upload_answered w p =
     (case o_upload w of
        Inl e \<Rightarrow> goto (Release e) p
      | Inr f \<Rightarrow> if truthy_text f then goto (RecordUpload (coalesce_text f)) p else fail_with ''BATCH-UPLOAD-UNKNOWN'' p)"

definition reload :: "submitter \<Rightarrow> batch_db \<Rightarrow> submitter" where
  "reload p d =
     (case find_batch (s_batch p) d of
        None \<Rightarrow> fail_with ''BATCH-UPLOAD-UNKNOWN'' p
      | Some b \<Rightarrow> if truthy_file (input_file b) then goto ClaimSubmission p else fail_with ''BATCH-UPLOAD-UNKNOWN'' p)"

definition reserve_cost :: "outside \<Rightarrow> submitter \<Rightarrow> batch_db \<Rightarrow> submitter \<times> batch_db" where
  "reserve_cost w p d =
     (case (if s_has_provider p then None else o_provider w) of
        Some e \<Rightarrow> (goto (Release e) p, d)
      | None \<Rightarrow>
          (case find_batch (s_batch p) d of
             None \<Rightarrow> (fail_with SUBMIT_ERROR p, d)
           | Some b \<Rightarrow>
               (case reserve_batch w b d of
                  Inl e \<Rightarrow> (fail_with (budget_code e) p, d)
                | Inr d1 \<Rightarrow> (goto CheckCreate p, d1))))"

definition batch_answered :: "outside \<Rightarrow> submitter \<Rightarrow> submitter" where
  "batch_answered w p =
     (case o_create w of
        Inl e \<Rightarrow> goto (Release e) p
      | Inr r \<Rightarrow>
          if truthy_text (r_id r) then goto (RecordBatch r) (p\<lparr>s_remote_created := True\<rparr>)
          else fail_with ''BATCH-SUBMISSION-UNKNOWN'' (p\<lparr>s_remote_created := True\<rparr>))"

definition submit_step :: "outside \<Rightarrow> submitter \<Rightarrow> batch_db \<Rightarrow> submitter \<times> batch_db" where
  "submit_step w p d =
     (let x = s_batch p; owner = s_owner p; now = o_now w in
      case s_phase p of
        Admit \<Rightarrow> (admit p d, d)
      | Check \<Rightarrow> (check_then Choose w p d, d)
      | Choose \<Rightarrow> (choose_route p d, d)
      | ClaimUpload \<Rightarrow>
          (let (won, d1) = claim_upload x owner (o_fresh w) (submission_lease w) now d in
           (if won then goto OpenInput (p\<lparr>s_upload := Some (o_fresh w)\<rparr>)
            else fail_with ''BATCH-ALREADY-CLAIMED'' (p\<lparr>s_upload := Some (o_fresh w)\<rparr>), d1))
      | OpenInput \<Rightarrow> (open_input w p d, d)
      | CheckUpload \<Rightarrow> (check_then Upload w p d, d)
      | Upload \<Rightarrow> (upload_answered w p, d)
      | RecordUpload f \<Rightarrow>
          (case complete_upload x (coalesce_text (s_upload p)) owner f (Some (s_input_bytes p)) now d of
             Inl e \<Rightarrow> (fail_with SUBMIT_ERROR p, d)
           | Inr (won, d1) \<Rightarrow> (if won then goto Reload p else fail_with ''BATCH-CLAIM-STALE'' p, d1))
      | Reload \<Rightarrow> (reload p d, d)
      | ClaimSubmission \<Rightarrow>
          (let (won, d1) = claim_submission x owner (o_fresh w) (submission_lease w) now d in
           (if won then goto Reserve (p\<lparr>s_submission := Some (o_fresh w)\<rparr>)
            else fail_with ''BATCH-ALREADY-CLAIMED'' (p\<lparr>s_submission := Some (o_fresh w)\<rparr>), d1))
      | Reserve \<Rightarrow> reserve_cost w p d
      | CheckCreate \<Rightarrow> (check_then Create w p d, d)
      | Create \<Rightarrow> (batch_answered w p, d)
      | RecordBatch r \<Rightarrow>
          (case complete_submission x (coalesce_text (s_submission p)) owner r now d of
             Inl e \<Rightarrow> (fail_with SUBMIT_ERROR p, d)
           | Inr (None, d1) \<Rightarrow> (fail_with ''BATCH-CLAIM-STALE'' p, d1)
           | Inr (Some s, d1) \<Rightarrow> (goto (Finished None) p, d1))
      | Release e \<Rightarrow>
          (goto (Handle e (find_batch x d)) p, if \<not> is_ambiguous e \<and> \<not> s_remote_created p then release_batch x d else d)
      | Handle e current \<Rightarrow>
          (goto (Finished (Some e)) p, case handle w p e current d of Inl _ \<Rightarrow> d | Inr d1 \<Rightarrow> d1)
      | Finished r \<Rightarrow> (p, d))"

end
