(* ===== verification/Submission_Runs.thy ===== *)
theory Submission_Runs
  imports Batch_Submission
begin

text \<open>
  Runs of several calls of \<^verbatim>\<open>_submit_one\<close> beside everything else that works on the batch tables. The other
  actors may take any step that keeps the tables well formed and does not return a submitted batch to a status
  before its submission, as every guarded method of the repository does. A log records each remote request that
  creates a batch, and each time the handler puts a batch back because its billing period is exhausted.
\<close>

section \<open>Changes that respect submissions\<close>

definition safe_change :: "batch_db \<Rightarrow> batch_db \<Rightarrow> bool" where
  "safe_change d d' = (wf_batches d' \<and> submitted_batches d \<subseteq> submitted_batches d')"

lemma safe_step: "wf_batches d \<Longrightarrow> batch_step d d' \<Longrightarrow> safe_change d d'"
  unfolding safe_change_def using submitted_batches_mono batch.inv_step by blast

lemma safe_trans: "safe_change d e \<Longrightarrow> safe_change e f \<Longrightarrow> safe_change d f"
  unfolding safe_change_def by blast

lemma safe_refl: "wf_batches d \<Longrightarrow> safe_change d d"
  by (simp add: safe_change_def)

lemma safe_frame:
  "wf_batches d \<Longrightarrow> batches d' = batches d \<Longrightarrow> batch_items d' = batch_items d \<Longrightarrow> the_queue d' = the_queue d \<Longrightarrow> safe_change d d'"
  using wf_batches_frame [of d' d] by (simp add: safe_change_def submitted_batches_def)

lemma safe_queue: "wf_batches d \<Longrightarrow> wf_db q \<Longrightarrow> safe_change d (set_queue q d)"
  using wf_set_queue by (simp add: safe_change_def submitted_batches_def)

lemma queue_wf: "wf_batches d \<Longrightarrow> wf_db (the_queue d)"
  by (simp add: wf_batches_def)

lemma update_batch_Inr:
  assumes "update_batch x f now d = Inr d'"
  shows "store_batches (update_where (\<lambda>b. b_id b = x) (\<lambda>b. (f b)\<lparr>b_updated_at := now\<rparr>) (batches d)) d = Inr d'"
    "d' = upd_batches (\<lambda>b. b_id b = x) (\<lambda>b. (f b)\<lparr>b_updated_at := now\<rparr>) d"
proof -
  show s: "store_batches (update_where (\<lambda>b. b_id b = x) (\<lambda>b. (f b)\<lparr>b_updated_at := now\<rparr>) (batches d)) d = Inr d'"
    using assms by (auto simp: update_batch_def bind_result_Inr split: if_splits)
  then show "d' = upd_batches (\<lambda>b. b_id b = x) (\<lambda>b. (f b)\<lparr>b_updated_at := now\<rparr>) d"
    by (simp add: store_batches_Inr upd_batches_def)
qed

lemma update_item_Inr: "update_item y g now d = Inr d' \<Longrightarrow> d' = upd_batch_items (\<lambda>i. bi_id i = y) (\<lambda>i. (g i)\<lparr>bi_updated_at := now\<rparr>) d"
  by (auto simp: update_item_def bind_result_Inr store_batch_items_def upd_batch_items_def split: if_splits)

text \<open>A column update that gives a batch a status which is neither terminal nor before submission.\<close>

lemma safe_update_batch:
  assumes "wf_batches d" "update_batch x f now d = Inr d'"
    and "\<And>b. b_id (f b) = b_id b \<and> (named_ids b \<longrightarrow> named_ids (f b)) \<and> \<not> terminal_batch (f b)"
  shows "wf_batches d'" and "(\<And>b. \<not> unsubmitted (f b)) \<Longrightarrow> safe_change d d'"
    and "y \<in> submitted_batches d \<Longrightarrow> y \<noteq> x \<Longrightarrow> y \<in> submitted_batches d'"
proof -
  let ?f = "\<lambda>b. (f b)\<lparr>b_updated_at := now\<rparr>"
  have same: "named_ids (?f b) = named_ids (f b)" "terminal_batch (?f b) = terminal_batch (f b)" "unsubmitted (?f b) = unsubmitted (f b)" for b
    by (simp_all add: named_ids_def terminal_batch_def unsubmitted_def)
  show w: "wf_batches d'"
    by (rule wf_store_batches [OF assms(1) update_batch_Inr(1) [OF assms(2)]])
      (use assms(3) same wf_named [OF assms(1)] in \<open>auto\<close>)
  have rows: "batches d' = update_where (\<lambda>b. b_id b = x) ?f (batches d)" using update_batch_Inr(2) [OF assms(2)] by simp
  have img: "y \<in> submitted_batches d'" if "b \<in> set (batches d)" "b_id b = y" "\<not> unsubmitted (if b_id b = x then ?f b else b)" for b y
    using in_update_where [OF that(1), of "\<lambda>b. b_id b = x" ?f] that(2,3) assms(3) unfolding submitted_batches_def rows
    by (intro image_eqI [of _ _ "if b_id b = x then ?f b else b"]) auto
  show "y \<in> submitted_batches d \<Longrightarrow> y \<noteq> x \<Longrightarrow> y \<in> submitted_batches d'"
    using img by (auto simp: submitted_batches_def [of d])
  assume ns: "\<And>b. \<not> unsubmitted (f b)"
  show "safe_change d d'"
    unfolding safe_change_def using w img ns same by (auto simp: submitted_batches_def [of d])
qed

section \<open>The handler\<close>

lemma safe_retry_later:
  assumes "wf_batches d" "retry_later digest job_id code now i d = Inr d'" shows "safe_change d d'"
proof (cases "pbi_status i \<noteq> ''pending'' \<and> pbi_status i \<noteq> ''submitted''")
  case True
  then show ?thesis using assms safe_refl by (simp add: retry_later_def)
next
  case False
  obtain d1 where u: "update_item (bi_id i) (\<lambda>x. x\<lparr>pbi_status := ''retry_pending'', bi_error_code := Some code\<rparr>) now d = Inr d1"
    and d': "d' = d1 \<or> d' = set_queue (snd (fail_batch_item digest (coalesce_text job_id) (coalesce_text (bi_job_item_id i)) code now (the_queue d1))) d1"
    using assms(2) unfolding retry_later_def if_not_P [OF False] bind_result_Inr by auto
  have e: "d1 = upd_batch_items (\<lambda>x. bi_id x = bi_id i) (\<lambda>x. (x\<lparr>pbi_status := ''retry_pending'', bi_error_code := Some code\<rparr>)\<lparr>bi_updated_at := now\<rparr>) d"
    by (rule update_item_Inr [OF u])
  have w: "wf_batches d1" unfolding e by (rule wf_upd_batch_items [OF assms(1)]) (auto simp: item_defs)
  have s: "safe_change d d1" using w by (simp add: safe_change_def e submitted_batches_def)
  have "repo_step (the_queue d1) (snd (fail_batch_item digest (coalesce_text job_id) (coalesce_text (bi_job_item_id i)) code now (the_queue d1)))"
    by (rule repo_step.batch_fail)
  then have "safe_change d1 d'" using d' w safe_refl safe_queue wf_repo_step queue_wf by metis
  then show ?thesis using s safe_trans by blast
qed

lemma safe_fold_result:
  assumes "\<And>a d d'. wf_batches d \<Longrightarrow> f a d = Inr d' \<Longrightarrow> safe_change d d'"
  shows "wf_batches d \<Longrightarrow> fold_result f xs d = Inr d' \<Longrightarrow> safe_change d d'"
proof (induction xs arbitrary: d)
  case (Cons a xs)
  obtain e where e: "f a d = Inr e" "fold_result f xs e = Inr d'" using Cons.prems(2) by (auto simp: bind_result_Inr)
  then have "safe_change d e" using assms Cons.prems(1) by blast
  moreover from this have "safe_change e d'" using Cons.IH e(2) unfolding safe_change_def by blast
  ultimately show ?case by (rule safe_trans)
qed (simp add: safe_refl)

lemma safe_release: "wf_batches d \<Longrightarrow> safe_change d (snd (release_side_effect_claim x owner now d))"
  using safe_step batch_step.release by blast

lemma safe_keep_for_cleanup:
  assumes "wf_batches d" "keep_for_cleanup digest x owner job_id code now d = Inr d'" shows "safe_change d d'"
proof -
  obtain d1 d2 where u: "update_batch x (\<lambda>b. b\<lparr>b_status := ''cleanup_pending'', remote_status := Some ''failed'', cleanup_status := ''pending'',
         last_error_code := Some code, phase_started_at := Some now\<rparr>) now d = Inr d1"
    and f: "fold_result (retry_later digest job_id code now) (items_of_batch x [] d1) d1 = Inr d2"
    and d': "d' = snd (release_side_effect_claim x owner now d2)"
    using assms(2) by (auto simp: keep_for_cleanup_def bind_result_Inr)
  have s1: "safe_change d d1"
    by (rule safe_update_batch(2) [OF assms(1) u]) (simp_all add: named_ids_def terminal_batch_def TERMINAL_BATCH_STATUSES_def unsubmitted_def)
  then have w1: "wf_batches d1" by (simp add: safe_change_def)
  have s2: "safe_change d1 d2" by (rule safe_fold_result [OF _ w1 f]) (rule safe_retry_later)
  then have "wf_batches d2" by (simp add: safe_change_def)
  then show ?thesis using s1 s2 safe_release safe_trans d' by blast
qed

lemma safe_pause: "wf_batches d \<Longrightarrow> safe_change d (set_queue (snd (request_pause parent now (the_queue d))) d)"
  using safe_queue wf_repo_step [OF repo_step.pause] queue_wf by blast

lemma safe_pause_for_credit: "wf_batches d \<Longrightarrow> safe_change d (pause_for_credit parent code now d)"
proof -
  assume w: "wf_batches d"
  let ?d1 = "set_queue (snd (request_pause parent now (the_queue d))) d"
  let ?d2 = "hold_prepared_for_credit parent ''API_CREDIT_EXHAUSTED'' now ?d1"
  have s1: "safe_change d ?d1" by (rule safe_pause [OF w])
  then have w1: "wf_batches ?d1" by (simp add: safe_change_def)
  then have s2: "safe_change ?d1 ?d2" using safe_step batch_step.hold by blast
  then have w2: "wf_batches ?d2" by (simp add: safe_change_def)
  then have "safe_change ?d2 (set_queue (add_event parent ''provider_credit_pause'' now (the_queue ?d2)) ?d2)"
    using safe_queue queue_wf by simp
  then show ?thesis unfolding pause_for_credit_def Let_def using s1 s2 safe_trans by blast
qed

lemma map_sum_snd: "map_sum id snd c = Inr y \<Longrightarrow> \<exists>r. c = Inr (r, y)"
  by (cases c) auto

lemma safe_record_failure:
  assumes "wf_batches d" "record_submit_failure w p e current d = Inr d'" shows "safe_change d d'"
proof -
  have local: "safe_change d d'" if l: "map_sum id snd (fail_local_batch (s_batch p) (fl_code e) Failed False (o_now w) d) = Inr d'"
  proof -
    obtain r where "fail_local_batch (s_batch p) (fl_code e) Failed False (o_now w) d = Inr (r, d')"
      using map_sum_snd [OF l] by blast
    then show ?thesis by (rule safe_step [OF assms(1) batch_step.fail_local])
  qed
  have lost: "safe_change d (snd (mark_submission_unknown x a owner c now d))" "safe_change d (snd (mark_upload_unknown x a owner c now d))" for x a owner c now
    by (rule safe_step [OF assms(1) batch_step.submission_lost], rule safe_step [OF assms(1) batch_step.upload_lost])
  let ?A = "s_remote_created p \<and> s_submission p \<noteq> None" and ?B = "is_ambiguous e \<and> upload_unknown e current \<and> s_upload p \<noteq> None"
    and ?C = "is_ambiguous e \<and> s_submission p \<noteq> None"
  note r = assms(2) [unfolded record_submit_failure_def Let_def]
  show ?thesis
  proof (cases ?A)
    case True
    then show ?thesis using r lost(1) by auto
  next
    case A: False
    note r = r [unfolded if_not_P [OF A]]
    show ?thesis
    proof (cases ?B)
      case True
      then show ?thesis using r lost(2) by auto
    next
      case B: False
      note r = r [unfolded if_not_P [OF B]]
      show ?thesis
      proof (cases ?C)
        case True
        then show ?thesis using r lost(1) by auto
      next
        case False
        note r = r [unfolded if_not_P [OF False]]
        show ?thesis
          using r local safe_keep_for_cleanup [OF assms(1)] by (cases current) (simp_all split: if_splits)
      qed
    qed
  qed
qed

lemma handle_hold:
  assumes "wf_batches d" "handle w p e current d = Inr d'" "credit_hold p e current d"
  shows "wf_batches d'" "y \<in> submitted_batches d \<Longrightarrow> y \<noteq> s_batch p \<Longrightarrow> y \<in> submitted_batches d'"
proof -
  obtain j where j: "current_job current d = Some j" "automatic_lane (settings_json j) = Some True"
    using assms(3) by (auto simp: credit_hold_def split: option.splits)
  have "hold_for_credit (s_batch p) (s_owner p) (j_id j) (fl_code e) (o_now w) d = Inr d'"
    using assms(2,3) j by (simp add: handle_def)
  then obtain d1 where u: "update_batch (s_batch p) (\<lambda>b. b\<lparr>b_status := ''preparing'', last_error_code := Some (fl_code e), phase_started_at := Some (o_now w)\<rparr>) (o_now w) d = Inr d1"
    and d': "d' = hold_prepared_for_credit (j_id j) (fl_code e) (o_now w)
      (set_queue (snd (request_pause (j_id j) (o_now w) (the_queue (snd (release_side_effect_claim (s_batch p) (s_owner p) (o_now w) d1)))))
        (snd (release_side_effect_claim (s_batch p) (s_owner p) (o_now w) d1)))"
    by (auto simp: hold_for_credit_def bind_result_Inr Let_def)
  have k: "\<And>b. b_id (b\<lparr>b_status := ''preparing'', last_error_code := Some (fl_code e), phase_started_at := Some (o_now w)\<rparr>) = b_id b \<and>
      (named_ids b \<longrightarrow> named_ids (b\<lparr>b_status := ''preparing'', last_error_code := Some (fl_code e), phase_started_at := Some (o_now w)\<rparr>)) \<and>
      \<not> terminal_batch (b\<lparr>b_status := ''preparing'', last_error_code := Some (fl_code e), phase_started_at := Some (o_now w)\<rparr>)"
    by (simp add: named_ids_def terminal_batch_def TERMINAL_BATCH_STATUSES_def)
  have w1: "wf_batches d1" by (rule safe_update_batch(1) [OF assms(1) u k])
  let ?d2 = "snd (release_side_effect_claim (s_batch p) (s_owner p) (o_now w) d1)"
  have s2: "safe_change d1 ?d2" by (rule safe_release [OF w1])
  let ?d3 = "set_queue (snd (request_pause (j_id j) (o_now w) (the_queue ?d2))) ?d2"
  have s3: "safe_change ?d2 ?d3" using s2 by (intro safe_pause) (simp add: safe_change_def)
  have "safe_change ?d3 d'" unfolding d' using s3 safe_step batch_step.hold by (auto simp: safe_change_def)
  then have s: "safe_change d1 d'" using s2 s3 safe_trans by blast
  then show "wf_batches d'" by (simp add: safe_change_def)
  show "y \<in> submitted_batches d \<Longrightarrow> y \<noteq> s_batch p \<Longrightarrow> y \<in> submitted_batches d'"
    using safe_update_batch(3) [OF assms(1) u k] s by (auto simp: safe_change_def)
qed

lemma safe_handle:
  assumes "wf_batches d" "handle w p e current d = Inr d'" "\<not> credit_hold p e current d"
  shows "safe_change d d'"
proof -
  have "d' = d \<or> (\<exists>d1. record_submit_failure w p e current d = Inr d1 \<and> (d' = d1 \<or> (\<exists>parent. d' = pause_for_credit parent (fl_code e) (o_now w) d1)))"
  proof (cases "current_job current d")
    case None
    then show ?thesis
      using assms(2) by (cases "lost_claim p e"; cases current) (auto simp: handle_def bind_result_Inr split: if_splits)
  next
    case (Some j)
    then show ?thesis
      using assms(2,3)
      by (cases "automatic_lane (settings_json j)"; cases "lost_claim p e") (auto simp: handle_def bind_result_Inr split: if_splits)
  qed
  then show ?thesis
  proof (elim disjE exE conjE)
    assume "d' = d"
    then show ?thesis using assms(1) safe_refl by simp
  next
    fix d1 assume "record_submit_failure w p e current d = Inr d1" "d' = d1"
    then show ?thesis using safe_record_failure [OF assms(1)] by blast
  next
    fix d1 parent assume r: "record_submit_failure w p e current d = Inr d1" "d' = pause_for_credit parent (fl_code e) (o_now w) d1"
    have s: "safe_change d d1" by (rule safe_record_failure [OF assms(1) r(1)])
    then show ?thesis using safe_pause_for_credit safe_trans r(2) unfolding safe_change_def by blast
  qed
qed

section \<open>One step of a call\<close>

text \<open>The provider answers with its documented object.\<close>

definition documented_answers :: "outside \<Rightarrow> bool" where
  "documented_answers w = (case o_create w of Inl _ \<Rightarrow> True | Inr r \<Rightarrow> documented r)"

definition sound :: "submitter \<Rightarrow> bool" where
  "sound p = (case s_phase p of RecordUpload f \<Rightarrow> f \<noteq> [] | RecordBatch r \<Rightarrow> documented r | _ \<Rightarrow> True)"

text \<open>A call that has claimed the submission of a batch and has not sent the request yet.\<close>

definition holder :: "string \<Rightarrow> submitter \<Rightarrow> bool" where
  "holder x p = (s_batch p = x \<and> s_phase p \<in> {Reserve, CheckCreate, Create})"

definition holds_credit :: "outside \<Rightarrow> submitter \<Rightarrow> batch_db \<Rightarrow> bool" where
  "holds_credit w p d =
     (case s_phase p of Handle e current \<Rightarrow> credit_hold p e current d \<and> \<not> isl (handle w p e current d) | _ \<Rightarrow> False)"

lemma goto_simps [simp]:
  "s_batch (goto ph p) = s_batch p" "s_phase (goto ph p) = ph" "s_batch (fail_with c p) = s_batch p"
  "s_phase (fail_with c p) = Release (raise_code c)"
  by (simp_all add: goto_def fail_with_def)

lemma check_then_phase: "s_phase (check_then ph w p d) = ph \<or> (\<exists>e. s_phase (check_then ph w p d) = Release e)"
  by (simp add: check_then_def split: option.split)

lemma check_then_batch [simp]: "s_batch (check_then ph w p d) = s_batch p"
  by (simp add: check_then_def split: option.split)

lemma quiet_phases:
  "s_batch (admit p d) = s_batch p" "s_batch (choose_route p d) = s_batch p" "s_batch (open_input w p d) = s_batch p"
  "s_batch (upload_answered w p) = s_batch p" "s_batch (reload p d) = s_batch p" "s_batch (batch_answered w p) = s_batch p"
  "sound (admit p d)" "sound (choose_route p d)" "sound (open_input w p d)" "sound (upload_answered w p)" "sound (reload p d)"
  "documented_answers w \<Longrightarrow> sound (batch_answered w p)"
  "\<not> holder x (admit p d)" "\<not> holder x (choose_route p d)" "\<not> holder x (open_input w p d)" "\<not> holder x (upload_answered w p)"
  "\<not> holder x (reload p d)" "\<not> holder x (batch_answered w p)"
  by (auto simp: admit_def choose_route_def open_input_def upload_answered_def reload_def batch_answered_def sound_def holder_def
      documented_answers_def truthy_text_def coalesce_text_def split: option.splits sum.splits)

definition plain_step :: "outside \<Rightarrow> submitter \<Rightarrow> batch_db \<Rightarrow> submitter \<Rightarrow> batch_db \<Rightarrow> bool" where
  "plain_step w p d p' d' =
     (safe_change d d' \<and> \<not> holds_credit w p d \<and> (\<forall>x. holder x p' \<longrightarrow> holder x p \<and> s_phase p \<noteq> Create))"

lemma quiet_step:
  assumes "wf_batches d" "\<And>x. holder x p' \<Longrightarrow> holder x p \<and> s_phase p \<noteq> Create" "\<And>e c. s_phase p \<noteq> Handle e c"
  shows "plain_step w p d p' d"
  using assms safe_refl unfolding plain_step_def holds_credit_def by (auto split: phase.split)

lemma check_then_sound: "ph \<in> {Choose, Upload, Create} \<Longrightarrow> sound (check_then ph w p d)"
  using check_then_phase [of ph w p d] by (auto simp: sound_def)

lemma check_then_holder: "ph \<in> {Choose, Upload} \<Longrightarrow> \<not> holder x (check_then ph w p d)"
  using check_then_phase [of ph w p d] by (auto simp: holder_def)

lemma reserve_batch_Inr: "reserve_batch w b d = Inr d' \<Longrightarrow> \<exists>rs. d' = set_reservations rs d"
  unfolding reserve_batch_def
  by (cases "reserve (o_guard w) (o_budget w) (o_periods w) (batch_reservation (b_id b))
          (Some (estimate_reserve (o_budget w) (o_estimate w) * of_nat (items_with (b_id b) (\<lambda>_. True) d)))
          (if truthy_text (b_job_id b) then b_job_id b else None) None (sp_provider_id (spec b)) (o_now w) (budget_view d)") auto

lemma reserve_cost_step:
  assumes "wf_batches d" "reserve_cost w p d = (p', d')" "s_phase p = Reserve"
  shows "s_batch p' = s_batch p" "sound p'" "plain_step w p d p' d'"
proof -
  have c: "s_batch p' = s_batch p \<and> sound p' \<and> (holder x p' \<longrightarrow> holder x p) \<and> (d' = d \<or> (\<exists>rs. d' = set_reservations rs d))" for x
    using assms(2,3) by (auto simp: reserve_cost_def holder_def sound_def dest: reserve_batch_Inr split: option.splits sum.splits if_splits)
  then show "s_batch p' = s_batch p" "sound p'" by blast+
  have "safe_change d (set_reservations rs d)" for rs
    by (rule safe_frame [OF assms(1)]) (simp_all add: set_reservations_def the_queue_def)
  then have "safe_change d d'" using c safe_refl [OF assms(1)] by blast
  then show "plain_step w p d p' d'" using c assms(3) by (simp add: plain_step_def holds_credit_def)
qed

lemma handle_step:
  assumes "wf_batches d" "s_phase p = Handle e current"
    "d' = (case handle w p e current d of Inl _ \<Rightarrow> d | Inr d1 \<Rightarrow> d1)"
  shows "holds_credit w p d \<Longrightarrow> wf_batches d' \<and> submitted_batches d - {s_batch p} \<subseteq> submitted_batches d'"
    and "\<not> holds_credit w p d \<Longrightarrow> safe_change d d'"
proof -
  assume h: "holds_credit w p d"
  then obtain d1 where "handle w p e current d = Inr d1" "credit_hold p e current d"
    by (cases "handle w p e current d") (auto simp: holds_credit_def assms(2))
  then show "wf_batches d' \<and> submitted_batches d - {s_batch p} \<subseteq> submitted_batches d'"
    using handle_hold [OF assms(1), of w p e current d1] assms(3) by auto
next
  assume h: "\<not> holds_credit w p d"
  show "safe_change d d'"
  proof (cases "handle w p e current d")
    case (Inl _)
    then show ?thesis using assms(1,3) safe_refl by simp
  next
    case (Inr d1)
    then have "\<not> credit_hold p e current d" using h by (simp add: holds_credit_def assms(2))
    then show ?thesis using safe_handle [OF assms(1) Inr] Inr assms(3) by simp
  qed
qed

text \<open>Every step of a call is quiet, or claims the submission, or puts the batch back for a later period.\<close>

definition step_kind :: "outside \<Rightarrow> submitter \<Rightarrow> batch_db \<Rightarrow> submitter \<Rightarrow> batch_db \<Rightarrow> bool" where
  "step_kind w p d p' d' =
     (s_batch p' = s_batch p \<and> sound p' \<and>
      (plain_step w p d p' d' \<or>
       (claims_submission d (s_batch p) d' \<and> s_phase p = ClaimSubmission) \<or>
       (holds_credit w p d \<and> wf_batches d' \<and> submitted_batches d - {s_batch p} \<subseteq> submitted_batches d' \<and> (\<forall>x. \<not> holder x p'))))"

lemma quiet_kind:
  assumes "wf_batches d" "submit_step w p d = (q, d)" "\<And>e c. s_phase p \<noteq> Handle e c" "s_batch q = s_batch p" "sound q"
    "\<And>x. holder x q \<Longrightarrow> holder x p \<and> s_phase p \<noteq> Create"
  shows "submit_step w p d = (p', d') \<Longrightarrow> step_kind w p d p' d'"
  using assms quiet_step [OF assms(1,6,3)] by (simp add: step_kind_def)

lemma changing_kind:
  assumes "safe_change d d'" "s_batch p' = s_batch p" "sound p'" "\<And>x. \<not> holder x p'" "\<And>e c. s_phase p \<noteq> Handle e c"
  shows "step_kind w p d p' d'"
  using assms by (simp add: step_kind_def plain_step_def holds_credit_def split: phase.split)

lemma submit_step_kinds:
  assumes "wf_batches d" "sound p" "documented_answers w" "submit_step w p d = (p', d')"
  shows "step_kind w p d p' d'"
proof (cases "s_phase p")
  case Admit
  show ?thesis by (rule quiet_kind [OF assms(1) _ _ _ _ _ assms(4), of "admit p d"]) (simp_all add: submit_step_def Admit quiet_phases)
next
  case Check
  show ?thesis
    by (rule quiet_kind [OF assms(1) _ _ _ _ _ assms(4), of "check_then Choose w p d"])
      (simp_all add: submit_step_def Check check_then_sound check_then_holder)
next
  case Choose
  show ?thesis by (rule quiet_kind [OF assms(1) _ _ _ _ _ assms(4), of "choose_route p d"]) (simp_all add: submit_step_def Choose quiet_phases)
next
  case ClaimUpload
  let ?c = "claim_upload (s_batch p) (s_owner p) (o_fresh w) (submission_lease w) (o_now w) d"
  have s: "safe_change d (snd ?c)" by (rule safe_step [OF assms(1) batch_step.upload])
  have "d' = snd ?c" "s_batch p' = s_batch p" "sound p'" "\<not> holder x p'" for x
    using assms(4) ClaimUpload by (auto simp: submit_step_def Let_def sound_def holder_def split: prod.splits if_splits)
  then show ?thesis using changing_kind [of d d' p' p] s ClaimUpload by simp
next
  case OpenInput
  show ?thesis by (rule quiet_kind [OF assms(1) _ _ _ _ _ assms(4), of "open_input w p d"]) (simp_all add: submit_step_def OpenInput quiet_phases)
next
  case CheckUpload
  show ?thesis
    by (rule quiet_kind [OF assms(1) _ _ _ _ _ assms(4), of "check_then Upload w p d"])
      (simp_all add: submit_step_def CheckUpload check_then_sound check_then_holder)
next
  case Upload
  show ?thesis by (rule quiet_kind [OF assms(1) _ _ _ _ _ assms(4), of "upload_answered w p"]) (simp_all add: submit_step_def Upload quiet_phases)
next
  case (RecordUpload f)
  then have f: "f \<noteq> []" using assms(2) by (simp add: sound_def)
  have s: "safe_change d d1" if "complete_upload x a o' f b now d = Inr (won, d1)" for x a o' b now won d1
    by (rule safe_step [OF assms(1) batch_step.uploaded [OF f that]])
  have "safe_change d d'" "s_batch p' = s_batch p" "sound p'" "\<not> holder x p'" for x
    using assms(4) RecordUpload safe_refl [OF assms(1)] s
    by (auto simp: submit_step_def Let_def sound_def holder_def split: sum.splits prod.splits if_splits)
  then show ?thesis using changing_kind [of d d' p' p] RecordUpload by simp
next
  case Reload
  show ?thesis by (rule quiet_kind [OF assms(1) _ _ _ _ _ assms(4), of "reload p d"]) (simp_all add: submit_step_def Reload quiet_phases)
next
  case ClaimSubmission
  let ?c = "claim_submission (s_batch p) (s_owner p) (o_fresh w) (submission_lease w) (o_now w) d"
  have s: "safe_change d (snd ?c)" by (rule safe_step [OF assms(1) batch_step.submit])
  have d': "d' = snd ?c" and b: "s_batch p' = s_batch p" "sound p'" and h: "\<not> fst ?c \<Longrightarrow> \<not> holder x p'" for x
    using assms(4) ClaimSubmission by (auto simp: submit_step_def Let_def sound_def holder_def split: prod.splits if_splits)
  show ?thesis
  proof (cases "fst ?c")
    case True
    then have "claims_submission d (s_batch p) (snd ?c)" unfolding claims_submission_def by (metis prod.collapse)
    then show ?thesis using d' b ClaimSubmission by (simp add: step_kind_def)
  next
    case False
    then show ?thesis using changing_kind [of d d' p' p] s d' b h ClaimSubmission by simp
  qed
next
  case Reserve
  then have "reserve_cost w p d = (p', d')" using assms(4) by (simp add: submit_step_def)
  then show ?thesis using reserve_cost_step [OF assms(1) _ Reserve] by (simp add: step_kind_def)
next
  case CheckCreate
  show ?thesis
    by (rule quiet_kind [OF assms(1) _ _ _ _ _ assms(4), of "check_then Create w p d"])
      (simp_all add: submit_step_def CheckCreate check_then_sound holder_def)
next
  case Create
  show ?thesis
    by (rule quiet_kind [OF assms(1) _ _ _ _ _ assms(4), of "batch_answered w p"]) (simp_all add: submit_step_def Create quiet_phases assms(3))
next
  case (RecordBatch r)
  then have r: "documented r" using assms(2) by (simp add: sound_def)
  have s: "safe_change d d1" if "complete_submission x a o' r now d = Inr (s, d1)" for x a o' now s d1
    by (rule safe_step [OF assms(1) batch_step.submitted [OF r that]])
  have "safe_change d d'" "s_batch p' = s_batch p" "sound p'" "\<not> holder x p'" for x
    using assms(4) RecordBatch safe_refl [OF assms(1)] s
    by (auto simp: submit_step_def Let_def sound_def holder_def split: sum.splits prod.splits option.splits)
  then show ?thesis using changing_kind [of d d' p' p] RecordBatch by simp
next
  case (Release e)
  have "safe_change d (release_batch (s_batch p) d)"
    by (rule safe_frame [OF assms(1)]) (simp_all add: release_batch_def release_reservation_def the_queue_def)
  then have "safe_change d d'" "s_batch p' = s_batch p" "sound p'" "\<not> holder x p'" for x
    using assms(4) Release safe_refl [OF assms(1)] by (auto simp: submit_step_def Let_def sound_def holder_def)
  then show ?thesis using changing_kind [of d d' p' p] Release by simp
next
  case (Handle e current)
  have d': "d' = (case handle w p e current d of Inl _ \<Rightarrow> d | Inr d1 \<Rightarrow> d1)" and p': "p' = goto (Finished (Some e)) p"
    using assms(4) Handle by (simp_all add: submit_step_def Let_def)
  show ?thesis using handle_step [OF assms(1) Handle d'] p'
    by (cases "holds_credit w p d") (auto simp: step_kind_def plain_step_def sound_def holder_def)
next
  case (Finished r)
  show ?thesis by (rule quiet_kind [OF assms(1) _ _ _ _ _ assms(4), of p]) (simp_all add: submit_step_def Finished assms(2) holder_def)
qed

section \<open>Many calls\<close>

record runs =
  y_db :: batch_db
  y_calls :: "submitter list"
  y_creates :: "string list"  \<comment> \<open>batches for which the creating request was sent\<close>
  y_holds :: "string list"  \<comment> \<open>batches put back for a later billing period\<close>

definition sends :: "submitter \<Rightarrow> string list" where
  "sends p = (if s_phase p = Create then [s_batch p] else [])"

definition puts_back :: "outside \<Rightarrow> submitter \<Rightarrow> batch_db \<Rightarrow> string list" where
  "puts_back w p d = (if holds_credit w p d then [s_batch p] else [])"

inductive runs_step :: "runs \<Rightarrow> runs \<Rightarrow> bool" where
  call: "runs_step s (s\<lparr>y_calls := y_calls s @ [new_submitter x endpoint owner]\<rparr>)"
| advance: "i < length (y_calls s) \<Longrightarrow> documented_answers w \<Longrightarrow> submit_step w (y_calls s ! i) (y_db s) = (p, d) \<Longrightarrow>
    runs_step s (s\<lparr>y_db := d, y_calls := (y_calls s)[i := p], y_creates := y_creates s @ sends (y_calls s ! i),
                   y_holds := y_holds s @ puts_back w (y_calls s ! i) (y_db s)\<rparr>)"
| other: "safe_change (y_db s) d \<Longrightarrow> runs_step s (s\<lparr>y_db := d\<rparr>)"

definition initial_runs :: "runs \<Rightarrow> bool" where
  "initial_runs s = (wf_batches (y_db s) \<and> y_calls s = [] \<and> y_creates s = [] \<and> y_holds s = [])"

definition submitted_bound :: "string \<Rightarrow> batch_db \<Rightarrow> nat" where
  "submitted_bound x d = (if x \<in> submitted_batches d then 1 else 0)"

definition runs_inv :: "runs \<Rightarrow> bool" where
  "runs_inv s =
     (wf_batches (y_db s) \<and> list_all sound (y_calls s) \<and>
      (\<forall>x. count_list (y_creates s) x + row_count (holder x) (y_calls s) \<le> submitted_bound x (y_db s) + count_list (y_holds s) x))"

lemma row_count_list_update:
  "i < length xs \<Longrightarrow> row_count q (xs[i := y]) + (if q (xs ! i) then 1 else 0) = row_count q xs + (if q y then 1 else 0)"
proof (induction xs arbitrary: i)
  case (Cons a xs)
  then show ?case by (cases i) auto
qed simp

lemma bound_mono: "submitted_batches d \<subseteq> submitted_batches d' \<Longrightarrow> submitted_bound x d \<le> submitted_bound x d'"
  by (auto simp: submitted_bound_def)

lemma count_sends: "count_list (sends p) x = (if s_phase p = Create \<and> s_batch p = x then 1 else 0)"
  by (simp add: sends_def)

lemma create_holds: "s_phase p = Create \<Longrightarrow> holder (s_batch p) p"
  by (simp add: holder_def)

text \<open>What one step adds to the requests sent and the calls about to send, and what it adds to the bound.\<close>

lemma step_balance:
  assumes "wf_batches d" "step_kind w p d p' d'"
  shows "count_list (sends p) x + (if holder x p' then 1 else 0) + submitted_bound x d
    \<le> (if holder x p then 1 else 0) + submitted_bound x d' + count_list (puts_back w p d) x"
  using assms(2) unfolding step_kind_def
proof (elim conjE disjE)
  assume "plain_step w p d p' d'"
  then have "submitted_bound x d \<le> submitted_bound x d'" "holder x p' \<Longrightarrow> holder x p \<and> s_phase p \<noteq> Create"
    using bound_mono by (auto simp: plain_step_def safe_change_def)
  then show ?thesis using create_holds [of p] by (auto simp: count_sends)
next
  assume c: "claims_submission d (s_batch p) d'" "s_phase p = ClaimSubmission" "s_batch p' = s_batch p"
  have "submitted_batches d \<subseteq> submitted_batches d'"
    using submitted_batches_mono [OF assms(1)] claims_submission_step [OF c(1)] by blast
  moreover have "s_batch p \<notin> submitted_batches d" "s_batch p \<in> submitted_batches d'"
    using claims_submission_fresh [OF assms(1) c(1)] claims_submission_recorded [OF c(1)] .
  ultimately have "(if holder x p' then 1 else 0) + submitted_bound x d \<le> submitted_bound x d'"
    using c(3) by (auto simp: submitted_bound_def holder_def)
  then show ?thesis using c(2) by (simp add: count_sends)
next
  assume h: "holds_credit w p d" "submitted_batches d - {s_batch p} \<subseteq> submitted_batches d'" "\<forall>x. \<not> holder x p'"
  have "s_phase p \<noteq> Create" using h(1) by (auto simp: holds_credit_def)
  moreover have "submitted_bound x d \<le> submitted_bound x d' + count_list (puts_back w p d) x"
    using h(1,2) by (auto simp: submitted_bound_def puts_back_def)
  ultimately show ?thesis using h(3) by (simp add: count_sends)
qed

lemma runs_inv_step: "runs_step s s' \<Longrightarrow> runs_inv s \<Longrightarrow> runs_inv s'"
proof (induction rule: runs_step.induct)
  case (call s x endpoint owner)
  then show ?case by (simp add: runs_inv_def new_submitter_def sound_def holder_def row_count_append)
next
  case (advance i s w p d)
  let ?p = "y_calls s ! i"
  have w: "wf_batches (y_db s)" and snd: "list_all sound (y_calls s)" using advance.prems by (simp_all add: runs_inv_def)
  then have "sound ?p" using advance.hyps(1) by (simp add: list_all_length)
  then have k: "step_kind w ?p (y_db s) p d" using submit_step_kinds w advance.hyps(2,3) by blast
  have w': "wf_batches d"
    using k claims_submission_step safe_step [OF w] unfolding step_kind_def plain_step_def safe_change_def by blast
  have snd': "list_all sound ((y_calls s)[i := p])"
    using snd k advance.hyps(1) by (auto simp: list_all_length nth_list_update step_kind_def)
  have "count_list (y_creates s @ sends ?p) x + row_count (holder x) ((y_calls s)[i := p])
      \<le> submitted_bound x d + count_list (y_holds s @ puts_back w ?p (y_db s)) x" for x
    using step_balance [OF w k, of x] row_count_list_update [OF advance.hyps(1), of "holder x" p] advance.prems
    unfolding runs_inv_def by (auto simp: count_list_append dest!: spec [of _ x])
  then show ?case using w' snd' by (simp add: runs_inv_def)
next
  case (other s d)
  then show ?case
    using bound_mono [of "y_db s" d] unfolding runs_inv_def safe_change_def by (auto intro: le_trans add_right_mono)
qed

interpretation submission_runs: invariant_system initial_runs runs_step runs_inv
proof
  show "initial_runs s \<Longrightarrow> runs_inv s" for s by (simp add: initial_runs_def runs_inv_def)
  show "runs_inv s \<Longrightarrow> runs_step s t \<Longrightarrow> runs_inv t" for s t by (rule runs_inv_step)
qed


text \<open>Two calls for the same batch, advanced by a schedule.\<close>

definition advance_call :: "outside \<Rightarrow> nat \<Rightarrow> runs \<Rightarrow> runs" where
  "advance_call w i s =
     (if i < length (y_calls s) \<and> documented_answers w
      then let (p, d) = submit_step w (y_calls s ! i) (y_db s) in
           s\<lparr>y_db := d, y_calls := (y_calls s)[i := p], y_creates := y_creates s @ sends (y_calls s ! i),
             y_holds := y_holds s @ puts_back w (y_calls s ! i) (y_db s)\<rparr>
      else s)"

definition advance_all :: "(outside \<times> nat) list \<Rightarrow> runs \<Rightarrow> runs" where
  "advance_all wis = fold (\<lambda>(w, i). advance_call w i) wis"

lemma advance_steps: "runs_step\<^sup>*\<^sup>* s (advance_all wis s)"
proof (induction wis arbitrary: s)
  case (Cons wi wis)
  obtain w i where wi: "wi = (w, i)" by fastforce
  have "runs_step\<^sup>*\<^sup>* s (advance_call w i s)"
    by (auto simp: advance_call_def split: prod.split intro!: r_into_rtranclp runs_step.advance)
  then show ?case using Cons.IH [of "advance_call w i s"] by (simp add: advance_all_def wi rtranclp_trans)
qed (simp add: advance_all_def)

definition demo_outside :: outside where
  "demo_outside =
     \<lparr>o_now = 3, o_fresh = ''a1'', o_timeout = None, o_modes = \<lparr>mode_setting = Some ''automatic_ai'', ai_mode = None, prefilter_enabled = None\<rparr>,
      o_guard = False, o_budget = demo_budget_settings, o_periods = demo_periods, o_input_size = Some 42, o_provider = None, o_estimate = Some (1 / 100),
      o_upload = Inr (Some ''file-1''), o_create = Inr (demo_remote ''validating''), o_digest = (\<lambda>s. s)\<rparr>"

definition demo_idle :: runs where
  "demo_idle = \<lparr>y_db = demo_prepared, y_calls = [], y_creates = [], y_holds = []\<rparr>"

definition demo_calls :: runs where
  "demo_calls = demo_idle\<lparr>y_calls := [new_submitter ''b1'' None ''w1'', new_submitter ''b1'' None ''w2'']\<rparr>"

definition demo_raced :: runs where
  "demo_raced = advance_all (map (Pair demo_outside) [0, 0, 0, 0, 1, 1, 1, 0, 0, 0, 0, 0, 1, 1, 1, 0, 0, 0, 0, 0]) demo_calls"

lemma demo_calls_reached: "initial_runs demo_idle" "runs_step\<^sup>*\<^sup>* demo_idle demo_calls"
proof -
  show "initial_runs demo_idle" using demo_batch_wf(1) by (simp add: initial_runs_def demo_idle_def)
  have "runs_step demo_idle (demo_idle\<lparr>y_calls := [new_submitter ''b1'' None ''w1'']\<rparr>)"
    using runs_step.call [of demo_idle "''b1''" None "''w1''"] by (simp add: demo_idle_def)
  moreover have "runs_step (demo_idle\<lparr>y_calls := [new_submitter ''b1'' None ''w1'']\<rparr>) demo_calls"
    using runs_step.call [of "demo_idle\<lparr>y_calls := [new_submitter ''b1'' None ''w1'']\<rparr>" "''b1''" None "''w2''"]
    by (simp add: demo_calls_def demo_idle_def)
  ultimately show "runs_step\<^sup>*\<^sup>* demo_idle demo_calls" by (meson converse_rtranclp_into_rtranclp r_into_rtranclp)
qed

lemma demo_advanced: "runs_step\<^sup>*\<^sup>* demo_idle (advance_all wis demo_calls)"
  using demo_calls_reached(2) advance_steps by (rule rtranclp_trans)


section \<open>Where the handler goes wrong\<close>

fun submit_steps :: "outside list \<Rightarrow> submitter \<Rightarrow> batch_db \<Rightarrow> submitter \<times> batch_db" where
  "submit_steps [] p d = (p, d)"
| "submit_steps (w # ws) p d = (case submit_step w p d of (p', d') \<Rightarrow> submit_steps ws p' d')"

text \<open>C24. A losing claimant releases the winner's reservation: while a batch is being submitted by one call, any
  other call that tries to claim it ends with BATCH-ALREADY-CLAIMED and leaves the batch tables alone, but its
  handler has already released the budget reservation the winner booked for the request that is under way, so
  the money of that request is no longer counted against the budget.\<close>

theorem losing_claim_frees_reservation:
  assumes "wf_batches d" "find_batch (s_batch p) d = Some b" "b_status b = ''submitting''"
    "s_phase p = ClaimSubmission" "\<not> s_remote_created p"
  shows "\<exists>p' d'. submit_steps [w1, w2, w3] p d = (p', d') \<and>
    s_phase p' = Finished (Some (raise_code ''BATCH-ALREADY-CLAIMED'')) \<and>
    batches d' = batches d \<and> batch_items d' = batch_items d \<and>
    (\<forall>r \<in> set (budget_reservations (rest d')). rv_id r = batch_reservation (s_batch p) \<longrightarrow> \<not> rv_active r)"
proof -
  let ?e = "raise_code ''BATCH-ALREADY-CLAIMED''" and ?x = "s_batch p"
  have "\<forall>c \<in> set (batches d). \<not> (b_id c = ?x \<and> b_status c = ''uploaded'' \<and> f_id (input_file c) \<noteq> None \<and> claim_free t c)" for t
    using row_of [OF assms(1,2)] assms(3) by auto
  then have lost: "claim_submission ?x (s_owner p) a u t d = (False, d)" for a u t
    unfolding claim_submission_def by (intro cas_miss) blast
  let ?p1 = "fail_with ''BATCH-ALREADY-CLAIMED'' (p\<lparr>s_submission := Some (o_fresh w1)\<rparr>)"
  let ?p2 = "goto (Handle ?e (find_batch ?x d)) ?p1"
  let ?d2 = "release_batch ?x d"
  have s1: "submit_step w1 p d = (?p1, d)" by (simp add: submit_step_def Let_def assms(4) lost)
  have s2: "submit_step w2 ?p1 d = (?p2, ?d2)"
    by (simp add: submit_step_def Let_def fail_with_def goto_def assms(5) is_ambiguous_def raise_code_def)
  have code: "\<not> credit_hold ?p2 ?e c ?d2" "lost_claim ?p2 ?e" for c
    by (simp_all add: credit_hold_def credit_code_def raise_code_def starts_with_def lost_claim_def split: option.split)
  have "handle w3 ?p2 ?e c ?d2 = Inr ?d2 \<or> handle w3 ?p2 ?e c ?d2 = Inl MalformedParent" for c
    using code by (auto simp: handle_def split: option.split)
  then have s3: "submit_step w3 ?p2 ?d2 = (goto (Finished (Some ?e)) ?p2, ?d2)"
    by (auto simp: submit_step_def Let_def dest: meta_spec [of _ "find_batch ?x d"])
  have run: "submit_steps [w1, w2, w3] p d = (goto (Finished (Some ?e)) ?p2, ?d2)" by (simp add: s1 s2 s3)
  show ?thesis
    unfolding run by (auto simp: release_batch_def release_reservation_def set_update_where)
qed

definition demo_booked :: runs where
  "demo_booked = advance_all (map (Pair demo_outside) [0, 0, 0, 0, 0, 0, 0, 0, 0, 0, 0, 1, 1, 1, 1]) demo_calls"

lemma demo_advanced_wf: "wf_batches (y_db (advance_all wis demo_calls))"
  using submission_runs.reachable_inv [OF demo_calls_reached(1) demo_advanced] by (simp add: runs_inv_def)

theorem losing_claim_frees_reservation_witness:
  "list_ex (\<lambda>r. rv_id r = ''batch:b1'' \<and> rv_active r) (budget_reservations (rest (y_db demo_booked))) \<and>
   (\<exists>p' d'. submit_steps [demo_outside, demo_outside, demo_outside] (y_calls demo_booked ! 1) (y_db demo_booked) = (p', d') \<and>
      batches d' = batches (y_db demo_booked) \<and> \<not> list_ex (\<lambda>r. rv_id r = ''batch:b1'' \<and> rv_active r) (budget_reservations (rest d')))"
proof -
  let ?p = "y_calls demo_booked ! 1" and ?d = "y_db demo_booked"
  have w: "wf_batches ?d" unfolding demo_booked_def by (rule demo_advanced_wf)
  have p: "s_phase ?p = ClaimSubmission" "\<not> s_remote_created ?p" "s_batch ?p = ''b1''" by code_simp+
  let ?b = "the (find_batch ''b1'' ?d)"
  have "find_batch ''b1'' ?d \<noteq> None" by code_simp
  then have f: "find_batch (s_batch ?p) ?d = Some ?b" using p(3) by simp
  have st: "b_status ?b = ''submitting''" by code_simp
  have a: "list_ex (\<lambda>r. rv_id r = ''batch:b1'' \<and> rv_active r) (budget_reservations (rest ?d))" by code_simp
  obtain p' d' where r: "submit_steps [demo_outside, demo_outside, demo_outside] ?p ?d = (p', d')" "batches d' = batches ?d"
    "\<forall>r \<in> set (budget_reservations (rest d')). rv_id r = batch_reservation (s_batch ?p) \<longrightarrow> \<not> rv_active r"
    using losing_claim_frees_reservation [OF w f st p(1,2), of demo_outside demo_outside demo_outside] by blast
  have "batch_reservation (s_batch ?p) = ''batch:b1''" by (simp only: p(3)) (simp add: batch_reservation_def)
  then have "\<not> list_ex (\<lambda>r. rv_id r = ''batch:b1'' \<and> rv_active r) (budget_reservations (rest d'))" using r(3) by (auto simp: list_ex_iff)
  then show ?thesis using a r(1,2) by blast
qed

definition demo_disabled :: outside where
  "demo_disabled = demo_outside\<lparr>o_modes := \<lparr>mode_setting = Some ''local_only'', ai_mode = None, prefilter_enabled = None\<rparr>\<rparr>"

definition demo_discarded :: runs where
  "demo_discarded = advance_all (map (Pair demo_outside) [0, 0, 0, 0, 0, 0, 0, 0, 0, 0, 0, 0, 0] @ map (Pair demo_disabled) [1, 1, 1, 1] @
     map (Pair demo_outside) [0, 0, 0]) demo_calls"


end
