(* ===== verification/Batch_Sharding.thy ===== *)
theory Batch_Sharding
  imports Prelude "HOL-Library.Word" "HOL-Library.Sublist"
begin

text \<open>
  \<^verbatim>\<open>stream_jsonl_shards\<close> of \<^verbatim>\<open>inktime/app/services/batch_analysis.py\<close>: the request lines of a batch are written one
  at a time to numbered files, and a new file is begun when the item or the byte limit is reached. The disk is
  a map from paths to contents; directories, file modes, \<^verbatim>\<open>fsync\<close> and the measured peak memory are left out, and
  deleting a file succeeds. The line factory is an argument: it may raise, return something that is not bytes,
  or return a line.
\<close>

section \<open>Limits and paths\<close>

type_synonym bytes = "8 word list"

type_synonym disk = "string \<Rightarrow> bytes option"

definition MAX_OPENAI_REQUESTS :: int where "MAX_OPENAI_REQUESTS = 50000"

definition MAX_OPENAI_BYTES :: int where "MAX_OPENAI_BYTES = 200 * 1024 * 1024"

text \<open>\<^verbatim>\<open>max(1, min(int(value), bound))\<close>\<close>

definition bounded :: "int \<Rightarrow> int \<Rightarrow> int" where
  "bounded value bound = max 1 (min value bound)"

fun decimal :: "nat \<Rightarrow> string" where
  "decimal n = (if n < 10 then [char_of (n + 48)] else decimal (n div 10) @ [char_of (n mod 10 + 48)])"

declare decimal.simps [simp del]

text \<open>\<^verbatim>\<open>f"{number:04d}"\<close>\<close>

definition padded :: "nat \<Rightarrow> string" where
  "padded n = replicate (4 - length (decimal n)) (CHR ''0'') @ decimal n"

definition shard_path :: "string \<Rightarrow> string \<Rightarrow> nat \<Rightarrow> string" where
  "shard_path dir path_prefix n = dir @ ''/'' @ padded n @ ''/'' @ path_prefix @ ''.jsonl''"

definition below :: "string \<Rightarrow> string \<Rightarrow> bool" where
  "below dir path = prefix (dir @ ''/'') path"

section \<open>Writing\<close>

record shard =
  sh_path :: string
  sh_items :: "string list"
  items_count :: int
  sh_bytes :: int

datatype made_line = Line bytes | NotBytes

datatype 'e shard_error = FactoryError 'e | LineTypeError | LineTooLarge int

record shard_writer =
  shards :: "shard list"
  current :: "shard option"
  disk :: disk

definition with_newline :: "bytes \<Rightarrow> bytes" where
  "with_newline line = (if line \<noteq> [] \<and> last line = 10 then line else line @ [10])"

definition close_current :: "shard_writer \<Rightarrow> shard_writer" where
  "close_current w = (case current w of None \<Rightarrow> w | Some c \<Rightarrow> w\<lparr>shards := shards w @ [c], current := None\<rparr>)"

definition open_shard :: "string \<Rightarrow> string \<Rightarrow> shard_writer \<Rightarrow> shard_writer" where
  "open_shard dir path_prefix w =
     (let path = shard_path dir path_prefix (length (shards w) + 1) in
      w\<lparr>current := Some \<lparr>sh_path = path, sh_items = [], items_count = 0, sh_bytes = 0\<rparr>, disk := (disk w)(path \<mapsto> [])\<rparr>)"

definition fits :: "int \<Rightarrow> int \<Rightarrow> int \<Rightarrow> shard option \<Rightarrow> bool" where
  "fits max_items max_bytes line_bytes c =
     (case c of None \<Rightarrow> False | Some s \<Rightarrow> items_count s < max_items \<and> sh_bytes s + line_bytes \<le> max_bytes)"

definition write_line :: "string \<Rightarrow> bytes \<Rightarrow> shard_writer \<Rightarrow> shard_writer" where
  "write_line item_id line w =
     (case current w of None \<Rightarrow> w
      | Some c \<Rightarrow>
          w\<lparr>disk := (disk w)(sh_path c \<mapsto> (case disk w (sh_path c) of None \<Rightarrow> line | Some old \<Rightarrow> old @ line)),
            current := Some (c\<lparr>sh_items := sh_items c @ [item_id], items_count := items_count c + 1,
                              sh_bytes := sh_bytes c + int (length line)\<rparr>)\<rparr>)"

definition add_line :: "string \<Rightarrow> string \<Rightarrow> int \<Rightarrow> int \<Rightarrow> string \<Rightarrow> bytes \<Rightarrow> shard_writer \<Rightarrow> shard_writer" where
  "add_line dir path_prefix max_items max_bytes item_id line w =
     write_line item_id line
       (if fits max_items max_bytes (int (length line)) (current w) then w
        else open_shard dir path_prefix (close_current w))"

fun write_items :: "string \<Rightarrow> string \<Rightarrow> int \<Rightarrow> int \<Rightarrow> (string \<times> 'i) list \<Rightarrow> ('i \<Rightarrow> 'e + made_line) \<Rightarrow> shard_writer \<Rightarrow>
    'e shard_error option \<times> shard_writer" where
  "write_items dir path_prefix max_items max_bytes [] factory w = (None, close_current w)"
| "write_items dir path_prefix max_items max_bytes ((item_id, item) # items) factory w =
     (case factory item of
        Inl e \<Rightarrow> (Some (FactoryError e), w)
      | Inr NotBytes \<Rightarrow> (Some LineTypeError, w)
      | Inr (Line line) \<Rightarrow>
          (let line = with_newline line in
           if max_bytes < int (length line) then (Some (LineTooLarge (int (length line))), w)
           else write_items dir path_prefix max_items max_bytes items factory
                  (add_line dir path_prefix max_items max_bytes item_id line w)))"

text \<open>The exception handler removes everything below the directory of the batch.\<close>

definition remove_below :: "string \<Rightarrow> disk \<Rightarrow> disk" where
  "remove_below dir d = (\<lambda>path. if below dir path then None else d path)"

definition stream_jsonl_shards :: "string \<Rightarrow> (string \<times> 'i) list \<Rightarrow> ('i \<Rightarrow> 'e + made_line) \<Rightarrow> int \<Rightarrow> int \<Rightarrow> string \<Rightarrow> disk \<Rightarrow>
    ('e shard_error + shard list) \<times> disk" where
  "stream_jsonl_shards dir items factory max_items max_bytes path_prefix d =
     (case write_items dir path_prefix (bounded max_items MAX_OPENAI_REQUESTS) (bounded max_bytes MAX_OPENAI_BYTES)
             items factory \<lparr>shards = [], current = None, disk = d\<rparr> of
        (None, w) \<Rightarrow> (Inr (shards w), disk w)
      | (Some e, w) \<Rightarrow> (Inl e, remove_below dir (disk w)))"

section \<open>Paths of different shards\<close>

definition digits_value :: "string \<Rightarrow> nat" where
  "digits_value s = foldl (\<lambda>a c. a * 10 + (of_char c - 48)) 0 s"

lemma digits_value_snoc: "digits_value (s @ [c]) = digits_value s * 10 + (of_char c - 48)"
  by (simp add: digits_value_def)

lemma digit_of_char: "n < 10 \<Longrightarrow> of_char (char_of (n + 48) :: char) - 48 = (n :: nat)"
  by (simp add: of_char_of)

lemma digits_value_decimal: "digits_value (decimal n) = n"
proof (induction n rule: decimal.induct)
  case (1 n)
  show ?case
  proof (cases "n < 10")
    case True
    then show ?thesis using digit_of_char [OF True] by (simp add: decimal.simps [of n] digits_value_def)
  next
    case False
    then show ?thesis using 1 digit_of_char [of "n mod 10"] by (simp add: decimal.simps [of n] digits_value_snoc)
  qed
qed

lemma digits_value_zeros: "digits_value (replicate k (CHR ''0'') @ s) = digits_value s"
  by (induction k) (simp_all add: digits_value_def)

lemma padded_inject: "padded m = padded n \<Longrightarrow> m = n"
  by (metis digits_value_decimal digits_value_zeros padded_def)

lemma shard_path_inject: "shard_path dir p m = shard_path dir p n \<longleftrightarrow> m = n"
  using padded_inject by (auto simp: shard_path_def)

lemma below_shard_path: "below dir (shard_path dir p n)"
  by (simp add: below_def shard_path_def prefix_def)

section \<open>The loop\<close>

text \<open>The shards a writer has begun, with the lines in them.\<close>

definition begun :: "shard_writer \<Rightarrow> shard list" where
  "begun w = shards w @ (case current w of None \<Rightarrow> [] | Some c \<Rightarrow> [c])"

definition good_shard :: "int \<Rightarrow> int \<Rightarrow> shard \<Rightarrow> bool" where
  "good_shard max_items max_bytes s =
     (sh_items s \<noteq> [] \<and> items_count s = int (length (sh_items s)) \<and> items_count s \<le> max_items \<and> sh_bytes s \<le> max_bytes)"

definition on_disk :: "disk \<Rightarrow> shard list \<Rightarrow> bytes list" where
  "on_disk d ss = map (\<lambda>s. the (d (sh_path s))) ss"

definition numbered :: "string \<Rightarrow> string \<Rightarrow> shard list \<Rightarrow> bool" where
  "numbered dir path_prefix ss = (map sh_path ss = map (shard_path dir path_prefix) [1..<length ss + 1])"

definition sized :: "disk \<Rightarrow> shard \<Rightarrow> bool" where
  "sized d s = (\<exists>content. d (sh_path s) = Some content \<and> int (length content) = sh_bytes s)"

definition writer_ok :: "string \<Rightarrow> string \<Rightarrow> int \<Rightarrow> int \<Rightarrow> disk \<Rightarrow> (string \<times> bytes) list \<Rightarrow> shard_writer \<Rightarrow> bool" where
  "writer_ok dir path_prefix max_items max_bytes d0 written w =
     (list_all (good_shard max_items max_bytes) (begun w) \<and>
      numbered dir path_prefix (begun w) \<and>
      concat (map sh_items (begun w)) = map fst written \<and> concat (on_disk (disk w) (begun w)) = concat (map snd written) \<and>
      list_all (sized (disk w)) (begun w) \<and> remove_below dir (disk w) = remove_below dir d0)"

lemma begun_close: "begun (close_current w) = begun w" "disk (close_current w) = disk w" "current (close_current w) = None"
  by (auto simp: begun_def close_current_def split: option.splits)

lemma writer_ok_close: "writer_ok r p mi mb d0 ws (close_current w) = writer_ok r p mi mb d0 ws w"
  by (simp add: writer_ok_def begun_close)

lemma numbered_snoc: "numbered r p (ss @ [c]) \<longleftrightarrow> numbered r p ss \<and> sh_path c = shard_path r p (length ss + 1)"
  by (auto simp: numbered_def)

lemma numbered_new:
  assumes "numbered r p ss" shows "shard_path r p (length ss + 1) \<notin> sh_path ` set ss"
proof -
  have "sh_path ` set ss = shard_path r p ` set [1..<length ss + 1]"
    using assms unfolding numbered_def by (metis list.set_map)
  then show ?thesis by (auto simp: shard_path_inject)
qed

lemma on_disk_other: "x \<notin> sh_path ` set ss \<Longrightarrow> on_disk (d(x \<mapsto> v)) ss = on_disk d ss"
  by (auto simp: on_disk_def)

lemma sized_other: "x \<notin> sh_path ` set ss \<Longrightarrow> list_all (sized (d(x \<mapsto> v))) ss = list_all (sized d) ss"
  by (auto simp: sized_def list_all_iff)

text \<open>A line goes to the end of the last shard, which is open or begun for it.\<close>

lemma writer_okI:
  assumes "begun w = ss @ [c]" "disk w = d(sh_path c \<mapsto> content)" "sh_path c \<notin> sh_path ` set ss"
    "list_all (good_shard mi mb) ss" "good_shard mi mb c" "numbered r p (ss @ [c])"
    "concat (map sh_items ss) @ sh_items c = map fst ws" "concat (on_disk d ss) @ content = concat (map snd ws)"
    "list_all (sized d) ss" "int (length content) = sh_bytes c" "remove_below r d = remove_below r d0"
  shows "writer_ok r p mi mb d0 ws w"
proof -
  have "below r (sh_path c)" using assms(6) below_shard_path by (simp add: numbered_snoc)
  then have "remove_below r (disk w) = remove_below r d0"
    unfolding assms(2) assms(11) [symmetric] by (auto simp: remove_below_def)
  moreover have "on_disk (disk w) (ss @ [c]) = on_disk d ss @ [content]"
    using on_disk_other [OF assms(3)] by (simp add: assms(2) on_disk_def)
  moreover have "list_all (sized (disk w)) (ss @ [c])"
    using sized_other [OF assms(3)] assms(9,10) by (simp add: assms(2) sized_def)
  ultimately show ?thesis unfolding writer_ok_def assms(1) using assms(4-8) by simp
qed

lemma append_line:
  assumes "writer_ok r p mi mb d0 ws w" "fits mi mb (int (length l)) (current w)"
  shows "writer_ok r p mi mb d0 (ws @ [(i, l)]) (write_line i l w)"
proof -
  obtain c where c: "current w = Some c" "items_count c < mi" "sh_bytes c + int (length l) \<le> mb"
    using assms(2) by (auto simp: fits_def split: option.splits)
  let ?ss = "shards w"
  have b: "begun w = ?ss @ [c]" by (simp add: begun_def c(1))
  note ok = assms(1) [unfolded writer_ok_def b]
  obtain old where old: "disk w (sh_path c) = Some old" "int (length old) = sh_bytes c" using ok by (auto simp: sized_def)
  let ?c = "c\<lparr>sh_items := sh_items c @ [i], items_count := items_count c + 1, sh_bytes := sh_bytes c + int (length l)\<rparr>"
  have new: "sh_path c \<notin> sh_path ` set ?ss" using ok numbered_new by (simp add: numbered_snoc)
  show ?thesis
  proof (rule writer_okI [where ss = ?ss and c = ?c and d = "disk w" and content = "old @ l"])
    show "begun (write_line i l w) = ?ss @ [?c]" "disk (write_line i l w) = (disk w)(sh_path ?c \<mapsto> old @ l)"
      by (simp_all add: write_line_def c(1) old(1) begun_def)
    show "good_shard mi mb ?c" using ok c(2,3) by (simp add: good_shard_def)
    show "concat (on_disk (disk w) ?ss) @ old @ l = concat (map snd (ws @ [(i, l)]))" using ok old(1) by (simp add: on_disk_def)
  qed (use ok new old in \<open>simp_all add: numbered_snoc\<close>)
qed

lemma open_empty:
  assumes "writer_ok r p mi mb d0 ws w" "current w = None" "1 \<le> mi" "int (length l) \<le> mb"
  shows "writer_ok r p mi mb d0 (ws @ [(i, l)]) (write_line i l (open_shard r p w))"
proof -
  let ?c = "\<lparr>sh_path = shard_path r p (length (shards w) + 1), sh_items = [i], items_count = 1, sh_bytes = int (length l)\<rparr>"
  have b: "begun w = shards w" by (simp add: begun_def assms(2))
  note ok = assms(1) [unfolded writer_ok_def b]
  have new: "sh_path ?c \<notin> sh_path ` set (shards w)" using ok numbered_new by simp
  show ?thesis
    by (rule writer_okI [where ss = "shards w" and c = ?c and d = "disk w" and content = l])
      (use ok new assms(3,4) in \<open>simp_all add: write_line_def open_shard_def Let_def begun_def numbered_snoc good_shard_def\<close>)
qed

lemma add_line_ok:
  assumes "writer_ok r p mi mb d0 ws w" "1 \<le> mi" "int (length l) \<le> mb"
  shows "writer_ok r p mi mb d0 (ws @ [(i, l)]) (add_line r p mi mb i l w)"
proof (cases "fits mi mb (int (length l)) (current w)")
  case True
  then show ?thesis using append_line [OF assms(1) True] by (simp add: add_line_def)
next
  case False
  have "writer_ok r p mi mb d0 ws (close_current w)" using assms(1) by (simp add: writer_ok_close)
  then show ?thesis using open_empty begun_close(3) assms(2,3) False by (simp add: add_line_def)
qed

section \<open>The lines of a batch\<close>

text \<open>The lines of all items, or the error of the first item that has none within the limit.\<close>

fun request_lines :: "int \<Rightarrow> (string \<times> 'i) list \<Rightarrow> ('i \<Rightarrow> 'e + made_line) \<Rightarrow> 'e shard_error + (string \<times> bytes) list" where
  "request_lines max_bytes [] factory = Inr []"
| "request_lines max_bytes ((item_id, item) # items) factory =
     (case factory item of
        Inl e \<Rightarrow> Inl (FactoryError e)
      | Inr NotBytes \<Rightarrow> Inl LineTypeError
      | Inr (Line line) \<Rightarrow>
          if max_bytes < int (length (with_newline line)) then Inl (LineTooLarge (int (length (with_newline line))))
          else map_sum id (Cons (item_id, with_newline line)) (request_lines max_bytes items factory))"

lemma write_items_lines:
  assumes "writer_ok r p mi mb d0 ws w" "1 \<le> mi"
  shows "case request_lines mb items factory of
      Inl e \<Rightarrow> \<exists>w' ws'. write_items r p mi mb items factory w = (Some e, w') \<and> writer_ok r p mi mb d0 ws' w'
    | Inr ls \<Rightarrow> \<exists>w'. write_items r p mi mb items factory w = (None, w') \<and> writer_ok r p mi mb d0 (ws @ ls) w' \<and> current w' = None"
  using assms(1)
proof (induction items arbitrary: w ws)
  case Nil
  then show ?case by (simp add: writer_ok_close begun_close)
next
  case (Cons it items)
  obtain i x where it: "it = (i, x)" by fastforce
  show ?case
  proof (cases "\<exists>l. factory x = Inr (Line l) \<and> int (length (with_newline l)) \<le> mb")
    case True
    then obtain l where l: "factory x = Inr (Line l)" "\<not> mb < int (length (with_newline l))" by force
    have "writer_ok r p mi mb d0 (ws @ [(i, with_newline l)]) (add_line r p mi mb i (with_newline l) w)"
      using add_line_ok [OF Cons.prems assms(2)] l(2) by simp
    from Cons.IH [OF this] show ?thesis
      unfolding it request_lines.simps write_items.simps l(1) using l(2)
      by (cases "request_lines mb items factory") (auto simp: Let_def)
  next
    case False
    then show ?thesis
      unfolding it request_lines.simps write_items.simps using Cons.prems
      by (cases "factory x") (auto simp: Let_def split: made_line.splits)
  qed
qed

lemma request_lines_ids: "request_lines mb items factory = Inr ls \<Longrightarrow> map fst ls = map fst items"
proof (induction items arbitrary: ls)
  case (Cons it items)
  obtain i x where it: "it = (i, x)" by fastforce
  show ?case
    using Cons unfolding it
    by (cases "request_lines mb items factory") (auto split: sum.splits made_line.splits if_splits)
qed simp

text \<open>C12. Sharding is exact: if every item yields a line within the byte limit, the shards list all items once
  and in order, each shard holds at least one item and at most the two limits, its file has exactly the recorded
  number of bytes, and the files together are the lines of the items in order; otherwise the first offending
  item decides the error and nothing is left below the directory of the batch. Files outside it are never
  touched.\<close>

theorem shards_cover_batch:
  "case request_lines (bounded max_bytes MAX_OPENAI_BYTES) items factory of
      Inl e \<Rightarrow> stream_jsonl_shards dir items factory max_items max_bytes path_prefix d = (Inl e, remove_below dir d)
    | Inr ls \<Rightarrow> \<exists>ss d'. stream_jsonl_shards dir items factory max_items max_bytes path_prefix d = (Inr ss, d') \<and>
        concat (map sh_items ss) = map fst items \<and> concat (on_disk d' ss) = concat (map snd ls) \<and>
        list_all (good_shard (bounded max_items MAX_OPENAI_REQUESTS) (bounded max_bytes MAX_OPENAI_BYTES)) ss \<and>
        list_all (sized d') ss \<and> numbered dir path_prefix ss \<and> remove_below dir d' = remove_below dir d"
proof -
  let ?w = "\<lparr>shards = [], current = None, disk = d\<rparr>" and ?mi = "bounded max_items MAX_OPENAI_REQUESTS" and ?mb = "bounded max_bytes MAX_OPENAI_BYTES"
  have "writer_ok dir path_prefix ?mi ?mb d [] ?w" by (simp add: writer_ok_def begun_def numbered_def on_disk_def)
  moreover have "1 \<le> ?mi" by (simp add: bounded_def)
  ultimately have run: "case request_lines ?mb items factory of
      Inl e \<Rightarrow> \<exists>w' ws'. write_items dir path_prefix ?mi ?mb items factory ?w = (Some e, w') \<and> writer_ok dir path_prefix ?mi ?mb d ws' w'
    | Inr ls \<Rightarrow> \<exists>w'. write_items dir path_prefix ?mi ?mb items factory ?w = (None, w') \<and> writer_ok dir path_prefix ?mi ?mb d ([] @ ls) w' \<and> current w' = None"
    by (rule write_items_lines)
  show ?thesis
  proof (cases "request_lines ?mb items factory")
    case (Inl e)
    then show ?thesis using run by (auto simp: stream_jsonl_shards_def writer_ok_def)
  next
    case (Inr ls)
    then obtain w' where w': "write_items dir path_prefix ?mi ?mb items factory ?w = (None, w')"
      "writer_ok dir path_prefix ?mi ?mb d ls w'" "current w' = None" using run by auto
    have "begun w' = shards w'" by (simp add: begun_def w'(3))
    then show ?thesis
      using w'(1,2) request_lines_ids [OF Inr] Inr by (simp add: stream_jsonl_shards_def writer_ok_def)
  qed
qed

end
