(* ===== verification/Batch_Outcomes.thy ===== *)
theory Batch_Outcomes
  imports Batch_Guarantees
begin

text \<open>
  What the longer methods of the batch repository bring about: poll answers, finalization, the split of a batch
  into shards, the settlement of costs, and the local failure of a batch.
\<close>

section \<open>Poll answers\<close>

lemma apply_remote_simps:
  "b_id (apply_remote r st now b) = b_id b" "side_effect_version (apply_remote r st now b) = side_effect_version b + 1"
  "remote_status (apply_remote r st now b) = Some st" "b_status (apply_remote r st now b) = local_status_of st"
  by (simp_all add: apply_remote_def unclaimed_def)

lemma find_batch_update:
  assumes "batches d' = update_where p f (batches d)" "\<And>b. b_id (f b) = b_id b"
  shows "find_batch x d' = map_option (\<lambda>b. if p b then f b else b) (find_batch x d)"
  unfolding find_batch_def assms(1) using assms(2) by (intro first_row_update) simp

text \<open>C9. A poll answer is applied once: the answer belongs to the version the poll claimed, applying it
  raises the version and never moves the batch back to an earlier remote status, and every later answer for the
  same version, whatever it says, is ignored.\<close>

theorem poll_answer_applied_once:
  assumes "wf_batches d" "set_status_from_remote x r (Some v) wo now d = Inr (t, d')" "t \<noteq> ''ignored_stale''"
  shows "\<exists>b b'. find_batch x d = Some b \<and> find_batch x d' = Some b' \<and> side_effect_version b = v \<and> side_effect_version b' = v + 1 \<and>
      b_status b' = t \<and> \<not> terminal_batch b \<and> \<not> outranked (coalesce_text (remote_status b)) (coalesce_text (remote_status b')) \<and>
      (\<forall>r' wo' now' s e. set_status_from_remote x r' (Some v) wo' now' d' = Inr (s, e) \<longrightarrow> s = ''ignored_stale'' \<and> e = d')"
  using assms(2)
proof (cases rule: set_status_cases)
  case 1
  then show ?thesis using assms(3) by simp
next
  case (2 b d1)
  let ?st = "py_strip (coalesce_text (r_status r))" and ?b = "apply_remote r (py_strip (coalesce_text (r_status r))) now b"
  have "batches d' = update_where (\<lambda>y. b_id y = x \<and> side_effect_version y = side_effect_version b) (apply_remote r ?st now) (batches d)"
    using 2(3,5) by (auto simp: store_batches_Inr mark_items_submitted_def)
  then have f: "find_batch x d' = Some ?b"
    using find_batch_update [of d' _ "apply_remote r ?st now" d x] 2(1) find_batch_Some [OF 2(1)] by (simp add: apply_remote_simps)
  have fresh: "side_effect_version b = v" "\<not> terminal_batch b" "\<not> outranked (coalesce_text (remote_status b)) ?st"
    using 2(2) by (auto simp: stale_answer_def Let_def)
  have "s = ''ignored_stale'' \<and> e = d'" if "set_status_from_remote x r' (Some v) wo' now' d' = Inr (s, e)" for r' wo' now' s e
    using that f fresh(1) by (auto simp: set_status_from_remote_def Let_def stale_answer_def apply_remote_simps split: if_splits)
  then show ?thesis
    using 2(1,6) f fresh by (intro exI [of _ b] exI [of _ ?b]) (simp add: apply_remote_simps coalesce_text_def)
qed

definition demo_polled :: batch_db where
  "demo_polled = snd (projr (set_status_from_remote ''b1'' (demo_remote ''completed'') (Some 4) None 8 demo_running))"

theorem poll_answer_applied_once_witness:
  "set_status_from_remote ''b1'' (demo_remote ''completed'') (Some 4) None 8 demo_running = Inr (''import_pending'', demo_polled) \<and>
   (\<exists>b. find_batch ''b1'' demo_polled = Some b \<and> side_effect_version b = 5)"
proof -
  have c: "set_status_from_remote ''b1'' (demo_remote ''completed'') (Some 4) None 8 demo_running = Inr (''import_pending'', demo_polled)"
    unfolding demo_polled_def by (rule returned; code_simp)
  show ?thesis using c poll_answer_applied_once [OF demo_batch_wf(5) c] by auto
qed

section \<open>Finalization\<close>

lemma settle_job_frames [simp]:
  "batches (settle_job job_id status now d) = batches d" "batch_items (settle_job job_id status now d) = batch_items d"
  by (simp_all add: settle_job_def Let_def)

lemma close_job_items_frames [simp]:
  "batches (close_job_items x status code now d) = batches d" "batch_items (close_job_items x status code now d) = batch_items d"
  by (simp_all add: close_job_items_def)

lemma settle_parent_items [simp]: "batch_items (settle_parent x job_id status code now d) = batch_items d"
  by (simp add: settle_parent_def Let_def)

text \<open>The parent job after the last of its batches is closed.\<close>

lemma settled_job_final:
  assumes "pending_batches job_id d = 0" "terminal_status status" "j \<in> set (jobs (the_queue (settle_job job_id status now d)))" "j_id j = job_id"
  shows "terminal_status (j_status j)"
proof -
  let ?q = "the_queue d"
  let ?f = "\<lambda>j. j\<lparr>j_status := status, j_completed_at := Some now, completed_items := items_of job_id (\<lambda>x. x = ICompleted) ?q,
               failed_items := items_of job_id (\<lambda>x. x = IFailed) ?q, heartbeat_at := Some now\<rparr>"
  obtain k where k: "k \<in> set (jobs ?q)" "j = (if j_id k = job_id \<and> j_status k \<noteq> Cancelled then ?f k else k)"
    using assms(1,3) by (auto simp: settle_job_def Let_def set_update_where)
  show ?thesis
  proof (cases "j_id k = job_id \<and> j_status k \<noteq> Cancelled")
    case True
    then have "j_status j = status" using k(2) by simp
    then show ?thesis using assms(2) by simp
  next
    case False
    have "j = k" using k(2) unfolding if_not_P [OF False] .
    then show ?thesis using False assms(4) by (simp add: terminal_status_def)
  qed
qed

lemma siblings_status_terminal: "terminal_status (siblings_status job_id d)"
  by (auto simp: siblings_status_def Let_def terminal_status_def)

lemma finalize_terminal_again:
  assumes "find_batch x d = Some b" "terminal_batch b" "st \<in> set TERMINAL_BATCH_STATUSES"
  shows "finalize_batch_result x st action cl code now d = Inr (b_status b, d)"
  using assms by (simp add: finalize_batch_result_def finalize_batch_locked_def)

text \<open>C10. Finalization closes a batch, its items and its job in one step, once: afterwards the batch is
  terminal and unclaimed and none of its items waits; when it was not terminal before, it has the requested
  status and its sums are those of its items; if no other batch of its job is open, the job has ended; and
  repeating the call with any terminal status changes nothing and reports the status it first got.\<close>

theorem finalize_closes_batch:
  assumes "wf_batches d" "finalize_batch_result x st action cl code now d = Inr (t, d')"
  shows "\<exists>b b'. find_batch x d = Some b \<and> find_batch x d' = Some b' \<and> b_status b' = t \<and> terminal_batch b' \<and>
      items_with x active_batch_item d' = 0 \<and>
      (\<not> terminal_batch b \<longrightarrow> t = st \<and> side_effect_owner b' = None \<and> s_imported (b_sums b') = int (items_with x (\<lambda>s. s = ''imported'') d') \<and>
         (\<forall>j \<in> set (jobs (the_queue d')). truthy_text (b_job_id b) \<and> b_job_id b = Some (j_id j) \<and> pending_batches (j_id j) d' = 0 \<longrightarrow>
            terminal_status (j_status j))) \<and>
      (\<forall>st' action' cl' code' now'. st' \<in> set TERMINAL_BATCH_STATUSES \<longrightarrow>
         finalize_batch_result x st' action' cl' code' now' d' = Inr (t, d'))"
proof -
  have "finalize_batch_locked x st action cl code now d = Inr (t, d')" using assms(2) by (simp add: finalize_batch_result_def)
  then show ?thesis
proof (cases rule: finalize_cases)
  case (1 b)
  have "items_with x active_batch_item d = 0"
    using assms(1) 1(1,2) find_batch_Some [OF 1(1)] by (auto simp: wf_batches_def terminal_settled_def)
  then show ?thesis
    using 1 finalize_terminal_again [OF 1(1,2)] by (intro exI [of _ b]) simp
next
  case (2 b d1 d2)
  let ?f = "finalized st (item_totals x d1) action cl code now"
  have bs: "batches d' = update_where (\<lambda>b. b_id b = x) ?f (batches d)" and it: "batch_items d' = batch_items d1"
    using 2(5,7,8) by (auto simp: store_batches_Inr close_items_def)
  have f: "find_batch x d' = Some (?f b)"
    using find_batch_update [OF bs] 2(1) find_batch_Some [OF 2(1)] by (simp add: finalized_row)
  have ended: "terminal_batch (?f b)" using 2(4) by (simp add: terminal_batch_def finalized_row)
  have iw: "items_with x q d' = items_with x q d1" for q by (simp add: items_with_def it)
  have job: "terminal_status (j_status j)"
    if "j \<in> set (jobs (the_queue d'))" "truthy_text (b_job_id b)" "b_job_id b = Some (j_id j)" "pending_batches (j_id j) d' = 0" for j
  proof -
    let ?e = "close_job_items x st code now d2"
    have d': "d' = settle_job (j_id j) (siblings_status (j_id j) ?e) now ?e"
      using 2(8) that(2,3) by (simp add: settle_parent_def truthy_text_def coalesce_text_def Let_def)
    then have "pending_batches (j_id j) ?e = 0" using that(4) by (simp add: pending_batches_def)
    then show ?thesis using settled_job_final siblings_status_terminal that(1) d' by metis
  qed
  have again: "finalize_batch_result x st' action' cl' code' now' d' = Inr (t, d')" if "st' \<in> set TERMINAL_BATCH_STATUSES"
    for st' action' cl' code' now'
    using finalize_terminal_again [OF f ended that] 2(3) by (simp add: finalized_row)
  show ?thesis
    using 2(1,3,6) f ended job again
    by (intro exI [of _ b] exI [of _ "?f b"])
      (auto simp: iw finalized_row finalized_def unclaimed_def item_totals_def Let_def)
qed
qed

definition demo_finished :: batch_db where
  "demo_finished = snd (projr (finalize_batch_result ''b1'' ''cancelled'' (Some ''cancel'') None (Some ''cancelled'') 9 demo_running))"

theorem finalize_closes_batch_witness:
  "finalize_batch_result ''b1'' ''cancelled'' (Some ''cancel'') None (Some ''cancelled'') 9 demo_running = Inr (''cancelled'', demo_finished) \<and>
   items_with ''b1'' active_batch_item demo_finished = 0 \<and>
   finalize_batch_result ''b1'' ''completed'' None None None 10 demo_finished = Inr (''cancelled'', demo_finished)"
proof -
  have c: "finalize_batch_result ''b1'' ''cancelled'' (Some ''cancel'') None (Some ''cancelled'') 9 demo_running = Inr (''cancelled'', demo_finished)"
    unfolding demo_finished_def by (rule returned; code_simp)
  have "''completed'' \<in> set TERMINAL_BATCH_STATUSES" by (simp add: TERMINAL_BATCH_STATUSES_def)
  then show ?thesis using c finalize_closes_batch [OF demo_batch_wf(5) c] by blast
qed

section \<open>Splitting\<close>

lemma share_sum: "n \<le> w \<Longrightarrow> 1 \<le> w \<Longrightarrow> share c (w - n) w + share c n w = c"
  by (simp add: share_def field_simps)

lemma selected_all:
  assumes "distinct (map bi_id xs)" "row_count (\<lambda>i. bi_batch_id i = parent \<and> bi_id i \<in> set ids) xs = length ids"
  shows "set ids \<subseteq> bi_id ` set xs"
proof -
  let ?F = "filter (\<lambda>i. bi_batch_id i = parent \<and> bi_id i \<in> set ids) xs"
  have "distinct (map bi_id ?F)" using assms(1) by (rule distinct_map_filter)
  then have "card (bi_id ` set ?F) = length ids" using assms(2) distinct_card [of "map bi_id ?F"] by (simp add: row_count_def)
  moreover have sub: "bi_id ` set ?F \<subseteq> set ids" by auto
  ultimately have "card (set ids) \<le> card (bi_id ` set ?F)" using card_length [of ids] by simp
  then have "bi_id ` set ?F = set ids" using sub by (intro card_seteq) auto
  then show ?thesis by auto
qed

lemma moved_items:
  assumes "set ids \<subseteq> bi_id ` set xs" "\<And>i. i \<in> set xs \<Longrightarrow> bi_batch_id i \<noteq> child"
  shows "bi_id ` {i \<in> set (update_where (\<lambda>i. bi_id i \<in> set ids) (\<lambda>i. i\<lparr>bi_batch_id := child, bi_updated_at := now\<rparr>) xs). bi_batch_id i = child} = set ids"
    (is "bi_id ` {i \<in> set (update_where ?P ?g xs). _ i} = _")
proof (intro equalityI subsetI)
  fix y assume "y \<in> bi_id ` {i \<in> set (update_where ?P ?g xs). bi_batch_id i = child}"
  then obtain i where i: "i \<in> set xs" "y = bi_id (if ?P i then ?g i else i)" "bi_batch_id (if ?P i then ?g i else i) = child"
    by (auto simp: set_update_where)
  then have "?P i" using assms(2) by (metis (full_types))
  then show "y \<in> set ids" using i(2) by simp
next
  fix y assume y: "y \<in> set ids"
  then obtain i where i: "i \<in> set xs" "bi_id i = y" using assms(1) by auto
  then have "?g i \<in> set (update_where ?P ?g xs)" using y in_update_where [of i xs ?P ?g] by simp
  then show "y \<in> bi_id ` {i \<in> set (update_where ?P ?g xs). bi_batch_id i = child}"
    using i(2) by (intro image_eqI [of _ _ "?g i"]) simp_all
qed

lemma split_rows:
  assumes "find_batch parent d = Some p" "child \<notin> b_id ` set (batches d)" "b_id cb = child" "batches (d2 :: batch_db) = batches d @ [cb]"
    "batches d' = update_where (\<lambda>b. b_id b = parent) f (batches d2)" "\<And>b. b_id (f b) = b_id b"
  shows "find_batch parent d' = Some (f p)" "find_batch child d' = Some cb"
proof -
  have p: "p \<in> set (batches d)" "b_id p = parent" using assms(1) find_batch_Some by blast+
  then have ne: "parent \<noteq> child" using assms(2) by auto
  have none: "first_row (\<lambda>b. b_id b = child) (batches d) = None" using assms(2) by (auto simp: first_row_def find_None_iff)
  have f_par: "find_batch parent d2 = Some p" using assms(1) unfolding find_batch_def assms(4) first_row_append by simp
  have f_ch: "find_batch child d2 = Some cb" using none assms(3) unfolding find_batch_def assms(4) first_row_append by (simp add: first_row_def)
  have find': "find_batch y d' = map_option (\<lambda>b. if b_id b = parent then f b else b) (find_batch y d2)" for y
    using find_batch_update [OF assms(5)] assms(6) by simp
  show "find_batch parent d' = Some (f p)" using f_par p(2) by (simp add: find')
  show "find_batch child d' = Some cb" using f_ch ne assms(3) by (simp add: find')
qed

text \<open>Splitting a shard off a batch loses and duplicates nothing: the child gets exactly the selected
  items and every other item is untouched, the request identity and the job are those of the parent, and the
  item counts and the estimated costs of parent and child add up to those of the parent before.\<close>

theorem split_conserves_batch:
  assumes "wf_batches d" "create_child_batch parent child ids path (int (length ids)) rss bytes now d = Inr (k, d')"
  shows "k = length ids \<and> map bi_id (batch_items d') = map bi_id (batch_items d) \<and>
    bi_id ` {i \<in> set (batch_items d'). bi_batch_id i = child} = set ids \<and>
    (\<forall>i \<in> set (batch_items d). bi_id i \<notin> set ids \<longrightarrow> i \<in> set (batch_items d')) \<and>
    (\<exists>p p' c. find_batch parent d = Some p \<and> find_batch parent d' = Some p' \<and> find_batch child d' = Some c \<and>
       b_job_id c = b_job_id p \<and> spec c = spec p \<and> b_total_items p' + b_total_items c = b_total_items p \<and>
       b_estimated_cost p' + b_estimated_cost c = b_estimated_cost p)"
  using assms(2)
proof (cases rule: create_child_cases)
  case (1 p cb d1 d2)
  let ?n = "int (length ids)"
  let ?g = "\<lambda>i. i\<lparr>bi_batch_id := child, bi_updated_at := now\<rparr>"
  let ?f = "\<lambda>b. b\<lparr>b_total_items := b_total_items p - ?n, b_estimated_cost := share (b_estimated_cost p) (b_total_items p - ?n) (b_total_items p),
              b_updated_at := now\<rparr>"
  have ok: "batches_ok (batches d @ [cb])" and bs2: "batches (d2 :: batch_db) = batches d @ [cb]"
    and it: "batch_items d' = update_where (\<lambda>i. bi_id i \<in> set ids) ?g (batch_items d)"
    and bs: "batches d' = update_where (\<lambda>b. b_id b = parent) ?f (batches d2)" "batches_ok (batches d')"
    using 1(6,7,8) by (auto simp: store_batches_Inr)
  have cb: "b_id cb = child" "b_job_id cb = b_job_id p" "spec cb = spec p" "b_total_items cb = ?n"
    "b_estimated_cost cb = share (b_estimated_cost p) ?n (b_total_items p)"
    by (simp_all add: 1(5) fresh_batch_def)
  have p: "p \<in> set (batches d)" "b_id p = parent" using 1(1) find_batch_Some by blast+
  have new: "child \<notin> b_id ` set (batches d)" using ok cb(1) by (auto simp: batches_ok_def)
  have old: "bi_batch_id i \<noteq> child" if "i \<in> set (batch_items d)" for i
    using assms(1) that new by (auto simp: wf_batches_def)
  have all: "set ids \<subseteq> bi_id ` set (batch_items d)"
    using selected_all [of "batch_items d" parent ids] assms(1) 1(4) by (auto simp: wf_batches_def items_ok_def)
  have pos: "?n \<le> b_total_items p" "1 \<le> ?n"
  proof -
    have "?f p \<in> set (batches d')" using in_update_where [of p "batches d2" "\<lambda>b. b_id b = parent" ?f] p by (simp add: bs(1) bs2)
    then have "batch_check (?f p)" using bs(2) by (simp add: batches_ok_def list_all_iff)
    then show "?n \<le> b_total_items p" by (simp add: batch_check_def)
    show "1 \<le> ?n" using 1(3) by (cases ids) auto
  qed
  have ids: "bi_id ` {i \<in> set (batch_items d'). bi_batch_id i = child} = set ids"
    unfolding it by (rule moved_items [OF all old])
  have rest: "\<forall>i \<in> set (batch_items d). bi_id i \<notin> set ids \<longrightarrow> i \<in> set (batch_items d')"
    using in_update_where [of _ "batch_items d" "\<lambda>i. bi_id i \<in> set ids" ?g] unfolding it by metis
  have rows: "find_batch parent d' = Some (?f p)" "find_batch child d' = Some cb"
    using split_rows [OF 1(1) new cb(1) bs2 bs(1)] by simp_all
  have sums: "b_total_items (?f p) + b_total_items cb = b_total_items p" "b_estimated_cost (?f p) + b_estimated_cost cb = b_estimated_cost p"
    using share_sum [OF pos(1)] pos by (simp_all add: cb)
  have "map bi_id (batch_items d') = map bi_id (batch_items d)" unfolding it by (simp add: map_update_where)
  then show ?thesis using 1(1,2) ids rest rows sums cb(2,3) by blast
qed

theorem split_conserves_batch_witness:
  "\<exists>d'. create_child_batch ''b1'' ''b2'' [''x2''] ''p'' 1 0 None 3 demo_prepared = Inr (1, d') \<and>
        bi_id ` {i \<in> set (batch_items d'). bi_batch_id i = ''b2''} = {''x2''}"
proof -
  let ?r = "create_child_batch ''b1'' ''b2'' [''x2''] ''p'' (int (length [''x2''])) 0 None 3 demo_prepared"
  have c: "?r = Inr (1, snd (projr ?r))" by (rule returned; code_simp)
  have e: "?r = create_child_batch ''b1'' ''b2'' [''x2''] ''p'' 1 0 None 3 demo_prepared" by simp
  show ?thesis using split_conserves_batch [OF demo_batch_wf(1) c] c unfolding e by auto
qed

section \<open>Settlement\<close>

text \<open>The evidence that lets a settlement release the reservation of a batch.\<close>

definition cost_evidence :: "batch_db \<Rightarrow> batch \<Rightarrow> bool" where
  "cost_evidence d b =
     (cs_complete (cost_summary (b_id b) d) \<and> int (length (cs_items (cost_summary (b_id b) d))) = b_total_items b \<and>
      items_with (b_id b) unresolved_item d = 0 \<and> \<not> truthy_text (reconciliation_error_code b))"

definition same_evidence :: "batch_db \<Rightarrow> batch_db \<Rightarrow> bool" where
  "same_evidence d e = (\<forall>x. cost_summary x d = cost_summary x e \<and> items_with x unresolved_item d = items_with x unresolved_item e)"

lemma same_evidenceI:
  assumes "batch_usages e = batch_usages d" "batch_items e = map g (batch_items d)"
    "\<And>i. bi_id (g i) = bi_id i" "\<And>i. bi_batch_id (g i) = bi_batch_id i" "\<And>i. pbi_status (g i) = pbi_status i"
  shows "same_evidence d e"
proof -
  have u: "usage_rows (g i) e = usage_rows i d" for i by (simp add: usage_rows_def assms(1,3))
  have "cost_rows x e = cost_rows x d" for x
    by (simp add: cost_rows_def assms(2,3,4) filter_map o_def u)
  then have c: "cost_summary x e = cost_summary x d" for x by (simp add: cost_summary_def)
  have "items_with x q e = items_with x q d" for x q
    by (simp add: items_with_def row_count_def assms(2,4,5) filter_map o_def)
  then show ?thesis using c by (simp add: same_evidence_def)
qed

lemma settle_one_evidence: "same_evidence d (snd (settle_one b (n, d)))"
  unfolding settle_one_def Let_def split
  by (intro same_evidenceI [where g = "\<lambda>i. if map_of (cs_items (cost_summary (b_id b) d)) (bi_id i) \<noteq> None \<and>
        the (map_of (cs_items (cost_summary (b_id b) d)) (bi_id i)) \<noteq> None
      then i\<lparr>bi_actual_cost := the (the (map_of (cs_items (cost_summary (b_id b) d)) (bi_id i)))\<rparr> else i"])
    (simp_all add: upd_batches_def upd_batch_items_def update_where_def split: if_split)

lemma settle_one_reservations:
  "budget_reservations (rest (snd (settle_one b (n, d)))) =
     update_where (\<lambda>r. cost_evidence d b \<and> reservation_of (b_id b) r) (\<lambda>r. r\<lparr>rv_active := False\<rparr>) (budget_reservations (rest d))"
  "fst (settle_one b (n, d)) = n + row_count (\<lambda>r. cost_evidence d b \<and> reservation_of (b_id b) r) (budget_reservations (rest d))"
proof -
  have i: "items_with x q (upd_batches p f (upd_batch_items p' g d)) = items_with x q (upd_batch_items p' g d)" for x q p f p' g
    by (simp add: items_with_def)
  have j: "items_with x unresolved_item (upd_batch_items p' (\<lambda>i. i\<lparr>bi_actual_cost := c i\<rparr>) d) = items_with x unresolved_item d" for x p' c
    unfolding items_with_def batch_items_simps by (intro row_count_same) auto
  have cond: "(\<not> cs_complete (cost_summary (b_id b) d) \<or> int (length (cs_items (cost_summary (b_id b) d))) \<noteq> b_total_items b \<or>
      items_with (b_id b) unresolved_item d \<noteq> 0 \<or> truthy_text (reconciliation_error_code b)) = (\<not> cost_evidence d b)"
    by (auto simp: cost_evidence_def)
  have miss: "update_where (\<lambda>r. False) h rs = rs" for h :: "reservation \<Rightarrow> reservation" and rs by (simp add: update_where_def)
  have none: "row_count (\<lambda>r. False) rs = 0" for rs :: "reservation list" by (simp add: row_count_def)
  show "budget_reservations (rest (snd (settle_one b (n, d)))) =
     update_where (\<lambda>r. cost_evidence d b \<and> reservation_of (b_id b) r) (\<lambda>r. r\<lparr>rv_active := False\<rparr>) (budget_reservations (rest d))"
    and "fst (settle_one b (n, d)) = n + row_count (\<lambda>r. cost_evidence d b \<and> reservation_of (b_id b) r) (budget_reservations (rest d))"
    unfolding settle_one_def Let_def split i j cond
    by (cases "cost_evidence d b"; simp add: upd_batches_def upd_batch_items_def miss none)+
qed

lemma update_where_twice:
  assumes "\<And>r. q (f r) \<Longrightarrow> False" "\<And>r. f (f r) = f r"
  shows "update_where q f (update_where p f rs) = update_where (\<lambda>r. p r \<or> q r) f rs"
  using assms by (auto simp: update_where_def)

lemma row_count_twice:
  assumes "\<And>r. q (f r) \<Longrightarrow> False"
  shows "row_count p rs + row_count q (update_where p f rs) = row_count (\<lambda>r. p r \<or> q r) rs"
  using assms by (induction rs) (auto simp: update_where_def)

lemma settle_fold:
  "budget_reservations (rest (snd (fold settle_one bs (n, d)))) =
     update_where (\<lambda>r. \<exists>b \<in> set bs. cost_evidence d b \<and> reservation_of (b_id b) r) (\<lambda>r. r\<lparr>rv_active := False\<rparr>)
       (budget_reservations (rest d)) \<and>
   fst (fold settle_one bs (n, d)) = n + row_count (\<lambda>r. \<exists>b \<in> set bs. cost_evidence d b \<and> reservation_of (b_id b) r) (budget_reservations (rest d))"
proof (induction bs arbitrary: n d)
  case Nil
  show ?case by (simp add: update_where_def row_count_def)
next
  case (Cons b bs)
  let ?off = "\<lambda>r. r\<lparr>rv_active := False\<rparr>"
  obtain m e where e: "settle_one b (n, d) = (m, e)" by fastforce
  have ev: "cost_evidence e = cost_evidence d"
    using settle_one_evidence [of d b n] by (auto simp: e same_evidence_def cost_evidence_def fun_eq_iff)
  let ?p = "\<lambda>r. cost_evidence d b \<and> reservation_of (b_id b) r"
  let ?q = "\<lambda>r. \<exists>c \<in> set bs. cost_evidence d c \<and> reservation_of (b_id c) r"
  have rs: "budget_reservations (rest e) = update_where ?p ?off (budget_reservations (rest d))"
    "m = n + row_count ?p (budget_reservations (rest d))"
    using settle_one_reservations [of b n d] by (simp_all add: e)
  have both: "(\<lambda>r. \<exists>c \<in> set (b # bs). cost_evidence d c \<and> reservation_of (b_id c) r) = (\<lambda>r. ?p r \<or> ?q r)" by auto
  have f: "fold settle_one (b # bs) (n, d) = fold settle_one bs (m, e)" by (simp add: e)
  note IH = Cons.IH [of m e, unfolded ev rs(1)]
  have u: "update_where ?q ?off (update_where ?p ?off (budget_reservations (rest d))) = update_where (\<lambda>r. ?p r \<or> ?q r) ?off (budget_reservations (rest d))"
    by (rule update_where_twice) (simp_all add: reservation_of_def)
  have c: "row_count ?p (budget_reservations (rest d)) + row_count ?q (update_where ?p ?off (budget_reservations (rest d))) =
      row_count (\<lambda>r. ?p r \<or> ?q r) (budget_reservations (rest d))"
    by (rule row_count_twice) (simp add: reservation_of_def)
  show ?case unfolding f both using IH unfolding u unfolding rs(2) c [symmetric] by linarith
qed

text \<open>C11. Settlement releases reservations only with complete evidence: exactly the active reservations of
  ended batches whose provider outcome is known, whose items all have a known cost and a final status, and which
  carry no reconciliation error, are released, and the result counts them; every other reservation is untouched.\<close>

theorem settlement_releases_exactly:
  "budget_reservations (rest (snd (settle_terminal_costs x pv m d))) =
     update_where (\<lambda>r. \<exists>b \<in> set (batches d). settleable x pv m d b \<and> cost_evidence d b \<and> reservation_of (b_id b) r)
       (\<lambda>r. r\<lparr>rv_active := False\<rparr>) (budget_reservations (rest d)) \<and>
   fst (settle_terminal_costs x pv m d) =
     row_count (\<lambda>r. \<exists>b \<in> set (batches d). settleable x pv m d b \<and> cost_evidence d b \<and> reservation_of (b_id b) r)
       (budget_reservations (rest d))"
proof -
  have "(\<lambda>r. \<exists>b \<in> set (filter (settleable x pv m d) (batches d)). cost_evidence d b \<and> reservation_of (b_id b) r) =
      (\<lambda>r. \<exists>b \<in> set (batches d). settleable x pv m d b \<and> cost_evidence d b \<and> reservation_of (b_id b) r)" by auto
  then show ?thesis using settle_fold [of "filter (settleable x pv m d) (batches d)" 0 d] by (simp add: settle_terminal_costs_def)
qed

section \<open>Local failure\<close>

text \<open>Failing a batch locally does not look at its status: a batch without remote objects is marked as
  failed even if it already ended, so a cancelled batch turns into a failed one, although finalization promises
  that a terminal batch keeps its status.\<close>

theorem local_failure_overrides_end:
  assumes "wf_batches d" "find_batch x d = Some b" "b_status b = ''cancelled''" "\<not> side_effects b"
  shows "\<exists>d' b'. fail_local_batch x code Failed False now d = Inr (True, d') \<and> find_batch x d' = Some b' \<and> b_status b' = ''failed''"
proof -
  let ?ids = "map b_id (local_targets b False d)"
  have T: "local_targets b False d = [b]" by (simp add: local_targets_def)
  have b: "b \<in> set (batches d)" "b_id b = x" using assms(2) find_batch_Some by blast+
  have n: "row_count (local_row ?ids) (batches d) = length ?ids"
    using local_rows_counted [OF assms(1) b(1), of False] assms(4) by (simp add: T)
  have row: "c = b" if "c \<in> set (batches d)" "local_row ?ids c" for c
    using that row_of [OF assms(1,2)] b(2) by (simp add: local_row_def T)
  have files: "f_id (input_file b) = None" "f_id (output_file b) = None" "f_id (error_file b) = None" "remote_batch_id b = None"
    using assms(4) wf_named [OF assms(1) b(1)]
    by (auto simp: side_effects_def has_files_def remote_files_def truthy_file_def truthy_text_def named_ids_def coalesce_text_def
        split: option.splits)
  have chk: "batch_check (failed_locally code now b)"
    using assms(1) b(1) files by (auto simp: wf_batches_def batches_ok_def list_all_iff batch_check_def failed_locally_def unclaimed_def)
  have "map b_id (update_where (local_row ?ids) (failed_locally code now) (batches d)) = map b_id (batches d)"
    by (simp add: map_update_where failed_locally_row)
  moreover have "unique_key remote_batch_id (update_where (local_row ?ids) (failed_locally code now) (batches d))"
    using assms(1) by (intro unique_key_update) (auto simp: wf_batches_def batches_ok_def failed_locally_def unclaimed_def)
  moreover have "list_all batch_check (update_where (local_row ?ids) (failed_locally code now) (batches d))"
    using assms(1) chk row by (auto simp: list_all_iff set_update_where wf_batches_def batches_ok_def)
  ultimately have ok: "batches_ok (update_where (local_row ?ids) (failed_locally code now) (batches d))"
    using assms(1) by (simp add: batches_ok_def wf_batches_def)
  let ?d1 = "d\<lparr>batches := update_where (local_row ?ids) (failed_locally code now) (batches d)\<rparr>"
  let ?d' = "fail_local_job (coalesce_text (b_job_id b)) ?ids code Failed now (fail_local_items ?ids code now ?d1)"
  have "fail_local_batch x code Failed False now d = Inr (True, ?d')"
    using assms(2,4) ok n by (simp add: fail_local_batch_def Let_def store_batches_def T)
  moreover have "find_batch x ?d' = Some (failed_locally code now b)"
    using find_batch_update [of ?d' "local_row ?ids" "failed_locally code now" d x] assms(2) files b(2)
    by (simp add: failed_locally_row local_row_def T)
  ultimately show ?thesis using failed_locally_row(3) by blast
qed

definition demo_cancelled :: batch_db where
  "demo_cancelled = snd (projr (finalize_batch_result ''b1'' ''cancelled'' (Some ''cancel'') (Some ''not_required'') (Some ''cancelled'') 3 demo_prepared))"

theorem local_failure_overrides_end_witness:
  "\<exists>d' b'. fail_local_batch ''b1'' ''BATCH-INPUT-002'' Failed False 4 demo_cancelled = Inr (True, d') \<and>
     find_batch ''b1'' d' = Some b' \<and> b_status b' = ''failed''"
proof -
  have "finalize_batch_result ''b1'' ''cancelled'' (Some ''cancel'') (Some ''not_required'') (Some ''cancelled'') 3 demo_prepared =
      Inr (''cancelled'', demo_cancelled)"
    unfolding demo_cancelled_def by (rule returned; code_simp)
  then have w: "wf_batches demo_cancelled" using wf_finalize_locked [OF demo_batch_wf(1)] by (simp add: finalize_batch_result_def)
  let ?b = "the (find_batch ''b1'' demo_cancelled)"
  have "find_batch ''b1'' demo_cancelled \<noteq> None" by code_simp
  then have f: "find_batch ''b1'' demo_cancelled = Some ?b" by simp
  have s: "b_status ?b = ''cancelled''" "\<not> side_effects ?b" by code_simp+
  show ?thesis using local_failure_overrides_end [OF w f s] by blast
qed

end
