(* ===== verification/Batch_Cleanup.thy ===== *)
theory Batch_Cleanup
  imports Batch_Outcomes
begin

text \<open>
  The end of a batch in \<^verbatim>\<open>inktime/app/services/batch_analysis.py\<close>: the final status (\<^verbatim>\<open>_finish\<close>), the deletion of its
  remote files (\<^verbatim>\<open>_cleanup_remote_locked\<close>) with the check of the provider's identity, and the way out when the frozen
  plan of its job cannot be read (\<^verbatim>\<open>_fail_closed_frozen_plan\<close>). The answers of the provider are arguments, and so is
  what other processes do to the tables while a file is looked up or deleted. Deleting local files, refreshing
  the photo statistics and logging are left out.
\<close>

section \<open>Final status\<close>

definition cleanup_action_for :: "batch \<Rightarrow> string" where
  "cleanup_action_for b =
     (let action = str_or (Some (cleanup_final_action b)) ''none'' in
      if action \<noteq> ''none'' then action
      else if b_status b = ''cancelled'' \<or> b_status b = ''cancelling'' \<or> coalesce_text (remote_status b) = ''cancelled'' then ''cancel''
      else if coalesce_text (remote_status b) = ''abandoned'' then ''abandon''
      else ''complete'')"

text \<open>The items counted as failed and as missing, and the status that follows from the counts.\<close>

definition finish_status :: "batch \<Rightarrow> (string \<Rightarrow> nat) \<Rightarrow> string" where
  "finish_status b c =
     (let imported = c ''imported'';
          failed = c ''failed'' + c ''schema_invalid'' + c ''duplicate_custom_id'' + c ''unexpected_custom_id'';
          missing = c ''missing'' + c ''retry_pending'';
          stale = c ''stale'';
          remote = coalesce_text (remote_status b);
          s0 = (if failed = 0 \<and> missing = 0 \<and> stale = 0 \<and> \<not> truthy_text (reconciliation_error_code b)
                then ''completed'' else ''completed_with_errors'');
          s1 = (if remote = ''expired'' \<or> remote = ''cancelled'' then remote else s0)
      in if (remote = ''failed'' \<or> remote = ''abandoned'') \<and> imported = 0 then ''failed'' else s1)"

definition held_unknown :: "batch \<Rightarrow> bool" where
  "held_unknown b = (b_status b \<in> set UNKNOWN_STATUSES \<or> coalesce_text (remote_status b) \<in> set UNKNOWN_STATUSES)"

definition finish_batch :: "string \<Rightarrow> instant \<Rightarrow> batch_db \<Rightarrow> batch_error + batch_db" where
  "finish_batch batch_id now d =
     (case find_batch batch_id d of
        None \<Rightarrow> Inr d
      | Some b \<Rightarrow>
          if terminal_batch b then Inr (snd (settle_terminal_costs (Some batch_id) None None d))
          else if held_unknown b then update_batch batch_id (\<lambda>b. b\<lparr>b_completed_at := None\<rparr>) now d
          else if items_with batch_id active_batch_item d \<noteq> 0 then Inr d
          else
            let cleanup = str_or (Some (cleanup_status b)) ''pending'' in
            bind_result (finalize_batch_result batch_id (finish_status b (counts batch_id d))
                (if str_or (Some (cleanup_final_action b)) ''none'' = ''none'' then Some ''complete'' else None)
                (if cleanup = ''completed'' \<or> cleanup = ''not_required'' then Some cleanup else None) None now d) (\<lambda>(s, d1).
              Inr (snd (settle_terminal_costs (Some batch_id) None None d1))))"

section \<open>Provider identity\<close>

definition identity_known :: "provider_identity \<Rightarrow> bool" where
  "identity_known p = (config_revision p \<noteq> None \<and> base_url_fingerprint p \<noteq> None \<and> project_id p \<noteq> None \<and> account_fingerprint p \<noteq> None)"

definition same_identity :: "provider_identity \<Rightarrow> provider_identity \<Rightarrow> bool" where
  "same_identity p q =
     (coalesce_text (config_revision p) = coalesce_text (config_revision q) \<and>
      coalesce_text (base_url_fingerprint p) = coalesce_text (base_url_fingerprint q) \<and>
      coalesce_text (project_id p) = coalesce_text (project_id q) \<and>
      coalesce_text (account_fingerprint p) = coalesce_text (account_fingerprint q))"

text \<open>The code of the mismatch, or \<open>None\<close>; \<open>current\<close> is the identity of the provider now, if it can be read.\<close>

definition cleanup_identity_matches :: "provider_identity option \<Rightarrow> batch \<Rightarrow> string option" where
  "cleanup_identity_matches current b =
     (if \<not> identity_known (identity (spec b)) then Some ''BATCH-CLEANUP-PROVIDER-LEGACY''
      else case current of
        None \<Rightarrow> Some ''BATCH-CLEANUP-PROVIDER-UNKNOWN''
      | Some p \<Rightarrow> if same_identity (identity (spec b)) p then None else Some ''BATCH-CLEANUP-PROVIDER-MISMATCH'')"

definition mark_cleanup_provider_unknown :: "string \<Rightarrow> string \<Rightarrow> instant \<Rightarrow> batch_db \<Rightarrow> batch_error + batch_db" where
  "mark_cleanup_provider_unknown batch_id code now d =
     (case find_batch batch_id d of
        None \<Rightarrow> Inr d
      | Some c \<Rightarrow>
          update_batch batch_id (\<lambda>b. b\<lparr>cleanup_status := ''partial'', cleanup_error_code := Some code,
             b_status := (if terminal_batch c then b_status b else ''cleanup_pending'')\<rparr>) now d)"

definition hold_terminal_cleanup :: "string \<Rightarrow> string \<Rightarrow> string \<Rightarrow> instant \<Rightarrow> batch_db \<Rightarrow> batch_error + batch_db" where
  "hold_terminal_cleanup batch_id code status now d =
     update_batch batch_id (\<lambda>b. b\<lparr>cleanup_status := status, cleanup_error_code := Some code\<rparr>) now d"

text \<open>Whether the provider can be asked to clean up, with the code of the refusal. \<open>in_route\<close>: the provider is
  still part of the configured route.\<close>

definition cleanup_plan :: "provider_identity option \<Rightarrow> bool \<Rightarrow> batch \<Rightarrow> string option" where
  "cleanup_plan current in_route b =
     (case cleanup_identity_matches current b of
        Some code \<Rightarrow> Some code
      | None \<Rightarrow> if in_route then None else Some ''BATCH-CLEANUP-PROVIDER-001'')"

section \<open>Deleting remote files\<close>

text \<open>A failed request to the provider: its HTTP status, 0 for none, and its code if it has one.\<close>

record file_failure =
  ff_status :: int
  ff_code :: "string option"

datatype file_lookup = NoLookup | Found | LookupFailed file_failure

record file_world =
  fw_owner :: string
  fw_lease :: instant
  fw_claimed_at :: instant
  fw_lookup :: file_lookup
  fw_delete :: "file_failure option"
  fw_reported_at :: instant
  fw_others :: "batch_db \<Rightarrow> batch_db"

definition occurs_in :: "string \<Rightarrow> string \<Rightarrow> bool" where
  "occurs_in pat s = list_ex (\<lambda>k. take (length pat) (drop k s) = pat) [0..<Suc (length s)]"

definition already_gone :: "int \<Rightarrow> string \<Rightarrow> bool" where
  "already_gone status code =
     (status = 404 \<or> status = 410 \<or>
      list_ex (\<lambda>m. occurs_in m (py_casefold code)) [''not_found'', ''not-found'', ''expired''])"

text \<open>The result of one file: whether a failure was recorded and whether another worker got in between.\<close>

definition report_deleted :: "string \<Rightarrow> string \<Rightarrow> file_world \<Rightarrow> batch_db \<Rightarrow> batch_error + ((bool \<times> bool) \<times> batch_db)" where
  "report_deleted batch_id fk w d =
     bind_result (complete_cleanup_file batch_id fk (fw_owner w) (fw_reported_at w) d) (\<lambda>(ok, d1). Inr ((False, \<not> ok), d1))"

definition report_failed :: "string \<Rightarrow> string \<Rightarrow> file_world \<Rightarrow> batch_db \<Rightarrow> batch_error + ((bool \<times> bool) \<times> batch_db)" where
  "report_failed batch_id code w d =
     (let (recorded, d1) = fail_cleanup_file batch_id (fw_owner w) code (fw_reported_at w) d in Inr ((recorded, \<not> recorded), d1))"

definition delete_file :: "string \<Rightarrow> string \<Rightarrow> file_world \<Rightarrow> batch_db \<Rightarrow> batch_error + ((bool \<times> bool) \<times> batch_db)" where
  "delete_file batch_id fk w d =
     (case fw_delete w of
        None \<Rightarrow> report_deleted batch_id fk w d
      | Some e \<Rightarrow>
          let code = (case ff_code e of None \<Rightarrow> ''BATCH-CLEANUP-001'' | Some c \<Rightarrow> c) in
          if already_gone (ff_status e) code then report_deleted batch_id fk w d else report_failed batch_id code w d)"

definition cleanup_file :: "string \<Rightarrow> string \<Rightarrow> file_world \<Rightarrow> batch_db \<Rightarrow> batch_error + ((bool \<times> bool) \<times> batch_db)" where
  "cleanup_file batch_id fk w d =
     bind_result (claim_cleanup_file batch_id fk (fw_owner w) (fw_lease w) (fw_claimed_at w) d) (\<lambda>(claim, d1).
       case claim of
         None \<Rightarrow> Inr ((False, True), d1)
       | Some (file_id, uncertain) \<Rightarrow>
           let d2 = fw_others w d1 in
           (case (if uncertain then fw_lookup w else NoLookup) of
              LookupFailed e \<Rightarrow>
                let code = coalesce_text (ff_code e) in
                if already_gone (ff_status e) code then report_deleted batch_id fk w d2
                else report_failed batch_id (if code = [] then ''BATCH-CLEANUP-RECONCILE'' else code) w d2
            | _ \<Rightarrow> delete_file batch_id fk w d2))"

fun cleanup_files :: "string \<Rightarrow> (string \<Rightarrow> file_world) \<Rightarrow> string list \<Rightarrow> bool \<times> bool \<Rightarrow> batch_db \<Rightarrow> batch_error + ((bool \<times> bool) \<times> batch_db)" where
  "cleanup_files batch_id w [] flags d = Inr (flags, d)"
| "cleanup_files batch_id w (fk # fks) flags d =
     bind_result (cleanup_file batch_id fk (w fk) d) (\<lambda>(fl, d1).
       cleanup_files batch_id w fks (fst flags \<or> fst fl, snd flags \<or> snd fl) d1)"

definition complete_cleanup :: "string \<Rightarrow> instant \<Rightarrow> batch_db \<Rightarrow> batch_error + batch_db" where
  "complete_cleanup batch_id now d =
     (case find_batch batch_id d of
        None \<Rightarrow> Inr d
      | Some c \<Rightarrow>
          if cleanup_action_for c \<in> {''cancel'', ''abandon'', ''fail''} \<and> \<not> terminal_batch c
          then map_sum id snd (finalize_cleanup batch_id now d)
          else finish_batch batch_id now d)"

definition cleaned :: "string \<Rightarrow> string \<Rightarrow> instant \<Rightarrow> batch \<Rightarrow> batch" where
  "cleaned status action now b =
     b\<lparr>cleanup_status := status, cleanup_completed_at := Some now, cleanup_final_action := action, cleanup_error_code := None\<rparr>"

definition mark_cleaned :: "string \<Rightarrow> string \<Rightarrow> instant \<Rightarrow> batch_db \<Rightarrow> batch_error + batch_db" where
  "mark_cleaned batch_id action now d =
     bind_result (update_batch batch_id (cleaned ''completed'' action now) now d) (complete_cleanup batch_id now)"

text \<open>\<^verbatim>\<open>complete_if_converged\<close>; \<open>None\<close> is its result \<^verbatim>\<open>False\<close>.\<close>

definition complete_if_converged :: "string \<Rightarrow> instant \<Rightarrow> batch_db \<Rightarrow> batch_error + batch_db option" where
  "complete_if_converged batch_id now d =
     (case find_batch batch_id d of
        None \<Rightarrow> Inr None
      | Some c \<Rightarrow> if unresolved_files c then Inr None else map_sum id Some (mark_cleaned batch_id (cleanup_action_for c) now d))"

definition no_files_left :: "batch \<Rightarrow> instant \<Rightarrow> batch_db \<Rightarrow> batch_error + (bool \<times> batch_db)" where
  "no_files_left b now d =
     (if b_status b \<in> set UNKNOWN_STATUSES
      then map_sum id (Pair False) (update_batch (b_id b) (\<lambda>x. x\<lparr>cleanup_status := ''pending'',
             cleanup_error_code := Some ''BATCH-CLEANUP-OPERATOR-REQUIRED''\<rparr>) now d)
      else bind_result (update_batch (b_id b) (\<lambda>x. x\<lparr>cleanup_status := ''not_required'', cleanup_completed_at := Some now,
             cleanup_final_action := cleanup_action_for b\<rparr>) now d) (\<lambda>d1.
           map_sum id (Pair True) (complete_cleanup (b_id b) now d1)))"

record cleanup_world =
  cw_now :: instant
  cw_identity :: "provider_identity option"
  cw_provider :: "string option"  \<comment> \<open>the code of the exception that building the provider raised\<close>
  cw_file :: "string \<Rightarrow> file_world"

definition pending_kinds :: "batch \<Rightarrow> string list" where
  "pending_kinds b = filter (\<lambda>fk. case file_of fk b of None \<Rightarrow> False | Some f \<Rightarrow> truthy_file f \<and> \<not> f_deleted f) file_kinds"

definition after_files :: "batch \<Rightarrow> bool \<times> bool \<Rightarrow> instant \<Rightarrow> batch_db \<Rightarrow> batch_error + (bool \<times> batch_db)" where
  "after_files b flags now d =
     bind_result (complete_if_converged (b_id b) now d) (\<lambda>r.
       case r of
         Some d1 \<Rightarrow> Inr (True, d1)
       | None \<Rightarrow>
           if fst flags
           then (let c = (case find_batch (b_id b) d of None \<Rightarrow> b | Some c \<Rightarrow> c) in
                 map_sum id (Pair False) (update_batch (b_id b) (\<lambda>x. x\<lparr>cleanup_status := ''partial'',
                   b_status := (if terminal_batch c then b_status x else ''cleanup_pending'')\<rparr>) now d))
           else if snd flags then Inr (False, d)
           else map_sum id (Pair True) (mark_cleaned (b_id b) (cleanup_action_for b) now d))"

text \<open>\<open>b\<close> is the row as the caller read it.\<close>

definition cleanup_remote_locked :: "cleanup_world \<Rightarrow> batch \<Rightarrow> batch_db \<Rightarrow> batch_error + (bool \<times> batch_db)" where
  "cleanup_remote_locked w b d =
     (let x = b_id b; now = cw_now w in
      if \<not> has_files b then no_files_left b now d
      else if pending_kinds b = [] then map_sum id (Pair True) (mark_cleaned x (cleanup_action_for b) now d)
      else case cleanup_identity_matches (cw_identity w) b of
        Some code \<Rightarrow> map_sum id (Pair False) (mark_cleanup_provider_unknown x code now d)
      | None \<Rightarrow>
          (case cw_provider w of
             Some code \<Rightarrow> map_sum id (Pair False) (mark_cleanup_provider_unknown x code now d)
           | None \<Rightarrow>
               bind_result (cleanup_files x (cw_file w) (pending_kinds b) (False, False) d) (\<lambda>(flags, d1).
                 after_files b flags now d1)))"

section \<open>An unreadable plan\<close>

text \<open>The result is whether the caller goes on to clean up; \<open>None\<close> is the error raised when a terminal batch would
  have changed.\<close>

definition same_end :: "batch \<Rightarrow> string \<Rightarrow> batch_db \<Rightarrow> bool" where
  "same_end b batch_id d =
     (case find_batch batch_id d of
        None \<Rightarrow> True
      | Some c \<Rightarrow> b_status c = b_status b \<and> remote_status c = remote_status b \<and> b_completed_at c = b_completed_at b)"

definition fail_closed_frozen_plan :: "provider_identity option \<Rightarrow> bool \<Rightarrow> batch \<Rightarrow> instant \<Rightarrow> batch_db \<Rightarrow> batch_error + ((bool option) \<times> batch_db)" where
  "fail_closed_frozen_plan current in_route b now d =
     (let x = b_id b; code = ''BATCH-IMPORT-PLAN-001''; checked = (\<lambda>r d1. if terminal_batch b \<and> \<not> same_end b x d1 then (None, d1) else (Some r, d1)) in
      if \<not> has_files b
      then (if terminal_batch b then map_sum id (checked False) (hold_terminal_cleanup x code ''not_required'' now d)
            else map_sum id (\<lambda>(s, d1). (Some False, d1)) (finalize_batch_result x ''failed'' (Some ''fail'') (Some ''not_required'') (Some code) now d))
      else
        bind_result (if terminal_batch b then hold_terminal_cleanup x code ''pending'' now d
                     else update_batch x (\<lambda>y. y\<lparr>b_status := ''cleanup_pending'', remote_status := Some ''failed'', cleanup_status := ''pending'',
                            cleanup_final_action := ''fail'', reconciliation_error_code := Some code, b_completed_at := None\<rparr>) now d) (\<lambda>d1.
          case cleanup_plan current in_route b of
            None \<Rightarrow> Inr (checked True d1)
          | Some c \<Rightarrow> map_sum id (checked False) (mark_cleanup_provider_unknown x c now d1)))"

text \<open>How a batch that has already ended may still be imported.\<close>

datatype import_mode = NoOp | CleanupOnly

definition terminal_import_mode :: "batch \<Rightarrow> import_mode option" where
  "terminal_import_mode b =
     (if \<not> terminal_batch b then None
      else if cleanup_status b = ''completed'' \<or> cleanup_status b = ''not_required'' then Some NoOp else Some CleanupOnly)"

section \<open>What cleaning keeps of the files\<close>

lemma map_sum_Inr: "map_sum f g z = Inr y \<longleftrightarrow> (\<exists>x. z = Inr x \<and> y = g x)"
  by (cases z) auto

definition files_of :: "string \<Rightarrow> batch_db \<Rightarrow> remote_file list option" where
  "files_of x d = map_option remote_files (find_batch x d)"

definition kept_file :: "remote_file \<Rightarrow> remote_file \<Rightarrow> bool" where
  "kept_file f g = (f_id g = f_id f \<and> (f_deleted f \<longrightarrow> f_deleted g))"

text \<open>No file is added, replaced or forgotten.\<close>

definition files_kept :: "string \<Rightarrow> batch_db \<Rightarrow> batch_db \<Rightarrow> bool" where
  "files_kept x d d' =
     ((distinct (map b_id (batches d)) \<longrightarrow> distinct (map b_id (batches d'))) \<and> rel_option (list_all2 kept_file) (files_of x d) (files_of x d'))"

lemma kept_file_refl [simp]: "kept_file f f"
  by (simp add: kept_file_def)

lemma kept_file_trans: "kept_file f g \<Longrightarrow> kept_file g h \<Longrightarrow> kept_file f h"
  by (simp add: kept_file_def)

lemma files_kept_trans: "files_kept x d e \<Longrightarrow> files_kept x e f \<Longrightarrow> files_kept x d f"
  by (cases "files_of x d"; cases "files_of x e"; cases "files_of x f")
     (auto simp: files_kept_def intro: list_all2_trans [of kept_file kept_file kept_file, OF kept_file_trans])

lemma files_kept_refl [simp]: "files_kept x d d"
  by (auto simp: files_kept_def option.rel_refl list_all2_refl)

lemma update_batch_rows:
  assumes "update_batch x f now d = Inr d'"
  shows "batches d' = update_where (\<lambda>b. b_id b = x) (\<lambda>b. (f b)\<lparr>b_updated_at := now\<rparr>) (batches d)"
  using assms by (auto simp: update_batch_def bind_result_Inr store_batches_Inr split: if_splits)

lemma view_upd:
  assumes "batches d' = update_where p f (batches d)" "\<And>b. b_id (f b) = b_id b" "\<And>b. g (f b) = g b"
  shows "map_option g (find_batch y d') = map_option g (find_batch y d)"
  using find_batch_update [OF assms(1,2)] assms(3) by (simp add: option.map_comp comp_def if_distrib cong: if_cong)

lemma files_upd:
  assumes "batches d' = update_where p f (batches d)" "\<And>b. b_id (f b) = b_id b" "\<And>b. remote_files (f b) = remote_files b"
  shows "files_of y d' = files_of y d"
  using view_upd [OF assms(1,2), where g = remote_files] assms(3) by (simp add: files_of_def)

lemma files_update_batch:
  assumes "update_batch x f now d = Inr d'" "\<And>b. b_id (f b) = b_id b" "\<And>b. remote_files (f b) = remote_files b"
  shows "files_of y d' = files_of y d"
proof (rule files_upd [OF update_batch_rows [OF assms(1)]])
  show "b_id ((f b)\<lparr>b_updated_at := now\<rparr>) = b_id b" for b using assms(2) by simp
  show "remote_files ((f b)\<lparr>b_updated_at := now\<rparr>) = remote_files b" for b using assms(3) [of b] by (simp add: remote_files_def)
qed

lemma view_settle:
  assumes "\<And>b t. g (b\<lparr>b_sums := t\<rparr>) = g b"
  shows "map_option g (find_batch y (snd (settle_terminal_costs x pv m d))) = map_option g (find_batch y d)"
proof -
  have one: "map_option g (find_batch y (snd (settle_one b acc))) = map_option g (find_batch y (snd acc))" for b acc
  proof -
    have "batches (snd (settle_one b acc)) = update_where (\<lambda>z. b_id z = b_id b)
        (\<lambda>z. z\<lparr>b_sums := (b_sums z)\<lparr>s_actual_cost := cs_known (cost_summary (b_id b) (snd acc))\<rparr>\<rparr>) (batches (snd acc))"
      by (cases acc) (simp add: settle_one_def Let_def)
    then show ?thesis by (rule view_upd) (simp_all add: assms)
  qed
  have "map_option g (find_batch y (snd (fold settle_one bs acc))) = map_option g (find_batch y (snd acc))" for bs acc
    by (induction bs arbitrary: acc) (simp_all add: one)
  then show ?thesis by (simp add: settle_terminal_costs_def)
qed

lemma files_settle: "files_of y (snd (settle_terminal_costs x pv m d)) = files_of y d"
  unfolding files_of_def by (rule view_settle) (simp add: remote_files_def)

lemma files_finalize:
  assumes "finalize_batch_locked x st action cl code now d = Inr (t, d')"
  shows "files_of y d' = files_of y d"
  using assms
proof (cases rule: finalize_cases)
  case (2 b d1 d2)
  have "batches d' = update_where (\<lambda>b. b_id b = x) (finalized st (item_totals x d1) action cl code now) (batches d)"
    using 2(5,7,8) by (auto simp: store_batches_Inr close_items_def)
  then show ?thesis by (rule files_upd) (simp_all add: remote_files_def finalized_def unclaimed_def)
qed simp

lemma files_finish: "finish_batch x now d = Inr d' \<Longrightarrow> files_of y d' = files_of y d"
  by (auto simp: finish_batch_def Let_def bind_result_Inr finalize_batch_result_def files_settle remote_files_def
      dest!: files_finalize files_update_batch [where y = y] split: option.splits if_splits prod.splits)

lemma files_complete_cleanup: "complete_cleanup x now d = Inr d' \<Longrightarrow> files_of y d' = files_of y d"
proof -
  assume c: "complete_cleanup x now d = Inr d'"
  have "files_of y e = files_of y d" if "finalize_cleanup x now d = Inr (s, e)" for s e
    using that by (auto simp: finalize_cleanup_def Let_def dest: files_finalize split: option.splits if_splits)
  then show ?thesis using c files_finish [of x now d d' y]
    by (cases "finalize_cleanup x now d") (auto simp: complete_cleanup_def split: option.splits if_splits)
qed

lemma files_mark_cleaned: "mark_cleaned x action now d = Inr d' \<Longrightarrow> files_of y d' = files_of y d"
proof -
  assume "mark_cleaned x action now d = Inr d'"
  then obtain d1 where u: "update_batch x (cleaned ''completed'' action now) now d = Inr d1" and c: "complete_cleanup x now d1 = Inr d'"
    by (auto simp: mark_cleaned_def bind_result_Inr)
  have "files_of y d1 = files_of y d" by (rule files_update_batch [OF u]) (simp_all add: cleaned_def remote_files_def)
  then show ?thesis using files_complete_cleanup [OF c] by simp
qed

lemma pending_kinds_Nil: "pending_kinds b = [] \<longleftrightarrow> \<not> unresolved_files b"
  by (auto simp: pending_kinds_def unresolved_files_def file_kinds_def file_of_def remote_files_def)

section \<open>The loop over the files\<close>

definition deleted_in :: "string \<Rightarrow> string \<Rightarrow> batch_db \<Rightarrow> bool" where
  "deleted_in x fk d = (\<exists>b f. find_batch x d = Some b \<and> file_of fk b = Some f \<and> f_deleted f)"

lemma kept_put_file: "(\<And>f. kept_file f (g f)) \<Longrightarrow> list_all2 kept_file (remote_files b) (remote_files (put_file fk g b))"
  by (simp add: remote_files_def put_file_def)

lemma files_kept_upd:
  assumes "batches d' = update_where p f (batches d)" "\<And>b. b_id (f b) = b_id b" "\<And>b. list_all2 kept_file (remote_files b) (remote_files (f b))"
  shows "files_kept x d d'"
proof -
  have "map b_id (batches d') = map b_id (batches d)" using assms(1,2) by (simp add: map_update_where)
  then show ?thesis using find_batch_update [OF assms(1,2)] assms(3)
    by (cases "find_batch x d") (auto simp: files_kept_def files_of_def list_all2_refl)
qed

lemma deleted_kept: "files_kept x d d' \<Longrightarrow> deleted_in x fk d \<Longrightarrow> deleted_in x fk d'"
  by (cases "find_batch x d'")
     (auto simp: files_kept_def files_of_def deleted_in_def remote_files_def file_of_def kept_file_def split: if_splits)

lemma put_file_files [simp]: "remote_files (claimed owner until now b) = remote_files b" "remote_files (unclaimed now b) = remote_files b"
  by (simp_all add: claimed_def unclaimed_def remote_files_def)

lemma claim_kept:
  assumes "claim_cleanup_file x fk owner until now d = Inr (c, d')"
  shows "files_kept x d d'" "c \<noteq> None \<Longrightarrow> fk \<in> set file_kinds"
proof -
  show "fk \<in> set file_kinds" if "c \<noteq> None" using assms that by (auto simp: claim_cleanup_file_def split: if_splits)
  show "files_kept x d d'"
  proof (cases "d' = d")
    case False
    then obtain p where "batches d' = update_where p (\<lambda>b. put_file fk (\<lambda>f. f\<lparr>f_delete_unknown := True\<rparr>) (claimed owner until now b)) (batches d)"
      using assms by (auto simp: claim_cleanup_file_def Let_def split: if_splits option.splits)
    then show ?thesis
    proof (rule files_kept_upd)
      fix b
      show "b_id (put_file fk (\<lambda>f. f\<lparr>f_delete_unknown := True\<rparr>) (claimed owner until now b)) = b_id b" by (simp add: claimed_def)
      show "list_all2 kept_file (remote_files b) (remote_files (put_file fk (\<lambda>f. f\<lparr>f_delete_unknown := True\<rparr>) (claimed owner until now b)))"
        using kept_put_file [of "\<lambda>f. f\<lparr>f_delete_unknown := True\<rparr>" "claimed owner until now b" fk] by (simp add: kept_file_def)
    qed
  qed simp
qed

lemma report_failed_kept: "report_failed x code w d = Inr (fl, d') \<Longrightarrow> files_kept x d d' \<and> fl \<noteq> (False, False)"
  by (auto simp: report_failed_def fail_cleanup_file_def cas_def remote_files_def unclaimed_def list_all2_refl
      intro!: files_kept_upd [where d = d])

lemma report_deleted_kept:
  assumes "report_deleted x fk w d = Inr (fl, d')"
  shows "files_kept x d d'" "fl = (False, False) \<Longrightarrow> distinct (map b_id (batches d)) \<Longrightarrow> deleted_in x fk d'"
proof -
  let ?g = "\<lambda>f. f\<lparr>f_deleted := True, f_delete_unknown := False\<rparr>" and ?p = "\<lambda>b. b_id b = x \<and> side_effect_owner b = Some (fw_owner w)"
  let ?f = "\<lambda>b. put_file fk ?g (unclaimed (fw_reported_at w) b)"
  have k: "fk \<in> set file_kinds" and fl: "fl = (False, row_count ?p (batches d) = 0)" and d': "batches d' = update_where ?p ?f (batches d)"
    using assms by (auto simp: report_deleted_def complete_cleanup_file_def cas_def split: if_splits)
  have id: "b_id (?f b) = b_id b" for b by (simp add: unclaimed_def)
  show "files_kept x d d'"
    using d' id by (rule files_kept_upd)
      (use kept_put_file [of ?g "unclaimed (fw_reported_at w) b" fk for b] in \<open>simp add: kept_file_def\<close>)
  show "deleted_in x fk d'" if "fl = (False, False)" "distinct (map b_id (batches d))"
  proof -
    have "0 < row_count ?p (batches d)" using that(1) fl by simp
    then obtain b where b: "b \<in> set (batches d)" "?p b" by (auto simp: row_count_pos_iff)
    then have "find_batch x d = Some b" unfolding find_batch_def using that(2) by (auto intro: first_row_key)
    then have "find_batch x d' = Some (?f b)" using find_batch_update [OF d' id] b by simp
    then show ?thesis using k by (auto simp: deleted_in_def file_of_def put_file_def file_kinds_def)
  qed
qed

lemma cleanup_file_kept:
  assumes "cleanup_file x fk w d = Inr (fl, d')" "\<And>e. files_kept x e (fw_others w e)"
  shows "files_kept x d d'" "fl = (False, False) \<Longrightarrow> distinct (map b_id (batches d)) \<Longrightarrow> deleted_in x fk d'"
proof -
  obtain c d1 where c: "claim_cleanup_file x fk (fw_owner w) (fw_lease w) (fw_claimed_at w) d = Inr (c, d1)"
    using assms(1) by (auto simp: cleanup_file_def bind_result_Inr)
  let ?d2 = "fw_others w d1"
  have k: "files_kept x d d1" by (rule claim_kept [OF c])
  then have k2: "files_kept x d ?d2" using assms(2) by (rule files_kept_trans)
  consider "c = None" "d' = d1" "fl = (False, True)" | "report_deleted x fk w ?d2 = Inr (fl, d')" | code where "report_failed x code w ?d2 = Inr (fl, d')"
    using assms(1) c unfolding cleanup_file_def delete_file_def
    by (cases c) (auto simp: Let_def split: file_lookup.splits option.splits if_splits)
  then have "files_kept x d d' \<and> (fl = (False, False) \<longrightarrow> distinct (map b_id (batches d)) \<longrightarrow> deleted_in x fk d')"
  proof cases
    case 2
    have "distinct (map b_id (batches d)) \<Longrightarrow> distinct (map b_id (batches ?d2))" using k2 by (simp add: files_kept_def)
    then show ?thesis using report_deleted_kept [OF 2] files_kept_trans [OF k2] by blast
  next
    case 3
    then show ?thesis using report_failed_kept files_kept_trans [OF k2] by blast
  qed (simp add: k)
  then show "files_kept x d d'" "fl = (False, False) \<Longrightarrow> distinct (map b_id (batches d)) \<Longrightarrow> deleted_in x fk d'" by blast+
qed

lemma cleanup_files_kept:
  assumes "cleanup_files x w fks flags d = Inr (fl, d')" "\<And>fk e. files_kept x e (fw_others (w fk) e)"
  shows "files_kept x d d' \<and> (fl = (False, False) \<longrightarrow> distinct (map b_id (batches d)) \<longrightarrow> flags = (False, False) \<and> (\<forall>fk \<in> set fks. deleted_in x fk d'))"
  using assms(1)
proof (induction fks arbitrary: flags d)
  case (Cons fk fks)
  obtain l d1 where c: "cleanup_file x fk (w fk) d = Inr (l, d1)"
    and r: "cleanup_files x w fks (fst flags \<or> fst l, snd flags \<or> snd l) d1 = Inr (fl, d')"
    using Cons.prems by (auto simp: bind_result_Inr)
  note one = cleanup_file_kept [OF c assms(2)]
  note rest = Cons.IH [OF r]
  have k: "files_kept x d d'" using files_kept_trans [OF one(1)] rest by blast
  have "flags = (False, False) \<and> (\<forall>k \<in> set (fk # fks). deleted_in x k d')" if z: "fl = (False, False)" "distinct (map b_id (batches d))"
  proof -
    have "distinct (map b_id (batches d1))" using one(1) z(2) by (simp add: files_kept_def)
    then have n: "(fst flags \<or> fst l, snd flags \<or> snd l) = (False, False)" "\<forall>k \<in> set fks. deleted_in x k d'" using rest z(1) by blast+
    then have f: "flags = (False, False)" "l = (False, False)" by (cases flags; cases l; simp)+
    have "deleted_in x fk d'" using deleted_kept one(2) [OF f(2) z(2)] rest by blast
    then show ?thesis using f(1) n(2) by simp
  qed
  then show ?case using k by blast
qed simp

lemma resolved_after:
  assumes "find_batch x d = Some b" "files_kept x d d'" "\<forall>fk \<in> set (pending_kinds b). deleted_in x fk d'"
  shows "\<exists>b'. find_batch x d' = Some b' \<and> \<not> unresolved_files b'"
proof -
  obtain b' where b': "find_batch x d' = Some b'" "list_all2 kept_file (remote_files b) (remote_files b')"
    using assms(1,2) by (cases "find_batch x d'") (auto simp: files_kept_def files_of_def)
  have "\<not> unresolved_files b'"
    using assms(3) b' by (auto simp: unresolved_files_def pending_kinds_def file_kinds_def file_of_def deleted_in_def
        remote_files_def kept_file_def truthy_file_def split: if_splits)
  then show ?thesis using b'(1) by blast
qed

section \<open>Theorems\<close>

lemma files_provider_unknown: "mark_cleanup_provider_unknown x code now d = Inr d' \<Longrightarrow> files_of y d' = files_of y d"
  by (auto simp: mark_cleanup_provider_unknown_def remote_files_def dest!: files_update_batch [where y = y] split: option.splits)

lemma resolved_by_files:
  assumes "files_of x d' = files_of x d" "find_batch x d = Some b" "\<not> unresolved_files b"
  shows "\<exists>b'. find_batch x d' = Some b' \<and> \<not> unresolved_files b'"
  using assms by (cases "find_batch x d'") (auto simp: files_of_def unresolved_files_def)

lemma no_files_resolved: "\<not> has_files b \<Longrightarrow> \<not> unresolved_files b"
  by (auto simp: has_files_def unresolved_files_def list_ex_iff)

lemma after_files_true:
  assumes "after_files b (fl, ct) now d = Inr (True, d')" "\<not> fl \<Longrightarrow> \<not> ct \<Longrightarrow> \<exists>c. find_batch (b_id b) d = Some c \<and> \<not> unresolved_files c"
  shows "\<exists>c. find_batch (b_id b) d' = Some c \<and> \<not> unresolved_files c"
proof -
  obtain r where r: "complete_if_converged (b_id b) now d = Inr r" using assms(1) by (auto simp: after_files_def bind_result_Inr)
  have conv: "\<exists>c. find_batch (b_id b) d' = Some c \<and> \<not> unresolved_files c"
    if c: "find_batch (b_id b) d = Some c" "\<not> unresolved_files c" and m: "mark_cleaned (b_id b) a now d = Inr d'" for c a
    by (rule resolved_by_files [OF files_mark_cleaned [OF m] c])
  show ?thesis
  proof (cases r)
    case (Some e)
    then have "e = d'" using assms(1) r by (simp add: after_files_def)
    then obtain c where "find_batch (b_id b) d = Some c" "\<not> unresolved_files c" "mark_cleaned (b_id b) (cleanup_action_for c) now d = Inr d'"
      using r Some by (auto simp: complete_if_converged_def map_sum_Inr split: option.splits if_splits)
    then show ?thesis by (rule conv)
  next
    case None
    then have n: "\<not> fl" "\<not> ct" using assms(1) r by (auto simp: after_files_def Let_def map_sum_Inr split: if_splits)
    then have "mark_cleaned (b_id b) (cleanup_action_for b) now d = Inr d'"
      using assms(1) r None by (auto simp: after_files_def map_sum_Inr)
    then show ?thesis using conv assms(2) [OF n] by blast
  qed
qed

lemma no_files_left_true:
  assumes "no_files_left b now d = Inr (True, d')"
  shows "files_of y d' = files_of y d"
proof -
  obtain e where u: "update_batch (b_id b) (\<lambda>y. y\<lparr>cleanup_status := ''not_required'', cleanup_completed_at := Some now,
      cleanup_final_action := cleanup_action_for b\<rparr>) now d = Inr e" and c: "complete_cleanup (b_id b) now e = Inr d'"
    using assms by (auto simp: no_files_left_def bind_result_Inr map_sum_Inr split: if_splits)
  have "files_of y e = files_of y d" by (rule files_update_batch [OF u]) (simp_all add: remote_files_def)
  then show ?thesis using files_complete_cleanup [OF c] by simp
qed


lemma finish_status_terminal: "finish_status b c \<in> set TERMINAL_BATCH_STATUSES"
  by (simp add: finish_status_def Let_def TERMINAL_BATCH_STATUSES_def)

lemma finalize_succeeds:
  assumes "wf_batches d" "find_batch x d = Some b" "\<not> terminal_batch b" "items_with x active_batch_item d = 0"
    "st \<in> set TERMINAL_BATCH_STATUSES" "cl = Some ''not_required'' \<Longrightarrow> cleanup_status b = ''not_required''"
  shows "\<exists>d'. finalize_batch_locked x st action cl code now d = Inr (st, d')"
proof -
  let ?d1 = "close_items x st code now d"
  let ?f = "finalized st (item_totals x ?d1) action cl code now"
  have "row_count (\<lambda>i. bi_batch_id i = x \<and> active_batch_item (pbi_status i)) (batch_items d) = 0" using assms(4) by (simp add: items_with_def)
  then have "batch_items ?d1 = batch_items d" by (simp add: close_items_def update_where_miss)
  then have it: "items_with x active_batch_item ?d1 = 0" using assms(4) by (simp add: items_with_def)
  have bs: "batches ?d1 = batches d" by (simp add: close_items_def)
  have ok: "batches_ok (batches d)" using assms(1) by (simp add: wf_batches_def)
  have "batch_check (?f c)" if "c \<in> set (batches d)" "b_id c = x" for c
  proof -
    have "c = b" using find_batch_unique [OF assms(1,2)] that by blast
    moreover have "batch_check c" using ok that(1) by (simp add: batches_ok_def list_all_iff)
    ultimately show ?thesis using assms(6) by (auto simp: batch_check_def finalized_def unclaimed_def split: option.splits)
  qed
  then have "list_all batch_check (update_where (\<lambda>c. b_id c = x) ?f (batches d))"
    using ok by (auto simp: batches_ok_def list_all_iff set_update_where)
  moreover have "map b_id (update_where (\<lambda>c. b_id c = x) ?f (batches d)) = map b_id (batches d)"
    by (simp add: map_update_where finalized_row)
  moreover have "unique_key remote_batch_id (update_where (\<lambda>c. b_id c = x) ?f (batches d))"
    using ok by (intro unique_key_update) (auto simp: batches_ok_def finalized_def unclaimed_def)
  ultimately have "batches_ok (update_where (\<lambda>c. b_id c = x) ?f (batches d))" using ok by (simp add: batches_ok_def)
  then show ?thesis using assms(2,3,5) it bs by (auto simp: finalize_batch_locked_def Let_def store_batches_def)
qed

lemma finish_completed_iff:
  "finish_status b (counts x d) = ''completed'' \<longleftrightarrow>
     items_with x (\<lambda>s. s \<in> {''failed'', ''schema_invalid'', ''duplicate_custom_id'', ''unexpected_custom_id'', ''missing'', ''retry_pending'', ''stale''}) d = 0 \<and>
     \<not> truthy_text (reconciliation_error_code b) \<and>
     \<not> (coalesce_text (remote_status b) \<in> {''expired'', ''cancelled''} \<or>
        coalesce_text (remote_status b) \<in> {''failed'', ''abandoned''} \<and> counts x d ''imported'' = 0)"
proof -
  have "items_with x (\<lambda>s. s \<in> {''failed'', ''schema_invalid'', ''duplicate_custom_id'', ''unexpected_custom_id'', ''missing'', ''retry_pending'', ''stale''}) d = 0 \<longleftrightarrow>
      list_all (\<lambda>s. counts x d s = 0) [''failed'', ''schema_invalid'', ''duplicate_custom_id'', ''unexpected_custom_id'', ''missing'', ''retry_pending'', ''stale'']"
    by (auto simp: items_with_def counts_def row_count_zero_iff)
  then show ?thesis by (auto simp: finish_status_def Let_def)
qed

lemma row_count_key_one: "r \<in> set rows \<Longrightarrow> k r = x \<Longrightarrow> distinct (map k rows) \<Longrightarrow> row_count (\<lambda>r. k r = x) rows = 1"
proof -
  assume r: "r \<in> set rows" "k r = x" and "distinct (map k rows)"
  then have "row_count (\<lambda>r. k r = x) rows \<le> 1" using row_count_key_le_one [of k rows x "\<lambda>_. True"] by simp
  moreover have "0 < row_count (\<lambda>r. k r = x) rows" using r by (auto simp: row_count_pos_iff)
  ultimately show ?thesis by simp
qed

lemma finish_held:
  assumes "wf_batches d" "find_batch x d = Some b" "\<not> terminal_batch b" "held_unknown b"
  shows "\<exists>d' b'. finish_batch x now d = Inr d' \<and> find_batch x d' = Some b' \<and> b_status b' = b_status b"
proof -
  let ?f = "\<lambda>b. b\<lparr>b_completed_at := None, b_updated_at := now\<rparr>"
  let ?d = "d\<lparr>batches := update_where (\<lambda>b. b_id b = x) ?f (batches d)\<rparr>"
  have "batches_ok (update_where (\<lambda>b. b_id b = x) ?f (batches d))"
    using assms(1) by (intro batches_ok_update) (auto simp: wf_batches_def keeps_batch_def batch_check_def named_ids_def terminal_batch_def)
  moreover have "row_count (\<lambda>b. b_id b = x) (batches d) = 1"
    using row_count_key_one [of b "batches d" b_id x] find_batch_Some [OF assms(2)] assms(1) by (simp add: wf_batches_def batches_ok_def)
  ultimately have "finish_batch x now d = Inr ?d" using assms by (simp add: finish_batch_def update_batch_def store_batches_def)
  moreover have "find_batch x ?d = Some (?f b)"
    using find_batch_update [of ?d "\<lambda>b. b_id b = x" ?f d x] assms(2) find_batch_Some [OF assms(2)] by simp
  ultimately show ?thesis by auto
qed

lemma finish_ends:
  assumes "wf_batches d" "find_batch x d = Some b" "\<not> terminal_batch b" "\<not> held_unknown b" "items_with x active_batch_item d = 0"
  shows "\<exists>d' b'. finish_batch x now d = Inr d' \<and> find_batch x d' = Some b' \<and> b_status b' = finish_status b (counts x d)"
proof -
  let ?st = "finish_status b (counts x d)" and ?cl = "str_or (Some (cleanup_status b)) ''pending''"
  let ?c = "if ?cl = ''completed'' \<or> ?cl = ''not_required'' then Some ?cl else None"
  let ?a = "if str_or (Some (cleanup_final_action b)) ''none'' = ''none'' then Some ''complete'' else None"
  have cl: "cleanup_status b = ''not_required''" if "?c = Some ''not_required''" using that by (auto simp: str_or_def split: if_splits)
  obtain d1 where d1: "finalize_batch_locked x ?st ?a ?c None now d = Inr (?st, d1)"
    using finalize_succeeds [OF assms(1-3,5) finish_status_terminal cl] by blast
  obtain b1 where b1: "find_batch x d1 = Some b1" "b_status b1 = ?st"
    using d1 assms(2,3)
  proof (cases rule: finalize_cases)
    case (2 c e1 e2)
    have "batches d1 = update_where (\<lambda>b. b_id b = x) (finalized ?st (item_totals x e1) ?a ?c None now) (batches d)"
      using 2(5,7,8) by (auto simp: store_batches_Inr close_items_def)
    from find_batch_update [OF this] have "find_batch x d1 = Some (finalized ?st (item_totals x e1) ?a ?c None now b)"
      using assms(2) find_batch_Some [OF assms(2)] by (simp add: finalized_row)
    then show ?thesis using that by (simp add: finalized_row)
  qed simp
  let ?d' = "snd (settle_terminal_costs (Some x) None None d1)"
  have "map_option b_status (find_batch x ?d') = Some ?st" using view_settle [where g = b_status and y = x and d = d1] b1 by simp
  moreover have "finish_batch x now d = Inr ?d'" using assms d1 by (simp add: finish_batch_def Let_def finalize_batch_result_def)
  ultimately show ?thesis by auto
qed

text \<open>C17. The end of a batch is decided once and by its items: \<^verbatim>\<open>_finish\<close> never fails; a batch that has ended keeps
  its status and its time, a batch whose remote outcome is unknown and one with a waiting item stay open, and
  otherwise the batch ends with the status its counts, its remote status and its reconciliation determine,
  \<^verbatim>\<open>completed\<close> exactly if nothing failed, is missing or stale and the remote batch did not end badly.\<close>

theorem finish_outcome:
  assumes "wf_batches d" "find_batch x d = Some b"
  shows "\<exists>d' b'. finish_batch x now d = Inr d' \<and> find_batch x d' = Some b' \<and>
    (if terminal_batch b then b_status b' = b_status b \<and> b_completed_at b' = b_completed_at b
     else if held_unknown b \<or> items_with x active_batch_item d \<noteq> 0 then b_status b' = b_status b
     else b_status b' = finish_status b (counts x d) \<and> terminal_batch b' \<and>
       (b_status b' = ''completed'' \<longleftrightarrow>
          items_with x (\<lambda>s. s \<in> {''failed'', ''schema_invalid'', ''duplicate_custom_id'', ''unexpected_custom_id'', ''missing'', ''retry_pending'', ''stale''}) d = 0 \<and>
          \<not> truthy_text (reconciliation_error_code b) \<and>
          \<not> (coalesce_text (remote_status b) \<in> {''expired'', ''cancelled''} \<or>
             coalesce_text (remote_status b) \<in> {''failed'', ''abandoned''} \<and> counts x d ''imported'' = 0)))"
proof (cases "terminal_batch b")
  case True
  have "map_option (\<lambda>b. (b_status b, b_completed_at b)) (find_batch x (snd (settle_terminal_costs (Some x) None None d))) = Some (b_status b, b_completed_at b)"
    using view_settle [where g = "\<lambda>b. (b_status b, b_completed_at b)" and y = x] assms(2) by simp
  then show ?thesis using True assms(2) by (auto simp: finish_batch_def)
next
  case running: False
  consider "held_unknown b" | "\<not> held_unknown b" "items_with x active_batch_item d \<noteq> 0" | "\<not> held_unknown b" "items_with x active_batch_item d = 0" by blast
  then show ?thesis
  proof cases
    case 1
    then show ?thesis using finish_held [OF assms running, of now] running by simp
  next
    case 2
    then show ?thesis using running assms(2) by (auto simp: finish_batch_def)
  next
    case 3
    obtain d' b' where f: "finish_batch x now d = Inr d'" "find_batch x d' = Some b'" "b_status b' = finish_status b (counts x d)"
      using finish_ends [OF assms running 3] by blast
    then have "terminal_batch b'" using finish_status_terminal by (simp add: terminal_batch_def)
    then show ?thesis using f running 3 finish_completed_iff [of b x d] by auto
  qed
qed

definition demo_file_world :: file_world where
  "demo_file_world = \<lparr>fw_owner = ''c1'', fw_lease = 200, fw_claimed_at = 101, fw_lookup = Found, fw_delete = Some \<lparr>ff_status = 404, ff_code = None\<rparr>,
     fw_reported_at = 102, fw_others = (\<lambda>d. d)\<rparr>"

definition demo_cleanup :: cleanup_world where
  "demo_cleanup = \<lparr>cw_now = 103, cw_identity = Some demo_identity, cw_provider = None, cw_file = (\<lambda>_. demo_file_world)\<rparr>"


theorem finish_outcome_witness:
  "\<exists>d' b'. finish_batch ''b1'' 9 demo_running = Inr d' \<and> find_batch ''b1'' d' = Some b' \<and> b_status b' = ''validating''"
proof -
  let ?b = "the (find_batch ''b1'' demo_running)"
  have f: "find_batch ''b1'' demo_running = Some ?b" by code_simp
  have "\<not> terminal_batch ?b" "items_with ''b1'' active_batch_item demo_running \<noteq> 0" "b_status ?b = ''validating''" by code_simp+
  then show ?thesis using finish_outcome [OF demo_batch_wf(5) f, of 9] by auto
qed

end
