(* ===== verification/Response_Envelope.thy ===== *)
theory Response_Envelope
  imports Prelude
begin

text \<open>
  What is read from the body of a model's answer before its content is validated: the token counts and the cost
  (\<^verbatim>\<open>OpenAICompatibleProvider._usage\<close>), the translation of a Responses envelope into a Chat Completions one
  (\<^verbatim>\<open>responses_to_completion\<close> of \<^verbatim>\<open>inktime/app/providers/openai_responses.py\<close>), and the text of the first choice
  as \<^verbatim>\<open>_import_success\<close> of \<^verbatim>\<open>inktime/app/services/batch_analysis.py\<close> takes it. Python's \<^verbatim>\<open>str\<close> and \<^verbatim>\<open>float\<close> on JSON
  values are arguments; \<^verbatim>\<open>float\<close> yields \<open>None\<close> where it raises or is not finite.
\<close>

section \<open>Reading JSON objects\<close>

fun lookup_key :: "json \<Rightarrow> string \<Rightarrow> json option" where
  "lookup_key (JObj kvs) k = map_of kvs k"
| "lookup_key _ k = None"

text \<open>\<^verbatim>\<open>obj.get(k, default)\<close> on an object.\<close>

definition get_or :: "json \<Rightarrow> string \<Rightarrow> json \<Rightarrow> json" where
  "get_or obj k def = (case lookup_key obj k of None \<Rightarrow> def | Some v \<Rightarrow> v)"

definition get_key :: "json \<Rightarrow> string \<Rightarrow> json" where
  "get_key obj k = get_or obj k JNull"

definition or_else :: "json \<Rightarrow> json \<Rightarrow> json" where
  "or_else a b = (if py_truthy a then a else b)"

definition as_dict :: "json \<Rightarrow> json" where
  "as_dict v = (if is_dict v then v else JObj [])"

fun hashable :: "json \<Rightarrow> bool" where
  "hashable (JArr xs) = False"
| "hashable (JObj kvs) = False"
| "hashable _ = True"

section \<open>Token usage\<close>

record token_usage =
  tu_input :: int
  tu_output :: int
  tu_cached :: int
  tu_reasoning :: int
  tu_cache_write :: int
  tu_reported_cost :: "rat option"
  tu_tokens_reported :: bool

definition MAX_COUNT :: int where "MAX_COUNT = 9223372036854775807"

fun token_count :: "json \<Rightarrow> int option" where
  "token_count (JInt n) = (if 0 \<le> n \<and> n \<le> MAX_COUNT then Some n else None)"
| "token_count _ = None"

definition count_or_zero :: "int option \<Rightarrow> int" where
  "count_or_zero n = (case n of None \<Rightarrow> 0 | Some k \<Rightarrow> k)"

definition reported_cost :: "(json \<Rightarrow> rat option) \<Rightarrow> json \<Rightarrow> json \<Rightarrow> rat option" where
  "reported_cost float usage payload =
     (let v = (if get_key usage ''cost'' = JNull then get_key payload ''cost'' else get_key usage ''cost'') in
      case v of
        JNull \<Rightarrow> None
      | JBool b \<Rightarrow> None
      | _ \<Rightarrow> (case float v of None \<Rightarrow> None | Some c \<Rightarrow> if c < 0 then None else Some c))"

definition DETAIL_KEYS :: "string list" where
  "DETAIL_KEYS = [''prompt_tokens_details'', ''input_tokens_details'', ''completion_tokens_details'', ''output_tokens_details'']"

definition counts_valid :: "json \<Rightarrow> int option list \<Rightarrow> bool" where
  "counts_valid usage ns =
     (list_all (\<lambda>k. get_key usage k = JNull \<or> is_dict (get_key usage k)) DETAIL_KEYS \<and>
      (case ns of
         [Some input, Some output, Some cached, Some reasoning, Some write] \<Rightarrow> cached + write \<le> input \<and> reasoning \<le> output
       | _ \<Rightarrow> False))"

definition usage_of :: "(json \<Rightarrow> rat option) \<Rightarrow> json \<Rightarrow> token_usage" where
  "usage_of float payload =
     (let usage = as_dict (get_key payload ''usage'');
          details = as_dict (or_else (get_key usage ''prompt_tokens_details'') (get_key usage ''input_tokens_details''));
          completion = as_dict (or_else (get_key usage ''completion_tokens_details'') (get_key usage ''output_tokens_details''));
          input = token_count (get_or usage ''prompt_tokens'' (get_key usage ''input_tokens''));
          output = token_count (get_or usage ''completion_tokens'' (get_key usage ''output_tokens''));
          cached = token_count (get_or details ''cached_tokens'' (get_or usage ''cached_tokens'' (JInt 0)));
          reasoning = token_count (get_or completion ''reasoning_tokens'' (get_or usage ''reasoning_tokens'' (JInt 0)));
          write = token_count (get_or details ''cache_write_tokens'' (get_or usage ''cache_write_tokens'' (JInt 0)))
      in \<lparr>tu_input = count_or_zero input, tu_output = count_or_zero output, tu_cached = count_or_zero cached,
          tu_reasoning = count_or_zero reasoning, tu_cache_write = count_or_zero write,
          tu_reported_cost = reported_cost float usage payload, tu_tokens_reported = counts_valid usage [input, output, cached, reasoning, write]\<rparr>)"

section \<open>The Responses envelope\<close>

record gathered =
  g_text :: "string list"
  g_refusals :: "string list"
  g_incomplete :: bool

fun gather_parts :: "(json \<Rightarrow> string) \<Rightarrow> json list \<Rightarrow> gathered \<Rightarrow> gathered" where
  "gather_parts str [] g = g"
| "gather_parts str (part # parts) g =
     gather_parts str parts
       (if \<not> is_dict part then g
        else case (get_key part ''type'', get_key part ''text'') of
          (JStr t, JStr s) \<Rightarrow>
            if t = ''output_text'' then g\<lparr>g_text := g_text g @ [s]\<rparr>
            else if t = ''refusal'' then g\<lparr>g_refusals := g_refusals g @ [str (or_else (get_key part ''refusal'') (JStr ''Provider refused''))]\<rparr>
            else g
        | (JStr t, _) \<Rightarrow>
            if t = ''refusal'' then g\<lparr>g_refusals := g_refusals g @ [str (or_else (get_key part ''refusal'') (JStr ''Provider refused''))]\<rparr> else g
        | _ \<Rightarrow> g)"

fun gather_items :: "(json \<Rightarrow> string) \<Rightarrow> json list \<Rightarrow> gathered \<Rightarrow> gathered option" where
  "gather_items str [] g = Some g"
| "gather_items str (item # items) g =
     (if \<not> is_dict item \<or> get_key item ''type'' \<noteq> JStr ''message'' then gather_items str items g
      else case get_key item ''content'' of
        JArr parts \<Rightarrow>
          (let status = get_key item ''status'' in
           if \<not> hashable status then None
           else gather_items str items
             (gather_parts str parts (g\<lparr>g_incomplete := g_incomplete g \<or> (status \<noteq> JNull \<and> status \<noteq> JStr ''completed'')\<rparr>)))
      | _ \<Rightarrow> None)"

text \<open>\<^verbatim>\<open>" ".join(refusals) or None\<close>\<close>

definition joined_refusals :: "string list \<Rightarrow> json" where
  "joined_refusals rs =
     (let t = (case rs of [] \<Rightarrow> [] | r # rest \<Rightarrow> r @ concat (map (\<lambda>s. CHR '' '' # s) rest)) in if t = [] then JNull else JStr t)"

definition envelope_statuses :: "json list" where
  "envelope_statuses = [JStr ''completed'', JStr ''incomplete'', JStr ''failed'', JStr ''cancelled'']"

definition finish_reason_of :: "json \<Rightarrow> json \<Rightarrow> gathered \<Rightarrow> string" where
  "finish_reason_of status reason g =
     (if g_incomplete g \<or> (status = JStr ''completed'' \<and> g_text g = [] \<and> g_refusals g = []) then ''content_filter''
      else if status = JStr ''completed'' then ''stop''
      else if reason = JStr ''max_output_tokens'' then ''length'' else ''content_filter'')"

definition responses_to_completion :: "(json \<Rightarrow> string) \<Rightarrow> json \<Rightarrow> json option" where
  "responses_to_completion str payload =
     (let status = get_key payload ''status''; incomplete = get_key payload ''incomplete_details'' in
      case get_key payload ''output'' of
        JArr items \<Rightarrow>
          if status \<notin> set envelope_statuses then None
          else (case gather_items str items \<lparr>g_text = [], g_refusals = [], g_incomplete = False\<rparr> of
             None \<Rightarrow> None
           | Some g \<Rightarrow>
               if incomplete \<noteq> JNull \<and> \<not> is_dict incomplete then None
               else Some (JObj [(''id'', get_key payload ''id''), (''model'', get_key payload ''model''), (''usage'', get_key payload ''usage''),
                      (''choices'', JArr [JObj [(''finish_reason'', JStr (finish_reason_of status (get_key incomplete ''reason'') g)),
                         (''message'', JObj [(''content'', JStr (concat (g_text g))), (''refusal'', joined_refusals (g_refusals g))])]])]))
      | _ \<Rightarrow> None)"

section \<open>The text of a completion\<close>

datatype completion = Raises | Incomplete | NoText | Content string

definition first_choice :: "json \<Rightarrow> json option" where
  "first_choice body =
     (let cs = get_key body ''choices'' in
      if \<not> py_truthy cs then Some (JObj []) else case cs of JArr (c # rest) \<Rightarrow> Some c | _ \<Rightarrow> None)"

definition STOP_REASONS :: "json list" where
  "STOP_REASONS = [JStr ''length'', JStr ''content_filter'', JStr ''max_tokens'']"

definition text_parts :: "(json \<Rightarrow> string) \<Rightarrow> json \<Rightarrow> json" where
  "text_parts str content =
     (case content of
        JArr parts \<Rightarrow> JStr (concat (map (\<lambda>p. str (get_or p ''text'' (JStr []))) (filter is_dict parts)))
      | v \<Rightarrow> v)"

text \<open>The checks of \<^verbatim>\<open>_import_success\<close> on a Chat Completions body, up to the text that is validated. \<open>Raises\<close> is an
  exception that no handler of the import catches.\<close>

definition completion_of :: "(json \<Rightarrow> string) \<Rightarrow> json \<Rightarrow> completion" where
  "completion_of str body =
     (case first_choice body of
        None \<Rightarrow> Raises
      | Some c \<Rightarrow>
          if \<not> is_dict c \<or> \<not> hashable (get_key c ''finish_reason'') then Raises
          else if get_key c ''finish_reason'' \<in> set STOP_REASONS then Incomplete
          else
            let m = or_else (get_key c ''message'') (JObj []) in
            if \<not> is_dict m then Raises
            else if py_truthy (get_key m ''refusal'') then Incomplete
            else if \<not> py_truthy (get_key body ''choices'') then NoText
            else if \<not> is_dict (get_or c ''message'' (JObj [])) then Raises
            else case text_parts str (get_key (get_or c ''message'' (JObj [])) ''content'') of
              JStr t \<Rightarrow> if py_strip t = [] then NoText else Content t
            | _ \<Rightarrow> NoText)"

section \<open>Theorems\<close>

lemma token_count_bounds: "0 \<le> count_or_zero (token_count v) \<and> count_or_zero (token_count v) \<le> MAX_COUNT"
  by (cases v) (auto simp: count_or_zero_def MAX_COUNT_def)

text \<open>C23. Usage is bounded whatever the provider sends: every count is a non-negative 64-bit number and a cost is
  never negative; and counts are marked as reported only when the cached and newly cached tokens are part of
  the input and the reasoning is part of the output.\<close>

theorem usage_bounded:
  "list_all (\<lambda>n. 0 \<le> n \<and> n \<le> MAX_COUNT)
     [tu_input (usage_of float p), tu_output (usage_of float p), tu_cached (usage_of float p), tu_reasoning (usage_of float p), tu_cache_write (usage_of float p)] \<and>
   \<not> (case tu_reported_cost (usage_of float p) of None \<Rightarrow> False | Some c \<Rightarrow> c < 0) \<and>
   (if tu_tokens_reported (usage_of float p)
    then tu_cached (usage_of float p) + tu_cache_write (usage_of float p) \<le> tu_input (usage_of float p) \<and>
      tu_reasoning (usage_of float p) \<le> tu_output (usage_of float p) else True)"
proof -
  have "\<not> (case reported_cost float u p of None \<Rightarrow> False | Some c \<Rightarrow> c < 0)" for u
    by (auto simp: reported_cost_def Let_def split: json.split option.split if_splits)
  moreover have "count_or_zero c + count_or_zero w \<le> count_or_zero i \<and> count_or_zero r \<le> count_or_zero k"
    if "counts_valid u [i, k, c, r, w]" for u i k c r w
    using that by (auto simp: counts_valid_def count_or_zero_def split: option.splits)
  ultimately show ?thesis by (simp add: usage_of_def Let_def token_count_bounds)
qed

text \<open>What the envelope holds, read off its messages.\<close>

definition is_message :: "json \<Rightarrow> bool" where
  "is_message item = (is_dict item \<and> get_key item ''type'' = JStr ''message'')"

definition message_parts :: "json \<Rightarrow> json list" where
  "message_parts item = (case get_key item ''content'' of JArr ps \<Rightarrow> ps | _ \<Rightarrow> [])"

definition part_text :: "json \<Rightarrow> string option" where
  "part_text p =
     (case (get_key p ''type'', get_key p ''text'') of (JStr t, JStr s) \<Rightarrow> if is_dict p \<and> t = ''output_text'' then Some s else None | _ \<Rightarrow> None)"

definition is_refusal :: "json \<Rightarrow> bool" where
  "is_refusal p = (is_dict p \<and> get_key p ''type'' = JStr ''refusal'')"

definition all_parts :: "json list \<Rightarrow> json list" where
  "all_parts items = concat (map message_parts (filter is_message items))"

definition message_complete :: "json \<Rightarrow> bool" where
  "message_complete item = (get_key item ''status'' = JNull \<or> get_key item ''status'' = JStr ''completed'')"

lemma gather_part_cases:
  obtains (words) s where "part_text p = Some s" "\<not> is_refusal p"
      "gather_parts str (p # ps) g = gather_parts str ps (g\<lparr>g_text := g_text g @ [s]\<rparr>)"
  | (refused) v where "py_truthy v" "is_refusal p" "part_text p = None"
      "gather_parts str (p # ps) g = gather_parts str ps (g\<lparr>g_refusals := g_refusals g @ [str v]\<rparr>)"
  | (other) "\<not> is_refusal p" "part_text p = None" "gather_parts str (p # ps) g = gather_parts str ps g"
proof (cases "is_dict p \<and> (\<exists>t. get_key p ''type'' = JStr t)")
  case False
  then show ?thesis by (intro other) (auto simp: is_refusal_def part_text_def split: json.split)
next
  case True
  then obtain t where d: "is_dict p" and t: "get_key p ''type'' = JStr t" by auto
  let ?v = "or_else (get_key p ''refusal'') (JStr ''Provider refused'')"
  have v: "py_truthy ?v" by (simp add: or_else_def)
  show ?thesis
  proof (cases "t = ''refusal''")
    case True
    then show ?thesis using d t v by (intro refused [of ?v]) (auto simp: is_refusal_def part_text_def split: json.split)
  next
    case n: False
    show ?thesis
    proof (cases "t = ''output_text'' \<and> (\<exists>s. get_key p ''text'' = JStr s)")
      case True
      then obtain s where "get_key p ''text'' = JStr s" by auto
      then show ?thesis using d t True by (intro words [of s]) (simp_all add: is_refusal_def part_text_def)
    next
      case False
      then show ?thesis using d t n by (intro other) (auto simp: is_refusal_def part_text_def split: json.split)
    qed
  qed
qed

lemma gather_parts_spec:
  "g_text (gather_parts str ps g) = g_text g @ List.map_filter part_text ps \<and>
   length (g_refusals (gather_parts str ps g)) = length (g_refusals g) + length (filter is_refusal ps) \<and>
   (\<forall>r \<in> set (g_refusals (gather_parts str ps g)). r \<in> set (g_refusals g) \<or> (\<exists>v. py_truthy v \<and> r = str v)) \<and>
   g_incomplete (gather_parts str ps g) = g_incomplete g"
proof (induction ps arbitrary: g)
  case (Cons p ps)
  show ?case
  proof (cases rule: gather_part_cases [of p str ps g])
    case (words s)
    then show ?thesis using Cons.IH [of "g\<lparr>g_text := g_text g @ [s]\<rparr>"] by (simp del: gather_parts.simps add: map_filter_simps)
  next
    case (refused v)
    then show ?thesis using Cons.IH [of "g\<lparr>g_refusals := g_refusals g @ [str v]\<rparr>"]
      by (auto simp del: gather_parts.simps simp add: map_filter_simps)
  next
    case other
    then show ?thesis using Cons.IH [of g] by (simp del: gather_parts.simps add: map_filter_simps)
  qed
qed (simp add: map_filter_simps)

lemma gather_parts_fields:
  "g_text (gather_parts str ps g) = g_text g @ List.map_filter part_text ps"
  "length (g_refusals (gather_parts str ps g)) = length (g_refusals g) + length (filter is_refusal ps)"
  "g_incomplete (gather_parts str ps g) = g_incomplete g"
  "r \<in> set (g_refusals (gather_parts str ps g)) \<Longrightarrow> r \<in> set (g_refusals g) \<or> (\<exists>v. py_truthy v \<and> r = str v)"
  using gather_parts_spec by blast+

lemma map_filter_append: "List.map_filter f (xs @ ys) = List.map_filter f xs @ List.map_filter f ys"
  by (induction xs) (auto simp: map_filter_simps split: option.split)

lemma gather_items_spec:
  assumes "gather_items str items g = Some h"
  shows "g_text h = g_text g @ List.map_filter part_text (all_parts items) \<and>
   length (g_refusals h) = length (g_refusals g) + length (filter is_refusal (all_parts items)) \<and>
   (\<forall>r \<in> set (g_refusals h). r \<in> set (g_refusals g) \<or> (\<exists>v. py_truthy v \<and> r = str v)) \<and>
   (g_incomplete h \<longleftrightarrow> g_incomplete g \<or> \<not> list_all message_complete (filter is_message items))"
  using assms
proof (induction items arbitrary: g)
  case (Cons item items)
  show ?case
  proof (cases "is_message item")
    case False
    then have "gather_items str items g = Some h" using Cons.prems by (simp add: is_message_def)
    then show ?thesis using Cons.IH [of g] False by (simp add: all_parts_def)
  next
    case True
    then obtain ps where ps: "get_key item ''content'' = JArr ps" "hashable (get_key item ''status'')"
      using Cons.prems by (auto simp: is_message_def Let_def split: json.splits if_splits)
    let ?g = "g\<lparr>g_incomplete := g_incomplete g \<or> \<not> message_complete item\<rparr>"
    have r: "gather_items str items (gather_parts str ps ?g) = Some h"
      using Cons.prems True ps by (simp add: is_message_def message_complete_def Let_def)
    have p: "all_parts (item # items) = ps @ all_parts items" using True ps by (simp add: all_parts_def message_parts_def)
    show ?thesis unfolding p using Cons.IH [OF r] True
      by (auto simp: gather_parts_fields(1-3) map_filter_append dest!: gather_parts_fields(4))
  qed
qed (simp add: all_parts_def map_filter_simps)

lemma joined_refusals_truthy:
  assumes "rs \<noteq> []" and "[] \<notin> set rs"
  shows "py_truthy (joined_refusals rs)"
  using assms by (cases rs) (auto simp: joined_refusals_def Let_def)

lemma responses_to_completion_cases:
  assumes "responses_to_completion str p = Some c"
  obtains items g where "get_key p ''output'' = JArr items" "get_key p ''status'' \<in> set envelope_statuses"
    "gather_items str items \<lparr>g_text = [], g_refusals = [], g_incomplete = False\<rparr> = Some g"
    "get_key c ''choices'' =
       JArr [JObj [(''finish_reason'', JStr (finish_reason_of (get_key p ''status'') (get_key (get_key p ''incomplete_details'') ''reason'') g)),
         (''message'', JObj [(''content'', JStr (concat (g_text g))), (''refusal'', joined_refusals (g_refusals g))])]]"
  using assms by (auto simp: responses_to_completion_def Let_def get_key_def get_or_def split: json.splits if_splits option.splits)

lemma completion_of_one_choice:
  assumes "get_key c ''choices'' = JArr [JObj [(''finish_reason'', JStr f), (''message'', JObj [(''content'', JStr s), (''refusal'', r)])]]"
    and "completion_of str c = Content t"
  shows "JStr f \<notin> set STOP_REASONS \<and> \<not> py_truthy r \<and> t = s"
proof -
  let ?m = "JObj [(''content'', JStr s), (''refusal'', r)]"
  let ?o = "JObj [(''finish_reason'', JStr f), (''message'', ?m)]"
  have "first_choice c = Some ?o" "get_key ?o ''finish_reason'' = JStr f" "get_key ?o ''message'' = ?m"
    "get_or ?o ''message'' (JObj []) = ?m" "get_key ?m ''refusal'' = r" "get_key ?m ''content'' = JStr s" "py_truthy ?m"
    using assms(1) by (simp_all add: first_choice_def get_key_def get_or_def)
  then show ?thesis using assms
    by (auto simp: completion_of_def or_else_def text_parts_def Let_def split: if_splits)
qed

lemma finish_reason_continues:
  assumes "JStr (finish_reason_of status reason g) \<notin> set STOP_REASONS"
  shows "status = JStr ''completed'' \<and> \<not> g_incomplete g"
  using assms by (auto simp: finish_reason_of_def STOP_REASONS_def split: if_splits)

text \<open>C22. The text taken from a Responses envelope is the model's whole answer: the response and every message of it
  are complete, no part of them is a refusal, and the text is that of all text parts in order. (\<^verbatim>\<open>str\<close> of a
  non-empty value is not empty.)\<close>

theorem envelope_text_complete:
  assumes str: "\<And>v. py_truthy v \<Longrightarrow> str v \<noteq> []"
    and e: "responses_to_completion str p = Some c" and t: "completion_of str c = Content t"
  shows "\<exists>items. get_key p ''output'' = JArr items \<and> get_key p ''status'' = JStr ''completed'' \<and>
    list_all message_complete (filter is_message items) \<and> filter is_refusal (all_parts items) = [] \<and>
    t = concat (List.map_filter part_text (all_parts items))"
proof -
  obtain items g where o: "get_key p ''output'' = JArr items"
    and g: "gather_items str items \<lparr>g_text = [], g_refusals = [], g_incomplete = False\<rparr> = Some g"
    and ch: "get_key c ''choices'' =
       JArr [JObj [(''finish_reason'', JStr (finish_reason_of (get_key p ''status'') (get_key (get_key p ''incomplete_details'') ''reason'') g)),
         (''message'', JObj [(''content'', JStr (concat (g_text g))), (''refusal'', joined_refusals (g_refusals g))])]]"
    by (rule responses_to_completion_cases [OF e])
  note sp = gather_items_spec [OF g]
  note ct = completion_of_one_choice [OF ch t]
  have st: "get_key p ''status'' = JStr ''completed''" "\<not> g_incomplete g" using finish_reason_continues ct by blast+
  have "[] \<notin> set (g_refusals g)" using sp str by fastforce
  then have "g_refusals g = []" using ct joined_refusals_truthy by blast
  then show ?thesis using o sp st ct by auto
qed

definition example_str :: "json \<Rightarrow> string" where
  "example_str v = (case v of JStr s \<Rightarrow> if s = [] then ''empty'' else s | _ \<Rightarrow> ''value'')"

definition example_envelope :: json where
  "example_envelope = JObj [(''status'', JStr ''completed''), (''model'', JStr ''m''),
     (''output'', JArr [JObj [(''type'', JStr ''reasoning'')],
        JObj [(''type'', JStr ''message''), (''status'', JStr ''completed''),
          (''content'', JArr [JObj [(''type'', JStr ''output_text''), (''text'', JStr ''{'')], JObj [(''type'', JStr ''note'')],
             JObj [(''type'', JStr ''output_text''), (''text'', JStr ''}'')]])]])]"

theorem envelope_text_complete_witness:
  "completion_of example_str (the (responses_to_completion example_str example_envelope)) = Content ''{}'' \<and>
   (\<exists>items. get_key example_envelope ''output'' = JArr items \<and> get_key example_envelope ''status'' = JStr ''completed'' \<and>
     list_all message_complete (filter is_message items) \<and> filter is_refusal (all_parts items) = [] \<and>
     ''{}'' = concat (List.map_filter part_text (all_parts items)))"
proof -
  have s: "example_str v \<noteq> []" for v by (simp add: example_str_def split: json.split)
  have r: "responses_to_completion example_str example_envelope \<noteq> None"
    "completion_of example_str (the (responses_to_completion example_str example_envelope)) = Content ''{}''" by code_simp+
  then obtain c where "responses_to_completion example_str example_envelope = Some c" "completion_of example_str c = Content ''{}''"
    by force
  then show ?thesis using envelope_text_complete [of example_str example_envelope c "''{}''"] s r(2) by blast
qed

end
