(* ===== verification/Batch_Results.thy ===== *)
theory Batch_Results
  imports Batch_Cleanup Batch_Ledgers Response_Envelope
begin

text \<open>
  The first half of an import: \<^verbatim>\<open>_read_results\<close> of \<^verbatim>\<open>inktime/app/services/batch_analysis.py\<close> reads the output and the
  error file of a batch line by line into the staged results of its run. A file is its bytes, \<open>None\<close> when it
  does not exist. \<^verbatim>\<open>json.loads\<close> and the digest of a line are arguments; \<^verbatim>\<open>loads\<close> yields \<open>None\<close> where it raises. A read that
  raises keeps what it has written, so the state is returned beside the error. Messages are left out.
\<close>

section \<open>Text\<close>

definition hex_digit :: "char \<Rightarrow> bool" where
  "hex_digit c = (let n = (of_char c :: nat) in (48 \<le> n \<and> n \<le> 57) \<or> (97 \<le> n \<and> n \<le> 102))"

fun hex_groups :: "nat list \<Rightarrow> string \<Rightarrow> bool" where
  "hex_groups [] s = (s = [])"
| "hex_groups [n] s = (length s = n \<and> list_all hex_digit s)"
| "hex_groups (n # m # ns) s =
     (length (take n s) = n \<and> list_all hex_digit (take n s) \<and>
      (case drop n s of [] \<Rightarrow> False | c # r \<Rightarrow> c = CHR ''-'' \<and> hex_groups (m # ns) r))"

text \<open>\<^verbatim>\<open>CUSTOM_ID_RE.fullmatch\<close>: \<^verbatim>\<open>ibt:\<close> and a UUID in lower case.\<close>

definition custom_id_ok :: "string \<Rightarrow> bool" where
  "custom_id_ok s = (take 4 s = ''ibt:'' \<and> hex_groups [8, 4, 4, 4, 12] (drop 4 s))"

text \<open>The lines of a file with their terminators.\<close>

fun split_lines :: "string \<Rightarrow> string list" where
  "split_lines [] = []"
| "split_lines (c # s) =
     (if c = CHR 0x0A then [c] # split_lines s
      else case split_lines s of [] \<Rightarrow> [[c]] | l # ls \<Rightarrow> (c # l) # ls)"

section \<open>Reading\<close>

datatype read_error = OutputSize | OutputLine | Refused batch_error

definition MAX_BATCH_RESULT_BYTES :: int where "MAX_BATCH_RESULT_BYTES = 256 * 1024 * 1024"

definition max_line_bytes :: int where "max_line_bytes = 4 * 1024 * 1024"

definition parsed_result :: "string \<Rightarrow> json \<Rightarrow> json \<Rightarrow> json" where
  "parsed_result k record body = JArr [JStr k, record, body]"

definition status_code_of :: "json \<Rightarrow> int" where
  "status_code_of response =
     (case py_int (or_else (get_or response ''status_code'' (JInt 0)) (JInt 0)) of None \<Rightarrow> 0 | Some n \<Rightarrow> n)"

text \<open>The result of the first line with its id.\<close>

definition classify_record :: "bool \<Rightarrow> json \<Rightarrow> json" where
  "classify_record is_error record =
     (let response = get_key record ''response'' in
      if is_error \<or> get_key record ''error'' \<noteq> JNull then parsed_result ''error'' record JNull
      else if \<not> is_dict response \<or> status_code_of response \<noteq> 200 then parsed_result ''error'' record JNull
      else if \<not> is_dict (get_key response ''body'') then parsed_result ''schema_invalid'' record JNull
      else parsed_result ''success'' record (get_key response ''body''))"

datatype line_content = BadLine string | Result string json

definition line_of :: "json option \<Rightarrow> line_content" where
  "line_of parsed =
     (case parsed of
        None \<Rightarrow> BadLine ''invalid_jsonl''
      | Some record \<Rightarrow>
          if \<not> is_dict record then BadLine ''invalid_jsonl''
          else case get_key record ''custom_id'' of
            JStr k \<Rightarrow> if custom_id_ok k then Result k record else BadLine ''unexpected_custom_id''
          | _ \<Rightarrow> BadLine ''unexpected_custom_id'')"

fun read_lines :: "(string \<Rightarrow> json option) \<Rightarrow> (string \<Rightarrow> string) \<Rightarrow> string \<Rightarrow> string \<Rightarrow> bool \<Rightarrow> instant \<Rightarrow> string list \<Rightarrow> batch_db \<Rightarrow> read_error option \<times> batch_db" where
  "read_lines loads digest batch_id run_id is_error now [] d = (None, d)"
| "read_lines loads digest batch_id run_id is_error now (l # ls) d =
     (if int (length l) > max_line_bytes then (Some OutputLine, d)
      else
        let d1 = save_raw digest batch_id l d in
        case line_of (loads l) of
          BadLine code \<Rightarrow>
            (case update_batch batch_id (\<lambda>b. b\<lparr>reconciliation_error_code := Some code\<rparr>) now d1 of
               Inl e \<Rightarrow> (Some (Refused e), d1)
             | Inr d2 \<Rightarrow> read_lines loads digest batch_id run_id is_error now ls d2)
        | Result k record \<Rightarrow>
            read_lines loads digest batch_id run_id is_error now ls
              (staged_set batch_id run_id k
                 (if staged_contains batch_id run_id k d1 then parsed_result ''duplicate'' record JNull else classify_record is_error record) d1))"

definition read_results :: "(string \<Rightarrow> json option) \<Rightarrow> (string \<Rightarrow> string) \<Rightarrow> string \<Rightarrow> string \<Rightarrow> bool \<Rightarrow> instant \<Rightarrow> string option \<Rightarrow> batch_db \<Rightarrow> read_error option \<times> batch_db" where
  "read_results loads digest batch_id run_id is_error now file d =
     (case file of
        None \<Rightarrow> (None, d)
      | Some bytes \<Rightarrow>
          if int (length bytes) > MAX_BATCH_RESULT_BYTES then (Some OutputSize, d)
          else read_lines loads digest batch_id run_id is_error now (split_lines bytes) d)"

text \<open>Both files, as \<^verbatim>\<open>import_batch\<close> reads them.\<close>

definition read_files :: "(string \<Rightarrow> json option) \<Rightarrow> (string \<Rightarrow> string) \<Rightarrow> string \<Rightarrow> string \<Rightarrow> instant \<Rightarrow> instant \<Rightarrow> string option \<Rightarrow> string option \<Rightarrow> batch_db \<Rightarrow> read_error option \<times> batch_db" where
  "read_files loads digest batch_id run_id t1 t2 out err d =
     (case read_results loads digest batch_id run_id False t1 out d of
        (Some e, d1) \<Rightarrow> (Some e, d1)
      | (None, d1) \<Rightarrow> read_results loads digest batch_id run_id True t2 err d1)"

section \<open>What is staged\<close>

text \<open>A line as an entry of the keyed store: its key, its result when it is the first and when it is not.\<close>

definition line_entry :: "(string \<Rightarrow> json option) \<Rightarrow> bool \<Rightarrow> string \<Rightarrow> (string \<times> json \<times> json) option" where
  "line_entry loads is_error l =
     (case line_of (loads l) of
        BadLine code \<Rightarrow> None
      | Result k record \<Rightarrow> Some (k, classify_record is_error record, parsed_result ''duplicate'' record JNull))"

definition file_lines :: "string option \<Rightarrow> string list" where
  "file_lines file = (case file of None \<Rightarrow> [] | Some bytes \<Rightarrow> split_lines bytes)"

definition file_entries :: "(string \<Rightarrow> json option) \<Rightarrow> bool \<Rightarrow> string option \<Rightarrow> (string \<times> json \<times> json) list" where
  "file_entries loads is_error file = List.map_filter (line_entry loads is_error) (file_lines file)"

definition within_sizes :: "string option \<Rightarrow> bool" where
  "within_sizes file =
     ((case file of None \<Rightarrow> True | Some bytes \<Rightarrow> int (length bytes) \<le> MAX_BATCH_RESULT_BYTES) \<and>
      list_all (\<lambda>l. int (length l) \<le> max_line_bytes) (file_lines file))"

definition bad_line :: "(string \<Rightarrow> json option) \<Rightarrow> string \<Rightarrow> bool" where
  "bad_line loads l = (case line_of (loads l) of BadLine code \<Rightarrow> True | Result k record \<Rightarrow> False)"

lemma split_lines_concat: "concat (split_lines s) = s"
  by (induction s) (auto split: list.splits)

definition enter :: "string \<Rightarrow> string \<Rightarrow> string \<times> json \<times> json \<Rightarrow> batch_db \<Rightarrow> batch_db" where
  "enter x r e s = (case e of (k, v, w) \<Rightarrow> staged_set x r k (if staged_get x r k s = None then v else w) s)"

lemma enter_eq: "enter x r = (\<lambda>(k, v, w) s. staged_set x r k (if staged_get x r k s = None then v else w) s)"
  by (auto simp: enter_def fun_eq_iff)

lemma staging_enter:
  "batch_result_staging d = batch_result_staging e \<Longrightarrow> batch_result_staging (enter x r en d) = batch_result_staging (enter x r en e)"
  by (cases en) (simp add: enter_def staged_set_def staged_get_def)

lemma staging_fold_enter:
  "batch_result_staging d = batch_result_staging e \<Longrightarrow> batch_result_staging (fold (enter x r) es d) = batch_result_staging (fold (enter x r) es e)"
proof (induction es arbitrary: d e)
  case (Cons en es)
  from Cons.IH [OF staging_enter [OF Cons.prems]] show ?case by simp
qed simp

lemma staged_contains_get: "staged_contains x r k d \<longleftrightarrow> staged_get x r k d \<noteq> None"
  by (simp add: staged_contains_def staged_get_def map_of_eq_None_iff)

lemma flag_batch:
  assumes "batches_ok (batches d)" "find_batch x d = Some b"
  obtains d' b' where "update_batch x (\<lambda>b. b\<lparr>reconciliation_error_code := Some code\<rparr>) now d = Inr d'"
    "batches_ok (batches d')" "find_batch x d' = Some b'" "reconciliation_error_code b' = Some code"
    "batch_result_staging d' = batch_result_staging d" "batch_result_raw d' = batch_result_raw d" "batch_items d' = batch_items d"
proof -
  let ?f = "\<lambda>b. (b\<lparr>reconciliation_error_code := Some code\<rparr>)\<lparr>b_updated_at := now\<rparr>"
  let ?bs = "update_where (\<lambda>b. b_id b = x) ?f (batches d)"
  let ?d = "d\<lparr>batches := ?bs\<rparr>"
  have "keeps_batch ?f" by (simp add: keeps_batch_def batch_check_def named_ids_def terminal_batch_def)
  then have ok: "batches_ok ?bs" using assms(1) by (rule batches_ok_update [rotated])
  have one: "row_count (\<lambda>b. b_id b = x) (batches d) = 1"
    using find_batch_Some [OF assms(2)] assms(1) by (intro row_count_key_one) (auto simp: batches_ok_def)
  show ?thesis
  proof
    show "update_batch x (\<lambda>b. b\<lparr>reconciliation_error_code := Some code\<rparr>) now d = Inr ?d"
      using ok one by (simp add: update_batch_def store_batches_def)
    have "find_batch x ?d = map_option (\<lambda>b. if b_id b = x then ?f b else b) (find_batch x d)" by (rule find_batch_update) simp_all
    then show "find_batch x ?d = Some (?f b)" using find_batch_Some [OF assms(2)] assms(2) by simp
  qed (use ok in simp_all)
qed

text \<open>What has been read of a list of lines: \<open>d\<close> before and \<open>d'\<close> after.\<close>

definition has_read :: "(string \<Rightarrow> json option) \<Rightarrow> (string \<Rightarrow> string) \<Rightarrow> string \<Rightarrow> string \<Rightarrow> bool \<Rightarrow> string list \<Rightarrow> batch_db \<Rightarrow> batch_db \<Rightarrow> bool" where
  "has_read loads digest x r is_error ls d d' =
     (batch_result_staging d' = batch_result_staging (fold (enter x r) (List.map_filter (line_entry loads is_error) ls) d) \<and>
      fst ` set (batch_result_raw d) \<union> (\<lambda>l. (x, digest l)) ` set ls \<subseteq> fst ` set (batch_result_raw d') \<and>
      batches_ok (batches d') \<and> batch_items d' = batch_items d \<and>
      (\<exists>b'. find_batch x d' = Some b' \<and>
         (if list_ex (bad_line loads) ls then truthy_text (reconciliation_error_code b')
          else Some (reconciliation_error_code b') = map_option reconciliation_error_code (find_batch x d))))"

lemma line_of_code: "line_of p = BadLine code \<Longrightarrow> code \<noteq> []"
  by (auto simp: line_of_def split: option.splits json.splits if_splits)

lemma save_raw_keeps:
  "batches (save_raw digest x l d) = batches d" "batch_result_staging (save_raw digest x l d) = batch_result_staging d"
  "find_batch y (save_raw digest x l d) = find_batch y d" "batch_items (save_raw digest x l d) = batch_items d"
  "fst ` set (batch_result_raw (save_raw digest x l d)) = insert (x, digest l) (fst ` set (batch_result_raw d))"
  by (auto simp: save_raw_def find_batch_def)

lemma enter_keeps:
  "batches (enter x r e d) = batches d" "batch_result_raw (enter x r e d) = batch_result_raw d" "find_batch y (enter x r e d) = find_batch y d"
  "batch_items (enter x r e d) = batch_items d"
  by (cases e; simp add: enter_def staged_set_def find_batch_def)+

lemma read_one_good:
  assumes "line_of (loads l) = Result k record" "int (length l) \<le> max_line_bytes"
  shows "read_lines loads digest x r is_error now (l # ls) d =
    read_lines loads digest x r is_error now ls
      (enter x r (k, classify_record is_error record, parsed_result ''duplicate'' record JNull) (save_raw digest x l d))"
  using assms by (simp add: enter_def staged_contains_get Let_def)

lemma has_read_good:
  assumes l: "line_of (loads l) = Result k record"
    and h: "has_read loads digest x r is_error ls (enter x r (k, classify_record is_error record, parsed_result ''duplicate'' record JNull) (save_raw digest x l d)) d'"
  shows "has_read loads digest x r is_error (l # ls) d d'"
proof -
  let ?e = "(k, classify_record is_error record, parsed_result ''duplicate'' record JNull)"
  have "batch_result_staging (fold (enter x r) es (enter x r ?e (save_raw digest x l d))) = batch_result_staging (fold (enter x r) (?e # es) d)" for es
    using staging_fold_enter [OF staging_enter [OF save_raw_keeps(2)], of x r es] by simp
  then show ?thesis using h l
    by (auto simp: has_read_def enter_keeps save_raw_keeps line_entry_def bad_line_def map_filter_simps)
qed

lemma has_read_bad:
  assumes l: "line_of (loads l) = BadLine code"
    and d2: "batch_result_staging d2 = batch_result_staging d" "batch_result_raw d2 = batch_result_raw (save_raw digest x l d)"
      "find_batch x d2 = Some b" "reconciliation_error_code b = Some code" "batch_items d2 = batch_items d"
    and h: "has_read loads digest x r is_error ls d2 d'"
  shows "has_read loads digest x r is_error (l # ls) d d'"
proof -
  have "truthy_text (Some code)" using line_of_code [OF l] by (simp add: truthy_text_def coalesce_text_def)
  then show ?thesis using h l staging_fold_enter [OF d2(1)]
    by (auto simp: has_read_def d2 save_raw_keeps line_entry_def bad_line_def map_filter_simps split: if_splits)
qed

lemma read_lines_spec:
  assumes "batches_ok (batches d)" "find_batch x d = Some b"
  shows "case read_lines loads digest x r is_error now ls d of
      (None, d') \<Rightarrow> list_all (\<lambda>l. int (length l) \<le> max_line_bytes) ls \<and> has_read loads digest x r is_error ls d d'
    | (Some e, d') \<Rightarrow> e = OutputLine \<and> \<not> list_all (\<lambda>l. int (length l) \<le> max_line_bytes) ls"
  using assms
proof (induction ls arbitrary: d b)
  case Nil
  then show ?case by (simp add: has_read_def map_filter_simps)
next
  case (Cons l ls)
  show ?case
  proof (cases "int (length l) \<le> max_line_bytes")
    case False
    then show ?thesis by simp
  next
    case short: True
    show ?thesis
    proof (cases "line_of (loads l)")
      case (Result k rec)
      let ?d = "enter x r (k, classify_record is_error rec, parsed_result ''duplicate'' rec JNull) (save_raw digest x l d)"
      have "batches_ok (batches ?d)" "find_batch x ?d = Some b" using Cons.prems by (simp_all add: enter_keeps save_raw_keeps)
      from Cons.IH [OF this] show ?thesis using short has_read_good [of loads l k rec digest x r is_error ls d] Result
        by (auto simp del: read_lines.simps simp: read_one_good [of loads l k rec, OF Result short] split: prod.splits option.splits)
    next
      case (BadLine code)
      have "batches_ok (batches (save_raw digest x l d))" "find_batch x (save_raw digest x l d) = Some b"
        using Cons.prems by (simp_all add: save_raw_keeps)
      then obtain d2 b2 where u: "update_batch x (\<lambda>b. b\<lparr>reconciliation_error_code := Some code\<rparr>) now (save_raw digest x l d) = Inr d2"
          "batches_ok (batches d2)" "find_batch x d2 = Some b2" "reconciliation_error_code b2 = Some code"
          "batch_result_staging d2 = batch_result_staging (save_raw digest x l d)" "batch_result_raw d2 = batch_result_raw (save_raw digest x l d)"
          "batch_items d2 = batch_items (save_raw digest x l d)"
        by (rule flag_batch)
      have "read_lines loads digest x r is_error now (l # ls) d = read_lines loads digest x r is_error now ls d2"
        using short BadLine u(1) by (simp add: Let_def)
      then show ?thesis using Cons.IH [OF u(2,3)] short has_read_bad [of loads l code d2 d digest x b2 r is_error ls, OF BadLine _ u(6,3,4)] u(5,7)
        by (auto simp del: read_lines.simps simp: save_raw_keeps split: prod.splits option.splits)
    qed
  qed
qed

lemma read_results_spec:
  assumes "batches_ok (batches d)" "find_batch x d = Some b"
  shows "case read_results loads digest x r is_error now content d of
      (None, d') \<Rightarrow> within_sizes content \<and> has_read loads digest x r is_error (file_lines content) d d'
    | (Some e, d') \<Rightarrow> \<not> within_sizes content"
proof (cases content)
  case None
  then show ?thesis using assms by (simp add: read_results_def within_sizes_def file_lines_def has_read_def map_filter_simps)
next
  case (Some bytes)
  show ?thesis using Some read_lines_spec [OF assms, where loads = loads and digest = digest and r = r and is_error = is_error and now = now and ls = "split_lines bytes"]
    by (auto simp: read_results_def within_sizes_def file_lines_def split: prod.splits option.splits)
qed

lemma staged_by_entries:
  assumes "staged_get x r k d = None" "batch_result_staging d' = batch_result_staging (fold (enter x r) es d)"
  shows "staged_get x r k d' =
    (case filter (\<lambda>t. fst t = k) es of [] \<Rightarrow> None | [t] \<Rightarrow> Some (fst (snd t)) | t # ts \<Rightarrow> Some (snd (snd (last ts))))"
proof -
  have g: "staged_get x r k d' = staged_get x r k (fold (enter x r) es d)" using assms(2) by (simp add: staged_get_def)
  have key: "fst t = k" if "t \<in> set (filter (\<lambda>t. fst t = k) es)" for t using that by simp
  consider "filter (\<lambda>t. fst t = k) es = []" | t where "filter (\<lambda>t. fst t = k) es = [t]"
    | t ts u where "filter (\<lambda>t. fst t = k) es = t # ts @ [u]"
    by (metis append_butlast_last_id neq_Nil_conv)
  then show ?thesis
  proof cases
    case 1
    then have "k \<notin> fst ` set es" by (auto simp: filter_empty_conv)
    then show ?thesis using 1 assms(1) g staged.collect_absent [of k es x r d] by (simp add: enter_eq)
  next
    case (2 t)
    then obtain v w where "t = (k, v, w)" using key [of t] by (cases t) auto
    then show ?thesis using 2 g staged.collect_once [of k es v w x r d] assms(1) by (simp add: enter_eq)
  next
    case (3 t ts u)
    then obtain v w where "u = (k, v, w)" using key [of u] by (cases u) auto
    then show ?thesis using 3 g staged.collect_again [of k es t ts v w x r d] by (cases ts) (simp_all add: enter_eq)
  qed
qed

lemma read_files_has_read:
  assumes "batches_ok (batches d)" "find_batch x d = Some b" "read_files loads digest x r t1 t2 out err d = (None, d')"
  obtains d1 where "within_sizes out" "has_read loads digest x r False (file_lines out) d d1"
    "within_sizes err" "has_read loads digest x r True (file_lines err) d1 d'"
proof -
  obtain d1 where 1: "read_results loads digest x r False t1 out d = (None, d1)" "read_results loads digest x r True t2 err d1 = (None, d')"
    using assms(3) by (auto simp: read_files_def split: prod.splits option.splits)
  have out: "within_sizes out" "has_read loads digest x r False (file_lines out) d d1"
    using read_results_spec [OF assms(1,2), where loads = loads and digest = digest and r = r and is_error = False and now = t1 and content = out] 1(1) by simp_all
  then obtain b1 where "batches_ok (batches d1)" "find_batch x d1 = Some b1" by (auto simp: has_read_def)
  from read_results_spec [OF this, where loads = loads and digest = digest and r = r and is_error = True and now = t2 and content = err] 1(2) out show ?thesis by (auto intro: that)
qed

lemma read_files_returns:
  assumes "batches_ok (batches d)" "find_batch x d = Some b" "within_sizes out" "within_sizes err"
  shows "fst (read_files loads digest x r t1 t2 out err d) = None"
proof -
  obtain d1 where 1: "read_results loads digest x r False t1 out d = (None, d1)" "has_read loads digest x r False (file_lines out) d d1"
    using read_results_spec [OF assms(1,2), where loads = loads and digest = digest and r = r and is_error = False and now = t1 and content = out] assms(3) by (auto split: prod.splits option.splits)
  then obtain b1 where "batches_ok (batches d1)" "find_batch x d1 = Some b1" by (auto simp: has_read_def)
  from read_results_spec [OF this, where loads = loads and digest = digest and r = r and is_error = True and now = t2 and content = err] assms(4) 1 show ?thesis
    by (auto simp: read_files_def split: prod.splits option.splits)
qed

lemma read_files_content:
  assumes "batches_ok (batches d)" "find_batch x d = Some b" "\<forall>k. staged_get x r k d = None"
    "read_files loads digest x r t1 t2 out err d = (None, d')"
  shows "within_sizes out \<and> within_sizes err"
    "staged_get x r k d' =
       (case filter (\<lambda>t. fst t = k) (file_entries loads False out @ file_entries loads True err) of
          [] \<Rightarrow> None | [t] \<Rightarrow> Some (fst (snd t)) | t # ts \<Rightarrow> Some (snd (snd (last ts))))"
    "l \<in> set (file_lines out @ file_lines err) \<Longrightarrow> (x, digest l) \<in> fst ` set (batch_result_raw d')"
    "\<exists>b'. find_batch x d' = Some b' \<and> (list_ex (bad_line loads) (file_lines out @ file_lines err) \<longrightarrow> truthy_text (reconciliation_error_code b'))"
    "batch_items d' = batch_items d"
proof -
  obtain d1 where s: "within_sizes out" "within_sizes err"
    and h: "has_read loads digest x r False (file_lines out) d d1" "has_read loads digest x r True (file_lines err) d1 d'"
    by (rule read_files_has_read [OF assms(1,2,4)])
  show "within_sizes out \<and> within_sizes err" using s by simp
  show "batch_items d' = batch_items d" using h by (simp add: has_read_def)
  have "batch_result_staging d' = batch_result_staging (fold (enter x r) (file_entries loads False out @ file_entries loads True err) d)"
    using h staging_fold_enter [of d1 "fold (enter x r) (file_entries loads False out) d" x r "file_entries loads True err"]
    by (simp add: has_read_def file_entries_def)
  with assms(3) show "staged_get x r k d' =
       (case filter (\<lambda>t. fst t = k) (file_entries loads False out @ file_entries loads True err) of
          [] \<Rightarrow> None | [t] \<Rightarrow> Some (fst (snd t)) | t # ts \<Rightarrow> Some (snd (snd (last ts))))"
    by (intro staged_by_entries [of x r k d]) simp_all
  show "(x, digest l) \<in> fst ` set (batch_result_raw d')" if "l \<in> set (file_lines out @ file_lines err)"
    using h that unfolding has_read_def by (auto simp: subset_iff)
  show "\<exists>b'. find_batch x d' = Some b' \<and> (list_ex (bad_line loads) (file_lines out @ file_lines err) \<longrightarrow> truthy_text (reconciliation_error_code b'))"
  proof -
    obtain b1 where b1: "find_batch x d1 = Some b1" "list_ex (bad_line loads) (file_lines out) \<Longrightarrow> truthy_text (reconciliation_error_code b1)"
      using h(1) by (auto simp: has_read_def)
    obtain b' where b': "find_batch x d' = Some b'" "if list_ex (bad_line loads) (file_lines err) then truthy_text (reconciliation_error_code b')
        else reconciliation_error_code b' = reconciliation_error_code b1"
      using h(2) b1(1) by (auto simp: has_read_def split: if_splits)
    then show ?thesis using b1(2) by (auto split: if_splits)
  qed
qed

lemma finish_flagged: "truthy_text (reconciliation_error_code b) \<Longrightarrow> finish_status b c \<noteq> ''completed''"
  by (auto simp: finish_status_def Let_def)


definition demo_custom_id :: string where
  "demo_custom_id = ''ibt:0123abcd-0000-0000-0000-0123456789ab''"

definition demo_record :: "string \<Rightarrow> json" where
  "demo_record code = JObj [(''custom_id'', JStr demo_custom_id), (''error'', JNull),
     (''response'', JObj [(''status_code'', JStr code), (''body'', JObj [(''id'', JStr ''resp'')])])]"

definition demo_loads :: "string \<Rightarrow> json option" where
  "demo_loads l = (if l = ''A'' @ [CHR 0x0A] then Some (demo_record ''200'') else if l = ''E'' then Some (demo_record ''500'') else None)"


end
