(* ===== verification/Batch_Import.thy ===== *)
theory Batch_Import
  imports Batch_Results Batch_Submission
begin

text \<open>
  The second half of an import in \<^verbatim>\<open>inktime/app/services/batch_analysis.py\<close>: the receipt of a paid answer
  (\<^verbatim>\<open>_persist_result_receipt\<close>, with \<^verbatim>\<open>record_batch_once\<close> of \<^verbatim>\<open>inktime/app/repositories/usage.py\<close>), the outcome of a line
  (\<^verbatim>\<open>_import_success\<close>, \<^verbatim>\<open>_mark_item_error\<close>) and the loops of \<^verbatim>\<open>import_batch\<close> over the staged results and over the items
  without one. Arguments are Python's \<^verbatim>\<open>str\<close>, \<^verbatim>\<open>float\<close> and \<^verbatim>\<open>json.dumps\<close>, the price list, the photo files with the request
  fingerprints computed from them, the validation of an answer, and the saving of an analysis in the tables of
  photos, which may raise. An exception ends the import; the tables it leaves are not described.
\<close>

section \<open>Paid usage\<close>

text \<open>\<^verbatim>\<open>_add_job_cost\<close>: the first receipt of a job replaces its estimates.\<close>

definition add_job_cost :: "string option \<Rightarrow> rat \<Rightarrow> db \<Rightarrow> db" where
  "add_job_cost job_id cost q =
     (case job_id of
        None \<Rightarrow> q
      | Some x \<Rightarrow>
          if x = [] then q
          else upd_jobs (\<lambda>j. j_id j = x) (\<lambda>j. j\<lparr>spent := (if metered x q then spent j + cost else cost)\<rparr>) q)"

text \<open>The row's references to the photo and the job.\<close>

definition usage_refs_ok :: "batch_usage \<Rightarrow> db \<Rightarrow> bool" where
  "usage_refs_ok u q =
     ((case u_photo_id u of None \<Rightarrow> True | Some p \<Rightarrow> p \<in> set (map p_id (photos q))) \<and>
      (case u_job_id u of None \<Rightarrow> True | Some x \<Rightarrow> x \<in> set (map j_id (jobs q))))"

text \<open>The cost booked for a job.\<close>

definition receipt_cost :: "batch_usage \<Rightarrow> rat" where
  "receipt_cost u =
     (if u_cost_source u = ''provider_reported'' \<or> u_cost_source u = ''estimated''
      then max 0 (case u_actual_cost u of Some c \<Rightarrow> c | None \<Rightarrow> (case u_estimated_cost u of Some c \<Rightarrow> c | None \<Rightarrow> 0)) else 0)"

definition record_batch_once :: "batch_usage \<Rightarrow> batch_db \<Rightarrow> batch_error + (bool \<times> batch_db)" where
  "record_batch_once u d =
     (if list_ex (\<lambda>v. bu_item_id v \<noteq> None \<and> bu_item_id v = bu_item_id u) (batch_usages d) then Inr (False, d)
      else if \<not> usage_refs_ok u (the_queue d) then Inl BatchIntegrity
      else
        let q = add_job_cost (u_job_id u) (receipt_cost u) (the_queue d);
            q1 = (case u_job_id u of None \<Rightarrow> q | Some x \<Rightarrow> q\<lparr>api_usage_jobs := api_usage_jobs q @ [x]\<rparr>)
        in Inr (True, set_queue q1 (d\<lparr>batch_usages := batch_usages d @ [u]\<rparr>)))"

section \<open>The outcome of a line\<close>

datatype import_error = Crash | Store batch_error

definition stored :: "batch_error + 'a \<Rightarrow> import_error + 'a" where
  "stored r = map_sum Store id r"

record import_world =
  iw_str :: "json \<Rightarrow> string"
  iw_float :: "json \<Rightarrow> rat option"
  iw_dumps :: "json \<Rightarrow> string"
  iw_digest :: "string \<Rightarrow> string"
  iw_estimate :: "string \<Rightarrow> token_usage \<Rightarrow> rat option"
  iw_now :: instant
  iw_current_fp :: "string option"  \<comment> \<open>of the analysis plan that is current now\<close>
  iw_plan_fp :: string  \<comment> \<open>of the plan frozen with the job\<close>
  iw_photo :: "string \<Rightarrow> bool"
  iw_sha :: "string \<Rightarrow> string"  \<comment> \<open>of the photo's file now, in lower case, or empty\<close>
  iw_request_fp :: "batch_item \<Rightarrow> string option"  \<comment> \<open>\<open>None\<close>: raises\<close>
  iw_valid :: "string \<Rightarrow> bool"
  iw_saved :: "batch_item \<Rightarrow> string \<Rightarrow> item_result option"  \<comment> \<open>\<open>None\<close>: raises\<close>

definition str_text :: "string option \<Rightarrow> string" where
  "str_text v = (case v of None \<Rightarrow> ''None'' | Some s \<Rightarrow> s)"

text \<open>A value bound to a text column; \<open>None\<close> is the error for a list or an object.\<close>

fun bind_text :: "(json \<Rightarrow> string) \<Rightarrow> json \<Rightarrow> string option option" where
  "bind_text str JNull = Some None"
| "bind_text str (JBool b) = Some (Some (if b then ''1'' else ''0''))"
| "bind_text str (JArr xs) = None"
| "bind_text str (JObj kvs) = None"
| "bind_text str v = Some (Some (str v))"

definition cost_source_of :: "rat option \<Rightarrow> rat option \<Rightarrow> string" where
  "cost_source_of actual estimated =
     (if actual \<noteq> None then ''provider_reported'' else if estimated \<noteq> None then ''estimated'' else ''unknown'')"

definition served_model :: "import_world \<Rightarrow> batch \<Rightarrow> json \<Rightarrow> string" where
  "served_model w b body = iw_str w (or_else (get_key body ''model'') (JStr (sp_model (spec b))))"

definition usage_receipt :: "import_world \<Rightarrow> batch \<Rightarrow> batch_item \<Rightarrow> string \<Rightarrow> token_usage \<Rightarrow> batch_usage" where
  "usage_receipt w b i model u =
     (let estimated = iw_estimate w model u; actual = tu_reported_cost u in
      \<lparr>u_operation_id = None, u_job_id = (if truthy_text (b_job_id b) then b_job_id b else None), u_photo_id = Some (str_text (bi_photo_id i)),
       u_started_at = (case submitted_at b of None \<Rightarrow> iw_now w | Some t \<Rightarrow> t), u_cost_source = cost_source_of actual estimated,
       u_actual_cost = map_option (max 0) actual, u_estimated_cost = map_option (max 0) estimated,
       u_counts = [max 0 (tu_input u), max 0 (tu_output u), max 0 (tu_cached u), max 0 (tu_reasoning u), max 0 (tu_cache_write u), 0, 0],
       u_status = ''completed'', bu_batch_id = Some (b_id b), bu_item_id = Some (bi_id i), bu_model = model\<rparr>)"

definition evidence :: "string \<Rightarrow> string option \<Rightarrow> batch_item \<Rightarrow> batch_item" where
  "evidence raw rid i =
     i\<lparr>raw_response_json := (case raw_response_json i of None \<Rightarrow> Some raw | Some x \<Rightarrow> Some x),
       pbi_request_id := (case pbi_request_id i of None \<Rightarrow> rid | Some x \<Rightarrow> Some x)\<rparr>"

definition persist_result_receipt :: "import_world \<Rightarrow> batch \<Rightarrow> batch_item \<Rightarrow> json \<Rightarrow> json \<Rightarrow> batch_db \<Rightarrow> import_error + batch_db" where
  "persist_result_receipt w b i line body d =
     (let response = or_else (get_key line ''response'') (JObj []);
          request_id = or_else (or_else (get_key response ''request_id'') (get_key line ''request_id'')) (get_key body ''id'')
      in
      case bind_text (iw_str w) request_id of
        None \<Rightarrow> Inl Crash
      | Some rid \<Rightarrow>
          bind_result (stored (record_batch_once (usage_receipt w b i (served_model w b body) (usage_of (iw_float w) body)) d)) (\<lambda>(ok, d1).
            Inr (upd_batch_items (\<lambda>j. bi_id j = bi_id i) (evidence (iw_dumps w line) rid) d1)))"

definition fail_job_item :: "import_world \<Rightarrow> batch \<Rightarrow> batch_item \<Rightarrow> string \<Rightarrow> batch_db \<Rightarrow> batch_db" where
  "fail_job_item w b i code d =
     set_queue (snd (fail_batch_item (iw_digest w) (str_text (b_job_id b)) (coalesce_text (bi_job_item_id i)) code (iw_now w) (the_queue d))) d"

definition mark_item_error :: "import_world \<Rightarrow> batch \<Rightarrow> batch_item \<Rightarrow> string \<Rightarrow> string \<Rightarrow> batch_db \<Rightarrow> import_error + batch_db" where
  "mark_item_error w b i code status d =
     (if pbi_status i = ''imported'' then Inr d
      else bind_result (stored (update_item (bi_id i) (\<lambda>j. j\<lparr>pbi_status := status, bi_error_code := Some code\<rparr>) (iw_now w) d)) (\<lambda>d1.
        Inr (if truthy_text (bi_job_item_id i) \<and> str_text (b_job_id b) \<noteq> [] then fail_job_item w b i code d1 else d1)))"

definition open_result :: "string \<Rightarrow> bool" where
  "open_result s = (s = ''pending'' \<or> s = ''submitted'' \<or> s = ''retry_pending'')"

text \<open>The transaction that saves a validated answer.\<close>

definition imported_row :: "import_world \<Rightarrow> string option \<Rightarrow> int \<Rightarrow> token_usage \<Rightarrow> rat \<Rightarrow> string \<Rightarrow> batch_item \<Rightarrow> batch_item" where
  "imported_row w rid code u cost raw j =
     j\<lparr>pbi_status := ''imported'', pbi_request_id := rid, http_status := Some code, bi_input_tokens := tu_input u, bi_cached_tokens := tu_cached u,
       bi_output_tokens := tu_output u, bi_reasoning_tokens := tu_reasoning u, bi_actual_cost := cost, raw_response_json := Some raw,
       imported_at := Some (iw_now w)\<rparr>"

definition save_imported :: "import_world \<Rightarrow> batch \<Rightarrow> batch_item \<Rightarrow> json \<Rightarrow> json \<Rightarrow> string \<Rightarrow> batch_db \<Rightarrow> import_error + (string \<times> batch_db)" where
  "save_imported w b i line body content d =
     (case first_row (\<lambda>j. bi_id j = bi_id i) (batch_items d) of
        None \<Rightarrow> Inr (''missing'', d)
      | Some current \<Rightarrow>
          if pbi_status current = ''imported'' then Inr (''already_imported'', d)
          else if \<not> open_result (pbi_status current) then Inr (pbi_status current, d)
          else
            let response = or_else (get_key line ''response'') (JObj []);
                request_id = or_else (get_key response ''request_id'') (get_key line ''request_id'');
                rid = (if py_truthy request_id then Some (iw_str w request_id) else None);
                u = usage_of (iw_float w) body;
                model = served_model w b body;
                cost = (case tu_reported_cost u of Some c \<Rightarrow> c | None \<Rightarrow> (case iw_estimate w model u of Some c \<Rightarrow> c | None \<Rightarrow> 0))
            in
            case (iw_saved w i content, py_int (or_else (get_or response ''status_code'' (JInt 200)) (JInt 200))) of
              (Some r, Some code) \<Rightarrow>
                bind_result (stored (record_batch_once (usage_receipt w b i model u) d)) (\<lambda>(ok, d1).
                bind_result (stored (update_item (bi_id i) (imported_row w rid code u cost (iw_dumps w line)) (iw_now w) d1)) (\<lambda>d2.
                  Inr (''imported'',
                    if truthy_text (bi_job_item_id i)
                    then set_queue (snd (complete_batch_item (str_text (b_job_id b)) (coalesce_text (bi_job_item_id i)) r cost (iw_now w) (the_queue d2))) d2
                    else d2)))
            | _ \<Rightarrow> Inl Crash)"

definition rejected :: "import_world \<Rightarrow> batch \<Rightarrow> batch_item \<Rightarrow> string \<Rightarrow> string \<Rightarrow> batch_db \<Rightarrow> import_error + (string \<times> batch_db)" where
  "rejected w b i code status d = map_sum id (Pair status) (mark_item_error w b i code status d)"

definition import_success :: "import_world \<Rightarrow> batch \<Rightarrow> batch_item \<Rightarrow> json \<Rightarrow> json \<Rightarrow> batch_db \<Rightarrow> import_error + (string \<times> batch_db)" where
  "import_success w b i line body d =
     bind_result (persist_result_receipt w b i line body d) (\<lambda>d1.
       let submitted = sp_fingerprint (spec b) in
       if pbi_status i = ''imported'' then Inr (''already_imported'', d1)
       else if \<not> open_result (pbi_status i) then Inr (pbi_status i, d1)
       else if iw_current_fp w \<noteq> Some submitted \<or> iw_plan_fp w \<noteq> submitted \<or> bi_fingerprint i \<noteq> submitted
       then rejected w b i ''BATCH-STALE-ANALYSIS-FINGERPRINT'' ''stale'' d1
       else if \<not> iw_photo w (str_text (bi_photo_id i)) then rejected w b i ''BATCH-PHOTO-MISSING'' ''stale'' d1
       else case iw_request_fp w i of
         None \<Rightarrow> Inl Crash
       | Some fp \<Rightarrow>
           if iw_sha w (str_text (bi_photo_id i)) \<noteq> py_casefold (str_text (content_sha256 i)) \<or> fp \<noteq> vision_request_fingerprint i
           then rejected w b i ''BATCH-STALE'' ''stale'' d1
           else
             (case (if sp_endpoint (spec b) = ''/v1/responses'' then responses_to_completion (iw_str w) body else Some body) of
                None \<Rightarrow> rejected w b i ''BATCH-RESPONSE-BODY'' ''schema_invalid'' d1
              | Some c \<Rightarrow>
                  (case completion_of (iw_str w) c of
                     Raises \<Rightarrow> Inl Crash
                   | Incomplete \<Rightarrow> rejected w b i ''VLM-INCOMPLETE'' ''schema_invalid'' d1
                   | NoText \<Rightarrow> rejected w b i ''BATCH-RESPONSE-BODY'' ''schema_invalid'' d1
                   | Content t \<Rightarrow>
                       if \<not> iw_valid w t then rejected w b i ''schema_invalid'' ''schema_invalid'' d1
                       else save_imported w b i line body t d1)))"

section \<open>The loops of an import\<close>

definition receipt_of :: "import_world \<Rightarrow> batch \<Rightarrow> batch_item \<Rightarrow> json \<Rightarrow> batch_db \<Rightarrow> import_error + batch_db" where
  "receipt_of w b i line d =
     (let response = get_key line ''response''; body = get_key response ''body'' in
      if is_dict response \<and> is_dict body then persist_result_receipt w b i line body d else Inr d)"

definition import_kind :: "import_world \<Rightarrow> batch \<Rightarrow> batch_item \<Rightarrow> string \<Rightarrow> json \<Rightarrow> json \<Rightarrow> batch_db \<Rightarrow> import_error + batch_db" where
  "import_kind w b i k line body d =
     (if k = ''duplicate'' then mark_item_error w b i ''duplicate_custom_id'' ''duplicate_custom_id'' d
      else if k = ''error''
      then (let error = or_else (get_key line ''error'') (JObj []) in
            if \<not> is_dict error then Inl Crash
            else mark_item_error w b i (iw_str w (or_else (get_key error ''code'') (JStr ''BATCH-HTTP-ERROR''))) ''failed'' d)
      else if k = ''schema_invalid'' then mark_item_error w b i ''BATCH-RESPONSE-BODY'' ''schema_invalid'' d
      else if k = ''success'' \<and> body \<noteq> JNull then map_sum id snd (import_success w b i line body d)
      else Inr d)"

definition import_record :: "import_world \<Rightarrow> batch \<Rightarrow> batch_item list \<Rightarrow> string \<times> json \<Rightarrow> batch_db \<Rightarrow> import_error + batch_db" where
  "import_record w b expected entry d =
     (case List.find (\<lambda>i. custom_id i = fst entry) expected of
        None \<Rightarrow> Inr d
      | Some i \<Rightarrow>
          (case snd entry of
             JArr [JStr k, line, body] \<Rightarrow> bind_result (receipt_of w b i line d) (import_kind w b i k line body)
           | _ \<Rightarrow> Inl Crash))"

definition NO_RESULT_STATUSES :: "string list" where
  "NO_RESULT_STATUSES = [''imported'', ''failed'', ''schema_invalid'', ''stale'', ''duplicate_custom_id'']"

definition mark_missing :: "import_world \<Rightarrow> batch \<Rightarrow> string list \<Rightarrow> batch_item \<Rightarrow> batch_db \<Rightarrow> import_error + batch_db" where
  "mark_missing w b seen i d =
     (if custom_id i \<in> set seen \<or> pbi_status i \<in> set NO_RESULT_STATUSES then Inr d
      else bind_result (stored (update_item (bi_id i) (\<lambda>j. j\<lparr>pbi_status := ''retry_pending'', bi_error_code := Some ''missing_result''\<rparr>) (iw_now w) d)) (\<lambda>d1.
        Inr (if truthy_text (bi_job_item_id i) then fail_job_item w b i ''missing_result'' d1 else d1)))"

definition staged_entries :: "string \<Rightarrow> string \<Rightarrow> batch_db \<Rightarrow> (string \<times> json) list" where
  "staged_entries x r d = map (\<lambda>k. (k, case staged_get x r k d of None \<Rightarrow> JNull | Some v \<Rightarrow> v)) (staged_keys x r d)"

text \<open>\<open>b\<close> is the row the import has read at its start.\<close>

definition import_results :: "import_world \<Rightarrow> batch \<Rightarrow> string \<Rightarrow> batch_db \<Rightarrow> import_error + batch_db" where
  "import_results w b run_id d =
     (let x = b_id b; expected = items_of_batch x [] d; seen = staged_keys x run_id d in
      bind_result (if list_all (\<lambda>k. k \<in> set (map custom_id expected)) seen then Inr d
                   else stored (update_batch x (\<lambda>y. y\<lparr>reconciliation_error_code := Some ''unexpected_custom_id''\<rparr>) (iw_now w) d)) (\<lambda>d1.
      bind_result (fold_result (import_record w b expected) (staged_entries x run_id d) d1)
        (fold_result (mark_missing w b seen) expected)))"

section \<open>What a line changes\<close>

definition item_of :: "string \<Rightarrow> batch_db \<Rightarrow> batch_item option" where
  "item_of y d = first_row (\<lambda>i. bi_id i = y) (batch_items d)"

text \<open>Only the item \<open>y\<close> changes, and its status as \<open>st\<close> says (\<open>None\<close>: not at all).\<close>

definition settles :: "string \<Rightarrow> string option \<Rightarrow> batch_db \<Rightarrow> batch_db \<Rightarrow> bool" where
  "settles y st d d' =
     (\<exists>g. keeps_item g \<and> (\<forall>j. bi_batch_id (g j) = bi_batch_id j \<and> pbi_status (g j) = (case st of None \<Rightarrow> pbi_status j | Some s \<Rightarrow> s)) \<and>
        batch_items d' = update_where (\<lambda>j. bi_id j = y) g (batch_items d))"

lemma settles_refl: "batch_items d' = batch_items d \<Longrightarrow> settles y None d d'"
  unfolding settles_def by (intro exI [of _ "\<lambda>j. j"]) (simp add: keeps_item_def update_where_def)

lemma settles_trans:
  assumes "settles y a d e" "settles y b e f"
  shows "settles y (case b of None \<Rightarrow> a | Some s \<Rightarrow> Some s) d f"
proof -
  obtain g where g: "keeps_item g" "\<And>j. bi_batch_id (g j) = bi_batch_id j" "\<And>j. pbi_status (g j) = (case a of None \<Rightarrow> pbi_status j | Some s \<Rightarrow> s)"
    "batch_items e = update_where (\<lambda>j. bi_id j = y) g (batch_items d)" using assms(1) by (auto simp: settles_def)
  obtain h where h: "keeps_item h" "\<And>j. bi_batch_id (h j) = bi_batch_id j" "\<And>j. pbi_status (h j) = (case b of None \<Rightarrow> pbi_status j | Some s \<Rightarrow> s)"
    "batch_items f = update_where (\<lambda>j. bi_id j = y) h (batch_items e)" using assms(2) by (auto simp: settles_def)
  have "batch_items f = update_where (\<lambda>j. bi_id j = y) (h \<circ> g) (batch_items d)"
    using g(1) unfolding h(4) g(4) by (simp add: update_where_def keeps_item_def)
  moreover have "keeps_item (h \<circ> g)" using g(1) h(1) by (simp add: keeps_item_def)
  ultimately show ?thesis unfolding settles_def using g(2,3) h(2,3) by (intro exI [of _ "h \<circ> g"]) (auto split: option.split)
qed

lemma settles_later: "settles y None d e \<Longrightarrow> settles y st e f \<Longrightarrow> settles y st d f"
  using settles_trans [of y None d e st f] by (cases st) simp_all

lemma settles_then_kept: "settles y st d e \<Longrightarrow> batch_items f = batch_items e \<Longrightarrow> settles y st d f"
  using settles_trans [of y st d e None f] settles_refl [of f e y] by simp

lemma stored_Inr: "stored r = Inr x \<longleftrightarrow> r = Inr x"
  by (cases r) (auto simp: stored_def)

lemma stored_Inl: "stored r = Inl e \<longleftrightarrow> (\<exists>f. r = Inl f \<and> e = Store f)"
  by (cases r) (auto simp: stored_def)

lemma record_batch_once_items:
  assumes "record_batch_once u d = Inr (ok, d')" shows "batch_items d' = batch_items d"
  using assms by (auto simp: record_batch_once_def Let_def split: if_splits)

lemma update_item_settles:
  assumes "update_item y g now d = Inr d'" "keeps_item g" "\<And>j. bi_batch_id (g j) = bi_batch_id j" "\<And>j. pbi_status (g j) = s"
  shows "settles y (Some s) d d'"
proof -
  have "batch_items d' = update_where (\<lambda>j. bi_id j = y) (\<lambda>j. (g j)\<lparr>bi_updated_at := now\<rparr>) (batch_items d)"
    using assms(1) by (auto simp: update_item_def bind_result_Inr store_batch_items_def split: if_splits)
  then show ?thesis unfolding settles_def using assms(2-4)
    by (intro exI [of _ "\<lambda>j. (g j)\<lparr>bi_updated_at := now\<rparr>"]) (auto simp: keeps_item_def)
qed

lemma receipt_settles:
  assumes "persist_result_receipt w b i line body d = Inr d'" shows "settles (bi_id i) None d d'"
proof -
  obtain rid ok d1 where "record_batch_once (usage_receipt w b i (served_model w b body) (usage_of (iw_float w) body)) d = Inr (ok, d1)"
    and d': "d' = upd_batch_items (\<lambda>j. bi_id j = bi_id i) (evidence (iw_dumps w line) rid) d1"
    using assms by (auto simp: persist_result_receipt_def Let_def bind_result_Inr stored_Inr split: option.splits)
  then have "batch_items d1 = batch_items d" using record_batch_once_items by blast
  then show ?thesis unfolding settles_def d'
    by (intro exI [of _ "evidence (iw_dumps w line) rid"]) (auto simp: keeps_item_def evidence_def)
qed

lemma fail_job_item_items [simp]: "batch_items (fail_job_item w b i code d) = batch_items d"
  by (simp add: fail_job_item_def)

lemma mark_item_error_settles:
  assumes "mark_item_error w b i code s d = Inr d'" "pbi_status i \<noteq> ''imported''"
  shows "settles (bi_id i) (Some s) d d'"
proof -
  obtain d1 where u: "update_item (bi_id i) (\<lambda>j. j\<lparr>pbi_status := s, bi_error_code := Some code\<rparr>) (iw_now w) d = Inr d1"
    and d': "batch_items d' = batch_items d1"
    using assms by (auto simp: mark_item_error_def bind_result_Inr stored_Inr split: if_splits)
  have "settles (bi_id i) (Some s) d d1" by (rule update_item_settles [OF u]) (simp_all add: keeps_item_def)
  then show ?thesis using d' by (rule settles_then_kept)
qed

lemma rejected_settles:
  assumes "rejected w b i code s d = Inr (t, d')" "pbi_status i \<noteq> ''imported''"
  shows "settles (bi_id i) (Some s) d d'"
  using assms mark_item_error_settles by (auto simp: rejected_def map_sum_Inr)

lemma save_imported_settles:
  assumes "save_imported w b i line body t d = Inr (r, d')" "item_of (bi_id i) d = Some c" "open_result (pbi_status c)"
  shows "settles (bi_id i) (Some ''imported'') d d'"
proof -
  have n: "pbi_status c \<noteq> ''imported''" using assms(3) by (auto simp: open_result_def)
  obtain ok d1 d2 u rid code cost where 1: "record_batch_once u d = Inr (ok, d1)"
    and 2: "update_item (bi_id i) (imported_row w rid code (usage_of (iw_float w) body) cost (iw_dumps w line)) (iw_now w) d1 = Inr d2"
    and 3: "batch_items d' = batch_items d2"
    using assms n by (auto simp: save_imported_def item_of_def Let_def bind_result_Inr stored_Inr split: option.splits)
  have "settles (bi_id i) (Some ''imported'') d1 d2"
    by (rule update_item_settles [OF 2]) (simp_all add: keeps_item_def imported_row_def)
  then show ?thesis using settles_later settles_then_kept [OF _ 3] settles_refl record_batch_once_items [OF 1] by blast
qed

text \<open>The status an answer gives to an item that waits for it.\<close>

definition answer_status :: "import_world \<Rightarrow> batch \<Rightarrow> batch_item \<Rightarrow> json \<Rightarrow> string" where
  "answer_status w b i body =
     (let fp = sp_fingerprint (spec b); p = str_text (bi_photo_id i) in
      if {iw_current_fp w, Some (iw_plan_fp w), Some (bi_fingerprint i)} \<noteq> {Some fp} \<or> \<not> iw_photo w p \<or>
         iw_sha w p \<noteq> py_casefold (str_text (content_sha256 i)) \<or> iw_request_fp w i \<noteq> Some (vision_request_fingerprint i)
      then ''stale''
      else case (if sp_endpoint (spec b) = ''/v1/responses'' then responses_to_completion (iw_str w) body else Some body) of
        None \<Rightarrow> ''schema_invalid''
      | Some c \<Rightarrow> (case completion_of (iw_str w) c of Content t \<Rightarrow> if iw_valid w t then ''imported'' else ''schema_invalid'' | _ \<Rightarrow> ''schema_invalid''))"

text \<open>The status an item has after the import, from its status before and its staged result.\<close>

definition status_after :: "import_world \<Rightarrow> batch \<Rightarrow> batch_item \<Rightarrow> json option \<Rightarrow> string" where
  "status_after w b i result =
     (case result of
        None \<Rightarrow> if pbi_status i \<in> set NO_RESULT_STATUSES then pbi_status i else ''retry_pending''
      | Some v \<Rightarrow>
          (case v of
             JArr [JStr k, line, body] \<Rightarrow>
               if pbi_status i = ''imported'' then ''imported''
               else if k = ''duplicate'' then ''duplicate_custom_id''
               else if k = ''error'' then ''failed''
               else if k = ''schema_invalid'' then ''schema_invalid''
               else if k = ''success'' \<and> body \<noteq> JNull \<and> open_result (pbi_status i) then answer_status w b i body
               else pbi_status i
           | _ \<Rightarrow> pbi_status i))"

text \<open>The item \<open>y\<close> gets the status \<open>s\<close> and no other item changes.\<close>

definition gives :: "string \<Rightarrow> string \<Rightarrow> batch_db \<Rightarrow> batch_db \<Rightarrow> bool" where
  "gives y s d d' = ((\<forall>z. z \<noteq> y \<longrightarrow> item_of z d' = item_of z d) \<and> map_option pbi_status (item_of y d') = Some s)"

lemma settles_gives:
  assumes "settles y st d d'" "item_of y d = Some c"
  shows "gives y (case st of None \<Rightarrow> pbi_status c | Some s \<Rightarrow> s) d d'"
proof -
  obtain g where g: "keeps_item g" "\<And>j. pbi_status (g j) = (case st of None \<Rightarrow> pbi_status j | Some s \<Rightarrow> s)"
    "batch_items d' = update_where (\<lambda>j. bi_id j = y) g (batch_items d)" using assms(1) by (auto simp: settles_def)
  have u: "item_of z d' = map_option (\<lambda>j. if bi_id j = y then g j else j) (item_of z d)" for z
    unfolding item_of_def g(3) using g(1) by (intro first_row_update) (simp add: keeps_item_def)
  have k: "bi_id j = z" if "item_of z d = Some j" for z j using that unfolding item_of_def by (blast dest: first_row_Some)
  have "item_of z d' = item_of z d" if "z \<noteq> y" for z using u [of z] k [of z] that by (cases "item_of z d") auto
  then show ?thesis using u [of y] k [of y] assms(2) g(2) by (simp add: gives_def)
qed

lemma import_success_settles:
  assumes "import_success w b i line body d = Inr (r, d')" "open_result (pbi_status i)"
    and "map_option pbi_status (item_of (bi_id i) d) = Some (pbi_status i)"
  shows "settles (bi_id i) (Some (answer_status w b i body)) d d'"
proof -
  have n: "pbi_status i \<noteq> ''imported''" using assms(2) by (auto simp: open_result_def)
  obtain d1 where p: "persist_result_receipt w b i line body d = Inr d1"
    using assms(1) by (auto simp: import_success_def bind_result_Inr)
  note keep = receipt_settles [OF p]
  have "settles (bi_id i) (Some (answer_status w b i body)) d1 d'"
  proof -
    obtain c0 where c0: "item_of (bi_id i) d = Some c0" "pbi_status c0 = pbi_status i" using assms(3) by auto
    obtain c where c: "item_of (bi_id i) d1 = Some c" "pbi_status c = pbi_status i"
      using settles_gives [OF keep c0(1)] c0(2) by (auto simp: gives_def)
    note rej = rejected_settles [OF _ n]
    note sav = save_imported_settles [OF _ c(1)]
    show ?thesis using assms(1,2) n c(2) rej sav
      unfolding import_success_def p bind_result_simps Let_def answer_status_def
      by (auto split: if_splits option.splits completion.splits)
  qed
  then show ?thesis using keep settles_later by blast
qed

lemma open_not_closed: "open_result s \<Longrightarrow> s \<noteq> ''imported''"
  by (auto simp: open_result_def)

lemma import_kind_gives:
  assumes "import_kind w b i k line body d = Inr d'" "map_option pbi_status (item_of (bi_id i) d) = Some (pbi_status i)"
  shows "gives (bi_id i) (status_after w b i (Some (parsed_result k line body))) d d'"
proof -
  obtain c where c: "item_of (bi_id i) d = Some c" "pbi_status c = pbi_status i" using assms(2) by auto
  let ?r = "Some (parsed_result k line body)"
  have marked: "gives (bi_id i) (if pbi_status i = ''imported'' then ''imported'' else s) d d'" if "mark_item_error w b i code s d = Inr d'" for code s
  proof (cases "pbi_status i = ''imported''")
    case True
    then have "d' = d" using that by (simp add: mark_item_error_def)
    then show ?thesis using True c by (simp add: gives_def)
  next
    case False
    then show ?thesis using settles_gives [OF mark_item_error_settles [OF that False] c(1)] by simp
  qed
  consider (dup) "k = ''duplicate''" "mark_item_error w b i ''duplicate_custom_id'' ''duplicate_custom_id'' d = Inr d'"
    | (error) code where "k = ''error''" "mark_item_error w b i code ''failed'' d = Inr d'"
    | (invalid) "k = ''schema_invalid''" "mark_item_error w b i ''BATCH-RESPONSE-BODY'' ''schema_invalid'' d = Inr d'"
    | (success) r where "k = ''success''" "body \<noteq> JNull" "import_success w b i line body d = Inr (r, d')"
    | (other) "k \<notin> {''duplicate'', ''error'', ''schema_invalid''}" "k = ''success'' \<longrightarrow> body = JNull" "d' = d"
    using assms(1) by (auto simp: import_kind_def Let_def map_sum_Inr split: if_splits)
  then show ?thesis
  proof cases
    case dup
    then show ?thesis using marked by (force simp: status_after_def parsed_result_def)
  next
    case error
    then show ?thesis using marked [OF error(2)] by (simp add: status_after_def parsed_result_def split: if_splits)
  next
    case invalid
    then show ?thesis using marked [OF invalid(2)] by (simp add: status_after_def parsed_result_def split: if_splits)
  next
    case success
    show ?thesis
    proof (cases "open_result (pbi_status i)")
      case True
      then show ?thesis using settles_gives [OF import_success_settles [OF success(3) True assms(2)] c(1)] success open_not_closed [OF True]
        by (simp add: status_after_def parsed_result_def)
    next
      case False
      then have "persist_result_receipt w b i line body d = Inr d'"
        using success(3) by (auto simp: import_success_def bind_result_Inr Let_def split: if_splits)
      from settles_gives [OF receipt_settles [OF this] c(1)] show ?thesis using False c(2) success
        by (auto simp: status_after_def parsed_result_def)
    qed
  next
    case other
    then show ?thesis using c by (auto simp: gives_def status_after_def parsed_result_def)
  qed
qed

lemma import_record_parts:
  assumes "import_record w b expected (k, v) d = Inr d'" "List.find (\<lambda>i. custom_id i = k) expected = Some i"
  obtains kd line body d1 where "v = parsed_result kd line body" "receipt_of w b i line d = Inr d1" "import_kind w b i kd line body d1 = Inr d'"
  using assms by (auto simp: import_record_def parsed_result_def bind_result_Inr split: json.splits list.splits)

lemma import_record_gives:
  assumes "import_record w b expected (k, v) d = Inr d'" "List.find (\<lambda>i. custom_id i = k) expected = Some i"
    "map_option pbi_status (item_of (bi_id i) d) = Some (pbi_status i)"
  shows "gives (bi_id i) (status_after w b i (Some v)) d d'"
proof -
  obtain kd line body d1 where v: "v = parsed_result kd line body" and r: "receipt_of w b i line d = Inr d1"
    and m: "import_kind w b i kd line body d1 = Inr d'"
    by (rule import_record_parts [OF assms(1,2)])
  obtain c where c: "item_of (bi_id i) d = Some c" "pbi_status c = pbi_status i" using assms(3) by auto
  have "settles (bi_id i) None d d1"
    using r receipt_settles settles_refl by (auto simp: receipt_of_def Let_def split: if_splits)
  then have g: "gives (bi_id i) (pbi_status i) d d1" using settles_gives [OF _ c(1)] c(2) by fastforce
  then have "gives (bi_id i) (status_after w b i (Some v)) d1 d'" unfolding v using import_kind_gives [OF m] by (simp add: gives_def)
  then show ?thesis using g by (simp add: gives_def)
qed

lemma found_item:
  assumes "distinct (map custom_id expected)" "i \<in> set expected"
  shows "List.find (\<lambda>j. custom_id j = custom_id i) expected = Some i"
  using first_row_key [OF assms, of "custom_id i"] by (simp add: first_row_def)

lemma import_records_give:
  assumes "fold_result (import_record w b expected) es d = Inr d'" "distinct (map fst es)"
    and ex: "distinct (map bi_id expected)" "distinct (map custom_id expected)"
    and "\<And>i. i \<in> set expected \<Longrightarrow> custom_id i \<in> fst ` set es \<Longrightarrow> map_option pbi_status (item_of (bi_id i) d) = Some (pbi_status i)"
  shows "(\<forall>z. z \<notin> bi_id ` {i \<in> set expected. custom_id i \<in> fst ` set es} \<longrightarrow> item_of z d' = item_of z d) \<and>
    (\<forall>i \<in> set expected. custom_id i \<in> fst ` set es \<longrightarrow>
       map_option pbi_status (item_of (bi_id i) d') = Some (status_after w b i (map_of es (custom_id i))))"
  using assms(1,2,5)
proof (induction es arbitrary: d)
  case (Cons en es)
  obtain k v where en: "en = (k, v)" by (cases en)
  obtain e where e: "import_record w b expected (k, v) d = Inr e" "fold_result (import_record w b expected) es e = Inr d'"
    using Cons.prems(1) by (auto simp: en bind_result_Inr)
  show ?case
  proof (cases "List.find (\<lambda>i. custom_id i = k) expected")
    case None
    then have n: "custom_id i \<noteq> k" if "i \<in> set expected" for i using that by (auto simp: find_None_iff)
    have "e = d" using e(1) None by (simp add: import_record_def)
    moreover have "{i \<in> set expected. custom_id i \<in> fst ` set (en # es)} = {i \<in> set expected. custom_id i \<in> fst ` set es}"
      using n by (auto simp: en)
    ultimately show ?thesis using Cons.IH [of d] Cons.prems e(2) n by (auto simp: en)
  next
    case (Some i)
    then have i: "i \<in> set expected" "custom_id i = k" by (auto simp: find_Some_iff)
    have other: "bi_id j \<noteq> bi_id i \<and> custom_id j \<noteq> k" if "j \<in> set expected" "j \<noteq> i" for j
      using key_inj [OF ex(1) that(1) i(1)] key_inj [OF ex(2) that(1) i(1)] that(2) i(2) by metis
    have g: "gives (bi_id i) (status_after w b i (Some v)) d e"
      using import_record_gives [OF e(1) Some] Cons.prems(3) i by (simp add: en)
    have k: "k \<notin> fst ` set es" using Cons.prems(2) by (simp add: en)
    have pre: "map_option pbi_status (item_of (bi_id j) e) = Some (pbi_status j)" if "j \<in> set expected" "custom_id j \<in> fst ` set es" for j
    proof -
      have "j \<noteq> i" using that(2) k i(2) by blast
      then show ?thesis using other [OF that(1)] g Cons.prems(3) [OF that(1)] that(2) by (simp add: gives_def)
    qed
    have d: "distinct (map fst es)" using Cons.prems(2) by simp
    note IH = Cons.IH [OF e(2) d pre]
    have "bi_id i \<notin> bi_id ` {j \<in> set expected. custom_id j \<in> fst ` set es}" using k i(2) other by fastforce
    then have mine: "item_of (bi_id i) d' = item_of (bi_id i) e" using IH by blast
    have eq: "item_of z d' = item_of z d" if "z \<notin> bi_id ` {j \<in> set expected. custom_id j \<in> fst ` set (en # es)}" for z
    proof -
      have "z \<noteq> bi_id i" "z \<notin> bi_id ` {j \<in> set expected. custom_id j \<in> fst ` set es}" using that i by (auto simp: en)
      then show ?thesis using IH g by (simp add: gives_def)
    qed
    have "map_option pbi_status (item_of (bi_id j) d') = Some (status_after w b j (map_of (en # es) (custom_id j)))"
      if j: "j \<in> set expected" "custom_id j \<in> fst ` set (en # es)" for j
    proof (cases "j = i")
      case True
      then show ?thesis using mine g i(2) by (simp add: en gives_def)
    next
      case False
      then show ?thesis using other [OF j(1)] j IH by (auto simp: en)
    qed
    then show ?thesis using eq by blast
  qed
qed simp

lemma mark_missing_gives:
  assumes "mark_missing w b seen i d = Inr d'" "custom_id i \<notin> set seen" "map_option pbi_status (item_of (bi_id i) d) = Some (pbi_status i)"
  shows "gives (bi_id i) (status_after w b i None) d d'"
proof (cases "pbi_status i \<in> set NO_RESULT_STATUSES")
  case True
  then have "d' = d" using assms(1) by (simp add: mark_missing_def)
  then show ?thesis using True assms(3) by (simp add: gives_def status_after_def)
next
  case False
  obtain c where c: "item_of (bi_id i) d = Some c" using assms(3) by auto
  obtain d1 where u: "update_item (bi_id i) (\<lambda>j. j\<lparr>pbi_status := ''retry_pending'', bi_error_code := Some ''missing_result''\<rparr>) (iw_now w) d = Inr d1"
    and d': "batch_items d' = batch_items d1"
    using assms(1,2) False by (auto simp: mark_missing_def bind_result_Inr stored_Inr split: if_splits)
  have "settles (bi_id i) (Some ''retry_pending'') d d1" by (rule update_item_settles [OF u]) (simp_all add: keeps_item_def)
  from settles_gives [OF settles_then_kept [OF this d'] c] show ?thesis using False by (simp add: status_after_def)
qed

lemma mark_all_missing_gives:
  assumes "fold_result (mark_missing w b seen) rows d = Inr d'" "distinct (map bi_id rows)"
    and "\<And>i. i \<in> set rows \<Longrightarrow> custom_id i \<notin> set seen \<Longrightarrow> map_option pbi_status (item_of (bi_id i) d) = Some (pbi_status i)"
  shows "(\<forall>z. z \<notin> bi_id ` {i \<in> set rows. custom_id i \<notin> set seen} \<longrightarrow> item_of z d' = item_of z d) \<and>
    (\<forall>i \<in> set rows. custom_id i \<notin> set seen \<longrightarrow> map_option pbi_status (item_of (bi_id i) d') = Some (status_after w b i None))"
  using assms
proof (induction rows arbitrary: d)
  case (Cons i rows)
  obtain e where e: "mark_missing w b seen i d = Inr e" "fold_result (mark_missing w b seen) rows e = Inr d'"
    using Cons.prems(1) by (auto simp: bind_result_Inr)
  have rest: "bi_id i \<notin> bi_id ` set rows" "distinct (map bi_id rows)" using Cons.prems(2) by auto
  show ?case
  proof (cases "custom_id i \<in> set seen")
    case True
    then have "e = d" using e(1) by (simp add: mark_missing_def)
    then show ?thesis using Cons.IH [OF e(2) rest(2)] Cons.prems(3) True by auto
  next
    case False
    have g: "gives (bi_id i) (status_after w b i None) d e" using mark_missing_gives [OF e(1) False] Cons.prems(3) False by simp
    have pre: "map_option pbi_status (item_of (bi_id j) e) = Some (pbi_status j)" if "j \<in> set rows" "custom_id j \<notin> set seen" for j
    proof -
      have "bi_id j \<noteq> bi_id i" using that(1) rest(1) by (metis image_eqI)
      then show ?thesis using g Cons.prems(3) [of j] that by (simp add: gives_def)
    qed
    note IH = Cons.IH [OF e(2) rest(2) pre]
    have "item_of (bi_id i) d' = item_of (bi_id i) e" using IH rest(1) by (auto simp: image_iff)
    moreover have "item_of z d' = item_of z d" if "z \<notin> bi_id ` {j \<in> set (i # rows). custom_id j \<notin> set seen}" for z
    proof -
      have "z \<noteq> bi_id i" "z \<notin> bi_id ` {j \<in> set rows. custom_id j \<notin> set seen}" using that False by auto
      then show ?thesis using IH g by (simp add: gives_def)
    qed
    ultimately show ?thesis using IH g by (auto simp: gives_def)
  qed
qed simp

lemma staged_entries_facts:
  "distinct (map fst (staged_entries x r d))" "fst ` set (staged_entries x r d) = set (staged_keys x r d)"
  "k \<in> set (staged_keys x r d) \<Longrightarrow> map_of (staged_entries x r d) k = staged_get x r k d"
proof -
  have "map fst (staged_entries x r d) = staged_keys x r d" by (simp add: staged_entries_def comp_def)
  then show "distinct (map fst (staged_entries x r d))" "fst ` set (staged_entries x r d) = set (staged_keys x r d)"
    by (simp_all add: staged.keys_distinct flip: set_map)
  show "map_of (staged_entries x r d) k = staged_get x r k d" if "k \<in> set (staged_keys x r d)"
  proof -
    have "map_of (staged_entries x r d) k = Some (case staged_get x r k d of None \<Rightarrow> JNull | Some v \<Rightarrow> v)"
      unfolding staged_entries_def using that by (simp add: map_of_map_restrict)
    moreover have "staged_get x r k d \<noteq> None" using that staged.keys_get [of x r d] by blast
    ultimately show ?thesis by auto
  qed
qed

lemma item_present: "items_ok (batch_items d) \<Longrightarrow> j \<in> set (batch_items d) \<Longrightarrow> item_of (bi_id j) d = Some j"
  unfolding item_of_def by (rule first_row_key) (simp_all add: items_ok_def)

lemma expected_items:
  assumes "items_ok (batch_items d)"
  shows "distinct (map bi_id (items_of_batch x [] d))" "distinct (map custom_id (items_of_batch x [] d))"
    "set (items_of_batch x [] d) = {i \<in> set (batch_items d). bi_batch_id i = x}"
proof -
  have dist: "distinct (map bi_id (batch_items d))" "distinct (map custom_id (batch_items d))" using assms by (simp_all add: items_ok_def)
  show set: "set (items_of_batch x [] d) = {i \<in> set (batch_items d). bi_batch_id i = x}" by (auto simp: items_of_batch_def)
  have "distinct (items_of_batch x [] d)" using dist(1) by (simp add: items_of_batch_def distinct_map)
  then show "distinct (map bi_id (items_of_batch x [] d))" "distinct (map custom_id (items_of_batch x [] d))"
    using dist set by (auto simp: distinct_map inj_on_def)
qed

lemma update_batch_items: "update_batch x f now d = Inr d' \<Longrightarrow> batch_items d' = batch_items d \<and> batch_usages d' = batch_usages d"
  by (auto simp: update_batch_def bind_result_Inr store_batches_Inr split: if_splits)

lemma import_results_parts:
  assumes "import_results w b r d = Inr d'"
  obtains d1 d2 where "batch_items d1 = batch_items d" "batch_usages d1 = batch_usages d" "fold_result (import_record w b (items_of_batch (b_id b) [] d)) (staged_entries (b_id b) r d) d1 = Inr d2"
    "fold_result (mark_missing w b (staged_keys (b_id b) r d)) (items_of_batch (b_id b) [] d) d2 = Inr d'"
proof -
  obtain d1 d2 where 1: "(if list_all (\<lambda>k. k \<in> set (map custom_id (items_of_batch (b_id b) [] d))) (staged_keys (b_id b) r d) then Inr d
        else stored (update_batch (b_id b) (\<lambda>y. y\<lparr>reconciliation_error_code := Some ''unexpected_custom_id''\<rparr>) (iw_now w) d)) = Inr d1"
    and 2: "fold_result (import_record w b (items_of_batch (b_id b) [] d)) (staged_entries (b_id b) r d) d1 = Inr d2"
      "fold_result (mark_missing w b (staged_keys (b_id b) r d)) (items_of_batch (b_id b) [] d) d2 = Inr d'"
    using assms unfolding import_results_def Let_def bind_result_Inr by blast
  have "batch_items d1 = batch_items d" "batch_usages d1 = batch_usages d" using 1 by (auto simp: stored_Inr dest: update_batch_items split: if_splits)
  then show ?thesis using 2 by (rule that)
qed

lemma import_results_status:
  assumes "items_ok (batch_items d)" "import_results w b r d = Inr d'"
  shows "i \<in> set (items_of_batch (b_id b) [] d) \<Longrightarrow>
      map_option pbi_status (item_of (bi_id i) d') = Some (status_after w b i (staged_get (b_id b) r (custom_id i) d))"
    and "j \<in> set (batch_items d) \<Longrightarrow> bi_batch_id j \<noteq> b_id b \<Longrightarrow> item_of (bi_id j) d' = Some j"
proof -
  let ?x = "b_id b"
  let ?ex = "items_of_batch ?x [] d"
  let ?es = "staged_entries ?x r d"
  let ?seen = "staged_keys ?x r d"
  note ex = expected_items [OF assms(1), where x = ?x]
  note es = staged_entries_facts [where x = ?x and r = r and d = d]
  obtain d1 d2 where d1: "batch_items d1 = batch_items d" and d2: "fold_result (import_record w b ?ex) ?es d1 = Inr d2"
    and d': "fold_result (mark_missing w b ?seen) ?ex d2 = Inr d'"
    by (rule import_results_parts [OF assms(2)])
  have start: "item_of z d1 = item_of z d" for z by (simp add: item_of_def d1)
  have now: "map_option pbi_status (item_of (bi_id i) d1) = Some (pbi_status i)" if "i \<in> set ?ex" for i
    using that ex(3) item_present [OF assms(1)] start by simp
  note rec = import_records_give [OF d2 es(1) ex(1,2) now, unfolded es(2)]
  have pre: "map_option pbi_status (item_of (bi_id i) d2) = Some (pbi_status i)" if "i \<in> set ?ex" "custom_id i \<notin> set ?seen" for i
  proof -
    have "bi_id i \<notin> bi_id ` {j \<in> set ?ex. custom_id j \<in> set ?seen}" using that key_inj [OF ex(1)] by blast
    then show ?thesis using rec now [OF that(1)] by simp
  qed
  note mis = mark_all_missing_gives [OF d' ex(1) pre]
  show "map_option pbi_status (item_of (bi_id i) d') = Some (status_after w b i (staged_get ?x r (custom_id i) d))" if i: "i \<in> set ?ex"
  proof (cases "custom_id i \<in> set ?seen")
    case True
    then have "bi_id i \<notin> bi_id ` {j \<in> set ?ex. custom_id j \<notin> set ?seen}" using i key_inj [OF ex(1)] by blast
    then have "item_of (bi_id i) d' = item_of (bi_id i) d2" using mis by blast
    moreover have "map_option pbi_status (item_of (bi_id i) d2) = Some (status_after w b i (map_of ?es (custom_id i)))" using rec i True by blast
    ultimately show ?thesis unfolding es(3) [OF True] by simp
  next
    case False
    moreover have "staged_get ?x r (custom_id i) d = None" using False staged.keys_get [of ?x r d] by blast
    ultimately show ?thesis using mis i by simp
  qed
  show "item_of (bi_id j) d' = Some j" if j: "j \<in> set (batch_items d)" "bi_batch_id j \<noteq> ?x"
  proof -
    have "bi_id j \<noteq> bi_id i" if "i \<in> set ?ex" for i
      using that j ex(3) key_inj [of bi_id "batch_items d" j i] assms(1) by (auto simp: items_ok_def)
    then have "bi_id j \<notin> bi_id ` set ?ex" by blast
    then have "item_of (bi_id j) d2 = item_of (bi_id j) d1" "item_of (bi_id j) d' = item_of (bi_id j) d2"
      using rec mis by blast+
    then show ?thesis using start item_present [OF assms(1) j(1)] by simp
  qed
qed

section \<open>An import follows the lines of its files\<close>

definition staged_of :: "(string \<Rightarrow> json option) \<Rightarrow> string option \<Rightarrow> string option \<Rightarrow> string \<Rightarrow> json option" where
  "staged_of loads out err k =
     (case filter (\<lambda>t. fst t = k) (file_entries loads False out @ file_entries loads True err) of
        [] \<Rightarrow> None | [t] \<Rightarrow> Some (fst (snd t)) | t # ts \<Rightarrow> Some (snd (snd (last ts))))"

lemma answer_status_final: "answer_status w b i body \<in> {''stale'', ''schema_invalid'', ''imported''}"
  by (auto simp: answer_status_def Let_def split: option.split completion.split)

lemma classify_result:
  "\<exists>k line body. classify_record e record = parsed_result k line body \<and> k \<in> {''error'', ''schema_invalid'', ''success''} \<and> (k = ''success'' \<longrightarrow> body \<noteq> JNull)"
proof -
  have "v \<noteq> JNull" if "is_dict v" for v using that by auto
  then show ?thesis by (auto simp: classify_record_def Let_def parsed_result_def)
qed

lemma file_entry_result:
  assumes "t \<in> set (file_entries loads e content)"
  shows "\<exists>k line body. fst (snd t) = parsed_result k line body \<and> k \<in> {''error'', ''schema_invalid'', ''success''} \<and> (k = ''success'' \<longrightarrow> body \<noteq> JNull)"
    and "\<exists>line. snd (snd t) = parsed_result ''duplicate'' line JNull"
proof -
  have "t \<in> set (List.map_filter (line_entry loads e) ls) \<Longrightarrow> \<exists>l. line_entry loads e l = Some t" for ls
    by (induction ls) (auto simp: map_filter_simps split: option.splits)
  then obtain l where "line_entry loads e l = Some t" using assms by (auto simp: file_entries_def)
  then obtain k rec where "t = (k, classify_record e rec, parsed_result ''duplicate'' rec JNull)"
    by (auto simp: line_entry_def split: line_content.splits)
  then show "\<exists>k line body. fst (snd t) = parsed_result k line body \<and> k \<in> {''error'', ''schema_invalid'', ''success''} \<and> (k = ''success'' \<longrightarrow> body \<noteq> JNull)"
    "\<exists>line. snd (snd t) = parsed_result ''duplicate'' line JNull" using classify_result by auto
qed

lemma staged_of_cases:
  assumes "staged_of loads out err k = Some v"
  obtains line where "v = parsed_result ''duplicate'' line JNull"
  | kd line body where "v = parsed_result kd line body" "kd \<in> {''error'', ''schema_invalid'', ''success''}" "kd = ''success'' \<Longrightarrow> body \<noteq> JNull"
proof -
  let ?ts = "filter (\<lambda>t. fst t = k) (file_entries loads False out @ file_entries loads True err)"
  have from_file: "\<exists>e c. t \<in> set (file_entries loads e c)" if "t \<in> set ?ts" for t using that by auto
  consider t where "?ts = [t]" "v = fst (snd t)" | t u ts where "?ts = t # u # ts" "v = snd (snd (last (u # ts)))"
    using assms by (auto simp: staged_of_def split: list.splits)
  then show ?thesis
  proof cases
    case (1 t)
    then obtain e c where "t \<in> set (file_entries loads e c)" using from_file by auto
    from file_entry_result(1) [OF this] 1(2) that(2) show ?thesis by blast
  next
    case (2 t u ts)
    have "last (u # ts) \<in> set ?ts" unfolding 2(1) by (simp add: last_in_set)
    then obtain e c where "last (u # ts) \<in> set (file_entries loads e c)" using from_file by blast
    from file_entry_result(2) [OF this] 2(2) that(1) show ?thesis by blast
  qed
qed

lemma status_after_settled:
  "status_after w b i (staged_of loads out err k) \<notin> {''pending'', ''submitted''}"
proof (cases "staged_of loads out err k")
  case None
  then show ?thesis by (auto simp: status_after_def NO_RESULT_STATUSES_def)
next
  case (Some v)
  note a = answer_status_final [of w b i]
  from Some show ?thesis
  proof (cases rule: staged_of_cases)
    case 1
    then show ?thesis using Some by (simp add: status_after_def parsed_result_def)
  next
    case (2 kd line body)
    show ?thesis
    proof (cases "pbi_status i = ''imported'' \<or> kd \<noteq> ''success'' \<or> \<not> open_result (pbi_status i)")
      case True
      then show ?thesis using 2 Some by (auto simp: status_after_def parsed_result_def open_result_def)
    next
      case False
      then show ?thesis using 2 Some a [of body] by (auto simp: status_after_def parsed_result_def)
    qed
  qed
qed

text \<open>C18. An import follows the lines of the result files: after both files were read and the import has returned, every item of
  the batch has the status that its own status and the lines with its id determine, and none still waits for
  its result; the items of other batches have not changed.\<close>

theorem import_follows_lines:
  assumes "wf_batches d" "find_batch x d = Some b0" "\<forall>k. staged_get x r k d = None"
    "read_files loads digest x r t1 t2 out err d = (None, d1)" "b_id b = x" "import_results w b r d1 = Inr d2"
  shows "(\<forall>i \<in> set (items_of_batch x [] d). \<exists>i'. item_of (bi_id i) d2 = Some i' \<and>
      pbi_status i' = status_after w b i (staged_of loads out err (custom_id i)) \<and> pbi_status i' \<notin> {''pending'', ''submitted''}) \<and>
    (\<forall>j \<in> set (batch_items d). bi_batch_id j \<noteq> x \<longrightarrow> item_of (bi_id j) d2 = Some j)"
proof -
  have ok: "batches_ok (batches d)" "items_ok (batch_items d)" using assms(1) by (simp_all add: wf_batches_def)
  have items: "batch_items d1 = batch_items d" by (rule read_files_content(5) [OF ok(1) assms(2,3,4)])
  then have ex: "items_of_batch x [] d1 = items_of_batch x [] d" by (simp add: items_of_batch_def)
  have staged: "staged_get x r k d1 = staged_of loads out err k" for k
    unfolding staged_of_def by (rule read_files_content(2) [OF ok(1) assms(2,3,4)])
  have ok1: "items_ok (batch_items d1)" using ok(2) items by simp
  note st = import_results_status [OF ok1 assms(6), unfolded assms(5) ex staged items]
  have "\<exists>i'. item_of (bi_id i) d2 = Some i' \<and> pbi_status i' = status_after w b i (staged_of loads out err (custom_id i)) \<and>
      pbi_status i' \<notin> {''pending'', ''submitted''}" if "i \<in> set (items_of_batch x [] d)" for i
    using st(1) [OF that] status_after_settled [of w b i loads out err "custom_id i"] by (auto simp del: insert_iff)
  then show ?thesis using st(2) by blast
qed

definition demo_answer :: json where
  "demo_answer = JObj [(''custom_id'', JStr demo_custom_id), (''response'', JObj [(''status_code'', JInt 200), (''request_id'', JStr ''q1''),
     (''body'', JObj [(''choices'', JArr [JObj [(''finish_reason'', JStr ''stop''), (''message'', JObj [(''content'', JStr ''{}'')])]])])])]"

definition demo_answers :: "string \<Rightarrow> json option" where
  "demo_answers l = (if l = ''A'' then Some demo_answer else None)"

definition demo_asked :: batch_db where
  "demo_asked = snd (projr (create_with_items demo_new_batch
     [(demo_new_item ''x1'' ''i1'' ''p1'')\<lparr>ni_custom_id := demo_custom_id\<rparr>, demo_new_item ''x2'' ''i2'' ''p2''] 2 demo_batch_empty))"

definition demo_import :: import_world where
  "demo_import = \<lparr>iw_str = example_str, iw_float = (\<lambda>v. None), iw_dumps = (\<lambda>v. ''line''), iw_digest = (\<lambda>s. s), iw_estimate = (\<lambda>m u. Some 1), iw_now = 9,
     iw_current_fp = Some ''fp'', iw_plan_fp = ''fp'', iw_photo = (\<lambda>p. True), iw_sha = (\<lambda>p. ''sha-'' @ p), iw_request_fp = (\<lambda>i. Some ''v''),
     iw_valid = (\<lambda>t. True), iw_saved = (\<lambda>i t. Some \<lparr>r_json = JNull, r_stage = None, r_outcome_code = None, r_outcome = None, r_error_code = None\<rparr>)\<rparr>"

definition demo_read :: batch_db where
  "demo_read = snd (read_files demo_answers id ''b1'' ''r1'' 7 8 (Some ''A'') None demo_asked)"

lemma demo_asked_facts:
  "wf_batches demo_asked" "find_batch ''b1'' demo_asked = Some (the (find_batch ''b1'' demo_asked))" "\<forall>k. staged_get ''b1'' ''r1'' k demo_asked = None"
  "read_files demo_answers id ''b1'' ''r1'' 7 8 (Some ''A'') None demo_asked = (None, demo_read)"
proof -
  have "create_with_items demo_new_batch [(demo_new_item ''x1'' ''i1'' ''p1'')\<lparr>ni_custom_id := demo_custom_id\<rparr>, demo_new_item ''x2'' ''i2'' ''p2''] 2 demo_batch_empty =
      Inr (2, demo_asked)" unfolding demo_asked_def by (rule returned; code_simp)
  then have "batch_step demo_batch_empty demo_asked" by (intro batch_step.create) (simp_all add: demo_new_batch_def demo_new_item_def)
  then show "wf_batches demo_asked" using demo_batch_wf_empty wf_batch_step by blast
  show "find_batch ''b1'' demo_asked = Some (the (find_batch ''b1'' demo_asked))" by code_simp
  have "batch_result_staging demo_asked = []" by code_simp
  then show "\<forall>k. staged_get ''b1'' ''r1'' k demo_asked = None" by (simp add: staged_get_def)
  show "read_files demo_answers id ''b1'' ''r1'' 7 8 (Some ''A'') None demo_asked = (None, demo_read)"
    unfolding demo_read_def by (rule prod_eqI; code_simp)
qed

theorem import_follows_lines_witness:
  "\<exists>b d2 i1 i2. find_batch ''b1'' demo_asked = Some b \<and> import_results demo_import b ''r1'' demo_read = Inr d2 \<and>
     item_of ''x1'' d2 = Some i1 \<and> pbi_status i1 = ''imported'' \<and> item_of ''x2'' d2 = Some i2 \<and> pbi_status i2 = ''retry_pending''"
proof -
  let ?b = "the (find_batch ''b1'' demo_asked)"
  let ?r = "import_results demo_import ?b ''r1'' demo_read"
  have b: "b_id ?b = ''b1''" by code_simp
  have "isl ?r = False" by code_simp
  then have r: "?r = Inr (projr ?r)" by (cases ?r) simp_all
  note c = import_follows_lines [OF demo_asked_facts b r]
  let ?i1 = "the (item_of ''x1'' demo_asked)" and ?i2 = "the (item_of ''x2'' demo_asked)"
  have i: "?i1 \<in> set (items_of_batch ''b1'' [] demo_asked)" "?i2 \<in> set (items_of_batch ''b1'' [] demo_asked)"
    "bi_id ?i1 = ''x1''" "bi_id ?i2 = ''x2''" by code_simp+
  have s: "status_after demo_import ?b ?i1 (staged_of demo_answers (Some ''A'') None (custom_id ?i1)) = ''imported''"
    "status_after demo_import ?b ?i2 (staged_of demo_answers (Some ''A'') None (custom_id ?i2)) = ''retry_pending''" by code_simp+
  from c i s have "\<exists>i1. item_of ''x1'' (projr ?r) = Some i1 \<and> pbi_status i1 = ''imported''"
    "\<exists>i2. item_of ''x2'' (projr ?r) = Some i2 \<and> pbi_status i2 = ''retry_pending''" by fastforce+
  then show ?thesis using demo_asked_facts(2) r by blast
qed

end
