(* ===== verification/Import_Receipts.thy ===== *)
theory Import_Receipts
  imports Batch_Import
begin

text \<open>
  What an import of batch results books and what can stop it: the usage rows of
  \<^verbatim>\<open>inktime/app/repositories/usage.py\<close>, and the constraints of the tables along \<^verbatim>\<open>import_batch\<close> of
  \<^verbatim>\<open>inktime/app/services/batch_analysis.py\<close>.
\<close>

section \<open>Every answer is booked once\<close>

definition books :: "batch_db \<Rightarrow> batch_db \<Rightarrow> bool" where
  "books d d' =
     ((\<exists>vs. batch_usages d' = batch_usages d @ vs) \<and> (unique_key bu_item_id (batch_usages d) \<longrightarrow> unique_key bu_item_id (batch_usages d')))"

lemma books_refl: "batch_usages d' = batch_usages d \<Longrightarrow> books d d'"
  by (simp add: books_def)

lemma books_trans: "books d e \<Longrightarrow> books e f \<Longrightarrow> books d f"
  by (auto simp: books_def)

lemma books_in: "books d d' \<Longrightarrow> u \<in> set (batch_usages d) \<Longrightarrow> u \<in> set (batch_usages d')"
  by (auto simp: books_def)

lemma unique_key_snoc:
  "unique_key k (xs @ [x]) \<longleftrightarrow> unique_key k xs \<and> (\<forall>y \<in> set xs. k y \<noteq> None \<longrightarrow> k y \<noteq> k x)"
proof -
  have s: "set (List.map_filter k xs) = {v. \<exists>y \<in> set xs. k y = Some v}" by (induction xs) (auto simp: map_filter_simps split: option.split)
  show ?thesis by (cases "k x") (auto simp: unique_key_def map_filter_append map_filter_simps s)
qed

lemma record_batch_once_books:
  assumes "record_batch_once u d = Inr (ok, d')" shows "books d d'" and "bu_item_id u = Some y \<Longrightarrow> \<exists>v \<in> set (batch_usages d'). bu_item_id v = Some y"
proof -
  consider (old) "list_ex (\<lambda>v. bu_item_id v \<noteq> None \<and> bu_item_id v = bu_item_id u) (batch_usages d)" "d' = d"
    | (new) "\<not> list_ex (\<lambda>v. bu_item_id v \<noteq> None \<and> bu_item_id v = bu_item_id u) (batch_usages d)" "batch_usages d' = batch_usages d @ [u]"
    using assms by (auto simp: record_batch_once_def Let_def set_queue_def split: if_splits)
  then have "books d d' \<and> (bu_item_id u = Some y \<longrightarrow> (\<exists>v \<in> set (batch_usages d'). bu_item_id v = Some y))"
    by cases (auto simp: books_def unique_key_snoc list_ex_iff)
  then show "books d d'" "bu_item_id u = Some y \<Longrightarrow> \<exists>v \<in> set (batch_usages d'). bu_item_id v = Some y" by blast+
qed

lemma update_item_usages: "update_item y g now d = Inr d' \<Longrightarrow> batch_usages d' = batch_usages d"
  by (auto simp: update_item_def bind_result_Inr store_batch_items_def split: if_splits)

lemma usages_simps [simp]:
  "batch_usages (set_queue q d) = batch_usages d" "batch_usages (upd_batch_items p g d) = batch_usages d"
  "batch_usages (fail_job_item w b i code d) = batch_usages d"
  by (simp_all add: set_queue_def upd_batch_items_def fail_job_item_def)

lemma receipt_books:
  assumes "persist_result_receipt w b i line body d = Inr d'"
  shows "books d d'" "\<exists>v \<in> set (batch_usages d'). bu_item_id v = Some (bi_id i)"
proof -
  let ?u = "usage_receipt w b i (served_model w b body) (usage_of (iw_float w) body)"
  obtain ok d1 where r: "record_batch_once ?u d = Inr (ok, d1)" and d': "batch_usages d' = batch_usages d1"
    using assms by (auto simp: persist_result_receipt_def Let_def bind_result_Inr stored_Inr split: option.splits)
  have "bu_item_id ?u = Some (bi_id i)" by (simp add: usage_receipt_def Let_def)
  then show "books d d'" "\<exists>v \<in> set (batch_usages d'). bu_item_id v = Some (bi_id i)"
    using record_batch_once_books [OF r] d' by (auto simp: books_def)
qed

lemma mark_item_error_usages: "mark_item_error w b i code s d = Inr d' \<Longrightarrow> batch_usages d' = batch_usages d"
  by (auto simp: mark_item_error_def bind_result_Inr stored_Inr dest: update_item_usages split: if_splits)

lemma rejected_books: "rejected w b i code s d = Inr (t, d') \<Longrightarrow> books d d'"
  by (auto simp: rejected_def map_sum_Inr dest: mark_item_error_usages intro: books_refl)

lemma save_imported_books:
  assumes "save_imported w b i line body t d = Inr (r, d')" shows "books d d'"
proof -
  consider "d' = d" | u ok d1 d2 g where "record_batch_once u d = Inr (ok, d1)" "update_item (bi_id i) g (iw_now w) d1 = Inr d2" "batch_usages d' = batch_usages d2"
    using assms by (auto simp: save_imported_def Let_def bind_result_Inr stored_Inr split: option.splits if_splits)
  then show ?thesis
  proof cases
    case 2
    then show ?thesis using record_batch_once_books(1) [OF 2(1)] update_item_usages [OF 2(2)] by (simp add: books_def)
  qed (simp add: books_refl)
qed

lemma import_success_books:
  assumes "import_success w b i line body d = Inr (r, d')" shows "books d d'"
proof -
  obtain d1 where p: "persist_result_receipt w b i line body d = Inr d1" using assms by (auto simp: import_success_def bind_result_Inr)
  have "books d1 d'" using assms unfolding import_success_def p bind_result_simps Let_def
    by (auto intro: rejected_books save_imported_books books_refl split: if_splits option.splits completion.splits)
  then show ?thesis using receipt_books(1) [OF p] books_trans by blast
qed

lemma import_kind_books:
  assumes "import_kind w b i k line body d = Inr d'" shows "books d d'"
  using assms by (auto simp: import_kind_def Let_def map_sum_Inr dest: mark_item_error_usages import_success_books intro: books_refl split: if_splits)

lemma import_record_books:
  assumes "import_record w b expected (k, v) d = Inr d'"
  shows "books d d'"
    "List.find (\<lambda>i. custom_id i = k) expected = Some i \<Longrightarrow> v = parsed_result kd line body \<Longrightarrow> is_dict (get_key line ''response'') \<Longrightarrow>
       is_dict (get_key (get_key line ''response'') ''body'') \<Longrightarrow> \<exists>u \<in> set (batch_usages d'). bu_item_id u = Some (bi_id i)"
proof -
  have receipt: "books d d1" if "receipt_of w b j l d = Inr d1" for j l d1
    using that receipt_books(1) by (auto simp: receipt_of_def Let_def intro: books_refl split: if_splits)
  show "books d d'"
  proof (cases "List.find (\<lambda>i. custom_id i = k) expected")
    case None
    then show ?thesis using assms by (simp add: import_record_def books_refl)
  next
    case (Some j)
    obtain l kd' body' d1 where "receipt_of w b j l d = Inr d1" "import_kind w b j kd' l body' d1 = Inr d'"
      by (rule import_record_parts [OF assms Some])
    then show ?thesis using receipt import_kind_books books_trans by blast
  qed
  show "\<exists>u \<in> set (batch_usages d'). bu_item_id u = Some (bi_id i)"
    if found: "List.find (\<lambda>i. custom_id i = k) expected = Some i" "v = parsed_result kd line body" "is_dict (get_key line ''response'')"
      "is_dict (get_key (get_key line ''response'') ''body'')"
  proof -
    obtain d1 where 1: "persist_result_receipt w b i line (get_key (get_key line ''response'') ''body'') d = Inr d1" "import_kind w b i kd line body d1 = Inr d'"
      using assms found by (auto simp: import_record_def parsed_result_def bind_result_Inr receipt_of_def Let_def)
    show ?thesis using receipt_books(2) [OF 1(1)] books_in [OF import_kind_books [OF 1(2)]] by blast
  qed
qed

lemma fold_books:
  assumes "fold_result f es d = Inr d'" "\<And>e d d'. e \<in> set es \<Longrightarrow> f e d = Inr d' \<Longrightarrow> books d d'"
  shows "books d d'" "e \<in> set es \<Longrightarrow> \<exists>d1 d2. f e d1 = Inr d2 \<and> books d2 d'"
proof -
  have "books d d' \<and> (e \<in> set es \<longrightarrow> (\<exists>d1 d2. f e d1 = Inr d2 \<and> books d2 d'))"
    using assms
  proof (induction es arbitrary: d)
    case (Cons a es)
    obtain d1 where d1: "f a d = Inr d1" "fold_result f es d1 = Inr d'" using Cons.prems(1) by (auto simp: bind_result_Inr)
    have "books d1 d' \<and> (e \<in> set es \<longrightarrow> (\<exists>d1 d2. f e d1 = Inr d2 \<and> books d2 d'))"
      using d1(2) Cons.prems(2) by (intro Cons.IH) auto
    moreover have "books d d1" using Cons.prems(2) [of a d d1] d1(1) by simp
    ultimately show ?case using d1(1) books_trans by auto
  qed (simp add: books_refl)
  then show "books d d'" "e \<in> set es \<Longrightarrow> \<exists>d1 d2. f e d1 = Inr d2 \<and> books d2 d'" by blast+
qed

lemma mark_missing_usages: "mark_missing w b seen i d = Inr d' \<Longrightarrow> batch_usages d' = batch_usages d"
  by (auto simp: mark_missing_def bind_result_Inr stored_Inr dest: update_item_usages split: if_splits)

lemma counted_one:
  assumes "unique_key k rows" "v \<in> set rows" "k v = Some y"
  shows "row_count (\<lambda>u. k u = Some y) rows = 1"
  using assms
proof (induction rows)
  case (Cons a rows)
  have s: "set (List.map_filter k rows) = {v. \<exists>y \<in> set rows. k y = Some v}" by (induction rows) (auto simp: map_filter_simps split: option.split)
  show ?case
  proof (cases "k a = Some y")
    case True
    then have "\<forall>u \<in> set rows. k u \<noteq> Some y" using Cons.prems(1) s by (auto simp: unique_key_def map_filter_simps)
    then have "row_count (\<lambda>u. k u = Some y) rows = 0" by (simp add: row_count_def filter_empty_conv)
    then show ?thesis using True by simp
  next
    case False
    then have "v \<in> set rows" using Cons.prems by auto
    moreover have "unique_key k rows" using Cons.prems(1) by (auto simp: unique_key_def map_filter_simps split: option.splits)
    ultimately show ?thesis using Cons.IH Cons.prems(3) False by simp
  qed
qed simp


section \<open>The tables never stop an import\<close>

definition same_refs :: "db \<Rightarrow> db \<Rightarrow> bool" where
  "same_refs q q' = (map p_id (photos q') = map p_id (photos q) \<and> map j_id (jobs q') = map j_id (jobs q))"

text \<open>The constraints hold, and items, photos and jobs are those of \<open>d0\<close>.\<close>

definition steady :: "batch_db \<Rightarrow> batch_db \<Rightarrow> bool" where
  "steady d0 d = (items_ok (batch_items d) \<and> map bi_id (batch_items d) = map bi_id (batch_items d0) \<and> same_refs (the_queue d0) (the_queue d))"

definition unrefused :: "batch_db \<Rightarrow> import_error + batch_db \<Rightarrow> bool" where
  "unrefused d0 r = (case r of Inl e \<Rightarrow> e = Crash | Inr d \<Rightarrow> steady d0 d)"

lemma unrefused_simps [simp]: "unrefused d0 (Inr d) = steady d0 d" "unrefused d0 (Inl e) = (e = Crash)"
  by (simp_all add: unrefused_def)

lemma unrefused_bind: "unrefused d0 r \<Longrightarrow> (\<And>d. steady d0 d \<Longrightarrow> unrefused d0 (f d)) \<Longrightarrow> unrefused d0 (bind_result r f)"
  by (cases r) simp_all

lemma unrefused_fold:
  "steady d0 d \<Longrightarrow> (\<And>e d. e \<in> set es \<Longrightarrow> steady d0 d \<Longrightarrow> unrefused d0 (f e d)) \<Longrightarrow> unrefused d0 (fold_result f es d)"
proof (induction es arbitrary: d)
  case (Cons e es)
  then show ?case by (auto intro: unrefused_bind)
qed simp

lemma same_refs_trans: "same_refs q q' \<Longrightarrow> same_refs q' q'' \<Longrightarrow> same_refs q q''"
  by (simp add: same_refs_def)

lemma steady_queue: "steady d0 d \<Longrightarrow> same_refs (the_queue d) q \<Longrightarrow> steady d0 (set_queue q d)"
  by (auto simp: steady_def intro: same_refs_trans)

lemma refs_kept:
  "same_refs q (snd (fail_batch_item digest x y code now q))" "same_refs q (snd (complete_batch_item x y r cost now q))"
  "same_refs q (add_job_cost x' cost q)"
  by (auto simp: same_refs_def fail_batch_item_def complete_batch_item_def add_job_cost_def Let_def upd_items_def upd_jobs_def add_error_def
      map_update_where comp_def split: option.split)

lemma update_item_steady:
  assumes "steady d0 d" "y \<in> bi_id ` set (batch_items d0)" "keeps_item g" "\<And>j. \<not> reserving_batch_item (g j)"
  shows "\<exists>d'. update_item y g now d = Inr d' \<and> steady d0 d'"
proof -
  let ?g = "\<lambda>j. (g j)\<lparr>bi_updated_at := now\<rparr>"
  have k: "keeps_item ?g" "\<not> reserving_batch_item (?g j)" for j
    using assms(3,4) by (auto simp: keeps_item_def reserving_batch_item_def)
  have ok: "items_ok (update_where (\<lambda>i. bi_id i = y) ?g (batch_items d))"
    using assms(1) k by (intro items_ok_update) (simp_all add: steady_def)
  have dist: "distinct (map bi_id (batch_items d))" using assms(1) unfolding steady_def items_ok_def by blast
  have "y \<in> bi_id ` set (batch_items d)" using assms(1,2) by (metis steady_def set_map)
  then obtain j where "j \<in> set (batch_items d)" "bi_id j = y" by blast
  then have one: "row_count (\<lambda>i. bi_id i = y) (batch_items d) = 1" using dist by (intro row_count_key_one)
  have "map bi_id (update_where (\<lambda>i. bi_id i = y) ?g (batch_items d)) = map bi_id (batch_items d)"
    using k(1) by (simp add: map_update_where keeps_item_def)
  then show ?thesis using ok one assms(1) by (simp add: update_item_def store_batch_items_def steady_def)
qed

lemma fail_job_item_steady: "steady d0 d \<Longrightarrow> steady d0 (fail_job_item w b i code d)"
  unfolding fail_job_item_def by (intro steady_queue refs_kept)

definition references :: "batch_db \<Rightarrow> batch \<Rightarrow> batch_item \<Rightarrow> bool" where
  "references d0 b i =
     (bi_id i \<in> bi_id ` set (batch_items d0) \<and> str_text (bi_photo_id i) \<in> set (map p_id (photos (the_queue d0))) \<and>
      (case b_job_id b of None \<Rightarrow> True | Some x \<Rightarrow> x = [] \<or> x \<in> set (map j_id (jobs (the_queue d0)))))"

lemma record_steady:
  assumes "steady d0 d" "references d0 b i"
  shows "\<exists>ok d'. record_batch_once (usage_receipt w b i model u) d = Inr (ok, d') \<and> steady d0 d'"
proof -
  let ?u = "usage_receipt w b i model u"
  have refs: "usage_refs_ok ?u (the_queue d)"
    using assms by (auto simp: usage_refs_ok_def usage_receipt_def Let_def references_def steady_def same_refs_def truthy_text_def coalesce_text_def simp flip: set_map split: option.splits)
  show ?thesis
  proof (cases "list_ex (\<lambda>v. bu_item_id v \<noteq> None \<and> bu_item_id v = bu_item_id ?u) (batch_usages d)")
    case True
    then show ?thesis using assms(1) by (intro exI [of _ False] exI [of _ d]) (simp add: record_batch_once_def)
  next
    case False
    let ?q = "add_job_cost (u_job_id ?u) (receipt_cost ?u) (the_queue d)"
    let ?q1 = "case u_job_id ?u of None \<Rightarrow> ?q | Some x \<Rightarrow> ?q\<lparr>api_usage_jobs := api_usage_jobs ?q @ [x]\<rparr>"
    have "same_refs (the_queue d) ?q1" using refs_kept(3) by (auto simp: same_refs_def split: option.split)
    then have "steady d0 (set_queue ?q1 (d\<lparr>batch_usages := batch_usages d @ [?u]\<rparr>))"
      using assms(1) by (intro steady_queue) (simp_all add: steady_def the_queue_def)
    then show ?thesis using False refs by (intro exI [of _ True]) (simp add: record_batch_once_def Let_def)
  qed
qed

lemma receipt_unrefused:
  assumes "steady d0 d" "references d0 b i" shows "unrefused d0 (persist_result_receipt w b i line body d)"
proof -
  have ev: "steady d0 (upd_batch_items (\<lambda>j. bi_id j = bi_id i) (evidence raw rid) d1)" if "steady d0 d1" for raw rid d1
  proof -
    have k: "keeps_item (evidence raw rid)" "reserving_batch_item (evidence raw rid j) = reserving_batch_item j" for j
      by (simp_all add: keeps_item_def evidence_def reserving_batch_item_def)
    then have "items_ok (update_where (\<lambda>j. bi_id j = bi_id i) (evidence raw rid) (batch_items d1))"
      using that by (intro items_ok_update) (simp_all add: steady_def)
    moreover have "map bi_id (update_where (\<lambda>j. bi_id j = bi_id i) (evidence raw rid) (batch_items d1)) = map bi_id (batch_items d1)"
      using k(1) by (simp add: map_update_where keeps_item_def)
    ultimately show ?thesis using that by (simp add: steady_def)
  qed
  obtain ok d1 where "record_batch_once (usage_receipt w b i (served_model w b body) (usage_of (iw_float w) body)) d = Inr (ok, d1)" "steady d0 d1"
    using record_steady [OF assms] by blast
  then show ?thesis using ev by (auto simp: persist_result_receipt_def Let_def stored_def split: option.split)
qed

lemma mark_item_error_unrefused:
  assumes "steady d0 d" "references d0 b i" "\<not> active_batch_item s" "s \<noteq> ''success''"
  shows "unrefused d0 (mark_item_error w b i code s d)"
proof -
  obtain d1 where "update_item (bi_id i) (\<lambda>j. j\<lparr>pbi_status := s, bi_error_code := Some code\<rparr>) (iw_now w) d = Inr d1" "steady d0 d1"
    using update_item_steady [OF assms(1), of "bi_id i" "\<lambda>j. j\<lparr>pbi_status := s, bi_error_code := Some code\<rparr>" "iw_now w"] assms(2-4)
    by (auto simp: references_def keeps_item_def reserving_batch_item_def)
  then show ?thesis using assms(1) fail_job_item_steady by (simp add: mark_item_error_def stored_def)
qed

lemma rejected_unrefused:
  assumes "steady d0 d" "references d0 b i" "s = ''stale'' \<or> s = ''schema_invalid''"
  shows "unrefused d0 (map_sum id snd (rejected w b i code s d))"
proof -
  have "unrefused d0 (mark_item_error w b i code s d)"
    using assms by (intro mark_item_error_unrefused) (auto simp: active_batch_item_def)
  then show ?thesis by (cases "mark_item_error w b i code s d") (simp_all add: rejected_def)
qed

lemma save_imported_unrefused:
  assumes "steady d0 d" "references d0 b i" shows "unrefused d0 (map_sum id snd (save_imported w b i line body t d))"
proof -
  have final: "unrefused d0 (map_sum id snd (bind_result (stored (record_batch_once (usage_receipt w b i m u) d)) (\<lambda>(ok, d1).
      bind_result (stored (update_item (bi_id i) (imported_row w rid code u cost raw) (iw_now w) d1)) (\<lambda>d2. Inr (''imported'', h d2)))))"
    if h: "\<And>d. steady d0 d \<Longrightarrow> steady d0 (h d)" for m u rid code cost raw h
  proof -
    obtain ok d1 where 1: "record_batch_once (usage_receipt w b i m u) d = Inr (ok, d1)" "steady d0 d1" using record_steady [OF assms] by blast
    obtain d2 where 2: "update_item (bi_id i) (imported_row w rid code u cost raw) (iw_now w) d1 = Inr d2" "steady d0 d2"
      using update_item_steady [OF 1(2), of "bi_id i" "imported_row w rid code u cost raw" "iw_now w"] assms(2)
      by (auto simp: references_def keeps_item_def imported_row_def reserving_batch_item_def active_batch_item_def)
    show ?thesis using h 1 2 by (simp add: stored_def)
  qed
  have "steady d0 (if c then set_queue (snd (complete_batch_item x y r cost now (the_queue d2))) d2 else d2)" if "steady d0 d2" for c x y r cost now d2
    using that steady_queue [OF that refs_kept(2)] by simp
  note fin = final [OF this]
  show ?thesis using assms(1) fin unfolding save_imported_def Let_def by (auto split: option.split)
qed

lemma import_success_unrefused:
  assumes "steady d0 d" "references d0 b i" shows "unrefused d0 (map_sum id snd (import_success w b i line body d))"
proof (cases "persist_result_receipt w b i line body d")
  case (Inl e)
  then show ?thesis using receipt_unrefused [OF assms, of w line body] by (simp add: import_success_def)
next
  case (Inr d1)
  then have d1: "steady d0 d1" using receipt_unrefused [OF assms, of w line body] by simp
  note rej = rejected_unrefused [OF d1 assms(2)]
  note sav = save_imported_unrefused [OF d1 assms(2)]
  show ?thesis using d1 rej sav unfolding import_success_def Inr bind_result_simps Let_def
    by (simp split: option.split completion.split)
qed

lemma import_kind_unrefused:
  assumes "steady d0 d" "references d0 b i" shows "unrefused d0 (import_kind w b i k line body d)"
proof -
  have m: "unrefused d0 (mark_item_error w b i code s d)" if "s \<in> {''duplicate_custom_id'', ''failed'', ''schema_invalid''}" for code s
    using that by (intro mark_item_error_unrefused [OF assms]) (auto simp: active_batch_item_def)
  show ?thesis using assms(1) m import_success_unrefused [OF assms] by (simp add: import_kind_def Let_def)
qed

lemma import_record_unrefused:
  assumes "steady d0 d" "\<And>i. i \<in> set expected \<Longrightarrow> references d0 b i" shows "unrefused d0 (import_record w b expected en d)"
proof (cases "List.find (\<lambda>i. custom_id i = fst en) expected")
  case None
  then show ?thesis using assms(1) by (simp add: import_record_def)
next
  case (Some i)
  then have i: "references d0 b i" using assms(2) by (auto simp: find_Some_iff)
  have "unrefused d0 (receipt_of w b i line d)" for line
    using assms(1) receipt_unrefused [OF assms(1) i] by (simp add: receipt_of_def Let_def)
  then have "unrefused d0 (bind_result (receipt_of w b i line d) (import_kind w b i k line body))" for line k body
    using import_kind_unrefused i by (blast intro: unrefused_bind)
  then show ?thesis using Some by (simp add: import_record_def split: json.split list.split)
qed

lemma mark_missing_unrefused:
  assumes "steady d0 d" "references d0 b i" shows "unrefused d0 (mark_missing w b seen i d)"
proof -
  obtain d1 where "update_item (bi_id i) (\<lambda>j. j\<lparr>pbi_status := ''retry_pending'', bi_error_code := Some ''missing_result''\<rparr>) (iw_now w) d = Inr d1" "steady d0 d1"
    using update_item_steady [OF assms(1), of "bi_id i" "\<lambda>j. j\<lparr>pbi_status := ''retry_pending'', bi_error_code := Some ''missing_result''\<rparr>" "iw_now w"] assms(2)
    by (auto simp: references_def keeps_item_def reserving_batch_item_def active_batch_item_def)
  then show ?thesis using assms(1) fail_job_item_steady by (simp add: mark_missing_def stored_def)
qed




end
