(* ===== verification/Provider_Router.thy ===== *)
theory Provider_Router
  imports Provider_Quota
begin

text \<open>
  The failover between provider channels: \<^verbatim>\<open>FailoverVisionProvider\<close> of \<^verbatim>\<open>inktime/app/providers/router.py\<close>. A channel
  is named by its place in the list, which stands for its object identity; a provider is described by the
  attributes the router reads. The threads of a worker share the router and its semaphores and have a local
  part each. A method that calls the provider between two critical sections is split there: what other threads
  do meanwhile is an argument. Both clocks (\<^verbatim>\<open>time.monotonic\<close>, \<^verbatim>\<open>time.time\<close>), fresh identifiers and the answers
  of the provider are arguments too. Log messages and the texts of errors are left out.
\<close>

section \<open>State\<close>

text \<open>An exception as the router reads it; \<open>re_http\<close> tells a \<^verbatim>\<open>ProviderHTTPError\<close> from others.\<close>

record route_error =
  re_http :: bool
  re_code :: string
  re_retry_after :: "rat option"
  re_ambiguous :: bool
  re_vision_started :: bool
  re_request_started :: bool

record provider_desc =
  pd_name :: string
  pd_provider_id :: "string option"
  pd_base_url :: string
  pd_api_key :: string
  pd_free_only :: bool
  pd_has_guard :: bool  \<comment> \<open>\<^verbatim>\<open>callable(provider.assert_free_model)\<close>\<close>
  pd_has_quota :: bool  \<comment> \<open>\<^verbatim>\<open>callable(provider.free_daily_quota)\<close>\<close>

record route_channel =
  rc_provider :: provider_desc
  rc_limits :: channel
  rc_priority :: int
  rc_model :: "string option"
  rc_quota_scope :: "string option"  \<comment> \<open>the scope of \<^verbatim>\<open>shared_quota\<close>\<close>
  rc_free_first :: bool
  rc_permits :: nat  \<comment> \<open>free permits of the semaphore\<close>
  request_times :: "rat list"
  token_events :: "(rat \<times> int) list"
  rc_failures :: int
  rc_circuit_until :: rat

record router =
  r_channels :: "route_channel list"
  r_threshold :: int
  r_quota :: quota_db

record thread_local =
  tl_channel :: "nat option"
  tl_reservations :: "nat \<Rightarrow> string option"
  tl_slots :: "nat \<Rightarrow> rat option"
  tl_gate_errors :: "nat \<Rightarrow> route_error option"

definition new_thread :: thread_local where
  "new_thread = \<lparr>tl_channel = None, tl_reservations = Map.empty, tl_slots = Map.empty, tl_gate_errors = Map.empty\<rparr>"

text \<open>The permits of the semaphore a channel is created with.\<close>

definition permits_bound :: "route_channel \<Rightarrow> nat" where
  "permits_bound c = max 1 (max_concurrency (rc_limits c))"

definition new_router :: "route_channel list \<Rightarrow> int \<Rightarrow> quota_db \<Rightarrow> router option" where
  "new_router channels failure_threshold q =
     (if channels = [] then None
      else Some \<lparr>r_channels = sort_key rc_priority channels, r_threshold = failure_threshold, r_quota = q\<rparr>)"

definition at_channel :: "nat \<Rightarrow> (route_channel \<Rightarrow> route_channel) \<Rightarrow> router \<Rightarrow> router" where
  "at_channel i f rt = rt\<lparr>r_channels := (r_channels rt)[i := f (r_channels rt ! i)]\<rparr>"

definition channel_identity :: "route_channel \<Rightarrow> string" where
  "channel_identity c = (case pd_provider_id (rc_provider c) of Some x \<Rightarrow> x | None \<Rightarrow> pd_name (rc_provider c))"

definition call_model :: "route_channel \<Rightarrow> string \<Rightarrow> string option \<Rightarrow> string option" where
  "call_model c meth model =
     (case rc_model c of
        None \<Rightarrow> model
      | Some m \<Rightarrow> if m \<noteq> [] \<and> (meth = ''analyze'' \<or> meth = ''repair_json'') then Some m else model)"

section \<open>Local limits\<close>

definition prune_quota_events :: "rat \<Rightarrow> route_channel \<Rightarrow> route_channel" where
  "prune_quota_events now c =
     c\<lparr>request_times := dropWhile (\<lambda>t. t \<le> now - 60) (request_times c),
       token_events := dropWhile (\<lambda>e. fst e \<le> now - 60) (token_events c)\<rparr>"

definition within_rates :: "rat \<Rightarrow> route_channel \<Rightarrow> bool" where
  "within_rates now c =
     (\<not> rc_circuit_until c > now \<and>
      (requests_per_minute (rc_limits c) = 0 \<or> length (request_times c) < requests_per_minute (rc_limits c)) \<and>
      (tokens_per_minute (rc_limits c) = 0 \<or> sum_list (map snd (token_events c)) < tokens_per_minute (rc_limits c)))"

text \<open>\<open>now\<close> is the monotonic clock and \<open>wall\<close> the time of day; the channel is already pruned.\<close>

definition can_use_channel :: "rat \<Rightarrow> rat \<Rightarrow> quota_db \<Rightarrow> route_channel \<Rightarrow> bool" where
  "can_use_channel now wall q c =
     (case rc_quota_scope c of
        Some s \<Rightarrow> available s (rc_limits c) wall q
      | None \<Rightarrow> within_rates now c)"

definition channel_available :: "rat \<Rightarrow> rat \<Rightarrow> nat \<Rightarrow> router \<Rightarrow> bool \<times> router" where
  "channel_available now wall i rt =
     (let rt1 = at_channel i (prune_quota_events now) rt in (can_use_channel now wall (r_quota rt1) (r_channels rt1 ! i), rt1))"

definition truthy_wait :: "rat option \<Rightarrow> rat" where
  "truthy_wait w = (case w of None \<Rightarrow> 60 | Some x \<Rightarrow> if x = 0 then 60 else x)"

definition wait_for :: "rat \<Rightarrow> rat \<Rightarrow> thread_local \<Rightarrow> router \<Rightarrow> nat \<Rightarrow> rat" where
  "wait_for now wall th rt i =
     (let c = r_channels rt ! i in
      case tl_gate_errors th i of
        Some e \<Rightarrow> truthy_wait (re_retry_after e)
      | None \<Rightarrow>
          (case rc_quota_scope c of
             Some s \<Rightarrow> retry_after s (rc_limits c) wall (r_quota rt)
           | None \<Rightarrow>
               if rc_circuit_until c > now then rc_circuit_until c - now
               else if requests_per_minute (rc_limits c) \<noteq> 0 \<and> length (request_times c) \<ge> requests_per_minute (rc_limits c)
               then max 1 (hd (request_times c) + 60 - now)
               else 5))"

definition not_sent :: "string \<Rightarrow> rat option \<Rightarrow> route_error" where
  "not_sent code wait =
     \<lparr>re_http = True, re_code = code, re_retry_after = wait, re_ambiguous = False, re_vision_started = False, re_request_started = False\<rparr>"

definition least_wait :: "rat list \<Rightarrow> rat" where
  "least_wait delays = (case delays of [] \<Rightarrow> 60 | x # xs \<Rightarrow> fold min xs x)"

definition unavailable :: "rat \<Rightarrow> rat \<Rightarrow> thread_local \<Rightarrow> router \<Rightarrow> nat list \<Rightarrow> route_error" where
  "unavailable now wall th rt channels =
     (let m = least_wait (map (wait_for now wall th rt) channels) in
      case List.find (\<lambda>i. case tl_gate_errors th i of None \<Rightarrow> False | Some e \<Rightarrow> truthy_wait (re_retry_after e) = m) channels of
        Some i \<Rightarrow> the (tl_gate_errors th i)
      | None \<Rightarrow> not_sent ''VLM-005'' (Some (max 1 m)))"

section \<open>The gate of free models\<close>

definition ends_in :: "string \<Rightarrow> string \<Rightarrow> bool" where
  "ends_in suff s = (length suff \<le> length s \<and> drop (length s - length suff) s = suff)"

definition free_model :: "route_channel \<Rightarrow> bool" where
  "free_model c =
     (case rc_model c of None \<Rightarrow> False | Some m \<Rightarrow> m = ''openrouter/free'' \<or> ends_in '':free'' m)"

definition same_account :: "route_channel \<Rightarrow> route_channel \<Rightarrow> bool" where
  "same_account a b =
     (pd_base_url (rc_provider a) \<noteq> [] \<and> pd_api_key (rc_provider a) \<noteq> [] \<and>
      pd_base_url (rc_provider a) = pd_base_url (rc_provider b) \<and> pd_api_key (rc_provider a) = pd_api_key (rc_provider b))"

definition until_midnight :: "rat \<Rightarrow> rat" where
  "until_midnight wall = max 1 (86400 - (wall - 86400 * of_int \<lfloor>wall / 86400\<rfloor>))"

text \<open>The free channel whose quota decides, \<^verbatim>\<open>free\<close> in the code.\<close>

definition free_channel :: "router \<Rightarrow> nat \<Rightarrow> nat option" where
  "free_channel rt i =
     (let c = r_channels rt ! i in
      if free_model c then Some i
      else List.find (\<lambda>k. let o' = r_channels rt ! k in rc_free_first o' \<and> free_model o' \<and> same_account o' c)
             [0..<length (r_channels rt)])"

text \<open>What the provider answers to the two look-ups: an error or nothing, an error or the requests left.\<close>

record gate_answer =
  ga_guard :: "route_error option"
  ga_quota :: "route_error + int"

definition no_free_quota :: "rat \<Rightarrow> route_error" where
  "no_free_quota wall = not_sent ''VLM-005'' (Some (until_midnight wall))"

definition config_invalid :: route_error where
  "config_invalid = \<lparr>re_http = True, re_code = ''CONFIG_INVALID'', re_retry_after = None, re_ambiguous = False,
     re_vision_started = False, re_request_started = False\<rparr>"

definition free_only_gate :: "rat \<Rightarrow> gate_answer \<Rightarrow> provider_desc \<Rightarrow> route_error option" where
  "free_only_gate wall g p =
     (if \<not> pd_has_guard p \<or> \<not> pd_has_quota p then Some (not_sent ''BACKFILL-FREE-GUARD'' None)
      else case ga_guard g of
        Some e \<Rightarrow> Some e
      | None \<Rightarrow> (case ga_quota g of Inl e \<Rightarrow> Some e | Inr n \<Rightarrow> if n = 0 then Some (no_free_quota wall) else None))"

definition daily_free_gate :: "rat \<Rightarrow> rat \<Rightarrow> gate_answer \<Rightarrow> nat \<Rightarrow> router \<Rightarrow> thread_local \<Rightarrow> route_error option \<times> thread_local" where
  "daily_free_gate now wall g i rt th =
     (let c = r_channels rt ! i in
      if pd_free_only (rc_provider c) then (free_only_gate wall g (rc_provider c), th)
      else if \<not> rc_free_first c then (None, th)
      else case free_channel rt i of
        None \<Rightarrow> (Some config_invalid, th)
      | Some k \<Rightarrow>
          if \<not> pd_has_quota (rc_provider (r_channels rt ! k)) then (Some config_invalid, th)
          else case ga_quota g of
            Inl e \<Rightarrow> (Some e, th)
          | Inr n \<Rightarrow>
              if free_model c \<and> n = 0 then (Some (no_free_quota wall), th)
              else if \<not> free_model c \<and> n > 0
              then (let th1 = th\<lparr>tl_gate_errors := (tl_gate_errors th)(k := None)\<rparr> in (Some (unavailable now wall th1 rt [k]), th1))
              else (None, th))"

section \<open>Channels\<close>

text \<open>A permit given back; \<open>None\<close> is the \<^verbatim>\<open>ValueError\<close> of a bounded semaphore that is full.\<close>

definition release_permit :: "route_channel \<Rightarrow> route_channel option" where
  "release_permit c = (if rc_permits c < permits_bound c then Some (c\<lparr>rc_permits := rc_permits c + 1\<rparr>) else None)"

definition give_back :: "nat \<Rightarrow> router \<Rightarrow> bool \<times> router" where
  "give_back i rt =
     (case release_permit (r_channels rt ! i) of None \<Rightarrow> (False, rt) | Some c \<Rightarrow> (True, at_channel i (\<lambda>_. c) rt))"

definition reserve_request_slot :: "rat \<Rightarrow> rat \<Rightarrow> string \<Rightarrow> nat \<Rightarrow> thread_local \<Rightarrow> router \<Rightarrow> bool \<times> thread_local \<times> router" where
  "reserve_request_slot now wall fresh i th rt =
     (case rc_quota_scope (r_channels rt ! i) of
        Some s \<Rightarrow>
          (let (got, q) = acquire s (rc_limits (r_channels rt ! i)) wall fresh (r_quota rt) in
           (got \<noteq> None, if got = None then th else th\<lparr>tl_reservations := (tl_reservations th)(i := got)\<rparr>, rt\<lparr>r_quota := q\<rparr>))
      | None \<Rightarrow>
          (let rt1 = at_channel i (prune_quota_events now) rt in
           if \<not> can_use_channel now wall (r_quota rt1) (r_channels rt1 ! i) then (False, th, rt1)
           else (True, th\<lparr>tl_slots := (tl_slots th)(i := Some now)\<rparr>,
                 at_channel i (\<lambda>c. c\<lparr>request_times := request_times c @ [now]\<rparr>) rt1)))"

text \<open>\<^verbatim>\<open>acquire_channel\<close> up to the gate: the permit, then the place in the rate limits.\<close>

definition acquire_begin :: "rat \<Rightarrow> rat \<Rightarrow> string \<Rightarrow> nat \<Rightarrow> thread_local \<Rightarrow> router \<Rightarrow> bool \<times> thread_local \<times> router" where
  "acquire_begin now wall fresh i th rt =
     (let th1 = th\<lparr>tl_gate_errors := (tl_gate_errors th)(i := None)\<rparr> in
      if rc_permits (r_channels rt ! i) = 0 then (False, th1, rt)
      else
        let rt1 = at_channel i (\<lambda>c. c\<lparr>rc_permits := rc_permits c - 1\<rparr>) rt;
            (got, th2, rt2) = reserve_request_slot now wall fresh i th1 rt1
        in if got then (True, th2\<lparr>tl_channel := Some i\<rparr>, rt2) else (False, th2, snd (give_back i rt2)))"

text \<open>\<^verbatim>\<open>_cancel_local_reservation\<close>; \<open>False\<close> is the \<^verbatim>\<open>ValueError\<close> of \<^verbatim>\<open>deque.remove\<close> for a slot that is gone.\<close>

definition cancel_local_reservation :: "nat \<Rightarrow> thread_local \<Rightarrow> router \<Rightarrow> bool \<times> thread_local \<times> router" where
  "cancel_local_reservation i th rt =
     (case rc_quota_scope (r_channels rt ! i) of
        Some s \<Rightarrow>
          (let rt1 = (case tl_reservations th i of None \<Rightarrow> rt | Some x \<Rightarrow> rt\<lparr>r_quota := cancel_reservation s x (r_quota rt)\<rparr>);
               (ok, rt2) = give_back i rt1
           in (ok, th\<lparr>tl_reservations := (tl_reservations th)(i := None)\<rparr>, rt2))
      | None \<Rightarrow>
          (let th1 = th\<lparr>tl_slots := (tl_slots th)(i := None)\<rparr> in
           case tl_slots th i of
             None \<Rightarrow> (let (ok, rt1) = give_back i rt in (ok, th1, rt1))
           | Some t \<Rightarrow>
               if t \<notin> set (request_times (r_channels rt ! i)) then (False, th1, rt)
               else (let (ok, rt1) = give_back i (at_channel i (\<lambda>c. c\<lparr>request_times := remove1 t (request_times c)\<rparr>) rt)
                     in (ok, th1, rt1))))"

definition value_error :: route_error where
  "value_error = \<lparr>re_http = False, re_code = [], re_retry_after = None, re_ambiguous = False, re_vision_started = False,
     re_request_started = False\<rparr>"

text \<open>\<^verbatim>\<open>acquire_channel\<close> from the gate on.\<close>

definition acquire_end :: "rat \<Rightarrow> rat \<Rightarrow> gate_answer \<Rightarrow> nat \<Rightarrow> thread_local \<Rightarrow> router \<Rightarrow> (route_error + bool) \<times> thread_local \<times> router" where
  "acquire_end now wall g i th rt =
     (case daily_free_gate now wall g i rt th of
        (None, th1) \<Rightarrow> (Inr True, th1, rt)
      | (Some e, th1) \<Rightarrow>
          (let (ok, th2, rt2) = cancel_local_reservation i th1 rt in
           if \<not> ok then (Inl value_error, th2, rt2)
           else if re_http e \<and> re_code e = ''VLM-005'' then (Inr False, th2\<lparr>tl_gate_errors := (tl_gate_errors th2)(i := Some e)\<rparr>, rt2)
           else (Inl e, th2, rt2)))"

text \<open>The failure and the use of a request on its channel; \<open>err\<close> is the error's \<^verbatim>\<open>retry_after\<close>.\<close>

definition channel_outcome :: "rat \<Rightarrow> int \<Rightarrow> usage_report option \<Rightarrow> rat option option \<Rightarrow> route_channel \<Rightarrow> route_channel" where
  "channel_outcome now threshold usage err c =
     (case err of
        Some hint \<Rightarrow>
          (let n = rc_failures c + 1; wait = (case hint of None \<Rightarrow> 0 | Some w \<Rightarrow> w) in
           if n \<ge> threshold \<or> wait \<noteq> 0
           then c\<lparr>rc_failures := n, rc_circuit_until := now + max wait (cooldown_seconds (rc_limits c))\<rparr>
           else c\<lparr>rc_failures := n\<rparr>)
      | None \<Rightarrow>
          (case usage of
             None \<Rightarrow> c\<lparr>rc_failures := 0\<rparr>
           | Some u \<Rightarrow>
               (let used = input_tokens u + output_tokens u in
                c\<lparr>rc_failures := 0, token_events := (if used \<noteq> 0 then token_events c @ [(now, used)] else token_events c)\<rparr>)))"

definition release_channel :: "rat \<Rightarrow> rat \<Rightarrow> nat \<Rightarrow> usage_report option \<Rightarrow> rat option option \<Rightarrow> thread_local \<Rightarrow> router \<Rightarrow> bool \<times> thread_local \<times> router" where
  "release_channel now wall i usage err th rt =
     (let rt1 = at_channel i (channel_outcome now (r_threshold rt) usage err) rt;
          (th1, rt2) = (case rc_quota_scope (r_channels rt ! i) of
             None \<Rightarrow> (th, rt1)
           | Some s \<Rightarrow>
               (th\<lparr>tl_reservations := (tl_reservations th)(i := None)\<rparr>,
                case tl_reservations th i of
                  None \<Rightarrow> rt1
                | Some x \<Rightarrow> rt1\<lparr>r_quota := release s (rc_limits (r_channels rt ! i)) wall x usage err (r_threshold rt) (r_quota rt1)\<rparr>));
          (ok, rt3) = give_back i rt2
      in (ok, th1\<lparr>tl_slots := (tl_slots th1)(i := None)\<rparr>, rt3))"

definition candidate_channels :: "rat \<Rightarrow> string set \<Rightarrow> router \<Rightarrow> nat list \<times> router" where
  "candidate_channels now excluded rt =
     (let rt1 = rt\<lparr>r_channels := map (prune_quota_events now) (r_channels rt)\<rparr> in
      (filter (\<lambda>i. channel_identity (r_channels rt1 ! i) \<notin> excluded \<and> within_rates now (r_channels rt1 ! i))
         [0..<length (r_channels rt1)], rt1))"

definition route_channels :: "string set \<Rightarrow> router \<Rightarrow> nat list" where
  "route_channels excluded rt =
     filter (\<lambda>i. channel_identity (r_channels rt ! i) \<notin> excluded) [0..<length (r_channels rt)]"

section \<open>Requests\<close>

text \<open>What a thread meets while it tries one channel: the clocks, a fresh identifier, the answers of the
  provider, and what the other threads do to the router during the look-ups and during the request.\<close>

record encounter =
  en_now :: rat
  en_wall :: rat
  en_fresh :: string
  en_gate :: gate_answer
  en_answer :: "route_error + usage_report"
  en_end_now :: rat
  en_end_wall :: rat
  en_during_gate :: "router \<Rightarrow> router"
  en_during_call :: "router \<Rightarrow> router"

definition acquire_channel :: "encounter \<Rightarrow> nat \<Rightarrow> thread_local \<Rightarrow> router \<Rightarrow> (route_error + bool) \<times> thread_local \<times> router" where
  "acquire_channel w i th rt =
     (let (got, th1, rt1) = acquire_begin (en_now w) (en_wall w) (en_fresh w) i th rt in
      if \<not> got then (Inr False, th1, rt1)
      else acquire_end (en_now w) (en_wall w) (en_gate w) i th1 (en_during_gate w rt1))"

definition may_have_started :: "route_error \<Rightarrow> bool" where
  "may_have_started e = (re_vision_started e \<or> re_request_started e \<or> re_ambiguous e)"

text \<open>One request on an acquired channel and the release of the channel, which may raise.\<close>

definition call_channel :: "encounter \<Rightarrow> nat \<Rightarrow> thread_local \<Rightarrow> router \<Rightarrow> bool \<times> thread_local \<times> router" where
  "call_channel w i th rt =
     (let th1 = th\<lparr>tl_channel := Some i\<rparr>; rt1 = en_during_call w rt in
      case en_answer w of
        Inl e \<Rightarrow> release_channel (en_end_now w) (en_end_wall w) i None (Some (re_retry_after e)) th1 rt1
      | Inr u \<Rightarrow> release_channel (en_end_now w) (en_end_wall w) i (Some u) None th1 rt1)"

text \<open>The loop of \<^verbatim>\<open>_execute\<close> and of \<^verbatim>\<open>analyze_isolated\<close>, with the channels that got a request. Both clocks at
  the end of the loop are arguments.\<close>

fun execute_from :: "(nat \<Rightarrow> encounter) \<Rightarrow> rat \<Rightarrow> rat \<Rightarrow> nat list \<Rightarrow> route_error option \<Rightarrow> thread_local \<Rightarrow> router \<Rightarrow>
    (route_error + usage_report) \<times> nat list \<times> thread_local \<times> router" where
  "execute_from w now wall [] last_error th rt =
     (case last_error of
        Some e \<Rightarrow> (Inl e, [], th, rt)
      | None \<Rightarrow> (Inl (unavailable now wall th rt [0..<length (r_channels rt)]), [], th, rt))"
| "execute_from w now wall (i # is) last_error th rt =
     (case acquire_channel (w i) i th rt of
        (Inl e, th1, rt1) \<Rightarrow> (Inl e, [], th1, rt1)
      | (Inr False, th1, rt1) \<Rightarrow> execute_from w now wall is last_error th1 rt1
      | (Inr True, th1, rt1) \<Rightarrow>
          (case call_channel (w i) i th1 rt1 of
             (False, th2, rt2) \<Rightarrow> (Inl value_error, [i], th2, rt2)
           | (True, th2, rt2) \<Rightarrow>
               (case en_answer (w i) of
                  Inr u \<Rightarrow> (Inr u, [i], th2, rt2)
                | Inl e \<Rightarrow>
                    if may_have_started e then (Inl e, [i], th2, rt2)
                    else (let (r, calls, s) = execute_from w now wall is (Some e) th2 rt2 in (r, i # calls, s)))))"

definition execute :: "(nat \<Rightarrow> encounter) \<Rightarrow> rat \<Rightarrow> rat \<Rightarrow> thread_local \<Rightarrow> router \<Rightarrow> (route_error + usage_report) \<times> nat list \<times> thread_local \<times> router" where
  "execute w now wall th rt = execute_from w now wall [0..<length (r_channels rt)] None th rt"

text \<open>The same loop with the request sent through a child process, whose answer is that of the encounter.\<close>

definition analyze_isolated :: "(nat \<Rightarrow> encounter) \<Rightarrow> rat \<Rightarrow> rat \<Rightarrow> thread_local \<Rightarrow> router \<Rightarrow> (route_error + usage_report) \<times> nat list \<times> thread_local \<times> router" where
  "analyze_isolated w now wall th rt = execute_from w now wall [0..<length (r_channels rt)] None th rt"

definition execute_sticky :: "encounter \<Rightarrow> rat \<Rightarrow> rat \<Rightarrow> nat \<Rightarrow> thread_local \<Rightarrow> router \<Rightarrow> (route_error + usage_report) \<times> thread_local \<times> router" where
  "execute_sticky w now wall i th rt =
     (case acquire_channel w i th rt of
        (Inl e, s) \<Rightarrow> (Inl e, s)
      | (Inr False, th1, rt1) \<Rightarrow> (Inl (unavailable now wall th1 rt1 [i]), th1, rt1)
      | (Inr True, th1, rt1) \<Rightarrow>
          (let (ok, s) = call_channel w i th1 rt1 in (if ok then en_answer w else Inl value_error, s)))"

text \<open>\<^verbatim>\<open>repair_json\<close>: the channel that served the thread's last request repairs its answer.\<close>

definition repair_json :: "(nat \<Rightarrow> encounter) \<Rightarrow> rat \<Rightarrow> rat \<Rightarrow> thread_local \<Rightarrow> router \<Rightarrow> (route_error + usage_report) \<times> thread_local \<times> router" where
  "repair_json w now wall th rt =
     (case tl_channel th of
        None \<Rightarrow> (let (r, calls, s) = execute w now wall th rt in (r, s))
      | Some i \<Rightarrow> execute_sticky (w i) now wall i th rt)"

fun select_from :: "(nat \<Rightarrow> encounter) \<Rightarrow> rat \<Rightarrow> rat \<Rightarrow> string set \<Rightarrow> nat list \<Rightarrow> thread_local \<Rightarrow> router \<Rightarrow>
    (route_error + nat) \<times> thread_local \<times> router" where
  "select_from w now wall excluded [] th rt = (Inl (unavailable now wall th rt [0..<length (r_channels rt)]), th, rt)"
| "select_from w now wall excluded (i # is) th rt =
     (if channel_identity (r_channels rt ! i) \<in> excluded then select_from w now wall excluded is th rt
      else case acquire_channel (w i) i th rt of
        (Inl e, s) \<Rightarrow> (Inl e, s)
      | (Inr True, s) \<Rightarrow> (Inr i, s)
      | (Inr False, th1, rt1) \<Rightarrow> select_from w now wall excluded is th1 rt1)"

definition select_channel :: "(nat \<Rightarrow> encounter) \<Rightarrow> rat \<Rightarrow> rat \<Rightarrow> string set \<Rightarrow> thread_local \<Rightarrow> router \<Rightarrow> (route_error + nat) \<times> thread_local \<times> router" where
  "select_channel w now wall excluded th rt = select_from w now wall excluded [0..<length (r_channels rt)] th rt"

end
