(* ===== verification/Router_Runs.thy ===== *)
theory Router_Runs
  imports Provider_Router "HOL-Library.Sublist"
begin

text \<open>
  What the router promises: the order and the end of a failover, and, for all threads of a worker together,
  that permits and rate limits hold, with the one exception that a refused look-up can lose a permit.
\<close>

section \<open>The configuration never changes\<close>

definition static :: "route_channel \<Rightarrow> provider_desc \<times> channel \<times> int \<times> string option \<times> string option \<times> bool" where
  "static c = (rc_provider c, rc_limits c, rc_priority c, rc_model c, rc_quota_scope c, rc_free_first c)"

definition config :: "router \<Rightarrow> _" where
  "config rt = (map static (r_channels rt), r_threshold rt)"

lemma static_update [simp]:
  "static (c\<lparr>rc_permits := n\<rparr>) = static c" "static (c\<lparr>request_times := ts\<rparr>) = static c" "static (c\<lparr>token_events := es\<rparr>) = static c"
  "static (c\<lparr>rc_failures := k\<rparr>) = static c" "static (c\<lparr>rc_circuit_until := t\<rparr>) = static c"
  by (simp_all add: static_def)

lemma static_outcome [simp]: "static (channel_outcome now k u e c) = static c"
  by (simp add: channel_outcome_def Let_def split: option.split)

lemma static_prune [simp]: "static (prune_quota_events now c) = static c"
  by (simp add: prune_quota_events_def)

lemma config_at: "static (f (r_channels rt ! i)) = static (r_channels rt ! i) \<Longrightarrow> config (at_channel i f rt) = config rt"
  by (cases "i < length (r_channels rt)") (simp_all add: config_def at_channel_def map_update list_update_same_conv list_update_beyond)

lemma config_quota [simp]: "config (rt\<lparr>r_quota := q\<rparr>) = config rt"
  by (simp add: config_def)

lemma config_give_back [simp]: "config (snd (give_back i rt)) = config rt"
  by (auto simp: give_back_def release_permit_def config_at split: option.split)

lemma config_reserve: "reserve_request_slot now wall x i th rt = (got, th', rt') \<Longrightarrow> config rt' = config rt"
  by (auto simp: reserve_request_slot_def Let_def config_at split: option.splits if_splits prod.splits)

lemma config_begin: "acquire_begin now wall x i th rt = (got, th', rt') \<Longrightarrow> config rt' = config rt"
  by (auto simp: acquire_begin_def Let_def config_at dest!: config_reserve split: if_splits prod.splits)

lemma give_back_config: "give_back i rt = (ok, rt') \<Longrightarrow> config rt' = config rt"
  using config_give_back [of i rt] by simp

lemma config_cancel: "cancel_local_reservation i th rt = (ok, th', rt') \<Longrightarrow> config rt' = config rt"
  by (auto simp: cancel_local_reservation_def Let_def config_at dest!: give_back_config split: option.splits if_splits prod.splits)

lemma config_end: "acquire_end now wall g i th rt = (r, th', rt') \<Longrightarrow> config rt' = config rt"
  by (auto simp: acquire_end_def Let_def dest!: config_cancel split: option.splits if_splits prod.splits)

lemma config_release: "release_channel now wall i u e th rt = (ok, th', rt') \<Longrightarrow> config rt' = config rt"
  by (auto simp: release_channel_def Let_def config_at dest!: give_back_config split: option.splits if_splits prod.splits)

lemma static_nth: "config rt = config rt' \<Longrightarrow> i < length (r_channels rt) \<Longrightarrow> static (r_channels rt ! i) = static (r_channels rt' ! i)"
  by (simp add: config_def) (metis length_map nth_map)

lemma config_length: "config rt = config rt' \<Longrightarrow> length (r_channels rt) = length (r_channels rt')"
  by (simp add: config_def) (metis length_map)

section \<open>Failover\<close>

text \<open>What a channel with a free lane has been told before it may be used.\<close>

definition gate_passed :: "gate_answer \<Rightarrow> route_channel \<Rightarrow> bool" where
  "gate_passed g c =
     (if pd_free_only (rc_provider c) then ga_guard g = None \<and> (case ga_quota g of Inl e \<Rightarrow> False | Inr n \<Rightarrow> n \<noteq> 0)
      else rc_free_first c \<longrightarrow> (case ga_quota g of Inl e \<Rightarrow> False | Inr n \<Rightarrow> if free_model c then n \<noteq> 0 else n \<le> 0))"

definition clean_gate :: "gate_answer \<Rightarrow> bool" where
  "clean_gate g =
     ((case ga_guard g of None \<Rightarrow> True | Some e \<Rightarrow> \<not> may_have_started e) \<and>
      (case ga_quota g of Inr n \<Rightarrow> True | Inl e \<Rightarrow> \<not> may_have_started e))"

definition clean_thread :: "thread_local \<Rightarrow> bool" where
  "clean_thread th = (\<forall>i e. tl_gate_errors th i = Some e \<longrightarrow> \<not> may_have_started e)"

definition well_met :: "encounter \<Rightarrow> bool" where
  "well_met w = (clean_gate (en_gate w) \<and> (\<forall>rt. config (en_during_gate w rt) = config rt) \<and> (\<forall>rt. config (en_during_call w rt) = config rt))"

lemma gate_passed_static: "static c = static c' \<Longrightarrow> gate_passed g c = gate_passed g c'"
proof -
  assume s: "static c = static c'"
  then have "free_model c = free_model c'" by (simp add: static_def free_model_def)
  then show ?thesis using s by (auto simp: static_def gate_passed_def split: sum.split)
qed

lemma not_started [simp]: "\<not> may_have_started (not_sent code wait)" "\<not> may_have_started config_invalid"
  "\<not> may_have_started (no_free_quota wall)" "\<not> may_have_started value_error"
  by (simp_all add: may_have_started_def not_sent_def config_invalid_def no_free_quota_def value_error_def)

lemma clean_drop [simp]: "clean_thread th \<Longrightarrow> clean_thread (th\<lparr>tl_gate_errors := (tl_gate_errors th)(i := None)\<rparr>)"
  by (auto simp: clean_thread_def split: if_splits)

lemma clean_other [simp]:
  "clean_thread (th\<lparr>tl_slots := a\<rparr>) = clean_thread th" "clean_thread (th\<lparr>tl_reservations := b\<rparr>) = clean_thread th"
  "clean_thread (th\<lparr>tl_channel := c\<rparr>) = clean_thread th"
  by (simp_all add: clean_thread_def)

lemma unavailable_clean: "clean_thread th \<Longrightarrow> \<not> may_have_started (unavailable now wall th rt is)"
proof -
  assume c: "clean_thread th"
  let ?m = "least_wait (map (wait_for now wall th rt) is)"
  let ?p = "\<lambda>i. case tl_gate_errors th i of None \<Rightarrow> False | Some e \<Rightarrow> truthy_wait (re_retry_after e) = ?m"
  show ?thesis
  proof (cases "List.find ?p is")
    case (Some i)
    then have "?p i" by (auto simp: find_Some_iff)
    then obtain e where "tl_gate_errors th i = Some e" by (cases "tl_gate_errors th i") auto
    then show ?thesis using c Some by (simp add: unavailable_def Let_def clean_thread_def)
  qed (simp add: unavailable_def Let_def)
qed

lemma gate_cases:
  assumes "daily_free_gate now wall g i rt th = (r, th')"
  shows "r = None \<Longrightarrow> gate_passed g (r_channels rt ! i)"
    and "clean_gate g \<Longrightarrow> clean_thread th \<Longrightarrow> clean_thread th' \<and> (case r of None \<Rightarrow> True | Some e \<Rightarrow> \<not> may_have_started e)"
proof -
  let ?c = "r_channels rt ! i"
  show "gate_passed g ?c" if "r = None"
    using assms that unfolding daily_free_gate_def Let_def gate_passed_def free_only_gate_def
    by (auto split: if_splits option.splits sum.splits)
  show "clean_thread th' \<and> (case r of None \<Rightarrow> True | Some e \<Rightarrow> \<not> may_have_started e)" if "clean_gate g" "clean_thread th"
    using assms that unavailable_clean unfolding daily_free_gate_def Let_def clean_gate_def free_only_gate_def
    by (auto split: if_splits option.splits sum.splits)
qed

lemma reserve_clean: "reserve_request_slot now wall x i th rt = (got, th', rt') \<Longrightarrow> clean_thread th' = clean_thread th"
  by (auto simp: reserve_request_slot_def Let_def split: option.splits if_splits prod.splits)

lemma begin_clean: "acquire_begin now wall x i th rt = (got, th', rt') \<Longrightarrow> clean_thread th \<Longrightarrow> clean_thread th'"
  by (auto simp: acquire_begin_def Let_def dest!: reserve_clean split: if_splits prod.splits)

lemma cancel_clean: "cancel_local_reservation i th rt = (ok, th', rt') \<Longrightarrow> clean_thread th' = clean_thread th"
  by (auto simp: cancel_local_reservation_def Let_def split: option.splits if_splits prod.splits)

lemma release_clean: "release_channel now wall i u e th rt = (ok, th', rt') \<Longrightarrow> clean_thread th' = clean_thread th"
  by (auto simp: release_channel_def Let_def split: option.splits if_splits prod.splits)

lemma end_cases:
  assumes "acquire_end now wall g i th rt = (r, th', rt')"
  shows "r = Inr True \<Longrightarrow> gate_passed g (r_channels rt ! i)"
    and "clean_gate g \<Longrightarrow> clean_thread th \<Longrightarrow> clean_thread th' \<and> (case r of Inr b \<Rightarrow> True | Inl e \<Rightarrow> \<not> may_have_started e)"
proof -
  obtain x th1 where g: "daily_free_gate now wall g i rt th = (x, th1)" by (cases "daily_free_gate now wall g i rt th") auto
  note gate_cases [OF g]
  obtain ok th2 rt2 where c: "cancel_local_reservation i th1 rt = (ok, th2, rt2)" by (cases "cancel_local_reservation i th1 rt") auto
  show "gate_passed g (r_channels rt ! i)" if "r = Inr True"
    using assms that gate_cases(1) [OF g] unfolding acquire_end_def g c by (auto simp: Let_def c split: option.splits if_splits)
  show "clean_thread th' \<and> (case r of Inr b \<Rightarrow> True | Inl e \<Rightarrow> \<not> may_have_started e)" if cl: "clean_gate g" "clean_thread th"
  proof -
    have e: "clean_thread th1" "x = Some y \<Longrightarrow> \<not> may_have_started y" for y using gate_cases(2) [OF g cl] by auto
    have u: "clean_thread (th2\<lparr>tl_gate_errors := (tl_gate_errors th2)(i := Some y)\<rparr>)" if "\<not> may_have_started y" for y
      using e(1) cancel_clean [OF c] that by (auto simp: clean_thread_def)
    show ?thesis using assms e u cancel_clean [OF c] unfolding acquire_end_def g
      by (auto simp: Let_def c split: option.splits if_splits)
  qed
qed

lemma acquire_channel_cases:
  assumes "acquire_channel w i th rt = (r, th', rt')" "well_met w" "clean_thread th"
  shows "config rt' = config rt" "clean_thread th'" "\<And>e. r = Inl e \<Longrightarrow> \<not> may_have_started e"
    "r = Inr True \<Longrightarrow> i < length (r_channels rt) \<Longrightarrow> gate_passed (en_gate w) (r_channels rt ! i)"
proof -
  obtain got th1 rt1 where b: "acquire_begin (en_now w) (en_wall w) (en_fresh w) i th rt = (got, th1, rt1)"
    by (cases "acquire_begin (en_now w) (en_wall w) (en_fresh w) i th rt") auto
  let ?rt = "en_during_gate w rt1"
  have cb: "config rt1 = config rt" "clean_thread th1" using config_begin [OF b] begin_clean [OF b assms(3)] by simp_all
  have g: "clean_gate (en_gate w)" "config ?rt = config rt" using assms(2) cb by (simp_all add: well_met_def)
  have "config rt' = config rt \<and> clean_thread th' \<and> (\<forall>e. r = Inl e \<longrightarrow> \<not> may_have_started e) \<and>
      (r = Inr True \<longrightarrow> i < length (r_channels rt) \<longrightarrow> gate_passed (en_gate w) (r_channels rt ! i))"
  proof (cases got)
    case True
    then have e: "acquire_end (en_now w) (en_wall w) (en_gate w) i th1 ?rt = (r, th', rt')"
      using assms(1) by (simp add: acquire_channel_def b)
    have "gate_passed (en_gate w) (r_channels rt ! i)" if "r = Inr True" "i < length (r_channels rt)"
    proof -
      have "static (r_channels ?rt ! i) = static (r_channels rt ! i)"
        using static_nth [OF g(2)] config_length [OF g(2)] that(2) by simp
      from gate_passed_static [OF this] show ?thesis using end_cases(1) [OF e that(1)] by simp
    qed
    moreover have "config rt' = config rt" using config_end [OF e] g(2) by simp
    moreover have "clean_thread th'" "\<forall>e. r = Inl e \<longrightarrow> \<not> may_have_started e" using end_cases(2) [OF e g(1) cb(2)] by (auto split: sum.splits)
    ultimately show ?thesis by blast
  next
    case False
    then show ?thesis using assms(1) cb by (auto simp: acquire_channel_def b)
  qed
  then show "config rt' = config rt" "clean_thread th'" "\<And>e. r = Inl e \<Longrightarrow> \<not> may_have_started e"
    "r = Inr True \<Longrightarrow> i < length (r_channels rt) \<Longrightarrow> gate_passed (en_gate w) (r_channels rt ! i)" by blast+
qed

lemma call_channel_cases:
  assumes "call_channel w i th rt = (ok, th', rt')" "well_met w"
  shows "config rt' = config rt" "clean_thread th' = clean_thread th"
proof -
  obtain u e where r: "release_channel (en_end_now w) (en_end_wall w) i u e (th\<lparr>tl_channel := Some i\<rparr>) (en_during_call w rt) = (ok, th', rt')"
    using assms(1) by (cases "en_answer w") (auto simp: call_channel_def Let_def)
  show "config rt' = config rt" using config_release [OF r] assms(2) by (simp add: well_met_def)
  show "clean_thread th' = clean_thread th" using release_clean [OF r] by simp
qed

text \<open>What a finished failover over the channels \<open>is\<close> has done.\<close>

definition routed :: "(nat \<Rightarrow> encounter) \<Rightarrow> route_channel list \<Rightarrow> nat list \<Rightarrow> (route_error + usage_report) \<Rightarrow> nat list \<Rightarrow> bool" where
  "routed w cs is r calls =
     (subseq calls is \<and> (\<forall>i \<in> set (butlast calls). \<exists>e. en_answer (w i) = Inl e \<and> \<not> may_have_started e) \<and>
      (\<forall>i \<in> set calls. gate_passed (en_gate (w i)) (cs ! i)) \<and>
      (case r of
         Inr u \<Rightarrow> calls \<noteq> [] \<and> en_answer (w (last calls)) = Inr u
       | Inl e \<Rightarrow> may_have_started e \<longrightarrow> calls \<noteq> [] \<and> en_answer (w (last calls)) = Inl e))"

lemma routed_Nil: "\<not> may_have_started e \<Longrightarrow> routed w cs is (Inl e) []"
  by (simp add: routed_def)

lemma routed_skip: "routed w cs is r calls \<Longrightarrow> routed w cs (i # is) r calls"
  by (auto simp: routed_def)

lemma routed_last:
  "gate_passed (en_gate (w i)) (cs ! i) \<Longrightarrow> r = en_answer (w i) \<or> r = Inl value_error \<Longrightarrow> routed w cs (i # is) r [i]"
  by (auto simp: routed_def split: sum.split)

lemma routed_Cons:
  assumes "routed w cs is r calls" "gate_passed (en_gate (w i)) (cs ! i)" "en_answer (w i) = Inl e" "\<not> may_have_started e"
    "calls = [] \<Longrightarrow> \<exists>e'. r = Inl e' \<and> \<not> may_have_started e'"
  shows "routed w cs (i # is) r (i # calls)"
  using assms by (cases "calls = []") (auto simp: routed_def split: sum.splits)

lemma routed_static:
  assumes "routed w cs is r calls" "map static cs = map static cs'" "\<forall>i \<in> set is. i < length cs"
  shows "routed w cs' is r calls"
proof -
  have l: "length cs = length cs'" using assms(2) by (rule map_eq_imp_length_eq)
  have eq: "gate_passed g (cs ! i) = gate_passed g (cs' ! i)" if "i < length cs" for g i
    using assms(2) that l by (intro gate_passed_static) (metis nth_map)
  have "set calls \<subseteq> set is" using assms(1) unfolding routed_def by (blast elim: list_emb_set)
  then have "\<forall>i \<in> set calls. gate_passed (en_gate (w i)) (cs' ! i)" using assms(1,3) eq unfolding routed_def by blast
  then show ?thesis using assms(1) unfolding routed_def by blast
qed

lemma execute_from_routed:
  assumes "execute_from w now wall is last_error th rt = (r, calls, s)" "\<forall>i. well_met (w i)" "clean_thread th"
    "\<forall>i \<in> set is. i < length (r_channels rt)" "\<forall>e. last_error = Some e \<longrightarrow> \<not> may_have_started e"
  shows "routed w (r_channels rt) is r calls"
  using assms(1,3,4,5)
proof (induction "is" arbitrary: last_error th rt r calls s)
  case Nil
  then show ?case using unavailable_clean [OF Nil(2)] by (auto intro!: routed_Nil split: option.splits)
next
  case (Cons i "is")
  obtain a th1 rt1 where a: "acquire_channel (w i) i th rt = (a, th1, rt1)" by (cases "acquire_channel (w i) i th rt") auto
  note ac = acquire_channel_cases [OF a assms(2) [rule_format] Cons.prems(2)]
  have len: "i < length (r_channels rt)" "\<forall>j \<in> set is. j < length (r_channels rt)" "length (r_channels rt1) = length (r_channels rt)"
    using Cons.prems(3) config_length [OF ac(1)] by simp_all
  show ?case
  proof (cases a)
    case (Inl e)
    then show ?thesis using Cons.prems(1) a ac(3) by (auto intro!: routed_Nil)
  next
    case (Inr b)
    show ?thesis
    proof (cases b)
      case False
      then have "execute_from w now wall is last_error th1 rt1 = (r, calls, s)" using Cons.prems(1) a Inr by simp
      from Cons.IH [OF this ac(2)] have "routed w (r_channels rt1) is r calls" using len Cons.prems(4) by simp
      from routed_static [OF this] have "routed w (r_channels rt) is r calls" using ac(1) len by (simp add: config_def)
      then show ?thesis by (rule routed_skip)
    next
      case True
      obtain ok th2 rt2 where c: "call_channel (w i) i th1 rt1 = (ok, th2, rt2)" by (cases "call_channel (w i) i th1 rt1") auto
      note cc = call_channel_cases [OF c assms(2) [rule_format]]
      have g: "gate_passed (en_gate (w i)) (r_channels rt ! i)" using ac(4) Inr True len by simp
      show ?thesis
      proof (cases "ok \<and> (\<exists>e. en_answer (w i) = Inl e \<and> \<not> may_have_started e)")
        case False
        then have "calls = [i] \<and> (r = en_answer (w i) \<or> r = Inl value_error)"
          using Cons.prems(1) a Inr True c by (auto split: sum.splits if_splits bool.splits)
        then show ?thesis using routed_last [of w i "r_channels rt" r "is"] g by auto
      next
        case go: True
        then obtain e where e: "en_answer (w i) = Inl e" "\<not> may_have_started e" by blast
        obtain r' cs s' where x: "execute_from w now wall is (Some e) th2 rt2 = (r', cs, s')"
          by (cases "execute_from w now wall is (Some e) th2 rt2") auto
        have rc: "r = r'" "calls = i # cs" using Cons.prems(1) a Inr True c go e x by simp_all
        have "length (r_channels rt2) = length (r_channels rt)" using config_length [OF cc(1)] len(3) by simp
        with Cons.IH [OF x] have "routed w (r_channels rt2) is r' cs" using cc(2) ac(2) len(2) e(2) by simp
        from routed_static [OF this] have n: "routed w (r_channels rt) is r' cs"
          using cc(1) ac(1) len \<open>length (r_channels rt2) = _\<close> by (simp add: config_def)
        have "\<exists>e'. r' = Inl e' \<and> \<not> may_have_started e'" if "cs = []" using n that by (auto simp: routed_def split: sum.splits)
        then show ?thesis unfolding rc by (rule routed_Cons [OF n g e])
      qed
    qed
  qed
qed

section \<open>All threads together\<close>

text \<open>A thread is idle, waits for the look-ups of a channel, or for a request on it. The list \<open>rr_lost\<close> is a
  history variable: the channels of permits that were taken and never given back.\<close>

datatype activity = Idle | Gating nat | Calling nat

record route_run =
  rr_router :: router
  rr_threads :: "(thread_local \<times> activity) list"
  rr_lost :: "nat list"

inductive route_step :: "route_run \<Rightarrow> route_run \<Rightarrow> bool" where
  begin_step: "k < length ts \<Longrightarrow> ts ! k = (th, Idle) \<Longrightarrow> i < length (r_channels rt) \<Longrightarrow>
    acquire_begin now wall x i th rt = (got, th', rt') \<Longrightarrow>
    route_step \<lparr>rr_router = rt, rr_threads = ts, rr_lost = lost\<rparr>
      \<lparr>rr_router = rt', rr_threads = ts[k := (th', if got then Gating i else Idle)], rr_lost = lost\<rparr>"
| gate_step: "k < length ts \<Longrightarrow> ts ! k = (th, Gating i) \<Longrightarrow> acquire_end now wall g i th rt = (r, th', rt') \<Longrightarrow>
    route_step \<lparr>rr_router = rt, rr_threads = ts, rr_lost = lost\<rparr>
      \<lparr>rr_router = rt', rr_threads = ts[k := (th', if r = Inr True then Calling i else Idle)],
       rr_lost = (if r \<noteq> Inr True \<and> rc_permits (r_channels rt' ! i) = rc_permits (r_channels rt ! i) then i # lost else lost)\<rparr>"
| release_step: "k < length ts \<Longrightarrow> ts ! k = (th, Calling i) \<Longrightarrow> release_channel now wall i u e th rt = (ok, th', rt') \<Longrightarrow>
    route_step \<lparr>rr_router = rt, rr_threads = ts, rr_lost = lost\<rparr>
      \<lparr>rr_router = rt', rr_threads = ts[k := (th', Idle)], rr_lost = lost\<rparr>"
| inspect_step: "i < length (r_channels rt) \<Longrightarrow> channel_available now wall i rt = (b, rt') \<Longrightarrow>
    route_step \<lparr>rr_router = rt, rr_threads = ts, rr_lost = lost\<rparr> \<lparr>rr_router = rt', rr_threads = ts, rr_lost = lost\<rparr>"
| candidates_step: "candidate_channels now excluded rt = (cs, rt') \<Longrightarrow>
    route_step \<lparr>rr_router = rt, rr_threads = ts, rr_lost = lost\<rparr> \<lparr>rr_router = rt', rr_threads = ts, rr_lost = lost\<rparr>"
| thread_step: "route_step \<lparr>rr_router = rt, rr_threads = ts, rr_lost = lost\<rparr> \<lparr>rr_router = rt, rr_threads = ts @ [(new_thread, Idle)], rr_lost = lost\<rparr>"

text \<open>A fresh router: every semaphore is full and nothing is counted.\<close>

definition route_init :: "route_run \<Rightarrow> bool" where
  "route_init s =
     (rr_threads s = [] \<and> rr_lost s = [] \<and>
      list_all (\<lambda>c. rc_permits c = permits_bound c \<and> request_times c = []) (r_channels (rr_router s)))"

definition on_channel :: "nat \<Rightarrow> thread_local \<times> activity \<Rightarrow> bool" where
  "on_channel i t = (snd t = Gating i \<or> snd t = Calling i)"

definition holders :: "nat \<Rightarrow> route_run \<Rightarrow> nat" where
  "holders i s = row_count (on_channel i) (rr_threads s)"

definition rate_ok :: "route_channel \<Rightarrow> bool" where
  "rate_ok c = (rc_quota_scope c = None \<and> requests_per_minute (rc_limits c) \<noteq> 0 \<longrightarrow>
     length (request_times c) \<le> requests_per_minute (rc_limits c))"

definition route_inv :: "route_run \<Rightarrow> bool" where
  "route_inv s =
     ((\<forall>i < length (r_channels (rr_router s)). rate_ok (r_channels (rr_router s) ! i) \<and>
         rc_permits (r_channels (rr_router s) ! i) + holders i s + count_list (rr_lost s) i = permits_bound (r_channels (rr_router s) ! i)) \<and>
      (\<forall>t \<in> set (rr_threads s). \<forall>i. on_channel i t \<longrightarrow> i < length (r_channels (rr_router s))))"

text \<open>The effect of an operation on the permits: the channel \<open>i\<close> gains \<open>d\<close>, the others nothing.\<close>

definition moved :: "nat \<Rightarrow> int \<Rightarrow> router \<Rightarrow> router \<Rightarrow> bool" where
  "moved i d rt rt' =
     (config rt' = config rt \<and>
      (\<forall>k < length (r_channels rt). (rate_ok (r_channels rt ! k) \<longrightarrow> rate_ok (r_channels rt' ! k)) \<and>
         int (rc_permits (r_channels rt' ! k)) = int (rc_permits (r_channels rt ! k)) + (if k = i then d else 0)))"

lemma moved_trans: "moved i d rt rt1 \<Longrightarrow> moved i d' rt1 rt2 \<Longrightarrow> moved i (d + d') rt rt2"
  using config_length [of rt1 rt] by (auto simp: moved_def)

lemma moved_refl [simp]: "moved i 0 rt rt" "moved i 0 rt (rt\<lparr>r_quota := q\<rparr>)"
  by (simp_all add: moved_def)

lemma moved_at:
  assumes "i < length (r_channels rt)" "static (f (r_channels rt ! i)) = static (r_channels rt ! i)"
    "int (rc_permits (f (r_channels rt ! i))) = int (rc_permits (r_channels rt ! i)) + d" "rate_ok (r_channels rt ! i) \<Longrightarrow> rate_ok (f (r_channels rt ! i))"
  shows "moved i d rt (at_channel i f rt)"
  using assms by (simp add: moved_def config_at) (auto simp: at_channel_def nth_list_update)

lemma static_bound: "static c = static c' \<Longrightarrow> permits_bound c = permits_bound c'"
  by (simp add: static_def permits_bound_def)

lemma moved_bound: "moved i d rt rt' \<Longrightarrow> k < length (r_channels rt) \<Longrightarrow> permits_bound (r_channels rt' ! k) = permits_bound (r_channels rt ! k)"
  using config_length [of rt' rt] static_nth [of rt' rt k] static_bound by (metis moved_def)

lemma moved_length: "moved i d rt rt' \<Longrightarrow> length (r_channels rt') = length (r_channels rt)"
  using config_length [of rt' rt] by (simp add: moved_def)

lemma give_back_moved:
  assumes "i < length (r_channels rt)" "rc_permits (r_channels rt ! i) < permits_bound (r_channels rt ! i)"
  shows "fst (give_back i rt)" "moved i 1 rt (snd (give_back i rt))"
  using assms moved_at [OF assms(1), of "\<lambda>_. (r_channels rt ! i)\<lparr>rc_permits := rc_permits (r_channels rt ! i) + 1\<rparr>" 1]
  by (auto simp: give_back_def release_permit_def rate_ok_def)

lemma prune_moved: "i < length (r_channels rt) \<Longrightarrow> moved i 0 rt (at_channel i (prune_quota_events now) rt)"
  by (rule moved_at) (auto simp: prune_quota_events_def rate_ok_def intro: order_trans [OF length_dropWhile_le])

lemma prune_all_moved: "moved i 0 rt (rt\<lparr>r_channels := map (prune_quota_events now) (r_channels rt)\<rparr>)"
  by (auto simp: moved_def config_def prune_quota_events_def rate_ok_def static_def intro: order_trans [OF length_dropWhile_le])

lemma reserve_moved:
  assumes "i < length (r_channels rt)" "reserve_request_slot now wall x i th rt = (got, th', rt')"
  shows "moved i 0 rt rt'"
proof (cases "rc_quota_scope (r_channels rt ! i)")
  case (Some q)
  then show ?thesis using assms(2) by (auto simp: reserve_request_slot_def Let_def split: prod.splits)
next
  case None
  let ?p = "at_channel i (prune_quota_events now) rt"
  have p: "moved i 0 rt ?p" by (rule prune_moved [OF assms(1)])
  have i: "i < length (r_channels ?p)" using assms(1) by (simp add: at_channel_def)
  have c: "r_channels ?p ! i = prune_quota_events now (r_channels rt ! i)" using assms(1) by (simp add: at_channel_def)
  then have scope: "rc_quota_scope (r_channels ?p ! i) = None" using None by (simp add: prune_quota_events_def)
  show ?thesis
  proof (cases "can_use_channel now wall (r_quota ?p) (r_channels ?p ! i)")
    case True
    then have lim: "requests_per_minute (rc_limits (r_channels ?p ! i)) = 0 \<or> length (request_times (r_channels ?p ! i)) < requests_per_minute (rc_limits (r_channels ?p ! i))"
      using scope by (simp add: can_use_channel_def within_rates_def)
    have "moved i 0 ?p (at_channel i (\<lambda>c. c\<lparr>request_times := request_times c @ [now]\<rparr>) ?p)"
      by (rule moved_at [OF i]) (use lim in \<open>auto simp: rate_ok_def\<close>)
    with p have "moved i (0 + 0) rt (at_channel i (\<lambda>c. c\<lparr>request_times := request_times c @ [now]\<rparr>) ?p)" by (rule moved_trans)
    then show ?thesis using assms(2) None True by (auto simp: reserve_request_slot_def Let_def)
  next
    case False
    then show ?thesis using assms(2) None p by (auto simp: reserve_request_slot_def Let_def)
  qed
qed

lemma begin_moved:
  assumes "i < length (r_channels rt)" "acquire_begin now wall x i th rt = (got, th', rt')"
    "rc_permits (r_channels rt ! i) \<le> permits_bound (r_channels rt ! i)"
  shows "moved i (if got then - 1 else 0) rt rt'"
proof (cases "rc_permits (r_channels rt ! i) = 0")
  case True
  then show ?thesis using assms(2) by (auto simp: acquire_begin_def Let_def)
next
  case False
  let ?rt = "at_channel i (\<lambda>c. c\<lparr>rc_permits := rc_permits c - 1\<rparr>) rt"
  let ?th = "th\<lparr>tl_gate_errors := (tl_gate_errors th)(i := None)\<rparr>"
  have t: "moved i (- 1) rt ?rt" using assms(1) False by (intro moved_at) (auto simp: rate_ok_def)
  obtain b th2 rt2 where r: "reserve_request_slot now wall x i ?th ?rt = (b, th2, rt2)" by (cases "reserve_request_slot now wall x i ?th ?rt") auto
  have i: "i < length (r_channels ?rt)" using assms(1) by (simp add: at_channel_def)
  have m: "moved i (- 1) rt rt2" using moved_trans [OF t reserve_moved [OF i r]] by simp
  show ?thesis
  proof (cases b)
    case True
    then show ?thesis using assms(2) False r m by (auto simp: acquire_begin_def Let_def)
  next
    case refused: False
    have j: "i < length (r_channels rt2)" using moved_length [OF m] assms(1) by simp
    have "int (rc_permits (r_channels rt2 ! i)) = int (rc_permits (r_channels rt ! i)) - 1" using m assms(1) by (simp add: moved_def)
    then have "rc_permits (r_channels rt2 ! i) < permits_bound (r_channels rt2 ! i)" using moved_bound [OF m assms(1)] assms(3) by simp
    from moved_trans [OF m give_back_moved(2) [OF j this]] show ?thesis
      using assms(2) False r refused by (auto simp: acquire_begin_def Let_def)
  qed
qed

lemma cancel_moved:
  assumes "i < length (r_channels rt)" "cancel_local_reservation i th rt = (ok, th', rt')"
    "rc_permits (r_channels rt ! i) < permits_bound (r_channels rt ! i)"
  shows "if ok then moved i 1 rt rt' else rt' = rt"
proof -
  have ret: "b \<and> moved i 1 rt y" if m: "moved i 0 rt rt1" and g: "give_back i rt1 = (b, y)" for rt1 b y
  proof -
    have j: "i < length (r_channels rt1)" using moved_length [OF m] assms(1) by simp
    have "int (rc_permits (r_channels rt1 ! i)) = int (rc_permits (r_channels rt ! i))" using m assms(1) by (simp add: moved_def)
    then have "rc_permits (r_channels rt1 ! i) < permits_bound (r_channels rt1 ! i)" using moved_bound [OF m assms(1)] assms(3) by simp
    from give_back_moved [OF j this] show ?thesis using moved_trans [OF m] g by fastforce
  qed
  have drop: "moved i 0 rt (at_channel i (\<lambda>c. c\<lparr>request_times := remove1 t (request_times c)\<rparr>) rt)" for t
    using assms(1) by (intro moved_at) (auto simp: rate_ok_def length_remove1)
  show ?thesis
  proof (cases "rc_quota_scope (r_channels rt ! i)")
    case (Some q)
    then show ?thesis using assms(2)
      by (cases "tl_reservations th i")
         (auto simp: cancel_local_reservation_def Let_def split: prod.splits dest: ret [OF moved_refl(1)] ret [OF moved_refl(2)])
  next
    case None
    show ?thesis
    proof (cases "tl_slots th i")
      case (Some t)
      then show ?thesis using assms(2) None ret [OF drop [of t]]
        by (cases "t \<in> set (request_times (r_channels rt ! i))") (auto simp: cancel_local_reservation_def Let_def split: prod.splits)
    next
      case no_slot: None
      then show ?thesis using assms(2) None ret [OF moved_refl(1)] by (auto simp: cancel_local_reservation_def Let_def split: prod.splits)
    qed
  qed
qed

lemma end_moved:
  assumes "i < length (r_channels rt)" "acquire_end now wall g i th rt = (r, th', rt')"
    "rc_permits (r_channels rt ! i) < permits_bound (r_channels rt ! i)"
  shows "if r = Inr True then rt' = rt else moved i 1 rt rt' \<or> rt' = rt"
proof -
  obtain x th1 where g: "daily_free_gate now wall g i rt th = (x, th1)" by (cases "daily_free_gate now wall g i rt th") auto
  obtain ok th2 rt2 where c: "cancel_local_reservation i th1 rt = (ok, th2, rt2)" by (cases "cancel_local_reservation i th1 rt") auto
  show ?thesis using assms(2) cancel_moved [OF assms(1) c assms(3)] unfolding acquire_end_def g
    by (cases x; cases ok) (auto simp: Let_def c split: if_splits)
qed

lemma release_moved:
  assumes "i < length (r_channels rt)" "release_channel now wall i u e th rt = (ok, th', rt')"
    "rc_permits (r_channels rt ! i) < permits_bound (r_channels rt ! i)"
  shows "ok" "moved i 1 rt rt'"
proof -
  let ?rt = "at_channel i (channel_outcome now (r_threshold rt) u e) rt"
  have "rc_permits (channel_outcome now k u e c) = rc_permits c" "request_times (channel_outcome now k u e c) = request_times c"
    "rc_quota_scope (channel_outcome now k u e c) = rc_quota_scope c" "rc_limits (channel_outcome now k u e c) = rc_limits c" for k c
    by (simp_all add: channel_outcome_def Let_def split: option.split)
  then have m: "moved i 0 rt ?rt" using assms(1) by (intro moved_at) (simp_all add: rate_ok_def)
  let ?q = "\<lambda>q x. ?rt\<lparr>r_quota := release q (rc_limits (r_channels rt ! i)) wall x u e (r_threshold rt) (r_quota ?rt)\<rparr>"
  let ?rt2 = "case rc_quota_scope (r_channels rt ! i) of None \<Rightarrow> ?rt | Some q \<Rightarrow> (case tl_reservations th i of None \<Rightarrow> ?rt | Some x \<Rightarrow> ?q q x)"
  obtain rt2 where rt2: "moved i 0 rt rt2" "give_back i rt2 = (ok, rt')"
  proof (rule that [of ?rt2])
    show "moved i 0 rt ?rt2" using m moved_trans [OF m moved_refl(2)] by (auto split: option.split)
    show "give_back i ?rt2 = (ok, rt')" using assms(2) by (auto simp: release_channel_def Let_def split: option.splits prod.splits)
  qed
  have j: "i < length (r_channels rt2)" using moved_length [OF rt2(1)] assms(1) by simp
  have "int (rc_permits (r_channels rt2 ! i)) = int (rc_permits (r_channels rt ! i))" using rt2(1) assms(1) by (simp add: moved_def)
  then have "rc_permits (r_channels rt2 ! i) < permits_bound (r_channels rt2 ! i)" using moved_bound [OF rt2(1) assms(1)] assms(3) by simp
  from give_back_moved [OF j this] show "ok" "moved i 1 rt rt'" using moved_trans [OF rt2(1)] rt2 by fastforce+
qed

text \<open>A step of one thread keeps the balance when the permits and the holders change together.\<close>

lemma holders_update:
  assumes "k < length ts"
  shows "row_count p (ts[k := t]) + (if p (ts ! k) then 1 else 0) = row_count p ts + (if p t then 1 else 0)"
  using assms
proof (induction ts arbitrary: k)
  case (Cons a ts)
  show ?case
  proof (cases k)
    case (Suc m)
    then show ?thesis using Cons.IH [of m] Cons.prems by simp
  qed simp
qed simp

lemma route_inv_moved:
  assumes "route_inv \<lparr>rr_router = rt, rr_threads = ts, rr_lost = lost\<rparr>" "moved i d rt rt'" "k < length ts" "i < length (r_channels rt)"
    "\<And>j. on_channel j t \<Longrightarrow> j < length (r_channels rt)"
    "\<And>j. (if on_channel j t then 1 else 0 :: int) + int (count_list lost' j) + (if j = i then d else 0) =
       (if on_channel j (ts ! k) then 1 else 0) + int (count_list lost j)"
  shows "route_inv \<lparr>rr_router = rt', rr_threads = ts[k := t], rr_lost = lost'\<rparr>"
proof -
  let ?s = "\<lparr>rr_router = rt, rr_threads = ts, rr_lost = lost\<rparr>" and ?t = "\<lparr>rr_router = rt', rr_threads = ts[k := t], rr_lost = lost'\<rparr>"
  have len: "length (r_channels rt') = length (r_channels rt)" by (rule moved_length [OF assms(2)])
  have "rate_ok (r_channels rt' ! j) \<and> rc_permits (r_channels rt' ! j) + holders j ?t + count_list lost' j = permits_bound (r_channels rt' ! j)"
    if j: "j < length (r_channels rt)" for j
  proof -
    have old: "rate_ok (r_channels rt ! j)" "rc_permits (r_channels rt ! j) + row_count (on_channel j) ts + count_list lost j = permits_bound (r_channels rt ! j)"
      using assms(1) j by (simp_all add: route_inv_def holders_def)
    have new: "rate_ok (r_channels rt' ! j)" "int (rc_permits (r_channels rt' ! j)) = int (rc_permits (r_channels rt ! j)) + (if j = i then d else 0)"
      using assms(2) j old(1) by (simp_all add: moved_def)
    have "int (row_count (on_channel j) (ts[k := t])) + (if on_channel j (ts ! k) then 1 else 0) = int (row_count (on_channel j) ts) + (if on_channel j t then 1 else 0)"
      using holders_update [OF assms(3), of "on_channel j" t] by (simp split: if_splits)
    then show ?thesis using new old assms(6) [of j] moved_bound [OF assms(2) j] by (simp add: holders_def)
  qed
  moreover have "\<forall>x \<in> set (ts[k := t]). \<forall>j. on_channel j x \<longrightarrow> j < length (r_channels rt)"
    using assms(1,5) set_update_subset_insert [of ts k t] by (auto simp: route_inv_def)
  ultimately show ?thesis by (simp add: route_inv_def len)
qed

lemma on_channel_simps [simp]:
  "\<not> on_channel i (th, Idle)" "on_channel i (th, Gating j) = (i = j)" "on_channel i (th, Calling j) = (i = j)"
  by (auto simp: on_channel_def)

lemma held_permit:
  assumes "route_inv \<lparr>rr_router = rt, rr_threads = ts, rr_lost = lost\<rparr>" "k < length ts" "on_channel i (ts ! k)"
  shows "i < length (r_channels rt)" "rc_permits (r_channels rt ! i) < permits_bound (r_channels rt ! i)"
proof -
  show i: "i < length (r_channels rt)" using assms nth_mem [OF assms(2)] by (auto simp: route_inv_def)
  have "0 < row_count (on_channel i) ts" using assms(2,3) nth_mem [OF assms(2)] by (auto simp: row_count_pos_iff)
  moreover have "rc_permits (r_channels rt ! i) + row_count (on_channel i) ts + count_list lost i = permits_bound (r_channels rt ! i)"
    using assms(1) i by (simp add: route_inv_def holders_def)
  ultimately show "rc_permits (r_channels rt ! i) < permits_bound (r_channels rt ! i)" by linarith
qed

lemma route_inv_router:
  assumes "route_inv \<lparr>rr_router = rt, rr_threads = ts, rr_lost = lost\<rparr>" "moved i 0 rt rt'"
  shows "route_inv \<lparr>rr_router = rt', rr_threads = ts, rr_lost = lost\<rparr>"
  using assms moved_length [OF assms(2)] moved_bound [OF assms(2)] by (simp add: route_inv_def holders_def moved_def)

lemma route_inv_step: "route_step s t \<Longrightarrow> route_inv s \<Longrightarrow> route_inv t"
proof (induction rule: route_step.induct)
  case (begin_step k ts th i rt now wall x got th' rt' lost)
  have "rc_permits (r_channels rt ! i) \<le> permits_bound (r_channels rt ! i)"
    using begin_step(3,5) by (auto simp: route_inv_def)
  from begin_moved [OF begin_step(3,4) this] show ?case
    using begin_step by (intro route_inv_moved [where i = i]) (auto split: if_splits)
next
  case (gate_step k ts th i now wall g rt r th' rt' lost)
  have h: "i < length (r_channels rt)" "rc_permits (r_channels rt ! i) < permits_bound (r_channels rt ! i)"
    using held_permit [OF gate_step(4,1)] gate_step(2) by simp_all
  consider "r = Inr True" "rt' = rt" | "r \<noteq> Inr True" "moved i 1 rt rt'" | "r \<noteq> Inr True" "rt' = rt"
    using end_moved [OF h(1) gate_step(3) h(2)] by (auto split: if_splits)
  then show ?case
  proof cases
    case 1
    then show ?thesis using gate_step h by (intro route_inv_moved [where i = i and d = 0]) auto
  next
    case 2
    then have "rc_permits (r_channels rt' ! i) \<noteq> rc_permits (r_channels rt ! i)" using h(1) by (auto simp: moved_def)
    then show ?thesis using 2 gate_step h by (intro route_inv_moved [where i = i and d = 1]) auto
  next
    case 3
    then show ?thesis using gate_step h by (intro route_inv_moved [where i = i and d = 0]) auto
  qed
next
  case (release_step k ts th i now wall u e rt ok th' rt' lost)
  have h: "i < length (r_channels rt)" "rc_permits (r_channels rt ! i) < permits_bound (r_channels rt ! i)"
    using held_permit [OF release_step(4,1)] release_step(2) by simp_all
  show ?case using release_moved(2) [OF h(1) release_step(3) h(2)] release_step h
    by (intro route_inv_moved [where i = i and d = 1]) auto
next
  case (inspect_step i rt now wall b rt' ts lost)
  then show ?case using prune_moved [OF inspect_step(1)] by (auto simp: channel_available_def Let_def intro: route_inv_router)
next
  case (candidates_step now excluded rt cs rt' ts lost)
  then show ?case using prune_all_moved [of 0 rt now] by (auto simp: candidate_channels_def Let_def intro: route_inv_router)
next
  case (thread_step rt ts lost)
  then show ?case by (auto simp: route_inv_def holders_def row_count_append)
qed

interpretation routing: invariant_system route_init route_step route_inv
proof
  show "route_init s \<Longrightarrow> route_inv s" for s by (auto simp: route_init_def route_inv_def holders_def list_all_length rate_ok_def)
  show "route_inv s \<Longrightarrow> route_step s t \<Longrightarrow> route_inv t" for s t by (rule route_inv_step)
qed

section \<open>What the router promises\<close>

definition demo_provider :: "string \<Rightarrow> bool \<Rightarrow> provider_desc" where
  "demo_provider name free = \<lparr>pd_name = name, pd_provider_id = None, pd_base_url = ''https://router'', pd_api_key = ''k'', pd_free_only = free,
     pd_has_guard = True, pd_has_quota = True\<rparr>"

definition demo_route :: "string \<Rightarrow> bool \<Rightarrow> int \<Rightarrow> route_channel" where
  "demo_route name free prio = \<lparr>rc_provider = demo_provider name free, rc_limits = demo_channel\<lparr>max_concurrency := 2\<rparr>, rc_priority = prio, rc_model = Some ''m'',
     rc_quota_scope = None, rc_free_first = False, rc_permits = 2, request_times = [], token_events = [], rc_failures = 0, rc_circuit_until = 0\<rparr>"

definition demo_router :: router where
  "demo_router = the (new_router [demo_route ''paid'' False 20, demo_route ''free'' True 10] 3 \<lparr>quota_events = [], quota_states = []\<rparr>)"

definition demo_encounter :: "nat \<Rightarrow> encounter" where
  "demo_encounter i = \<lparr>en_now = 10, en_wall = 10, en_fresh = ''r'', en_gate = \<lparr>ga_guard = None, ga_quota = Inr 5\<rparr>,
     en_answer = (if i = 0 then Inl (not_sent ''VLM-004'' None) else Inr \<lparr>tokens_reported = True, input_tokens = 7, output_tokens = 3\<rparr>),
     en_end_now = 12, en_end_wall = 12, en_during_gate = (\<lambda>rt. rt), en_during_call = (\<lambda>rt. rt)\<rparr>"

text \<open>C13. A failover pays at most once: whatever the other threads do meanwhile, the channels are asked in their
  order and each at most once, a channel is asked only after the look-ups its free lane needs allowed it, every
  request but the last failed before it can have reached a model, the answer returned is that of the last
  request, and an error that leaves open whether a request started is the one of the last request.\<close>

theorem failover_pays_once:
  assumes "execute w now wall th rt = (r, calls, s)" "\<forall>i. well_met (w i)" "clean_thread th"
  shows "subseq calls [0..<length (r_channels rt)] \<and> (\<forall>i \<in> set calls. gate_passed (en_gate (w i)) (r_channels rt ! i)) \<and>
    (\<forall>i \<in> set (butlast calls). \<exists>e. en_answer (w i) = Inl e \<and>
       \<not> re_vision_started e \<and> \<not> re_request_started e \<and> \<not> re_ambiguous e) \<and>
    (case r of
       Inr u \<Rightarrow> calls \<noteq> [] \<and> en_answer (w (last calls)) = Inr u
     | Inl e \<Rightarrow> re_vision_started e \<or> re_request_started e \<or> re_ambiguous e \<longrightarrow> calls \<noteq> [] \<and> en_answer (w (last calls)) = Inl e)"
  using execute_from_routed [OF assms(1) [unfolded execute_def] assms(2,3)] unfolding routed_def may_have_started_def by auto

theorem failover_pays_once_witness:
  "\<exists>s. execute demo_encounter 15 15 new_thread demo_router = (Inr \<lparr>tokens_reported = True, input_tokens = 7, output_tokens = 3\<rparr>, [0, 1], s) \<and>
     subseq [0, 1] [0..<length (r_channels demo_router)] \<and> gate_passed \<lparr>ga_guard = None, ga_quota = Inr 5\<rparr> (r_channels demo_router ! 0)"
proof -
  let ?x = "execute demo_encounter 15 15 new_thread demo_router"
  have "fst ?x = Inr \<lparr>tokens_reported = True, input_tokens = 7, output_tokens = 3\<rparr>" "fst (snd ?x) = [0, 1]" by code_simp+
  then have x: "?x = (Inr \<lparr>tokens_reported = True, input_tokens = 7, output_tokens = 3\<rparr>, [0, 1], snd (snd ?x))" by (metis prod.collapse)
  have "\<forall>i. well_met (demo_encounter i)" by (simp add: well_met_def demo_encounter_def clean_gate_def)
  moreover have "clean_thread new_thread" by (simp add: clean_thread_def new_thread_def)
  ultimately have c: "subseq [0, 1] [0..<length (r_channels demo_router)]" "\<forall>i \<in> set [0, 1]. gate_passed (en_gate (demo_encounter i)) (r_channels demo_router ! i)"
    using failover_pays_once [OF x] by blast+
  from c(2) have "gate_passed \<lparr>ga_guard = None, ga_quota = Inr 5\<rparr> (r_channels demo_router ! 0)" by (simp add: demo_encounter_def)
  then show ?thesis using x c(1) by blast
qed

lemma channel_use_inv:
  assumes "route_init s" "route_step\<^sup>*\<^sup>* s t" "i < length (r_channels (rr_router t))"
  shows "rate_ok (r_channels (rr_router t) ! i)"
    "rc_permits (r_channels (rr_router t) ! i) + holders i t + count_list (rr_lost t) i = permits_bound (r_channels (rr_router t) ! i)"
  using routing.reachable_inv [OF assms(1,2)] assms(3) by (simp_all add: route_inv_def)


definition begin_at :: "nat \<Rightarrow> nat \<Rightarrow> rat \<Rightarrow> route_run \<Rightarrow> route_run" where
  "begin_at k i now s =
     (let (got, th', rt') = acquire_begin now now ''r'' i (fst (rr_threads s ! k)) (rr_router s) in
      s\<lparr>rr_router := rt', rr_threads := (rr_threads s)[k := (th', if got then Gating i else Idle)]\<rparr>)"

definition gate_at :: "nat \<Rightarrow> nat \<Rightarrow> rat \<Rightarrow> int \<Rightarrow> route_run \<Rightarrow> route_run" where
  "gate_at k i now left s =
     (let (r, th', rt') = acquire_end now now \<lparr>ga_guard = None, ga_quota = Inr left\<rparr> i (fst (rr_threads s ! k)) (rr_router s) in
      \<lparr>rr_router = rt', rr_threads = (rr_threads s)[k := (th', if r = Inr True then Calling i else Idle)],
       rr_lost = (if r \<noteq> Inr True \<and> rc_permits (r_channels rt' ! i) = rc_permits (r_channels (rr_router s) ! i) then i # rr_lost s else rr_lost s)\<rparr>)"

definition release_at :: "nat \<Rightarrow> nat \<Rightarrow> rat \<Rightarrow> route_run \<Rightarrow> route_run" where
  "release_at k i now s =
     (let (ok, th', rt') = release_channel now now i None None (fst (rr_threads s ! k)) (rr_router s) in
      s\<lparr>rr_router := rt', rr_threads := (rr_threads s)[k := (th', Idle)]\<rparr>)"

lemma begin_at_step:
  "k < length (rr_threads s) \<Longrightarrow> snd (rr_threads s ! k) = Idle \<Longrightarrow> i < length (r_channels (rr_router s)) \<Longrightarrow> route_step s (begin_at k i now s)"
  using route_step.begin_step [of k "rr_threads s" "fst (rr_threads s ! k)" i "rr_router s" now now "''r''" _ _ _ "rr_lost s"]
  by (cases "rr_threads s ! k"; cases s) (auto simp: begin_at_def split: prod.splits)

lemma gate_at_step: "k < length (rr_threads s) \<Longrightarrow> snd (rr_threads s ! k) = Gating i \<Longrightarrow> route_step s (gate_at k i now left s)"
  using route_step.gate_step [of k "rr_threads s" "fst (rr_threads s ! k)" i now now "\<lparr>ga_guard = None, ga_quota = Inr left\<rparr>" "rr_router s" _ _ _ "rr_lost s"]
  by (cases "rr_threads s ! k"; cases s) (auto simp: gate_at_def Let_def split: prod.splits)

lemma release_at_step: "k < length (rr_threads s) \<Longrightarrow> snd (rr_threads s ! k) = Calling i \<Longrightarrow> route_step s (release_at k i now s)"
  using route_step.release_step [of k "rr_threads s" "fst (rr_threads s ! k)" i now now None None "rr_router s" _ _ _ "rr_lost s"]
  by (cases "rr_threads s ! k"; cases s) (auto simp: release_at_def split: prod.splits)

definition demo_fresh :: route_run where
  "demo_fresh = \<lparr>rr_router = demo_router, rr_threads = [], rr_lost = []\<rparr>"

definition demo_two :: route_run where
  "demo_two = demo_fresh\<lparr>rr_threads := [(new_thread, Idle), (new_thread, Idle)]\<rparr>"

definition demo_waiting :: route_run where
  "demo_waiting = begin_at 1 0 61 (begin_at 0 0 0 demo_two)"

definition demo_lost :: route_run where
  "demo_lost = release_at 1 0 66 (gate_at 1 0 65 5 (gate_at 0 0 64 0 demo_waiting))"

lemma demo_waiting_reached: "route_init demo_fresh" "route_step\<^sup>*\<^sup>* demo_fresh demo_waiting"
proof -
  show "route_init demo_fresh" by code_simp
  have "route_step demo_fresh (demo_fresh\<lparr>rr_threads := [(new_thread, Idle)]\<rparr>)" "route_step (demo_fresh\<lparr>rr_threads := [(new_thread, Idle)]\<rparr>) demo_two"
    using route_step.thread_step [of demo_router "[]" "[]"] route_step.thread_step [of demo_router "[(new_thread, Idle)]" "[]"]
    by (simp_all add: demo_fresh_def demo_two_def)
  moreover have "route_step demo_two (begin_at 0 0 0 demo_two)" by (rule begin_at_step) code_simp+
  moreover have "route_step (begin_at 0 0 0 demo_two) demo_waiting" unfolding demo_waiting_def by (rule begin_at_step) code_simp+
  ultimately show "route_step\<^sup>*\<^sup>* demo_fresh demo_waiting" by (meson rtranclp.rtrancl_into_rtrancl rtranclp.rtrancl_refl)
qed


lemma lost_kept: "route_step\<^sup>*\<^sup>* s t \<Longrightarrow> count_list (rr_lost s) i \<le> count_list (rr_lost t) i"
proof (induction rule: rtranclp_induct)
  case (step t u)
  from step(2) have "count_list (rr_lost t) i \<le> count_list (rr_lost u) i" by cases auto
  then show ?case using step(3) by simp
qed simp

lemma config_step: "route_step s t \<Longrightarrow> config (rr_router t) = config (rr_router s)"
proof (induction rule: route_step.induct)
  case (inspect_step i rt now wall b rt' ts lost)
  then show ?case by (auto simp: channel_available_def Let_def config_at)
next
  case (candidates_step now excluded rt cs rt' ts lost)
  then show ?case by (auto simp: candidate_channels_def Let_def config_def)
qed (simp_all add: config_begin config_end config_release)

lemma config_steps: "route_step\<^sup>*\<^sup>* s t \<Longrightarrow> config (rr_router t) = config (rr_router s)"
  by (induction rule: rtranclp_induct) (simp_all add: config_step)


end
