(* ===== verification/Spec2Isabelle.thy ===== *)
theory Spec2Isabelle
  imports Failure_Policy Job_Admission Job_Termination Ledger_Refinement Job_Selection Job_Service Job_Worker
    Stock_Protocol Offline_Schedule Provider_Quota Budget Submission_Runs Batch_Sharding Import_Receipts Router_Runs
begin

text \<open>
  InkTime, a photo library that analyses photos with vision models and shows them on e-paper frames:
  verification of its job queue, of its batch pipeline, of the gates in front of paid requests, and of the frame's schedule and
  wire format. Source paths are below \<^verbatim>\<open>src/inktime/app/\<close>.

  \<^bold>\<open>The program.\<close> A scheduler and the web API create jobs: an analysis of a selection of photos, or
  maintenance work. \<^verbatim>\<open>repositories/jobs.py\<close> keeps jobs and their items in SQLite, \<^verbatim>\<open>services/jobs.py\<close> is its
  front for the API, \<^verbatim>\<open>workers/job_worker.py\<close> claims items, runs them in threads and reports results, and
  \<^verbatim>\<open>domain/jobs/\<close> classifies failures. Before an item sends a paid request, \<^verbatim>\<open>services/budgets.py\<close> reserves
  money, \<^verbatim>\<open>repositories/billable_operations.py\<close> records the operation, and \<^verbatim>\<open>repositories/provider_quota.py\<close>
  reserves a place in the provider's rate limit. Analyses that may wait are sent as remote batches:
  \<^verbatim>\<open>services/batch_analysis.py\<close> writes their requests into JSONL shards, uploads and submits them, polls them
  and imports the results, and \<^verbatim>\<open>repositories/analysis_batches.py\<close> keeps their state and the lease of the one
  process that may act on a batch. \<^verbatim>\<open>domain/rendering/palette.py\<close> packs a rendered frame,
  \<^verbatim>\<open>domain/photopainter/stock_protocol.py\<close> sends it to a Stock frame, and
  \<^verbatim>\<open>domain/photopainter/offline_schedule.py\<close> decides when frames are prepared, fetched and shown.

  \<^bold>\<open>Theories.\<close>
  \<^item> \<^verbatim>\<open>Prelude\<close>: Python values, SQL tables as lists of rows, results that may be errors, and the locale
    \<^verbatim>\<open>invariant_system\<close> of transition systems with an invariant.
  \<^item> \<^verbatim>\<open>Failure_Policy\<close>: \<^verbatim>\<open>domain/jobs/failure_policy.py\<close>, \<^verbatim>\<open>settings.py\<close>.
  \<^item> \<^verbatim>\<open>Job_Store\<close>: the tables (\<^verbatim>\<open>db/migrations.py\<close>) as the record \<^verbatim>\<open>db\<close>, and the ownership predicate of
    \<^verbatim>\<open>repositories/analysis_reservations.py\<close>. \<^verbatim>\<open>Job_Repository\<close>: the methods of \<^verbatim>\<open>JobRepository\<close>, one
    definition each. \<^verbatim>\<open>Job_Invariant\<close>, \<^verbatim>\<open>Job_Preservation\<close>, \<^verbatim>\<open>Job_Lifecycle\<close>: the invariant \<^verbatim>\<open>wf_db\<close>, that every
    method keeps it, and the step relation \<^verbatim>\<open>repo_step\<close> of one transaction of any process.
    \<^verbatim>\<open>Job_Examples\<close>: concrete states. \<^verbatim>\<open>Job_Properties\<close>, \<^verbatim>\<open>Job_Guarantees\<close>, \<^verbatim>\<open>Job_Admission\<close>, \<^verbatim>\<open>Job_Termination\<close>: what
    the queue promises to workers and to clients.
  \<^item> \<^verbatim>\<open>Idempotency_Ledger\<close>: the request ledger of \<^verbatim>\<open>JobRepository\<close> and \<^verbatim>\<open>core/idempotency.py\<close>.
    \<^verbatim>\<open>Ledger_Refinement\<close>: its contract as an abstract book of requests, and that the table implements it.
  \<^item> \<^verbatim>\<open>Job_Selection\<close>: the paged walks and the selection preview, over the locale \<^verbatim>\<open>keyset_table\<close>.
  \<^item> \<^verbatim>\<open>Job_Service\<close>: \<^verbatim>\<open>services/jobs.py\<close> and the fingerprints of \<^verbatim>\<open>domain/analysis/plan.py\<close>.
  \<^item> \<^verbatim>\<open>Job_Worker\<close>: \<^verbatim>\<open>BoundedJobWorker\<close> with its loop, against an arbitrary environment.
  \<^item> \<^verbatim>\<open>Panel_Codec\<close>, \<^verbatim>\<open>Stock_Protocol\<close>: packed frames over the locale \<^verbatim>\<open>field_codec\<close>, which both pixel formats
    interpret, and the request body of a Stock frame.
  \<^item> \<^verbatim>\<open>Zone_Time\<close>, \<^verbatim>\<open>Offline_Schedule\<close>: time zones as lists of transitions, and the schedule rules.
  \<^item> \<^verbatim>\<open>Provider_Quota\<close>, \<^verbatim>\<open>Billable_Operations\<close>, \<^verbatim>\<open>Budget\<close>: the three gates in front of a paid request.
  \<^item> \<^verbatim>\<open>Batch_Store\<close>: the tables of batches with their constraints. \<^verbatim>\<open>Batch_Repository\<close>: the methods of
    \<^verbatim>\<open>AnalysisBatchRepository\<close>. \<^verbatim>\<open>Batch_Lifecycle\<close>, \<^verbatim>\<open>Batch_History\<close>: the invariant \<^verbatim>\<open>wf_batches\<close>, the step relation
    \<^verbatim>\<open>batch_step\<close>, and what a step never takes back. \<^verbatim>\<open>Batch_Guarantees\<close>, \<^verbatim>\<open>Batch_Outcomes\<close>: what the
    repository promises. \<^verbatim>\<open>Batch_Ledgers\<close>: staged results over the locale \<^verbatim>\<open>keyed_store\<close>, and the retry
    authorizations.
  \<^item> \<^verbatim>\<open>Batch_Sharding\<close>, \<^verbatim>\<open>Batch_Submission\<close>, \<^verbatim>\<open>Submission_Runs\<close>: of \<^verbatim>\<open>services/batch_analysis.py\<close> the JSONL shards
    and the submission of a batch as a process of single transactions and requests, and all interleavings
    of such processes. \<^verbatim>\<open>Batch_Cleanup\<close>: its final status and the deletion of its remote files.
    \<^verbatim>\<open>Batch_Results\<close>, \<^verbatim>\<open>Batch_Import\<close>, \<^verbatim>\<open>Import_Receipts\<close>: the result files line by line, what each line does to its
    item, and what is booked for it.
    \<^verbatim>\<open>Execution_Mode\<close>: \<^verbatim>\<open>domain/analysis/execution_mode.py\<close>.
  \<^item> \<^verbatim>\<open>Provider_Router\<close>, \<^verbatim>\<open>Router_Runs\<close>: \<^verbatim>\<open>FailoverVisionProvider\<close> of \<^verbatim>\<open>providers/router.py\<close>, one request, and the threads of a
    worker that share the channels. \<^verbatim>\<open>Response_Envelope\<close>: the token usage and the text of an answer.

  \<^bold>\<open>How state and effects are modelled.\<close> A method that runs in one SQLite transaction is a function from
  tables to tables; one that raises returns \<^verbatim>\<open>Inl\<close> with an error and changes nothing. Clock readings and
  fresh identifiers are arguments, one reading per call as in the code. Instants are microseconds, money and
  durations in seconds are exact rationals where the code has floats. Concurrency is interleaving of
  transactions: \<^verbatim>\<open>repo_step\<close>, \<^verbatim>\<open>ledger_step\<close>, \<^verbatim>\<open>run_step\<close>, \<^verbatim>\<open>quota_step\<close>, \<^verbatim>\<open>paid_step\<close>,
  \<^verbatim>\<open>batch_step\<close>, \<^verbatim>\<open>runs_step\<close> and \<^verbatim>\<open>route_step\<close> are step relations, and the
  properties of reachable states follow from interpretations of \<^verbatim>\<open>invariant_system\<close>. The worker loop is
  driven by a list of ticks, one per iteration, that says what the environment did (which futures ended and
  how, whether a stop was asked); a property of the loop holds for every list, so no bound is chosen. All
  other loops are structural recursions or folds over finite lists and need no fuel.

  \<^bold>\<open>What is shown.\<close>
  \<^item> Queue: well-formedness of every reachable state; a result is counted once; claims are exact and
    disjoint; a worker that lost its lease is fenced; recovery is complete; retries are bounded and end; finished and
    cancelled jobs stay so; creation is idempotent and reserves photos by content.
  \<^item> Ledger and service: the ledger refines an abstract book, the first completion of a request is final, reservations are exclusive, and every
    outcome of \<^verbatim>\<open>start\<close> and \<^verbatim>\<open>resume\<close>, the database's refusal included.
  \<^item> Worker: futures in flight are bounded and the tables stay well formed whatever the environment does; a
    provider outage before sending costs no attempt.
  \<^item> Paid requests: no reservation overcommits a budget; a started operation blocks every other request for
    the same content; a stored response is not paid for again; rate and concurrency limits hold in every
    run, and an open circuit blocks.
  \<^item> Batches: every reachable state satisfies the constraints of the schema and ties batches, items and jobs
    together; identity, remote batch and end of a batch are never taken back; claims fence side effects; the
    creating request is sent once however submissions interleave; poll answers are applied once and never
    backwards; finalisation, splitting and settlement do exactly what they say; shards carry every request
    once; results are staged, booked once and applied to their own items exactly as their lines say; a batch ends once and with the status its items determine, and cleanup reports success only
    when no remote file is left. Two theorems show where the handler of a failed submission goes wrong.
  \<^item> Failover: a request is paid for at most once, channels stay within their permits and rates for all
    threads together, and one theorem shows how a slow refusal loses a permit; the text taken from an answer
    is complete and its usage is bounded.
  \<^item> Frames: packing and unpacking are inverse; the color of every pixel arrives at its rotated place in the
    bitmap.
  \<^item> Schedule: slots resolve in every zone across clock changes and keep their distance; validation is
    exactly the pairwise distance around the clock; the next wake comes in time and exists; the two
    projections of the preparation plan agree.

  \<^bold>\<open>Not modelled.\<close> Rendering, palettes and dithering of images (\<^verbatim>\<open>services/rendering.py\<close>, most of
  \<^verbatim>\<open>domain/rendering/\<close>), which work on PIL images; HTTP clients of the providers; the web API and its
  templates; scanning of files; encryption, backups, logging and notifications; migrations as such; the
  firmware in C++. Candidate selection and the polling loop of the batch service, the photo, device and settings
  repositories, the analysis of single photos (which an import calls to save a result) and the persistence of offline queues are not modelled. The variant
  of the worker with child processes, the cost estimate of \<^verbatim>\<open>JobService\<close> and the conversion of frames of other
  sizes are left out of the modelled parts.
\<close>

end
